(* ===== verification/Prelude.thy ===== *)
theory Prelude
  imports Main "HOL-Library.Char_ord" "HOL-Library.List_Lexorder"
begin

text \<open>
  Shared vocabulary of the development: lemma collections, the shape in which Go's
  effectful functions are modelled (a state, an early error return, a result), a small
  calculus of preserved facts for such functions, and generic lemmas on lists.
\<close>

named_theorems run_simps \<open>unfolding rules that execute one effectful step\<close>
named_theorems sim_intros \<open>introduction rules of the simulation calculus\<close>
named_theorems keeps_intros \<open>introduction rules of the preservation calculus\<close>

subsection \<open>Effectful functions with early return\<close>

text \<open>
  A Go function that reads and writes a state \<open>'w\<close>, may leave early with an error \<open>'e\<close>
  and otherwise yields an \<open>'a\<close>. The state reached is returned in both cases: an early
  return keeps the effects done before it.
\<close>

type_synonym ('w, 'e, 'a) prog = "'w \<Rightarrow> ('e + 'a) \<times> 'w"

definition ret :: "'a \<Rightarrow> ('w, 'e, 'a) prog" where
  "ret a = (\<lambda>w. (Inr a, w))"

definition fail :: "'e \<Rightarrow> ('w, 'e, 'a) prog" where
  "fail e = (\<lambda>w. (Inl e, w))"

definition bindE :: "('w, 'e, 'a) prog \<Rightarrow> ('a \<Rightarrow> ('w, 'e, 'b) prog) \<Rightarrow> ('w, 'e, 'b) prog" where
  "bindE m f = (\<lambda>w. case m w of (Inl e, w') \<Rightarrow> (Inl e, w') | (Inr a, w') \<Rightarrow> f a w')"

definition thenE :: "('w, 'e, 'a) prog \<Rightarrow> ('w, 'e, 'b) prog \<Rightarrow> ('w, 'e, 'b) prog" where
  "thenE m n = bindE m (\<lambda>_. n)"

definition guardE :: "bool \<Rightarrow> 'e \<Rightarrow> ('w, 'e, unit) prog" where
  "guardE b e = (if b then ret () else fail e)"

definition getE :: "('w \<Rightarrow> 'a) \<Rightarrow> ('w, 'e, 'a) prog" where
  "getE f = (\<lambda>w. (Inr (f w), w))"

definition modifyE :: "('w \<Rightarrow> 'w) \<Rightarrow> ('w, 'e, unit) prog" where
  "modifyE f = (\<lambda>w. (Inr (), f w))"

text \<open>\<open>tryE m\<close> runs \<open>m\<close> and hands its outcome, error or value, to the caller.\<close>

definition tryE :: "('w, 'e, 'a) prog \<Rightarrow> ('w, 'f, 'e + 'a) prog" where
  "tryE m = (\<lambda>w. case m w of (r, w') \<Rightarrow> (Inr r, w'))"

text \<open>\<open>ignoreE m\<close> is a call whose error is only logged.\<close>

definition ignoreE :: "('w, 'e, 'a) prog \<Rightarrow> ('w, 'f, unit) prog" where
  "ignoreE m = (\<lambda>w. (Inr (), snd (m w)))"

text \<open>\<open>mapErr f m\<close> turns the error of \<open>m\<close> into the caller's error.\<close>

definition mapErr :: "('e \<Rightarrow> 'f) \<Rightarrow> ('w, 'e, 'a) prog \<Rightarrow> ('w, 'f, 'a) prog" where
  "mapErr f m = (\<lambda>w. case m w of (Inl e, w') \<Rightarrow> (Inl (f e), w') | (Inr a, w') \<Rightarrow> (Inr a, w'))"

primrec forE :: "'a list \<Rightarrow> ('a \<Rightarrow> ('w, 'e, 'b) prog) \<Rightarrow> ('w, 'e, 'b list) prog" where
  "forE [] f = ret []"
| "forE (x # xs) f = bindE (f x) (\<lambda>y. bindE (forE xs f) (\<lambda>ys. ret (y # ys)))"

lemma bindE_Inl [run_simps]: "m w = (Inl e, w') \<Longrightarrow> bindE m f w = (Inl e, w')"
  by (simp add: bindE_def)

lemma bindE_Inr [run_simps]: "m w = (Inr a, w') \<Longrightarrow> bindE m f w = f a w'"
  by (simp add: bindE_def)

lemma thenE_Inl [run_simps]: "m w = (Inl e, w') \<Longrightarrow> thenE m n w = (Inl e, w')"
  by (simp add: thenE_def bindE_def)

lemma thenE_Inr [run_simps]: "m w = (Inr a, w') \<Longrightarrow> thenE m n w = n w'"
  by (simp add: thenE_def bindE_def)

lemma bindE_InrD:
  "bindE m f w = (Inr b, w'') \<Longrightarrow> \<exists>a w'. m w = (Inr a, w') \<and> f a w' = (Inr b, w'')"
  by (auto simp: bindE_def split: prod.splits sum.splits)

lemma thenE_InrD:
  "thenE m n w = (Inr b, w'') \<Longrightarrow> \<exists>a w'. m w = (Inr a, w') \<and> n w' = (Inr b, w'')"
  unfolding thenE_def by (drule bindE_InrD) simp

lemma forE_ConsD:
  "forE (x # xs) f w = (Inr ys, w'') \<Longrightarrow>
     \<exists>y w' zs. f x w = (Inr y, w') \<and> forE xs f w' = (Inr zs, w'') \<and> ys = y # zs"
  by (auto simp: bindE_def ret_def split: prod.splits sum.splits)

lemma ret_run [simp]: "ret a w = (Inr a, w)"
  by (simp add: ret_def)

lemma fail_run [simp]: "fail e w = (Inl e, w)"
  by (simp add: fail_def)

lemma guardE_run [simp]: "guardE b e w = (if b then (Inr (), w) else (Inl e, w))"
  by (simp add: guardE_def)

lemma getE_run [simp]: "getE f w = (Inr (f w), w)"
  by (simp add: getE_def)

lemma modifyE_run [simp]: "modifyE f w = (Inr (), f w)"
  by (simp add: modifyE_def)

lemma ignoreE_run [simp]: "ignoreE m w = (Inr (), snd (m w))"
  by (simp add: ignoreE_def)

lemma tryE_run [simp]: "tryE m w = (Inr (fst (m w)), snd (m w))"
  by (simp add: tryE_def split: prod.splits)

lemma thenE_guardE [run_simps]: "thenE (guardE b e) n w = (if b then n w else (Inl e, w))"
  by (simp add: thenE_def bindE_def)

lemma bindE_getE [run_simps]: "bindE (getE f) g w = g (f w) w"
  by (simp add: bindE_def)

lemma bindE_tryE [run_simps]: "bindE (tryE m) f w = f (fst (m w)) (snd (m w))"
  by (simp add: bindE_def)

lemma thenE_modifyE [run_simps]: "thenE (modifyE f) n w = n (f w)"
  by (simp add: thenE_def bindE_def)

lemma thenE_ignoreE [run_simps]: "thenE (ignoreE m) n w = n (snd (m w))"
  by (simp add: thenE_def bindE_def)

text \<open>A loop whose calls' errors are only logged runs through.\<close>

lemma forE_ignoreE:
  "forE xs (\<lambda>x. ignoreE (f x)) w = (Inr (map (\<lambda>_. ()) xs), foldl (\<lambda>w x. snd (f x w)) w xs)"
  by (induction xs arbitrary: w) (simp_all add: bindE_def)

lemma bindE_tryE_InrD: "bindE (tryE m) f w = (Inr b, w'') \<Longrightarrow> f (fst (m w)) (snd (m w)) = (Inr b, w'')"
  by (simp add: bindE_tryE)

lemma mapErr_InrD: "mapErr g m w = (Inr a, w') \<Longrightarrow> m w = (Inr a, w')"
  by (auto simp: mapErr_def split: prod.splits sum.splits)

subsection \<open>Preserved facts\<close>

text \<open>
  \<open>keeps I m\<close>: whatever \<open>m\<close> does and however it ends, it leads from states of \<open>I\<close> to
  states of \<open>I\<close>. The rules below decompose a handler into its calls.
\<close>

definition keeps :: "('w \<Rightarrow> bool) \<Rightarrow> ('w, 'e, 'a) prog \<Rightarrow> bool" where
  "keeps I m \<longleftrightarrow> (\<forall>w. I w \<longrightarrow> I (snd (m w)))"

lemma keepsI: "(\<And>w. I w \<Longrightarrow> I (snd (m w))) \<Longrightarrow> keeps I m"
  by (simp add: keeps_def)

lemma keepsD: "keeps I m \<Longrightarrow> I w \<Longrightarrow> I (snd (m w))"
  by (simp add: keeps_def)

lemma keepsD': "keeps I m \<Longrightarrow> I w \<Longrightarrow> m w = (r, w') \<Longrightarrow> I w'"
  by (drule (1) keepsD) simp

lemma keeps_ret [keeps_intros]: "keeps I (ret a)"
  by (simp add: keeps_def)

lemma keeps_fail [keeps_intros]: "keeps I (fail e)"
  by (simp add: keeps_def)

lemma keeps_guardE [keeps_intros]: "keeps I (guardE b e)"
  by (simp add: keeps_def)

lemma keeps_getE [keeps_intros]: "keeps I (getE f)"
  by (simp add: keeps_def)

lemma keeps_bindE [keeps_intros]: "keeps I m \<Longrightarrow> (\<And>a. keeps I (f a)) \<Longrightarrow> keeps I (bindE m f)"
  by (fastforce simp: keeps_def bindE_def split: prod.splits sum.splits)

lemma keeps_thenE [keeps_intros]: "keeps I m \<Longrightarrow> keeps I n \<Longrightarrow> keeps I (thenE m n)"
  unfolding thenE_def by (rule keeps_bindE)

lemma keeps_modifyE [keeps_intros]: "(\<And>w. I w \<Longrightarrow> I (f w)) \<Longrightarrow> keeps I (modifyE f)"
  by (simp add: keeps_def)

lemma keeps_ignoreE [keeps_intros]: "keeps I m \<Longrightarrow> keeps I (ignoreE m)"
  by (simp add: keeps_def)

lemma keeps_tryE [keeps_intros]: "keeps I m \<Longrightarrow> keeps I (tryE m)"
  by (simp add: keeps_def)

lemma keeps_mapErr [keeps_intros]: "keeps I m \<Longrightarrow> keeps I (mapErr g m)"
  by (fastforce simp: keeps_def mapErr_def split: prod.splits sum.splits)

lemma keeps_if [keeps_intros]:
  "(b \<Longrightarrow> keeps I m) \<Longrightarrow> (\<not> b \<Longrightarrow> keeps I n) \<Longrightarrow> keeps I (if b then m else n)"
  by simp

lemma keeps_case_option [keeps_intros]:
  "keeps I n \<Longrightarrow> (\<And>x. keeps I (f x)) \<Longrightarrow> keeps I (case_option n f v)"
  by (cases v) simp_all

lemma keeps_case_sum [keeps_intros]:
  "(\<And>x. keeps I (f x)) \<Longrightarrow> (\<And>x. keeps I (g x)) \<Longrightarrow> keeps I (case_sum f g v)"
  by (cases v) simp_all

lemma keeps_case_prod [keeps_intros]:
  "(\<And>x y. keeps I (f x y)) \<Longrightarrow> keeps I (case_prod f v)"
  by (cases v) simp

lemma keeps_let [keeps_intros]: "(\<And>x. keeps I (f x)) \<Longrightarrow> keeps I (let x = v in f x)"
  by simp

lemma keeps_forE [keeps_intros]: "(\<And>x. keeps I (f x)) \<Longrightarrow> keeps I (forE xs f)"
  by (induction xs) (auto intro!: keeps_intros)

subsection \<open>Simulation\<close>

text \<open>
  \<open>sim v m n\<close>: the program \<open>n\<close> on the view \<open>v\<close> of a state does what \<open>m\<close> does on the state,
  with the same outcome.
\<close>

definition sim :: "('w \<Rightarrow> 'v) \<Rightarrow> ('w, 'e, 'a) prog \<Rightarrow> ('v, 'e, 'a) prog \<Rightarrow> bool" where
  "sim v m n \<longleftrightarrow> (\<forall>w. n (v w) = (fst (m w), v (snd (m w))))"

lemma simI: "(\<And>w. n (v w) = (fst (m w), v (snd (m w)))) \<Longrightarrow> sim v m n"
  by (simp add: sim_def)

lemma simD: "sim v m n \<Longrightarrow> n (v w) = (fst (m w), v (snd (m w)))"
  by (simp add: sim_def)

lemma sim_ret [sim_intros]: "sim v (ret a) (ret a)"
  and sim_fail [sim_intros]: "sim v (fail e) (fail e)"
  and sim_guardE [sim_intros]: "sim v (guardE b e) (guardE b e)"
  by (simp_all add: sim_def)

lemma sim_bindE [sim_intros]:
  assumes "sim v m n" "\<And>a. sim v (f a) (g a)"
  shows "sim v (bindE m f) (bindE n g)"
proof (rule simI)
  fix w
  show "bindE n g (v w) = (fst (bindE m f w), v (snd (bindE m f w)))"
    using simD[OF assms(1), of w] simD[OF assms(2)]
    by (cases "m w") (simp add: bindE_def split: sum.splits)
qed

lemma sim_thenE [sim_intros]: "sim v m n \<Longrightarrow> sim v m' n' \<Longrightarrow> sim v (thenE m m') (thenE n n')"
  unfolding thenE_def by (rule sim_bindE)

lemma sim_tryE [sim_intros]: "sim v m n \<Longrightarrow> sim v (tryE m) (tryE n)"
  and sim_ignoreE [sim_intros]: "sim v m n \<Longrightarrow> sim v (ignoreE m) (ignoreE n)"
  by (simp_all add: sim_def)

lemma sim_mapErr [sim_intros]: "sim v m n \<Longrightarrow> sim v (mapErr f m) (mapErr f n)"
  by (auto simp: sim_def mapErr_def split: prod.splits sum.splits)

lemma sim_if [sim_intros]: "sim v m n \<Longrightarrow> sim v m' n' \<Longrightarrow> sim v (if b then m else m') (if b then n else n')"
  by simp

lemma sim_case_sum [sim_intros]:
  "(\<And>x. sim v (f x) (f' x)) \<Longrightarrow> (\<And>x. sim v (g x) (g' x)) \<Longrightarrow> sim v (case_sum f g s) (case_sum f' g' s)"
  by (cases s) simp_all

lemma sim_let [sim_intros]: "(\<And>x. sim v (f x) (g x)) \<Longrightarrow> sim v (let x = c in f x) (let x = c in g x)"
  by simp

lemma sim_forE [sim_intros]: "(\<And>x. sim v (f x) (g x)) \<Longrightarrow> sim v (forE xs f) (forE xs g)"
  by (induction xs) (auto intro!: sim_intros)

subsection \<open>Scripted failures of the environment\<close>

text \<open>
  A call that leaves the process (SQLite, the file system) can fail at any time. The state
  carries a script of outcomes, one per call: \<open>True\<close> makes the call fail; the empty script
  lets every further call succeed. A statement about all scripts is a statement about all
  failure patterns.
\<close>

definition next_fault :: "bool list \<Rightarrow> bool" where
  "next_fault fs = (case fs of [] \<Rightarrow> False | b # _ \<Rightarrow> b)"

lemma next_fault_simps [simp]: "next_fault [] = False" "next_fault (b # fs) = b"
  by (simp_all add: next_fault_def)

subsection \<open>Generic list lemmas\<close>

lemma distinct_map_filter: "distinct (map f xs) \<Longrightarrow> distinct (map f (filter P xs))"
  by (induction xs) auto

lemma find_SomeD: "find P xs = Some x \<Longrightarrow> x \<in> set xs \<and> P x"
  by (auto simp: find_Some_iff)

lemma find_NoneD: "find P xs = None \<Longrightarrow> x \<in> set xs \<Longrightarrow> \<not> P x"
  by (auto simp: find_None_iff)

lemma foldl_append_singletons: "foldl (\<lambda>acc x. acc @ [f x]) acc xs = acc @ map f xs"
  by (induction xs arbitrary: acc) auto

end
