(* ===== verification/GoStrings.thy ===== *)
theory GoStrings
  imports Prelude
begin

text \<open>
  Go strings are byte sequences, which \<open>string\<close> (a list of 8-bit characters) models
  exactly. This theory defines the functions of Go's packages \<open>strings\<close>, \<open>strconv\<close> and
  \<open>bufio\<close> that the repository calls, with the laws the components use.
\<close>

abbreviation nl :: char where "nl \<equiv> CHR 0x0A"
abbreviation cr :: char where "cr \<equiv> CHR 0x0D"
abbreviation tab :: char where "tab \<equiv> CHR 0x09"
abbreviation sp :: char where "sp \<equiv> CHR 0x20"

subsection \<open>strings.HasPrefix, strings.HasSuffix, strings.TrimPrefix\<close>

fun has_prefix :: "string \<Rightarrow> string \<Rightarrow> bool" where
  "has_prefix [] s = True"
| "has_prefix (c # p) [] = False"
| "has_prefix (c # p) (d # s) = (c = d \<and> has_prefix p s)"

definition has_suffix :: "string \<Rightarrow> string \<Rightarrow> bool" where
  "has_suffix p s \<longleftrightarrow> has_prefix (rev p) (rev s)"

definition trim_prefix :: "string \<Rightarrow> string \<Rightarrow> string" where
  "trim_prefix p s = (if has_prefix p s then drop (length p) s else s)"

lemma has_prefix_take: "has_prefix p s \<longleftrightarrow> take (length p) s = p"
  by (induction p s rule: has_prefix.induct) auto

lemma has_prefix_append [simp]: "has_prefix p (p @ s)"
  by (induction p) auto

lemma has_prefix_iff: "has_prefix p s \<longleftrightarrow> (\<exists>t. s = p @ t)"
  by (metis append_take_drop_id has_prefix_append has_prefix_take)

lemma has_suffix_iff: "has_suffix p s \<longleftrightarrow> (\<exists>t. s = t @ p)"
proof
  assume "has_suffix p s"
  then obtain t where "rev s = rev p @ t" by (auto simp: has_suffix_def has_prefix_iff)
  then have "s = rev t @ p" by (metis rev_append rev_rev_ident)
  then show "\<exists>t. s = t @ p" ..
next
  assume "\<exists>t. s = t @ p"
  then show "has_suffix p s" by (auto simp: has_suffix_def)
qed

lemma has_prefix_trans_append: "has_prefix p s \<Longrightarrow> has_prefix p (s @ t)"
  by (auto simp: has_prefix_iff)

subsection \<open>strings.Split and strings.SplitN with a one-byte separator\<close>

fun split_on :: "char \<Rightarrow> string \<Rightarrow> string list" where
  "split_on c [] = [[]]"
| "split_on c (x # xs) =
     (if x = c then [] # split_on c xs
      else (case split_on c xs of [] \<Rightarrow> [[x]] | y # ys \<Rightarrow> (x # y) # ys))"

definition split_n2 :: "char \<Rightarrow> string \<Rightarrow> string list" where
  "split_n2 c s =
     (if c \<in> set s then [takeWhile (\<lambda>x. x \<noteq> c) s, tl (dropWhile (\<lambda>x. x \<noteq> c) s)] else [s])"

lemma split_on_not_Nil [simp]: "split_on c s \<noteq> []"
  by (induction s) (auto split: list.splits)

lemma split_on_sep_free: "c \<notin> set s \<Longrightarrow> split_on c s = [s]"
  by (induction s) auto

lemma split_on_append_sep: "split_on c (a @ c # b) = split_on c a @ split_on c b"
  by (induction a) (auto split: list.splits)

lemma split_on_parts_free: "x \<in> set (split_on c s) \<Longrightarrow> c \<notin> set x"
proof (induction s arbitrary: x)
  case Nil
  then show ?case by simp
next
  case (Cons d s)
  then show ?case
    by (cases "split_on c s") (auto split: if_splits)
qed

lemma split_n2_sep: "c \<notin> set a \<Longrightarrow> split_n2 c (a @ c # b) = [a, b]"
proof -
  assume c: "c \<notin> set a"
  then have "\<forall>x \<in> set a. x \<noteq> c" by auto
  then have "dropWhile (\<lambda>x. x \<noteq> c) (a @ c # b) = c # b"
    and "takeWhile (\<lambda>x. x \<noteq> c) (a @ c # b) = a" by (simp_all add: takeWhile_append2 dropWhile_append2)
  then show ?thesis by (simp add: split_n2_def)
qed

subsection \<open>Lines\<close>

definition unlines :: "string list \<Rightarrow> string" where
  "unlines ls = concat (map (\<lambda>l. l @ [nl]) ls)"

lemma unlines_Nil [simp]: "unlines [] = []"
  by (simp add: unlines_def)

lemma unlines_Cons [simp]: "unlines (l # ls) = l @ nl # unlines ls"
  by (simp add: unlines_def)

lemma unlines_append [simp]: "unlines (xs @ ys) = unlines xs @ unlines ys"
  by (simp add: unlines_def)

lemma split_on_unlines_append:
  assumes "\<forall>l \<in> set ls. nl \<notin> set l"
  shows "split_on nl (unlines ls @ s) = ls @ split_on nl s"
  using assms
proof (induction ls)
  case Nil
  then show ?case by simp
next
  case (Cons l ls)
  then show ?case by (simp add: split_on_append_sep split_on_sep_free)
qed

lemma split_on_unlines:
  "\<forall>l \<in> set ls. nl \<notin> set l \<Longrightarrow> split_on nl (unlines ls) = ls @ [[]]"
  using split_on_unlines_append[of ls "[]"] by simp

text \<open>\<open>strings.TrimRight(s, "\n")\<close>.\<close>

definition trim_right_nl :: "string \<Rightarrow> string" where
  "trim_right_nl s = rev (dropWhile (\<lambda>c. c = nl) (rev s))"

lemma trim_right_nl_snoc [simp]: "trim_right_nl (s @ [nl]) = trim_right_nl s"
  by (simp add: trim_right_nl_def)

lemma trim_right_nl_Nil [simp]: "trim_right_nl [] = []"
  by (simp add: trim_right_nl_def)

lemma trim_right_nl_idem [simp]: "trim_right_nl (trim_right_nl s) = trim_right_nl s"
  by (simp add: trim_right_nl_def dropWhile_eq_self_iff hd_dropWhile)

lemma trim_right_nl_snoc_trim [simp]: "trim_right_nl (trim_right_nl s @ [nl]) = trim_right_nl s"
  by simp

lemma trim_right_nl_decomp: "\<exists>n. s = trim_right_nl s @ replicate n nl"
proof -
  let ?r = "takeWhile (\<lambda>c. c = nl) (rev s)"
  have "rev s = ?r @ dropWhile (\<lambda>c. c = nl) (rev s)" by simp
  then have "s = trim_right_nl s @ rev ?r"
    by (metis rev_append rev_rev_ident trim_right_nl_def)
  moreover have "?r = replicate (length ?r) nl"
    by (rule replicate_length_same [symmetric]) (auto dest: set_takeWhileD)
  then have "rev ?r = replicate (length ?r) nl" by (metis rev_replicate)
  ultimately have "s = trim_right_nl s @ replicate (length ?r) nl" by simp
  then show ?thesis ..
qed

lemma trim_right_nl_append_nonempty:
  "trim_right_nl t \<noteq> [] \<Longrightarrow> trim_right_nl (s @ t) = s @ trim_right_nl t"
  by (auto simp: trim_right_nl_def dropWhile_append dropWhile_eq_Nil_conv)

subsection \<open>strings.TrimSpace\<close>

text \<open>
  The byte sequences of the white-space characters of \<open>unicode.IsSpace\<close> in UTF-8: the six
  ASCII ones, U+0085, U+00A0, U+1680, U+2000 to U+200A, U+2028, U+2029, U+202F, U+205F and
  U+3000. \<open>TrimSpace\<close> removes such sequences at the left end and then at the right end.
\<close>

definition space_seqs :: "string list" where
  "space_seqs =
     [[CHR 0x09], [CHR 0x0A], [CHR 0x0B], [CHR 0x0C], [CHR 0x0D], [CHR 0x20],
      [CHR 0xC2, CHR 0x85], [CHR 0xC2, CHR 0xA0], [CHR 0xE1, CHR 0x9A, CHR 0x80],
      [CHR 0xE2, CHR 0x80, CHR 0x80], [CHR 0xE2, CHR 0x80, CHR 0x81],
      [CHR 0xE2, CHR 0x80, CHR 0x82], [CHR 0xE2, CHR 0x80, CHR 0x83],
      [CHR 0xE2, CHR 0x80, CHR 0x84], [CHR 0xE2, CHR 0x80, CHR 0x85],
      [CHR 0xE2, CHR 0x80, CHR 0x86], [CHR 0xE2, CHR 0x80, CHR 0x87],
      [CHR 0xE2, CHR 0x80, CHR 0x88], [CHR 0xE2, CHR 0x80, CHR 0x89],
      [CHR 0xE2, CHR 0x80, CHR 0x8A], [CHR 0xE2, CHR 0x80, CHR 0xA8],
      [CHR 0xE2, CHR 0x80, CHR 0xA9], [CHR 0xE2, CHR 0x80, CHR 0xAF],
      [CHR 0xE2, CHR 0x81, CHR 0x9F], [CHR 0xE3, CHR 0x80, CHR 0x80]]"

definition next_seq :: "string list \<Rightarrow> string \<Rightarrow> string option" where
  "next_seq qs s = find (\<lambda>q. q \<noteq> [] \<and> has_prefix q s) qs"

lemma next_seq_SomeD:
  "next_seq qs s = Some q \<Longrightarrow> q \<in> set qs \<and> q \<noteq> [] \<and> (\<exists>t. s = q @ t)"
  by (auto simp: next_seq_def has_prefix_iff dest: find_SomeD)

function strip :: "string list \<Rightarrow> string \<Rightarrow> string" where
  "strip qs s = (case next_seq qs s of None \<Rightarrow> s | Some q \<Rightarrow> strip qs (drop (length q) s))"
  by pat_completeness auto
termination
  by (relation "measure (\<lambda>(qs, s). length s)") (auto dest!: next_seq_SomeD)

declare strip.simps [simp del]

definition trim_left :: "string \<Rightarrow> string" where
  "trim_left s = strip space_seqs s"

definition trim_right :: "string \<Rightarrow> string" where
  "trim_right s = rev (strip (map rev space_seqs) (rev s))"

definition trim_space :: "string \<Rightarrow> string" where
  "trim_space s = trim_right (trim_left s)"

text \<open>Bytes that occur in no white-space sequence are never removed.\<close>

definition solid :: "char \<Rightarrow> bool" where
  "solid c \<longleftrightarrow> c \<notin> \<Union> (set ` set space_seqs)"

lemma strip_suffix: "\<exists>n. strip qs s = drop n s"
proof (induction qs s rule: strip.induct)
  case (1 qs s)
  show ?case
  proof (cases "next_seq qs s")
    case None
    then have "strip qs s = drop 0 s" by (simp add: strip.simps[of qs s])
    then show ?thesis by blast
  next
    case (Some q)
    with "1.IH" obtain n where "strip qs (drop (length q) s) = drop n (drop (length q) s)" by blast
    with Some have "strip qs s = drop (n + length q) s" by (simp add: strip.simps[of qs s])
    then show ?thesis by blast
  qed
qed

lemma strip_step: "next_seq qs s = Some q \<Longrightarrow> s = q @ t \<Longrightarrow> strip qs s = strip qs t"
  by (subst strip.simps) simp

lemma strip_at_solid:
  assumes "\<forall>q \<in> set qs. c \<notin> set q"
  shows "strip qs (u @ c # v) = strip qs u @ c # v"
proof (induction "length u" arbitrary: u rule: less_induct)
  case less
  have same: "has_prefix q (u @ c # v) \<longleftrightarrow> has_prefix q u" if "q \<in> set qs" for q
  proof
    assume "has_prefix q (u @ c # v)"
    then obtain t where t: "u @ c # v = q @ t" by (auto simp: has_prefix_iff)
    have "length q \<le> length u"
    proof (rule ccontr)
      assume "\<not> length q \<le> length u"
      then have "(u @ c # v) ! length u = q ! length u" using t by (simp add: nth_append)
      then have "c = q ! length u" by (simp add: nth_append)
      with \<open>\<not> length q \<le> length u\<close> have "c \<in> set q" by auto
      with assms that show False by blast
    qed
    with t have "take (length q) u = q"
      by (auto simp: append_eq_append_conv_if split: if_splits)
    then show "has_prefix q u" by (simp add: has_prefix_take)
  qed (rule has_prefix_trans_append)
  then have eq: "next_seq qs (u @ c # v) = next_seq qs u"
    unfolding next_seq_def by (intro find_cong) auto
  show ?case
  proof (cases "next_seq qs u")
    case None
    with eq show ?thesis by (simp add: strip.simps[of qs u] strip.simps[of qs "u @ c # v"])
  next
    case (Some q)
    then obtain t where u: "u = q @ t" and "q \<noteq> []" by (auto dest: next_seq_SomeD)
    then have "length t < length u" by simp
    from less.hyps[OF this] have IH: "strip qs (t @ c # v) = strip qs t @ c # v" .
    have "strip qs u = strip qs t" using Some u by (rule strip_step)
    moreover have "strip qs (u @ c # v) = strip qs (t @ c # v)"
      by (rule strip_step[of qs _ q]) (simp_all add: eq Some, simp add: u)
    ultimately show ?thesis using IH by simp
  qed
qed

lemma strip_Nil [simp]: "strip qs [] = []"
proof -
  have "next_seq qs [] = None" by (cases "next_seq qs []") (auto dest: next_seq_SomeD)
  then show ?thesis by (simp add: strip.simps[of qs "[]"])
qed

lemma strip_solid_head: "\<forall>q \<in> set qs. c \<notin> set q \<Longrightarrow> strip qs (c # v) = c # v"
  using strip_at_solid[of qs c "[]" v] by simp

lemma strip_idem: "strip qs (strip qs s) = strip qs s"
proof (induction qs s rule: strip.induct)
  case (1 qs s)
  then show ?case
    by (cases "next_seq qs s") (simp_all add: strip.simps[of qs s])
qed

lemma strip_fixI: "next_seq qs s = None \<Longrightarrow> strip qs s = s"
  by (simp add: strip.simps[of qs s])

lemma strip_fixD: assumes "strip qs s = s" shows "next_seq qs s = None"
proof (cases "next_seq qs s")
  case (Some q)
  then have "q \<noteq> []" and "\<exists>t. s = q @ t" by (auto dest: next_seq_SomeD)
  then have "length (drop (length q) s) < length s" by auto
  moreover obtain n where "strip qs (drop (length q) s) = drop n (drop (length q) s)"
    using strip_suffix by blast
  ultimately have "length (strip qs s) < length s" using Some by (simp add: strip.simps[of qs s])
  with assms show ?thesis by simp
qed simp

subsubsection \<open>Laws of TrimSpace\<close>

lemma solid_seqs: "solid c \<Longrightarrow> \<forall>q \<in> set space_seqs. c \<notin> set q"
  by (auto simp: solid_def)

lemma solid_rev_seqs: "solid c \<Longrightarrow> \<forall>q \<in> set (map rev space_seqs). c \<notin> set q"
  by (auto simp: solid_def)

lemma trim_left_solid: "solid c \<Longrightarrow> trim_left (c # s) = c # s"
  unfolding trim_left_def by (intro strip_solid_head solid_seqs)

lemma trim_right_at_solid: "solid c \<Longrightarrow> trim_right (u @ c # s) = u @ c # trim_right s"
  unfolding trim_right_def
  using strip_at_solid[OF solid_rev_seqs, of c "rev s" "rev u"] by simp

lemma trim_right_Nil [simp]: "trim_right [] = []"
  by (simp add: trim_right_def)

lemma trim_left_Nil [simp]: "trim_left [] = []"
  by (simp add: trim_left_def)

lemma trim_space_Nil [simp]: "trim_space [] = []"
  by (simp add: trim_space_def)

lemma trim_right_idem [simp]: "trim_right (trim_right s) = trim_right s"
  by (simp add: trim_right_def strip_idem)

text \<open>A line that starts with a solid byte and has a solid byte further on.\<close>

lemma trim_space_solid:
  assumes "solid c"
  shows "trim_space (c # s) = c # trim_right s"
  using trim_left_solid[OF assms, of s] trim_right_at_solid[OF assms, of "[]" s]
  by (simp add: trim_space_def)

lemma trim_space_key:
  assumes "solid c" "solid d"
  shows "trim_space (c # u @ d # s) = c # u @ d # trim_right s"
  using assms by (simp add: trim_space_solid trim_right_at_solid)

definition tidy :: "string \<Rightarrow> bool" where
  "tidy s \<longleftrightarrow> trim_left s = s \<and> trim_right s = s"

lemma tidy_trim [simp]: "tidy s \<Longrightarrow> trim_space s = s"
  by (simp add: tidy_def trim_space_def)

lemma trim_left_sp: "trim_left (sp # s) = trim_left s"
proof -
  have "next_seq space_seqs (sp # s) = Some [sp]"
    by (simp add: next_seq_def space_seqs_def)
  then show ?thesis by (simp add: trim_left_def strip.simps[of space_seqs "sp # s"])
qed

lemma trim_right_sp:
  assumes "tidy s" "s \<noteq> []"
  shows "trim_right (sp # s) = sp # s"
proof -
  let ?Q = "map rev space_seqs"
  have "strip ?Q (rev s) = rev s" using assms(1) by (simp add: tidy_def trim_right_def rev_swap)
  then have none: "next_seq ?Q (rev s) = None" by (rule strip_fixD)
  have "next_seq ?Q (rev s @ [sp]) = None"
  proof (rule ccontr)
    assume "next_seq ?Q (rev s @ [sp]) \<noteq> None"
    then obtain q where "next_seq ?Q (rev s @ [sp]) = Some q" by blast
    then obtain t where q: "q \<in> set ?Q" "q \<noteq> []" "rev s @ [sp] = q @ t"
      by (auto dest: next_seq_SomeD)
    show False
    proof (cases t rule: rev_cases)
      case Nil
      with q have "sp \<in> set q" by (metis append_Nil2 in_set_conv_decomp)
      with q(1) have "q = [sp]" by (auto simp: space_seqs_def)
      with Nil q(3) assms(2) show False by simp
    next
      case (snoc t' x)
      with q(3) have "rev s = q @ t'" by simp
      then have "has_prefix q (rev s)" by (simp add: has_prefix_iff)
      with none q(1,2) show False by (auto simp: next_seq_def find_None_iff)
    qed
  qed
  then have "strip ?Q (rev (sp # s)) = rev (sp # s)" by (simp add: strip_fixI)
  then show ?thesis by (simp add: trim_right_def)
qed

lemma tidyD: "tidy s \<Longrightarrow> trim_left s = s" "tidy s \<Longrightarrow> trim_right s = s"
  by (simp_all add: tidy_def)

lemma trim_space_sp: "tidy s \<Longrightarrow> trim_space (sp # s) = s"
  by (simp add: trim_space_def trim_left_sp tidyD)

subsection \<open>strings.Join, strings.ReplaceAll, strings.ContainsAny, strings.Fields\<close>

fun join :: "string \<Rightarrow> string list \<Rightarrow> string" where
  "join sep [] = []"
| "join sep [s] = s"
| "join sep (s # t # ts) = s @ sep @ join sep (t # ts)"

definition replace_char :: "char \<Rightarrow> string \<Rightarrow> string \<Rightarrow> string" where
  "replace_char c r s = concat (map (\<lambda>x. if x = c then r else [x]) s)"

definition contains_any :: "string \<Rightarrow> string \<Rightarrow> bool" where
  "contains_any s cs \<longleftrightarrow> list_ex (\<lambda>c. c \<in> set cs) s"

function go_fields_from :: "string \<Rightarrow> string \<Rightarrow> string list" where
  "go_fields_from acc s =
     (case next_seq space_seqs s of
        Some q \<Rightarrow> (if acc = [] then [] else [acc]) @ go_fields_from [] (drop (length q) s)
      | None \<Rightarrow> (case s of [] \<Rightarrow> (if acc = [] then [] else [acc])
                          | c # r \<Rightarrow> go_fields_from (acc @ [c]) r))"
  by pat_completeness auto
termination
  by (relation "measure (\<lambda>(acc, s). length s)") (auto dest!: next_seq_SomeD)

declare go_fields_from.simps [simp del]

definition go_fields :: "string \<Rightarrow> string list" where
  "go_fields s = go_fields_from [] s"

lemma next_seq_sp: "next_seq space_seqs (sp # s) \<noteq> None"
  by (simp add: next_seq_def space_seqs_def)

lemma go_fields_from_no_sp:
  "sp \<notin> set acc \<Longrightarrow> x \<in> set (go_fields_from acc s) \<Longrightarrow> sp \<notin> set x"
proof (induction acc s rule: go_fields_from.induct)
  case (1 acc s)
  show ?case
  proof (cases "next_seq space_seqs s")
    case (Some q)
    with "1.prems" have "x = acc \<or> x \<in> set (go_fields_from [] (drop (length q) s))"
      by (subst (asm) go_fields_from.simps) (auto split: if_splits)
    with "1.IH"(2)[OF Some] "1.prems"(1) show ?thesis by auto
  next
    case None
    show ?thesis
    proof (cases s)
      case Nil
      with None "1.prems" show ?thesis by (subst (asm) go_fields_from.simps) (auto split: if_splits)
    next
      case (Cons c r)
      have "c \<noteq> sp" using None Cons next_seq_sp[of r] by auto
      moreover have "x \<in> set (go_fields_from (acc @ [c]) r)"
        using None Cons "1.prems"(2) by (subst (asm) go_fields_from.simps) simp
      ultimately show ?thesis using "1.IH"(1)[OF None Cons] "1.prems"(1) by auto
    qed
  qed
qed

lemma go_fields_no_sp: "x \<in> set (go_fields s) \<Longrightarrow> sp \<notin> set x"
  unfolding go_fields_def by (rule go_fields_from_no_sp) simp_all

lemma replace_char_free: "c \<notin> set r \<Longrightarrow> c \<notin> set (replace_char c r s)"
  by (auto simp: replace_char_def)

lemma replace_char_id: "c \<notin> set s \<Longrightarrow> replace_char c r s = s"
  by (induction s) (auto simp: replace_char_def)

lemma set_replace_char: "set (replace_char c r s) \<subseteq> set r \<union> set s"
  by (auto simp: replace_char_def split: if_splits)

lemma join_split_on: "join [c] (split_on c s) = s"
proof (induction s)
  case (Cons x s)
  then show ?case
    by (cases "split_on c s"; cases "tl (split_on c s)") auto
qed simp

subsection \<open>strconv\<close>

definition is_digit :: "char \<Rightarrow> bool" where
  "is_digit c \<longleftrightarrow> 48 \<le> (of_char c :: nat) \<and> (of_char c :: nat) \<le> 57"

definition is_alnum :: "char \<Rightarrow> bool" where
  "is_alnum c \<longleftrightarrow> is_digit c \<or> 65 \<le> (of_char c :: nat) \<and> (of_char c :: nat) \<le> 90
     \<or> 97 \<le> (of_char c :: nat) \<and> (of_char c :: nat) \<le> 122"

definition digit :: "nat \<Rightarrow> char" where
  "digit d = char_of (48 + d)"

fun dec :: "nat \<Rightarrow> string" where
  "dec n = (if n < 10 then [digit n] else dec (n div 10) @ [digit (n mod 10)])"

declare dec.simps [simp del]

definition itoa :: "int \<Rightarrow> string" where
  "itoa i = (if i < 0 then CHR ''-'' # dec (nat (- i)) else dec (nat i))"

definition digit_val :: "char \<Rightarrow> nat" where
  "digit_val c = of_char c - 48"

definition dec_val :: "string \<Rightarrow> nat" where
  "dec_val s = foldl (\<lambda>a c. 10 * a + digit_val c) 0 s"

text \<open>\<open>strconv.ParseInt(s, 10, 64)\<close>, which \<open>strconv.Atoi\<close> agrees with on 64-bit platforms.\<close>

definition parse_int64 :: "string \<Rightarrow> int option" where
  "parse_int64 s =
     (let (neg, ds) = (case s of [] \<Rightarrow> (False, [])
                       | c # r \<Rightarrow> if c = CHR ''-'' then (True, r)
                                else if c = CHR ''+'' then (False, r) else (False, s));
          v = int (dec_val ds); n = (if neg then - v else v)
      in if ds = [] \<or> \<not> list_all is_digit ds then None
         else if - (2 ^ 63) \<le> n \<and> n < 2 ^ 63 then Some n else None)"

lemma digit_values [simp]:
  "digit 0 = CHR ''0''" "digit (Suc 0) = CHR ''1''" "digit 1 = CHR ''1''" "digit 2 = CHR ''2''"
  "digit 3 = CHR ''3''" "digit 4 = CHR ''4''" "digit 5 = CHR ''5''" "digit 6 = CHR ''6''"
  "digit 7 = CHR ''7''" "digit 8 = CHR ''8''" "digit 9 = CHR ''9''"
  by code_simp+

lemma digit_is_digit: "d < 10 \<Longrightarrow> is_digit (digit d)"
  by (simp add: is_digit_def digit_def of_char_of take_bit_eq_mod)

lemma digit_val_digit: "d < 10 \<Longrightarrow> digit_val (digit d) = d"
  by (simp add: digit_val_def digit_def of_char_of take_bit_eq_mod)

lemma dec_digits: "c \<in> set (dec n) \<Longrightarrow> is_digit c"
proof (induction n rule: dec.induct)
  case (1 n)
  then show ?case
    by (cases "n < 10") (auto simp: dec.simps[of n] digit_is_digit)
qed

lemma dec_nonempty [simp]: "dec n \<noteq> []"
  by (simp add: dec.simps[of n])

lemma dec_val_dec [simp]: "dec_val (dec n) = n"
proof (induction n rule: dec.induct)
  case (1 n)
  show ?case
  proof (cases "n < 10")
    case True
    then show ?thesis by (simp add: dec.simps[of n] dec_val_def digit_val_digit)
  next
    case False
    then have "dec_val (dec n) = 10 * dec_val (dec (n div 10)) + n mod 10"
      by (simp add: dec.simps[of n] dec_val_def digit_val_digit)
    also have "\<dots> = n" using "1.IH" False by simp
    finally show ?thesis .
  qed
qed

lemma dec_inject [simp]: "dec m = dec n \<longleftrightarrow> m = n"
  by (metis dec_val_dec)

lemma is_digit_not_nl: "is_digit c \<Longrightarrow> c \<noteq> nl"
  by (auto simp: is_digit_def)

lemma nl_notin_dec [simp]: "nl \<notin> set (dec n)"
  by (blast dest: dec_digits is_digit_not_nl)

lemma nl_notin_itoa [simp]: "nl \<notin> set (itoa i)"
  by (simp add: itoa_def)

end
