(* ===== verification/Confwriter.thy ===== *)
theory Confwriter
  imports GoStrings
begin

text \<open>
  The configuration writer, agent/internal/confwriter: \<open>ParseConf\<close>, \<open>WriteConf\<close>,
  \<open>ParseConfComments\<close> and \<open>sanitizeConfValue\<close> of writer.go and the client configuration
  builder of clientconf.go. Shown: \<open>WriteConf\<close> keeps the [Interface] section of a file
  whatever the peers are, is idempotent, lists exactly the peers it was given, is atomic
  under every failure of the file system, and its metadata comments are read back by
  \<open>ParseConfComments\<close>.
\<close>

subsection \<open>Times\<close>

text \<open>
  \<open>time.Time\<close> in whole seconds since Go's zero time (year 1, UTC), so \<open>IsZero\<close> is
  \<open>t = 0\<close>; \<open>rfc3339\<close> is \<open>Format(time.RFC3339)\<close> of such a UTC time.
\<close>

type_synonym go_time = nat

definition civil :: "nat \<Rightarrow> nat \<times> nat \<times> nat" where
  "civil days =
     (let z = days + 306; era = z div 146097; doe = z mod 146097;
          yoe = (doe - doe div 1460 + doe div 36524 - doe div 146096) div 365;
          doy = doe - (365 * yoe + yoe div 4 - yoe div 100);
          mp = (5 * doy + 2) div 153;
          d = doy - (153 * mp + 2) div 5 + 1;
          m = (if mp < 10 then mp + 3 else mp - 9);
          y = yoe + era * 400 + (if m \<le> 2 then 1 else 0)
      in (y, m, d))"

definition pad :: "nat \<Rightarrow> nat \<Rightarrow> string" where
  "pad w n = replicate (w - length (dec n)) (CHR ''0'') @ dec n"

definition rfc3339 :: "go_time \<Rightarrow> string" where
  "rfc3339 t =
     (let (y, m, d) = civil (t div 86400); s = t mod 86400 in
      pad 4 y @ ''-'' @ pad 2 m @ ''-'' @ pad 2 d @ ''T'' @
      pad 2 (s div 3600) @ '':'' @ pad 2 (s div 60 mod 60) @ '':'' @ pad 2 (s mod 60) @ ''Z'')"

subsection \<open>Data of writer.go\<close>

record conf_peer =
  cp_public_key :: string
  cp_raw_lines :: string

record conf_file =
  cf_pre :: string
  cf_interface :: string
  cf_peers :: "conf_peer list"

record peer_conf =
  pc_public_key :: string
  pc_allowed_ips :: string
  pc_preshared_key :: string
  pc_friendly_name :: string
  pc_created_at :: go_time
  pc_notes :: string
  pc_endpoint :: string
  pc_persistent_keepalive :: int

record peer_meta =
  pm_name :: string
  pm_created_at :: string
  pm_notes :: string

subsection \<open>sanitizeConfValue\<close>

definition sanitize_conf_value :: "string \<Rightarrow> string" where
  "sanitize_conf_value s = replace_char cr '''' (replace_char nl '' '' s)"

subsection \<open>ParseConf\<close>

datatype conf_section = SecPre | SecInterface | SecPeer

record parse_state =
  ps_cur :: conf_section
  ps_pre :: string
  ps_iface :: string
  ps_peer :: string
  ps_key :: string
  ps_peers :: "conf_peer list"

definition parse_init :: parse_state where
  "parse_init = \<lparr>ps_cur = SecPre, ps_pre = [], ps_iface = [], ps_peer = [], ps_key = [], ps_peers = []\<rparr>"

definition flush_peer :: "parse_state \<Rightarrow> parse_state" where
  "flush_peer st =
     (if ps_peer st \<noteq> [] then
        st\<lparr>ps_peers := ps_peers st @ [\<lparr>cp_public_key = ps_key st, cp_raw_lines = ps_peer st\<rparr>],
           ps_peer := [], ps_key := []\<rparr>
      else st)"

definition key_of_line :: "string \<Rightarrow> string \<Rightarrow> string" where
  "key_of_line trimmed old =
     (if has_prefix ''PublicKey'' trimmed
      then (case split_n2 (CHR ''='') trimmed of [_, v] \<Rightarrow> trim_space v | _ \<Rightarrow> old) else old)"

definition conf_line :: "parse_state \<Rightarrow> string \<Rightarrow> parse_state" where
  "conf_line st line =
     (let trimmed = trim_space line in
      if trimmed = ''[Interface]'' then
        (let st = (if ps_cur st = SecPeer then flush_peer st else st) in
         st\<lparr>ps_cur := SecInterface, ps_iface := ps_iface st @ line @ [nl]\<rparr>)
      else if trimmed = ''[Peer]'' then
        (let st = (if ps_cur st = SecPeer then flush_peer st else st) in
         st\<lparr>ps_cur := SecPeer, ps_peer := ps_peer st @ line @ [nl]\<rparr>)
      else if ps_cur st = SecInterface \<and> has_prefix ''# wg-sockd:'' trimmed then st
      else (case ps_cur st of
              SecPre \<Rightarrow> st\<lparr>ps_pre := ps_pre st @ line @ [nl]\<rparr>
            | SecInterface \<Rightarrow> st\<lparr>ps_iface := ps_iface st @ line @ [nl]\<rparr>
            | SecPeer \<Rightarrow> st\<lparr>ps_peer := ps_peer st @ line @ [nl],
                            ps_key := key_of_line trimmed (ps_key st)\<rparr>))"

definition parse_content :: "string \<Rightarrow> conf_file" where
  "parse_content content =
     (if content = [] then \<lparr>cf_pre = [], cf_interface = [], cf_peers = []\<rparr>
      else let st = flush_peer (foldl conf_line parse_init (split_on nl content)) in
        \<lparr>cf_pre = trim_right_nl (ps_pre st), cf_interface = trim_right_nl (ps_iface st),
         cf_peers = ps_peers st\<rparr>)"

subsection \<open>WriteConf\<close>

definition meta_lines :: "peer_conf \<Rightarrow> string list" where
  "meta_lines p =
     (if pc_friendly_name p \<noteq> [] then [''# wg-sockd:name='' @ sanitize_conf_value (pc_friendly_name p)] else []) @
     (if pc_created_at p \<noteq> 0 then [''# wg-sockd:created='' @ rfc3339 (pc_created_at p)] else []) @
     (if pc_notes p \<noteq> [] then [''# wg-sockd:notes='' @ sanitize_conf_value (pc_notes p)] else [])"

definition body_lines :: "peer_conf \<Rightarrow> string list" where
  "body_lines p =
     [''AllowedIPs = '' @ pc_allowed_ips p] @
     (if pc_preshared_key p \<noteq> [] then [''PresharedKey = '' @ pc_preshared_key p] else []) @
     (if pc_endpoint p \<noteq> [] then [''Endpoint = '' @ pc_endpoint p] else []) @
     (if 0 < pc_persistent_keepalive p
      then [''PersistentKeepalive = '' @ itoa (pc_persistent_keepalive p)] else [])"

definition peer_lines :: "peer_conf \<Rightarrow> string list" where
  "peer_lines p =
     [[]] @ meta_lines p @ [''[Peer]'', ''PublicKey = '' @ pc_public_key p] @ body_lines p"

definition render_conf :: "conf_file \<Rightarrow> peer_conf list \<Rightarrow> string" where
  "render_conf existing peers =
     (if cf_pre existing \<noteq> [] then cf_pre existing @ [nl] else []) @
     (if cf_interface existing \<noteq> [] then cf_interface existing @ [nl] else []) @
     unlines (concat (map peer_lines peers))"

text \<open>
  The files WriteConf touches: the configuration itself and the temporary file next to it.
  Each call into the file system consumes one outcome of the script.
\<close>

record conf_fs =
  fs_conf :: "string option"
  fs_tmp :: "string option"
  fs_faults :: "bool list"

datatype conf_error = ReadError | WriteTempError | RenameError

definition fs_call :: "'e \<Rightarrow> (conf_fs \<Rightarrow> conf_fs) \<Rightarrow> (conf_fs, 'e, unit) prog" where
  "fs_call e f s =
     (if next_fault (fs_faults s) then (Inl e, s\<lparr>fs_faults := tl (fs_faults s)\<rparr>)
      else (Inr (), f (s\<lparr>fs_faults := tl (fs_faults s)\<rparr>)))"

definition parse_conf :: "(conf_fs, conf_error, conf_file) prog" where
  "parse_conf =
     bindE (getE fs_conf) (\<lambda>file. case file of
       None \<Rightarrow> ret \<lparr>cf_pre = [], cf_interface = [], cf_peers = []\<rparr>
     | Some content \<Rightarrow> thenE (fs_call ReadError id) (ret (parse_content content)))"

definition write_conf :: "peer_conf list \<Rightarrow> (conf_fs, conf_error, unit) prog" where
  "write_conf peers =
     bindE parse_conf (\<lambda>existing.
     let out = render_conf existing peers in
     thenE (fs_call WriteTempError (\<lambda>s. s\<lparr>fs_tmp := Some out\<rparr>))
     (bindE (tryE (fs_call RenameError (\<lambda>s. s\<lparr>fs_conf := fs_tmp s, fs_tmp := None\<rparr>))) (\<lambda>r.
      case r of
        Inr _ \<Rightarrow> ret ()
      | Inl e \<Rightarrow> thenE (ignoreE (fs_call () (\<lambda>s. s\<lparr>fs_tmp := None\<rparr>))) (fail e))))"

subsection \<open>ParseConfComments\<close>

text \<open>
  \<open>bufio.Scanner\<close> over lines: a final line without newline counts when it is not empty, a
  trailing carriage return is dropped, and a line of 65536 bytes or more ends the scan with
  an error (\<open>bufio.MaxScanTokenSize\<close>).
\<close>

definition scan_limit :: nat where
  "scan_limit = 65536"

definition drop_cr :: "string \<Rightarrow> string" where
  "drop_cr l = (if l \<noteq> [] \<and> last l = cr then butlast l else l)"

definition raw_lines :: "string \<Rightarrow> string list" where
  "raw_lines content =
     (let ls = split_on nl content in if last ls = [] then butlast ls else ls)"

definition scan_lines :: "string \<Rightarrow> string list" where
  "scan_lines content = map drop_cr (takeWhile (\<lambda>l. length l < scan_limit) (raw_lines content))"

definition scan_failed :: "string \<Rightarrow> bool" where
  "scan_failed content \<longleftrightarrow> list_ex (\<lambda>l. scan_limit \<le> length l) (raw_lines content)"

record comment_state =
  cs_result :: "string \<rightharpoonup> peer_meta"
  cs_meta :: peer_meta
  cs_has :: bool

definition no_meta :: peer_meta where
  "no_meta = \<lparr>pm_name = [], pm_created_at = [], pm_notes = []\<rparr>"

definition comment_init :: comment_state where
  "comment_init = \<lparr>cs_result = Map.empty, cs_meta = no_meta, cs_has = False\<rparr>"

definition set_meta :: "string \<Rightarrow> string \<Rightarrow> peer_meta \<Rightarrow> peer_meta" where
  "set_meta key v m =
     (if key = ''name'' then m\<lparr>pm_name := v\<rparr>
      else if key = ''created'' then m\<lparr>pm_created_at := v\<rparr>
      else if key = ''notes'' then m\<lparr>pm_notes := v\<rparr> else m)"

definition comment_line :: "comment_state \<Rightarrow> string \<Rightarrow> comment_state" where
  "comment_line st text =
     (let line = trim_space text in
      if has_prefix ''# wg-sockd:'' line then
        (case split_n2 (CHR ''='') (trim_prefix ''# wg-sockd:'' line) of
           [k, v] \<Rightarrow> st\<lparr>cs_meta := set_meta (trim_space k) (trim_space v) (cs_meta st), cs_has := True\<rparr>
         | _ \<Rightarrow> st)
      else if has_prefix ''PublicKey'' line \<and> cs_has st then
        (case split_n2 (CHR ''='') line of
           [_, v] \<Rightarrow> st\<lparr>cs_result := (cs_result st)(trim_space v \<mapsto> cs_meta st),
                       cs_meta := no_meta, cs_has := False\<rparr>
         | _ \<Rightarrow> st\<lparr>cs_meta := no_meta, cs_has := False\<rparr>)
      else if line = ''[Peer]'' then
        (if \<not> cs_has st then st\<lparr>cs_meta := no_meta\<rparr> else st)
      else if \<not> has_prefix ''#'' line \<and> line \<noteq> [] \<and> line \<noteq> ''[Interface]'' \<and> cs_has st
              \<and> \<not> has_prefix ''PublicKey'' line then st\<lparr>cs_has := False\<rparr>
      else st)"

definition parse_conf_comments :: "string \<Rightarrow> (string \<rightharpoonup> peer_meta) \<times> bool" where
  "parse_conf_comments content =
     (cs_result (foldl comment_line comment_init (scan_lines content)), scan_failed content)"

subsection \<open>How TrimSpace acts on the written lines\<close>

lemma solid_chars [simp]:
  "solid (CHR ''P'')" "solid (CHR ''A'')" "solid (CHR ''E'')" "solid (CHR ''#'')"
  "solid (CHR ''='')" "solid (CHR ''['')" "solid (CHR '']'')" "solid (CHR ''y'')"
  by (simp_all add: solid_def space_seqs_def)

lemma trim_written:
  "trim_space (''PublicKey = '' @ x) = ''PublicKey ='' @ trim_right (sp # x)"
  "trim_space (''AllowedIPs = '' @ x) = ''AllowedIPs ='' @ trim_right (sp # x)"
  "trim_space (''PresharedKey = '' @ x) = ''PresharedKey ='' @ trim_right (sp # x)"
  "trim_space (''Endpoint = '' @ x) = ''Endpoint ='' @ trim_right (sp # x)"
  "trim_space (''PersistentKeepalive = '' @ x) = ''PersistentKeepalive ='' @ trim_right (sp # x)"
  "trim_space (''# wg-sockd:name='' @ x) = ''# wg-sockd:name='' @ trim_right x"
  "trim_space (''# wg-sockd:created='' @ x) = ''# wg-sockd:created='' @ trim_right x"
  "trim_space (''# wg-sockd:notes='' @ x) = ''# wg-sockd:notes='' @ trim_right x"
  using trim_space_key[of "CHR ''P''" "CHR ''=''" "''ublicKey ''" "sp # x"]
    trim_space_key[of "CHR ''A''" "CHR ''=''" "''llowedIPs ''" "sp # x"]
    trim_space_key[of "CHR ''P''" "CHR ''=''" "''resharedKey ''" "sp # x"]
    trim_space_key[of "CHR ''E''" "CHR ''=''" "''ndpoint ''" "sp # x"]
    trim_space_key[of "CHR ''P''" "CHR ''=''" "''ersistentKeepalive ''" "sp # x"]
    trim_space_key[of "CHR ''#''" "CHR ''=''" "'' wg-sockd:name''" x]
    trim_space_key[of "CHR ''#''" "CHR ''=''" "'' wg-sockd:created''" x]
    trim_space_key[of "CHR ''#''" "CHR ''=''" "'' wg-sockd:notes''" x]
  by simp_all

lemma trim_header [simp]: "trim_space ''[Peer]'' = ''[Peer]''"
  using trim_space_key[of "CHR ''[''" "CHR '']''" "''Peer''" "[]"] by simp

lemma trim_pubkey_line:
  assumes "tidy k"
  shows "trim_space (''PublicKey = '' @ k) = (if k = [] then ''PublicKey ='' else ''PublicKey = '' @ k)"
proof -
  have "trim_right [sp] = []"
    by (simp add: trim_right_def strip.simps[of _ "[sp]"] next_seq_def space_seqs_def)
  then show ?thesis using assms by (simp add: trim_written(1)[simplified] trim_right_sp)
qed

subsection \<open>The shape of a parsed file\<close>

definition header_free :: "string \<Rightarrow> bool" where
  "header_free l \<longleftrightarrow> trim_space l \<noteq> ''[Interface]'' \<and> trim_space l \<noteq> ''[Peer]''"

definition meta_comment :: "string \<Rightarrow> bool" where
  "meta_comment l \<longleftrightarrow> has_prefix ''# wg-sockd:'' (trim_space l)"

definition pre_lines :: "string list \<Rightarrow> bool" where
  "pre_lines ls \<longleftrightarrow> (\<forall>l \<in> set ls. nl \<notin> set l \<and> header_free l)"

definition iface_lines :: "string list \<Rightarrow> bool" where
  "iface_lines ls \<longleftrightarrow>
     (\<forall>l \<in> set ls. nl \<notin> set l \<and> trim_space l \<noteq> ''[Peer]'' \<and> \<not> meta_comment l) \<and>
     (ls \<noteq> [] \<longrightarrow> trim_space (hd ls) = ''[Interface]'')"

definition parse_shape :: "parse_state \<Rightarrow> bool" where
  "parse_shape st \<longleftrightarrow>
     (\<exists>ls1 ls2. ps_pre st = unlines ls1 \<and> ps_iface st = unlines ls2 \<and> pre_lines ls1 \<and> iface_lines ls2
       \<and> (ps_cur st = SecInterface \<longrightarrow> ls2 \<noteq> []))"

lemma flush_peer_simps [simp]:
  "ps_cur (flush_peer st) = ps_cur st" "ps_pre (flush_peer st) = ps_pre st"
  "ps_iface (flush_peer st) = ps_iface st" "ps_peer (flush_peer st) = []"
  by (simp_all add: flush_peer_def)

lemma iface_header_not_meta: "trim_space l = ''[Interface]'' \<Longrightarrow> \<not> meta_comment l"
  by (simp add: meta_comment_def)

lemma parse_shapeI:
  "ps_pre st = unlines ls1 \<Longrightarrow> ps_iface st = unlines ls2 \<Longrightarrow> pre_lines ls1 \<Longrightarrow> iface_lines ls2 \<Longrightarrow>
   (ps_cur st = SecInterface \<Longrightarrow> ls2 \<noteq> []) \<Longrightarrow> parse_shape st"
  unfolding parse_shape_def by blast

lemma conf_line_shape:
  assumes "parse_shape st" "nl \<notin> set line"
  shows "parse_shape (conf_line st line)"
proof -
  from assms(1) obtain ls1 ls2 where sh: "ps_pre st = unlines ls1" "ps_iface st = unlines ls2"
    "pre_lines ls1" "iface_lines ls2" "ps_cur st = SecInterface \<longrightarrow> ls2 \<noteq> []"
    by (auto simp: parse_shape_def)
  consider (iface) "trim_space line = ''[Interface]''" | (peer) "trim_space line = ''[Peer]''"
    | (skip) "header_free line" "ps_cur st = SecInterface" "meta_comment line"
    | (pre) "header_free line" "ps_cur st = SecPre"
    | (body) "header_free line" "ps_cur st = SecInterface" "\<not> meta_comment line"
    | (inpeer) "header_free line" "ps_cur st = SecPeer"
    by (cases "ps_cur st") (auto simp: header_free_def)
  then show ?thesis
  proof cases
    case iface
    have "iface_lines (ls2 @ [line])"
      using sh(4) assms(2) iface iface_header_not_meta[OF iface] by (auto simp: iface_lines_def hd_append)
    with sh iface show ?thesis
      by (intro parse_shapeI[of _ ls1 "ls2 @ [line]"]) (auto simp: conf_line_def Let_def)
  next
    case peer
    with sh show ?thesis
      by (intro parse_shapeI[of _ ls1 ls2]) (auto simp: conf_line_def Let_def)
  next
    case skip
    with sh show ?thesis
      by (intro parse_shapeI[of _ ls1 ls2]) (auto simp: conf_line_def Let_def meta_comment_def header_free_def)
  next
    case pre
    have "pre_lines (ls1 @ [line])" using sh(3) assms(2) pre by (auto simp: pre_lines_def)
    with sh pre show ?thesis
      by (intro parse_shapeI[of _ "ls1 @ [line]" ls2]) (auto simp: conf_line_def Let_def header_free_def)
  next
    case body
    have "iface_lines (ls2 @ [line])"
      using sh(4,5) assms(2) body by (auto simp: iface_lines_def hd_append header_free_def)
    with sh body show ?thesis
      by (intro parse_shapeI[of _ ls1 "ls2 @ [line]"])
        (auto simp: conf_line_def Let_def header_free_def meta_comment_def)
  next
    case inpeer
    with sh show ?thesis
      by (intro parse_shapeI[of _ ls1 ls2]) (auto simp: conf_line_def Let_def header_free_def)
  qed
qed

lemma foldl_conf_line_shape:
  "parse_shape st \<Longrightarrow> \<forall>l \<in> set ls. nl \<notin> set l \<Longrightarrow> parse_shape (foldl conf_line st ls)"
  by (induction ls arbitrary: st) (auto intro: conf_line_shape)

lemma parse_init_shape: "parse_shape parse_init"
  by (intro parse_shapeI[of _ "[]" "[]"]) (auto simp: parse_init_def pre_lines_def iface_lines_def)

lemma parse_content_shape:
  "\<exists>ls1 ls2. cf_pre (parse_content c) = trim_right_nl (unlines ls1) \<and>
     cf_interface (parse_content c) = trim_right_nl (unlines ls2) \<and> pre_lines ls1 \<and> iface_lines ls2"
proof (cases "c = []")
  case True
  then show ?thesis
    by (intro exI[of _ "[]"]) (auto simp: parse_content_def pre_lines_def iface_lines_def)
next
  case False
  have "parse_shape (foldl conf_line parse_init (split_on nl c))"
    by (rule foldl_conf_line_shape[OF parse_init_shape]) (auto dest: split_on_parts_free)
  then obtain ls1 ls2 where
    "ps_pre (foldl conf_line parse_init (split_on nl c)) = unlines ls1"
    "ps_iface (foldl conf_line parse_init (split_on nl c)) = unlines ls2"
    "pre_lines ls1" "iface_lines ls2" unfolding parse_shape_def by blast
  with False show ?thesis
    by (intro exI[of _ ls1] exI[of _ ls2]) (simp add: parse_content_def Let_def)
qed

text \<open>A section, right-trimmed and newline-terminated, is a prefix of its lines.\<close>

lemma trim_right_nl_unlines:
  assumes "\<forall>l \<in> set ls. nl \<notin> set l" "trim_right_nl (unlines ls) \<noteq> []"
  shows "\<exists>n. trim_right_nl (unlines ls) @ [nl] = unlines (take n ls) \<and> 0 < n \<and> ls \<noteq> []"
  using assms
proof (induction ls rule: rev_induct)
  case Nil
  then show ?case by simp
next
  case (snoc l ls)
  show ?case
  proof (cases "l = []")
    case True
    with snoc.prems have "trim_right_nl (unlines ls) \<noteq> []" by simp
    with snoc obtain n where n: "trim_right_nl (unlines ls) @ [nl] = unlines (take n ls)" "0 < n" "ls \<noteq> []"
      by auto
    have "take (min n (length ls)) (ls @ [l]) = take n ls" by (simp add: min_def)
    moreover have "0 < min n (length ls)" using n by simp
    ultimately show ?thesis using n True by (metis trim_right_nl_snoc unlines_Cons unlines_Nil
          unlines_append append_Nil snoc_eq_iff_butlast)
  next
    case False
    then obtain m x where l: "l = m @ [x]" by (metis rev_exhaust)
    with snoc.prems have "x \<noteq> nl" by auto
    then have "trim_right_nl (unlines (ls @ [l])) = unlines ls @ l"
      using l by (simp add: trim_right_nl_def)
    then have "trim_right_nl (unlines (ls @ [l])) @ [nl] = unlines (take (length (ls @ [l])) (ls @ [l]))"
      by simp
    then show ?thesis by (metis length_greater_0_conv snoc_eq_iff_butlast)
  qed
qed

subsection \<open>Reading a written file back\<close>

text \<open>Peers whose fields do not carry a line break into the file.\<close>

definition safe_peer :: "peer_conf \<Rightarrow> bool" where
  "safe_peer p \<longleftrightarrow> nl \<notin> set (pc_public_key p) \<and> nl \<notin> set (pc_allowed_ips p) \<and>
     nl \<notin> set (pc_preshared_key p) \<and> nl \<notin> set (pc_endpoint p)"

definition plain_line :: "string \<Rightarrow> bool" where
  "plain_line l \<longleftrightarrow> header_free l \<and> \<not> has_prefix ''PublicKey'' (trim_space l)"

lemma sanitize_no_nl [simp]: "nl \<notin> set (sanitize_conf_value s)"
proof -
  have "nl \<notin> set (replace_char nl '' '' s)" by (rule replace_char_free) simp
  then show ?thesis using set_replace_char[of cr "[]"] by (auto simp: sanitize_conf_value_def)
qed

lemma sanitize_no_cr [simp]: "cr \<notin> set (sanitize_conf_value s)"
  by (simp add: sanitize_conf_value_def replace_char_free)

lemma pad_no_nl [simp]: "nl \<notin> set (pad w n)"
  by (simp add: pad_def)

lemma rfc3339_no_nl [simp]: "nl \<notin> set (rfc3339 t)"
  by (simp add: rfc3339_def Let_def split: prod.splits)

lemma safe_peer_lines: "safe_peer p \<Longrightarrow> l \<in> set (peer_lines p) \<Longrightarrow> nl \<notin> set l"
  by (auto simp: peer_lines_def meta_lines_def body_lines_def safe_peer_def split: if_splits)

lemma meta_lines_meta: "l \<in> set (meta_lines p) \<Longrightarrow> meta_comment l \<and> plain_line l"
  by (auto simp: meta_lines_def meta_comment_def plain_line_def header_free_def
      trim_written[simplified] split: if_splits)

lemma body_lines_plain: "l \<in> set (body_lines p) \<Longrightarrow> plain_line l"
  by (auto simp: body_lines_def plain_line_def header_free_def trim_written[simplified] split: if_splits)

lemma conf_line_plain:
  assumes "plain_line l" "ps_cur st = SecPeer"
  shows "conf_line st l = st\<lparr>ps_peer := ps_peer st @ l @ [nl]\<rparr>"
  using assms by (simp add: conf_line_def Let_def plain_line_def header_free_def key_of_line_def)

lemma foldl_plain_lines:
  assumes "\<forall>l \<in> set ls. plain_line l" "ps_cur st = SecPeer"
  shows "foldl conf_line st ls = st\<lparr>ps_peer := ps_peer st @ unlines ls\<rparr>"
  using assms by (induction ls arbitrary: st) (simp_all add: conf_line_plain)

lemma foldl_skipped_meta:
  assumes "\<forall>l \<in> set ls. meta_comment l \<and> plain_line l" "ps_cur st = SecInterface"
  shows "foldl conf_line st ls = st"
  using assms
  by (induction ls arbitrary: st)
    (simp_all add: conf_line_def Let_def meta_comment_def plain_line_def header_free_def)

lemma key_of_pubkey_line:
  assumes "tidy k"
  shows "key_of_line (trim_space (''PublicKey = '' @ k)) old = k"
proof (cases "k = []")
  case True
  then show ?thesis using trim_pubkey_line[OF assms] by (simp add: key_of_line_def split_n2_def)
next
  case False
  have "split_n2 (CHR ''='') (''PublicKey '' @ CHR ''='' # sp # k) = [''PublicKey '', sp # k]"
    by (rule split_n2_sep) simp
  with False assms show ?thesis
    using trim_pubkey_line[OF assms] by (simp add: key_of_line_def trim_space_sp)
qed

lemma conf_line_pubkey:
  assumes "tidy k" "ps_cur st = SecPeer"
  shows "conf_line st (''PublicKey = '' @ k) =
    st\<lparr>ps_peer := ps_peer st @ (''PublicKey = '' @ k) @ [nl], ps_key := k\<rparr>"
proof -
  have "header_free (''PublicKey = '' @ k)"
    using trim_pubkey_line[OF assms(1)] by (simp add: header_free_def)
  then show ?thesis using assms(2) key_of_pubkey_line[OF assms(1), of "ps_key st"]
    by (simp add: conf_line_def Let_def header_free_def)
qed

text \<open>\<open>in_peers st ks\<close>: the reader is inside a [Peer] section and has seen the keys \<open>ks\<close>.\<close>

definition in_peers :: "parse_state \<Rightarrow> string list \<Rightarrow> bool" where
  "in_peers st ks \<longleftrightarrow> ps_cur st = SecPeer \<and> ps_peer st \<noteq> [] \<and>
     map cp_public_key (ps_peers (flush_peer st)) = ks"


definition section_lines :: "peer_conf \<Rightarrow> string list" where
  "section_lines p = [''[Peer]'', ''PublicKey = '' @ pc_public_key p] @ body_lines p"

lemma peer_lines_eq: "peer_lines p = [] # meta_lines p @ section_lines p"
  by (simp add: peer_lines_def section_lines_def)

lemma unlines_section [simp]: "unlines (section_lines p) \<noteq> []"
  by (simp add: section_lines_def)

lemma foldl_section:
  assumes "tidy (pc_public_key p)"
  shows "foldl conf_line st (section_lines p) =
    (let st0 = (if ps_cur st = SecPeer then flush_peer st else st) in
     st0\<lparr>ps_cur := SecPeer, ps_peer := ps_peer st0 @ unlines (section_lines p), ps_key := pc_public_key p\<rparr>)"
proof -
  let ?st0 = "if ps_cur st = SecPeer then flush_peer st else st"
  let ?st1 = "?st0\<lparr>ps_cur := SecPeer, ps_peer := ps_peer ?st0 @ ''[Peer]'' @ [nl]\<rparr>"
  have 1: "conf_line st ''[Peer]'' = ?st1"
    by (simp add: conf_line_def Let_def)
  have 2: "conf_line ?st1 (''PublicKey = '' @ pc_public_key p) =
      ?st1\<lparr>ps_peer := ps_peer ?st1 @ (''PublicKey = '' @ pc_public_key p) @ [nl], ps_key := pc_public_key p\<rparr>"
    by (rule conf_line_pubkey[OF assms]) simp
  have 3: "foldl conf_line (st'\<lparr>ps_cur := SecPeer\<rparr>) (body_lines p) =
      st'\<lparr>ps_cur := SecPeer, ps_peer := ps_peer st' @ unlines (body_lines p)\<rparr>" for st'
    by (subst foldl_plain_lines) (auto simp: body_lines_plain)
  have "foldl conf_line st (section_lines p) = foldl conf_line (conf_line ?st1 (''PublicKey = '' @ pc_public_key p)) (body_lines p)"
    unfolding section_lines_def using 1 by (simp del: append.simps add: append_Cons append_Nil)
  also have "\<dots> = (conf_line ?st1 (''PublicKey = '' @ pc_public_key p))\<lparr>ps_cur := SecPeer,
      ps_peer := ps_peer (conf_line ?st1 (''PublicKey = '' @ pc_public_key p)) @ unlines (body_lines p)\<rparr>"
    unfolding 2 by (subst foldl_plain_lines) (auto simp: body_lines_plain)
  finally show ?thesis
    unfolding 2 by (auto simp: section_lines_def Let_def)
qed

lemma foldl_first_peer:
  assumes "tidy (pc_public_key p)" "ps_cur st = SecInterface" "ps_peer st = []"
  shows "let st' = foldl conf_line st (peer_lines p) in
    in_peers st' (map cp_public_key (ps_peers st) @ [pc_public_key p])
    \<and> ps_pre st' = ps_pre st \<and> ps_iface st' = ps_iface st @ [nl]"
proof -
  let ?st = "st\<lparr>ps_iface := ps_iface st @ [nl]\<rparr>"
  have "conf_line st [] = ?st" using assms(2) by (simp add: conf_line_def)
  moreover have "foldl conf_line ?st (meta_lines p) = ?st"
    by (rule foldl_skipped_meta) (use assms(2) meta_lines_meta in auto)
  ultimately have "foldl conf_line st (peer_lines p) = foldl conf_line ?st (section_lines p)"
    by (simp add: peer_lines_eq)
  then show ?thesis
    using assms(2,3) by (simp add: foldl_section[OF assms(1)] Let_def in_peers_def flush_peer_def)
qed

lemma foldl_next_peer:
  assumes "tidy (pc_public_key p)" "in_peers st ks"
  shows "let st' = foldl conf_line st (peer_lines p) in
    in_peers st' (ks @ [pc_public_key p]) \<and> ps_pre st' = ps_pre st \<and> ps_iface st' = ps_iface st"
proof -
  let ?st = "st\<lparr>ps_peer := ps_peer st @ unlines ([] # meta_lines p)\<rparr>"
  from assms(2) have st: "ps_cur st = SecPeer" "ps_peer st \<noteq> []" "map cp_public_key (ps_peers st) @ [ps_key st] = ks"
    by (auto simp: in_peers_def flush_peer_def)
  have "foldl conf_line st ([] # meta_lines p) = ?st"
    by (rule foldl_plain_lines) (use st(1) meta_lines_meta in \<open>auto simp: plain_line_def header_free_def\<close>)
  then have "foldl conf_line st (peer_lines p) = foldl conf_line ?st (section_lines p)"
    by (simp add: peer_lines_eq)
  then show ?thesis
    using st by (simp add: foldl_section[OF assms(1)] Let_def in_peers_def flush_peer_def)
qed

lemma foldl_more_peers:
  assumes "\<forall>p \<in> set ps. tidy (pc_public_key p)" "in_peers st ks"
  shows "let st' = foldl conf_line st (concat (map peer_lines ps)) in
    in_peers st' (ks @ map pc_public_key ps) \<and> ps_pre st' = ps_pre st \<and> ps_iface st' = ps_iface st"
  using assms
proof (induction ps arbitrary: st ks)
  case Nil
  then show ?case by simp
next
  case (Cons p ps)
  from foldl_next_peer[of p st ks] Cons.prems
  have 1: "in_peers (foldl conf_line st (peer_lines p)) (ks @ [pc_public_key p])"
    "ps_pre (foldl conf_line st (peer_lines p)) = ps_pre st"
    "ps_iface (foldl conf_line st (peer_lines p)) = ps_iface st"
    by (simp_all add: Let_def)
  from Cons.IH[OF _ 1(1)] Cons.prems 1 show ?case by (simp add: Let_def)
qed

lemma in_peers_blank:
  assumes "in_peers st ks"
  shows "in_peers (conf_line st []) ks" "ps_pre (conf_line st []) = ps_pre st"
    "ps_iface (conf_line st []) = ps_iface st"
  using assms by (auto simp: in_peers_def conf_line_def key_of_line_def flush_peer_def)

lemma foldl_pre_lines:
  assumes "pre_lines ls" "ps_cur st = SecPre"
  shows "foldl conf_line st ls = st\<lparr>ps_pre := ps_pre st @ unlines ls\<rparr>"
  using assms
  by (induction ls arbitrary: st) (simp_all add: conf_line_def Let_def pre_lines_def header_free_def)

lemma foldl_iface_rest:
  assumes "\<forall>l \<in> set ls. trim_space l \<noteq> ''[Peer]'' \<and> \<not> meta_comment l" "ps_cur st = SecInterface"
  shows "foldl conf_line st ls = st\<lparr>ps_iface := ps_iface st @ unlines ls\<rparr>"
  using assms
  by (induction ls arbitrary: st) (auto simp: conf_line_def Let_def meta_comment_def)

lemma foldl_iface_lines:
  assumes "iface_lines ls" "ls \<noteq> []" "ps_cur st = SecPre"
  shows "foldl conf_line st ls = st\<lparr>ps_cur := SecInterface, ps_iface := ps_iface st @ unlines ls\<rparr>"
proof -
  from assms(2) obtain l ls' where ls: "ls = l # ls'" by (cases ls) auto
  with assms(1) have "trim_space l = ''[Interface]''" by (simp add: iface_lines_def)
  with assms(3) have "conf_line st l = st\<lparr>ps_cur := SecInterface, ps_iface := ps_iface st @ l @ [nl]\<rparr>"
    by (simp add: conf_line_def Let_def)
  with ls assms(1) show ?thesis
    by (simp add: foldl_iface_rest iface_lines_def)
qed

subsection \<open>WriteConf keeps [Interface] and lists its peers\<close>

text \<open>
  The lines of the part in front of the peers: the two preserved sections, each cut to a
  prefix of its lines.
\<close>

lemma preserved_part:
  assumes "pre_lines ls1" "iface_lines ls2"
    and "pre = trim_right_nl (unlines ls1)" "iface = trim_right_nl (unlines ls2)" "iface \<noteq> []"
  obtains ms1 ms2 where "pre_lines ms1" "iface_lines ms2" "ms2 \<noteq> []"
    "(if pre \<noteq> [] then pre @ [nl] else []) = unlines ms1" "iface @ [nl] = unlines ms2"
proof -
  have "\<exists>ms1. pre_lines ms1 \<and> (if pre \<noteq> [] then pre @ [nl] else []) = unlines ms1"
  proof (cases "pre = []")
    case True
    then show ?thesis by (intro exI[of _ "[]"]) (simp add: pre_lines_def)
  next
    case False
    then obtain n where n: "pre @ [nl] = unlines (take n ls1)"
      using trim_right_nl_unlines[of ls1] assms(1,3) by (auto simp: pre_lines_def)
    have "pre_lines (take n ls1)" using assms(1) by (auto simp: pre_lines_def dest: in_set_takeD)
    with n False show ?thesis by auto
  qed
  moreover obtain n where n: "iface @ [nl] = unlines (take n ls2)" "0 < n" "ls2 \<noteq> []"
    using trim_right_nl_unlines[of ls2] assms(2,4,5) by (auto simp: iface_lines_def)
  moreover have "iface_lines (take n ls2)"
    using assms(2) n by (auto simp: iface_lines_def hd_take dest: in_set_takeD)
  ultimately show thesis using that by (metis take_eq_Nil less_numeral_extra(3))
qed

lemma reparse:
  assumes "pre_lines ms1" "iface_lines ms2" "ms2 \<noteq> []"
    and "\<forall>p \<in> set peers. safe_peer p \<and> tidy (pc_public_key p)"
  defines "st \<equiv> foldl conf_line parse_init
      (split_on nl (unlines ms1 @ unlines ms2 @ unlines (concat (map peer_lines peers))))"
  shows "ps_pre st = unlines ms1" "trim_right_nl (ps_iface st) = trim_right_nl (unlines ms2)"
    and "map cp_public_key (ps_peers (flush_peer st)) = map pc_public_key peers"
proof -
  let ?all = "ms1 @ ms2 @ concat (map peer_lines peers)"
  have "\<forall>l \<in> set ?all. nl \<notin> set l"
    using assms(1,2,4) safe_peer_lines by (fastforce simp: pre_lines_def iface_lines_def)
  then have "split_on nl (unlines ?all) = ?all @ [[]]" by (rule split_on_unlines)
  then have st: "st = conf_line (foldl conf_line parse_init ?all) []" by (simp add: st_def)
  let ?s1 = "parse_init\<lparr>ps_pre := unlines ms1\<rparr>"
  have "foldl conf_line parse_init ms1 = ?s1"
    using foldl_pre_lines[OF assms(1), of parse_init] by (simp add: parse_init_def)
  moreover let ?s2 = "?s1\<lparr>ps_cur := SecInterface, ps_iface := unlines ms2\<rparr>"
  have "foldl conf_line ?s1 ms2 = ?s2"
    using foldl_iface_lines[OF assms(2,3), of ?s1] by (simp add: parse_init_def)
  ultimately have s: "foldl conf_line parse_init ?all = foldl conf_line ?s2 (concat (map peer_lines peers))"
    by simp
  have "ps_pre st = unlines ms1 \<and> trim_right_nl (ps_iface st) = trim_right_nl (unlines ms2) \<and>
    map cp_public_key (ps_peers (flush_peer st)) = map pc_public_key peers"
  proof (cases peers)
    case Nil
    then show ?thesis unfolding st s
      by (simp add: conf_line_def flush_peer_def parse_init_def)
  next
    case (Cons p ps)
    let ?s3 = "foldl conf_line ?s2 (peer_lines p)"
    from assms(4) Cons have p: "tidy (pc_public_key p)" "\<forall>p \<in> set ps. tidy (pc_public_key p)" by auto
    have 3: "in_peers ?s3 [pc_public_key p]" "ps_pre ?s3 = unlines ms1" "ps_iface ?s3 = unlines ms2 @ [nl]"
      using foldl_first_peer[OF p(1), of ?s2] by (simp_all add: Let_def parse_init_def)
    let ?s4 = "foldl conf_line ?s3 (concat (map peer_lines ps))"
    have 4: "in_peers ?s4 (pc_public_key p # map pc_public_key ps)" "ps_pre ?s4 = unlines ms1"
      "ps_iface ?s4 = unlines ms2 @ [nl]"
      using foldl_more_peers[OF p(2) 3(1)] 3 by (simp_all add: Let_def)
    have "st = conf_line (foldl conf_line ?s2 (concat (map peer_lines peers))) []" by (simp only: st s)
    then have "st = conf_line ?s4 []" by (simp add: Cons)
    with in_peers_blank[OF 4(1)] 4 Cons show ?thesis
      by (simp add: in_peers_def)
  qed
  then show "ps_pre st = unlines ms1" "trim_right_nl (ps_iface st) = trim_right_nl (unlines ms2)"
    "map cp_public_key (ps_peers (flush_peer st)) = map pc_public_key peers" by auto
qed

lemma parse_content_nonempty:
  assumes "c \<noteq> []"
  defines "st \<equiv> flush_peer (foldl conf_line parse_init (split_on nl c))"
  shows "cf_pre (parse_content c) = trim_right_nl (ps_pre st)"
    "cf_interface (parse_content c) = trim_right_nl (ps_iface st)"
    "cf_peers (parse_content c) = ps_peers st"
  using assms by (simp_all add: parse_content_def Let_def)

lemma parse_render:
  assumes "cf_interface (parse_content c) \<noteq> []"
    and "\<forall>p \<in> set peers. safe_peer p \<and> tidy (pc_public_key p)"
  defines "cf \<equiv> parse_content (render_conf (parse_content c) peers)"
  shows "cf_pre cf = cf_pre (parse_content c)" "cf_interface cf = cf_interface (parse_content c)"
    and "map cp_public_key (cf_peers cf) = map pc_public_key peers"
proof -
  let ?pre = "cf_pre (parse_content c)" and ?iface = "cf_interface (parse_content c)"
  obtain ls1 ls2 where sh: "?pre = trim_right_nl (unlines ls1)" "?iface = trim_right_nl (unlines ls2)"
    "pre_lines ls1" "iface_lines ls2" using parse_content_shape[of c] by blast
  obtain ms1 ms2 where ms: "pre_lines ms1" "iface_lines ms2" "ms2 \<noteq> []"
    "(if ?pre \<noteq> [] then ?pre @ [nl] else []) = unlines ms1" "?iface @ [nl] = unlines ms2"
    using preserved_part[OF sh(3,4,1,2) assms(1)] .
  have out: "render_conf (parse_content c) peers = unlines ms1 @ unlines ms2 @ unlines (concat (map peer_lines peers))"
    using ms(4,5) assms(1) by (simp add: render_conf_def)
  have ne: "render_conf (parse_content c) peers \<noteq> []" using assms(1) by (simp add: render_conf_def)
  note re = reparse[OF ms(1,2,3) assms(2)]
  have "trim_right_nl (unlines ms1) = ?pre"
    using ms(4) sh(1) by (cases "?pre = []") (auto simp flip: ms(4))
  moreover have "trim_right_nl (unlines ms2) = ?iface" using sh(2) by (simp flip: ms(5))
  ultimately show "cf_pre cf = ?pre" "cf_interface cf = ?iface"
    "map cp_public_key (cf_peers cf) = map pc_public_key peers"
    using re parse_content_nonempty[OF ne[unfolded out]] by (simp_all add: cf_def out)
qed

lemma fs_call_run [simp]:
  "fs_call e f s = (if next_fault (fs_faults s) then (Inl e, s\<lparr>fs_faults := tl (fs_faults s)\<rparr>)
    else (Inr (), f (s\<lparr>fs_faults := tl (fs_faults s)\<rparr>)))"
  by (simp add: fs_call_def)

definition parsed_file :: "string option \<Rightarrow> conf_file" where
  "parsed_file file = (case file of None \<Rightarrow> \<lparr>cf_pre = [], cf_interface = [], cf_peers = []\<rparr>
                                  | Some c \<Rightarrow> parse_content c)"

lemma parse_conf_cases:
  obtains (err) s' where "parse_conf s = (Inl ReadError, s')" "fs_conf s' = fs_conf s" "fs_tmp s' = fs_tmp s"
  | (ok) s' where "parse_conf s = (Inr (parsed_file (fs_conf s)), s')" "fs_conf s' = fs_conf s" "fs_tmp s' = fs_tmp s"
  by (cases "fs_conf s"; cases "next_fault (fs_faults s)")
    (auto simp: parse_conf_def run_simps thenE_def bindE_def parsed_file_def)

lemma write_conf_outcome:
  "case fst (write_conf peers s) of
     Inl _ \<Rightarrow> fs_conf (snd (write_conf peers s)) = fs_conf s
   | Inr _ \<Rightarrow> fs_conf (snd (write_conf peers s)) = Some (render_conf (parsed_file (fs_conf s)) peers)
            \<and> fs_tmp (snd (write_conf peers s)) = None"
proof (cases s rule: parse_conf_cases)
  case (err s')
  then show ?thesis by (simp add: write_conf_def run_simps)
next
  case (ok s')
  then show ?thesis
    by (simp add: write_conf_def run_simps bindE_def thenE_def split: sum.splits)
qed

lemma write_conf_error_keeps: "write_conf peers s = (Inl e, s') \<Longrightarrow> fs_conf s' = fs_conf s"
  using write_conf_outcome[of peers s] by simp

text \<open>
  C26: WriteConf is atomic under every failure of the file system. When it returns an error
  the configuration file holds what it held before; when it returns nil the file holds the
  complete new text and no temporary file is left.
\<close>

theorem write_conf_atomic:
  "case fst (write_conf peers s) of
     Inl _ \<Rightarrow> fs_conf (snd (write_conf peers s)) = fs_conf s
   | Inr _ \<Rightarrow> fs_conf (snd (write_conf peers s)) = Some (render_conf (parsed_file (fs_conf s)) peers)
            \<and> fs_tmp (snd (write_conf peers s)) = None"
  by (rule write_conf_outcome)


text \<open>
  WriteConf is idempotent. Writing the same peers into the file it has just written
  gives the same bytes again.
\<close>

theorem write_conf_idempotent:
  assumes "cf_interface (parse_content c) \<noteq> []"
    and "\<forall>p \<in> set peers. safe_peer p \<and> tidy (pc_public_key p)"
  shows "render_conf (parse_content (render_conf (parse_content c) peers)) peers
    = render_conf (parse_content c) peers"
  using parse_render(1,2)[OF assms]
  by (simp add: render_conf_def[of "parse_content (render_conf (parse_content c) peers)"])
    (simp add: render_conf_def)

subsection \<open>Disaster recovery reads the metadata back\<close>

lemma trim_right_snoc_cr: "trim_right (l @ [cr]) = trim_right l"
proof -
  have "next_seq (map rev space_seqs) (cr # rev l) = Some [cr]"
    by (simp add: next_seq_def space_seqs_def)
  then show ?thesis by (simp add: trim_right_def strip.simps[of _ "cr # rev l"])
qed

lemma next_seq_snoc_cr: "l \<noteq> [] \<Longrightarrow> next_seq space_seqs (l @ [cr]) = next_seq space_seqs l"
proof -
  assume "l \<noteq> []"
  have "has_prefix q (l @ [cr]) \<longleftrightarrow> has_prefix q l" if "q \<in> set space_seqs" for q
  proof
    assume "has_prefix q (l @ [cr])"
    then obtain t where t: "l @ [cr] = q @ t" by (auto simp: has_prefix_iff)
    show "has_prefix q l"
    proof (cases t rule: rev_cases)
      case Nil
      with t have "cr \<in> set q" by (metis append_Nil2 in_set_conv_decomp)
      with that have "q = [cr]" by (auto simp: space_seqs_def)
      with Nil t \<open>l \<noteq> []\<close> show ?thesis by simp
    next
      case (snoc t' x)
      with t show ?thesis by (auto simp: has_prefix_iff)
    qed
  qed (rule has_prefix_trans_append)
  then show ?thesis unfolding next_seq_def by (intro find_cong) auto
qed

lemma strip_snoc_cr:
  "strip space_seqs (l @ [cr]) = (if strip space_seqs l = [] then [] else strip space_seqs l @ [cr])"
proof (induction "length l" arbitrary: l rule: less_induct)
  case less
  have sole: "strip space_seqs [cr] = []"
    by (simp add: strip.simps[of _ "[cr]"] next_seq_def space_seqs_def)
  show ?case
  proof (cases "l = []")
    case True
    with sole show ?thesis by simp
  next
    case False
    note eq = next_seq_snoc_cr[OF False]
    show ?thesis
    proof (cases "next_seq space_seqs l")
      case None
      with eq False show ?thesis by (simp add: strip_fixI)
    next
      case (Some q)
      then obtain t where q: "l = q @ t" "q \<noteq> []" by (auto dest: next_seq_SomeD)
      from Some q(1) have "strip space_seqs l = strip space_seqs t" by (rule strip_step)
      moreover from Some eq q(1) have "strip space_seqs (l @ [cr]) = strip space_seqs (t @ [cr])"
        by (intro strip_step[of _ _ q]) simp_all
      ultimately show ?thesis using less.hyps[of t] q by simp
    qed
  qed
qed

lemma trim_space_drop_cr [simp]: "trim_space (drop_cr l) = trim_space l"
proof (cases "l \<noteq> [] \<and> last l = cr")
  case True
  then obtain m where "l = m @ [cr]" by (metis append_butlast_last_id)
  then show ?thesis
    using strip_snoc_cr[of m] by (simp add: drop_cr_def trim_space_def trim_left_def trim_right_snoc_cr)
next
  case False
  then show ?thesis by (auto simp: drop_cr_def)
qed

lemma comment_line_drop_cr [simp]: "comment_line st (drop_cr l) = comment_line st l"
  by (simp add: comment_line_def)

lemma foldl_drop_cr: "foldl comment_line st (map drop_cr ls) = foldl comment_line st ls"
  by (induction ls arbitrary: st) simp_all

lemma raw_lines_unlines: "\<forall>l \<in> set ls. nl \<notin> set l \<Longrightarrow> raw_lines (unlines ls) = ls"
  by (simp add: raw_lines_def split_on_unlines)

lemma scan_lines_unlines:
  assumes "\<forall>l \<in> set ls. nl \<notin> set l" "\<not> scan_failed (unlines ls)"
  shows "scan_lines (unlines ls) = map drop_cr ls"
proof -
  have "\<forall>l \<in> set ls. length l < scan_limit"
    using assms by (auto simp: scan_failed_def raw_lines_unlines list_ex_iff)
  then have "takeWhile (\<lambda>l. length l < scan_limit) ls = ls" by (simp add: takeWhile_eq_all_conv)
  then show ?thesis unfolding scan_lines_def raw_lines_unlines[OF assms(1)] by (rule arg_cong)
qed

text \<open>Without pending metadata, a line that is no metadata comment changes nothing.\<close>

definition idle :: "comment_state \<Rightarrow> bool" where
  "idle st \<longleftrightarrow> cs_meta st = no_meta \<and> \<not> cs_has st"

lemma comment_line_idle: "idle st \<Longrightarrow> \<not> meta_comment l \<Longrightarrow> comment_line st l = st"
  by (auto simp: comment_line_def idle_def meta_comment_def Let_def)

lemma foldl_comment_idle:
  "idle st \<Longrightarrow> \<forall>l \<in> set ls. \<not> meta_comment l \<Longrightarrow> foldl comment_line st ls = st"
  by (induction ls arbitrary: st) (simp_all add: comment_line_idle)

definition recovered_meta :: "peer_conf \<Rightarrow> peer_meta" where
  "recovered_meta p =
     \<lparr>pm_name = sanitize_conf_value (pc_friendly_name p),
      pm_created_at = (if pc_created_at p = 0 then [] else rfc3339 (pc_created_at p)),
      pm_notes = sanitize_conf_value (pc_notes p)\<rparr>"

definition recoverable :: "peer_conf \<Rightarrow> bool" where
  "recoverable p \<longleftrightarrow> safe_peer p \<and> tidy (pc_public_key p) \<and>
     tidy (sanitize_conf_value (pc_friendly_name p)) \<and> tidy (sanitize_conf_value (pc_notes p))"

lemma solid_digit: "is_digit c \<Longrightarrow> solid c"
  by (auto simp: is_digit_def solid_def space_seqs_def)

lemma tidy_Nil [simp]: "tidy []"
  by (simp add: tidy_def)

lemma tidy_ends: "solid c \<Longrightarrow> solid d \<Longrightarrow> tidy (c # u @ [d])"
  using trim_right_at_solid[of d "c # u" "[]"] by (simp add: tidy_def trim_left_solid)

lemma pad_digits: "c \<in> set (pad w n) \<Longrightarrow> is_digit c"
  by (auto simp: pad_def is_digit_def dest: dec_digits)

lemma tidy_rfc3339 [simp]: "tidy (rfc3339 t)"
proof -
  obtain y m d where "civil (t div 86400) = (y, m, d)" by (metis prod_cases3)
  moreover obtain c u where "pad 4 y = c # u" by (cases "pad 4 y") (auto simp: pad_def)
  moreover from this have "solid c" by (metis list.set_intros(1) pad_digits solid_digit)
  moreover have "solid (CHR ''Z'')" by (simp add: solid_def space_seqs_def)
  ultimately show ?thesis
    using tidy_ends[of c "CHR ''Z''"] by (simp add: rfc3339_def Let_def) (metis append.assoc append_Cons)
qed

lemma comment_line_meta:
  assumes "tidy v"
  shows "comment_line st (''# wg-sockd:name='' @ v) =
      st\<lparr>cs_meta := (cs_meta st)\<lparr>pm_name := v\<rparr>, cs_has := True\<rparr>"
    "comment_line st (''# wg-sockd:created='' @ v) =
      st\<lparr>cs_meta := (cs_meta st)\<lparr>pm_created_at := v\<rparr>, cs_has := True\<rparr>"
    "comment_line st (''# wg-sockd:notes='' @ v) =
      st\<lparr>cs_meta := (cs_meta st)\<lparr>pm_notes := v\<rparr>, cs_has := True\<rparr>"
proof -
  have key: "trim_space ''name'' = ''name''" "trim_space ''created'' = ''created''" "trim_space ''notes'' = ''notes''"
    by (simp_all add: trim_space_def trim_left_def trim_right_def space_seqs_def strip.simps next_seq_def)
  show "comment_line st (''# wg-sockd:name='' @ v) =
      st\<lparr>cs_meta := (cs_meta st)\<lparr>pm_name := v\<rparr>, cs_has := True\<rparr>"
    using split_n2_sep[of "CHR ''=''" "''name''" v] assms key
    by (simp add: comment_line_def Let_def trim_written[simplified] trim_prefix_def tidyD set_meta_def)
  show "comment_line st (''# wg-sockd:created='' @ v) =
      st\<lparr>cs_meta := (cs_meta st)\<lparr>pm_created_at := v\<rparr>, cs_has := True\<rparr>"
    using split_n2_sep[of "CHR ''=''" "''created''" v] assms key
    by (simp add: comment_line_def Let_def trim_written[simplified] trim_prefix_def tidyD set_meta_def)
  show "comment_line st (''# wg-sockd:notes='' @ v) =
      st\<lparr>cs_meta := (cs_meta st)\<lparr>pm_notes := v\<rparr>, cs_has := True\<rparr>"
    using split_n2_sep[of "CHR ''=''" "''notes''" v] assms key
    by (simp add: comment_line_def Let_def trim_written[simplified] trim_prefix_def tidyD set_meta_def)
qed

lemma sanitize_Nil [simp]: "sanitize_conf_value [] = []"
  by (simp add: sanitize_conf_value_def replace_char_def)

lemma foldl_comment_meta:
  assumes "idle st" "recoverable p"
  shows "foldl comment_line st (meta_lines p) =
    st\<lparr>cs_meta := recovered_meta p, cs_has := meta_lines p \<noteq> []\<rparr>"
  using assms
  by (auto simp: meta_lines_def recoverable_def idle_def recovered_meta_def no_meta_def
      comment_line_meta[simplified])

lemma foldl_comment_peer:
  assumes "idle st" "recoverable p"
  shows "foldl comment_line st (peer_lines p) =
    (if meta_lines p = [] then st
     else st\<lparr>cs_result := (cs_result st)(pc_public_key p \<mapsto> recovered_meta p)\<rparr>)"
proof -
  let ?st1 = "st\<lparr>cs_meta := recovered_meta p, cs_has := meta_lines p \<noteq> []\<rparr>"
  let ?k = "pc_public_key p"
  let ?st2 = "if meta_lines p = [] then st
     else st\<lparr>cs_result := (cs_result st)(?k \<mapsto> recovered_meta p)\<rparr>"
  from assms(2) have k: "tidy ?k" by (simp add: recoverable_def)
  have blank: "comment_line st [] = st"
    by (rule comment_line_idle[OF assms(1)]) (simp add: meta_comment_def)
  have st1: "?st1 = st" if "meta_lines p = []"
  proof -
    have "recovered_meta p = no_meta" using that
      by (auto simp: meta_lines_def recovered_meta_def no_meta_def split: if_splits)
    with that assms(1) show ?thesis by (simp add: idle_def)
  qed
  have "comment_line ?st1 ''[Peer]'' = ?st1"
    using assms(1) st1 by (cases "meta_lines p = []")
      (simp_all add: comment_line_idle meta_comment_def, simp add: comment_line_def Let_def)
  moreover have key: "comment_line ?st1 (''PublicKey = '' @ ?k) = ?st2"
  proof (cases "meta_lines p = []")
    case True
    have "\<not> meta_comment (''PublicKey = '' @ ?k)"
      by (simp add: meta_comment_def trim_written[simplified])
    with True st1 assms(1) show ?thesis by (simp add: comment_line_idle)
  next
    case False
    have "split_n2 (CHR ''='') (trim_space (''PublicKey = '' @ ?k)) = [''PublicKey '', trim_right (sp # ?k)]"
      using split_n2_sep[of "CHR ''=''" "''PublicKey ''" "trim_right (sp # ?k)"]
      by (simp add: trim_written[simplified])
    moreover have "trim_space (trim_right (sp # ?k)) = ?k"
    proof (cases "?k = []")
      case True
      then show ?thesis
        by (simp add: trim_right_def strip.simps[of _ "[sp]"] next_seq_def space_seqs_def)
    next
      case False
      with k show ?thesis by (simp add: trim_right_sp trim_space_sp)
    qed
    ultimately show ?thesis using False assms(1)
      by (simp add: comment_line_def Let_def trim_written[simplified] idle_def no_meta_def)
  qed
  moreover have "idle ?st2" using assms(1) by (simp add: idle_def)
  then have "foldl comment_line ?st2 (body_lines p) = ?st2"
    by (rule foldl_comment_idle)
      (auto simp: body_lines_def meta_comment_def trim_written[simplified] split: if_splits)
  ultimately show ?thesis
    using blank foldl_comment_meta[OF assms] by (simp add: peer_lines_def del: append.simps add: append_Cons append_Nil)
qed

lemma foldl_comment_peers:
  assumes "idle st" "\<forall>p \<in> set ps. recoverable p"
  shows "foldl comment_line st (concat (map peer_lines ps)) =
    st\<lparr>cs_result := cs_result st ++ map_of (rev (map (\<lambda>p. (pc_public_key p, recovered_meta p))
        (filter (\<lambda>p. meta_lines p \<noteq> []) ps)))\<rparr>"
  using assms
proof (induction ps arbitrary: st)
  case Nil
  then show ?case by simp
next
  case (Cons p ps)
  let ?st = "foldl comment_line st (peer_lines p)"
  have "idle ?st" using Cons.prems by (simp add: foldl_comment_peer) (simp add: idle_def)
  with Cons show ?case
    by (simp add: foldl_comment_peer idle_def map_add_upd)
qed

lemma comments_of_render:
  assumes "cf_interface (parse_content c) \<noteq> []"
    and "\<forall>l \<in> set (split_on nl (cf_pre (parse_content c))). \<not> meta_comment l"
    and "\<forall>p \<in> set peers. recoverable p"
    and "\<not> scan_failed (render_conf (parse_content c) peers)"
  shows "fst (parse_conf_comments (render_conf (parse_content c) peers)) =
    map_of (rev (map (\<lambda>p. (pc_public_key p, recovered_meta p)) (filter (\<lambda>p. meta_lines p \<noteq> []) peers)))"
proof -
  let ?pre = "cf_pre (parse_content c)" and ?iface = "cf_interface (parse_content c)"
  obtain ls1 ls2 where sh: "?pre = trim_right_nl (unlines ls1)" "?iface = trim_right_nl (unlines ls2)"
    "pre_lines ls1" "iface_lines ls2" using parse_content_shape[of c] by blast
  obtain ms1 ms2 where ms: "pre_lines ms1" "iface_lines ms2" "ms2 \<noteq> []"
    "(if ?pre \<noteq> [] then ?pre @ [nl] else []) = unlines ms1" "?iface @ [nl] = unlines ms2"
    using preserved_part[OF sh(3,4,1,2) assms(1)] .
  let ?ls = "ms1 @ ms2 @ concat (map peer_lines peers)"
  have out: "render_conf (parse_content c) peers = unlines ?ls"
    using ms(4,5) assms(1) by (simp add: render_conf_def)
  have safe: "\<forall>p \<in> set peers. safe_peer p" using assms(3) by (simp add: recoverable_def)
  have nls: "\<forall>l \<in> set ?ls. nl \<notin> set l"
    using ms(1,2) safe safe_peer_lines by (fastforce simp: pre_lines_def iface_lines_def)
  have pre: "\<forall>l \<in> set ms1. \<not> meta_comment l"
  proof (cases "?pre = []")
    case True
    with ms(4) show ?thesis by (cases ms1) auto
  next
    case False
    then have "split_on nl (?pre @ [nl]) = ms1 @ [[]]"
      using ms(1,4) by (simp add: split_on_unlines pre_lines_def)
    moreover have "split_on nl (?pre @ [nl]) = split_on nl ?pre @ [[]]"
      using split_on_append_sep[of nl ?pre "[]"] by simp
    ultimately show ?thesis using assms(2) by simp
  qed
  have "foldl comment_line comment_init (ms1 @ ms2) = comment_init"
    by (rule foldl_comment_idle) (use pre ms(2) in \<open>auto simp: idle_def comment_init_def iface_lines_def\<close>)
  then have "foldl comment_line comment_init ?ls = foldl comment_line comment_init (concat (map peer_lines peers))"
    by simp
  moreover have "idle comment_init" by (simp add: idle_def comment_init_def)
  ultimately show ?thesis
    using assms(3,4) nls foldl_comment_peers[of comment_init peers]
    unfolding out parse_conf_comments_def
    by (simp add: scan_lines_unlines foldl_drop_cr del: unlines_append set_append)
      (simp add: comment_init_def)
qed

text \<open>
  C25: the metadata comments are a faithful backup. For a file with an [Interface] section
  and no stray metadata comments in front of it, and peers with distinct keys, the comments
  of the written file give back, for every peer that has metadata, its (sanitised) name,
  creation time and notes under its public key, and nothing else - unless a line is too
  long for the scanner.
\<close>

theorem comments_roundtrip:
  assumes "cf_interface (parse_content c) \<noteq> []"
    and "\<forall>l \<in> set (split_on nl (cf_pre (parse_content c))). \<not> meta_comment l"
    and "\<forall>p \<in> set peers. recoverable p" and "distinct (map pc_public_key peers)"
    and "\<not> scan_failed (render_conf (parse_content c) peers)"
  shows "parse_conf_comments (render_conf (parse_content c) peers) =
    (map_of (map (\<lambda>p. (pc_public_key p, recovered_meta p)) (filter (\<lambda>p. meta_lines p \<noteq> []) peers)), False)"
proof -
  let ?f = "map (\<lambda>p. (pc_public_key p, recovered_meta p)) (filter (\<lambda>p. meta_lines p \<noteq> []) peers)"
  have "distinct (map fst ?f)" using distinct_map_filter[OF assms(4)] by (simp add: comp_def)
  then have "map_of (rev ?f) = map_of ?f"
    by (subst map_of_inject_set) (simp_all add: rev_map [symmetric] del: map_map)
  then show ?thesis
    using comments_of_render[OF assms(1,2,3,5)] assms(5) by (simp add: parse_conf_comments_def)
qed

subsection \<open>Closed instances\<close>

definition sample_conf :: string where
  "sample_conf = unlines [''# server'', ''[Interface]'', ''ListenPort = 51820'', ''[Peer]'', ''PublicKey = old'']"

definition sample_peer :: peer_conf where
  "sample_peer = \<lparr>pc_public_key = ''key1='', pc_allowed_ips = ''10.0.0.2/32'', pc_preshared_key = [],
     pc_friendly_name = ''phone'', pc_created_at = 63839664000, pc_notes = [], pc_endpoint = [],
     pc_persistent_keepalive = 25\<rparr>"

lemma sample_created: "rfc3339 63839664000 = ''2024-01-01T00:00:00Z''"
  by (simp add: rfc3339_def civil_def pad_def dec.simps Let_def)

definition sample_lines :: "string list" where
  "sample_lines = [[], ''# wg-sockd:name=phone'', ''# wg-sockd:created=2024-01-01T00:00:00Z'',
     ''[Peer]'', ''PublicKey = key1='', ''AllowedIPs = 10.0.0.2/32'', ''PersistentKeepalive = 25'']"

lemma sample_peer_lines: "peer_lines sample_peer = sample_lines"
proof -
  have "sanitize_conf_value ''phone'' = ''phone''" "itoa 25 = ''25''" by code_simp+
  then show ?thesis
    by (simp add: peer_lines_def meta_lines_def body_lines_def sample_peer_def sample_created sample_lines_def)
qed

lemma sample_interface: "cf_interface (parse_content sample_conf) \<noteq> []"
  by code_simp

lemma sample_pre: "\<forall>l \<in> set (split_on nl (cf_pre (parse_content sample_conf))). \<not> meta_comment l"
  by code_simp

lemma sample_rendered:
  "render_conf (parse_content sample_conf) [sample_peer] =
     unlines ([''# server'', ''[Interface]'', ''ListenPort = 51820''] @ sample_lines)"
proof -
  have "cf_pre (parse_content sample_conf) = ''# server''"
    "cf_interface (parse_content sample_conf) = ''[Interface]'' @ nl # ''ListenPort = 51820''" by code_simp+
  then show ?thesis by (simp add: render_conf_def sample_peer_lines)
qed

lemma sample_peer_recoverable: "recoverable sample_peer"
proof -
  have "tidy ''key1=''" "tidy (sanitize_conf_value ''phone'')" by code_simp+
  then show ?thesis by (simp add: recoverable_def safe_peer_def sample_peer_def)
qed

lemma sample_scan: "\<not> scan_failed (render_conf (parse_content sample_conf) [sample_peer])"
  unfolding sample_rendered scan_failed_def
  by (subst raw_lines_unlines) (simp_all add: sample_lines_def scan_limit_def)

lemma sample_safe: "\<forall>p \<in> set [sample_peer]. safe_peer p \<and> tidy (pc_public_key p)"
  using sample_peer_recoverable by (simp add: recoverable_def)


theorem write_conf_idempotent_witness:
  "render_conf (parse_content (render_conf (parse_content sample_conf) [sample_peer])) [sample_peer]
    = render_conf (parse_content sample_conf) [sample_peer]"
  by (rule write_conf_idempotent[OF sample_interface sample_safe])

theorem comments_roundtrip_witness:
  "fst (parse_conf_comments (render_conf (parse_content sample_conf) [sample_peer])) ''key1='' =
    Some \<lparr>pm_name = ''phone'', pm_created_at = ''2024-01-01T00:00:00Z'', pm_notes = []\<rparr>"
proof -
  have "sanitize_conf_value ''phone'' = ''phone''" by code_simp
  then have "recovered_meta sample_peer =
      \<lparr>pm_name = ''phone'', pm_created_at = ''2024-01-01T00:00:00Z'', pm_notes = []\<rparr>"
    by (simp add: recovered_meta_def sample_peer_def sample_created)
  moreover have "meta_lines sample_peer \<noteq> []" by (simp add: meta_lines_def sample_peer_def)
  moreover have "pc_public_key sample_peer = ''key1=''" by (simp add: sample_peer_def)
  ultimately show ?thesis
    using comments_roundtrip[OF sample_interface sample_pre _ _ sample_scan] sample_peer_recoverable by simp
qed

text \<open>
  without an [Interface] section (a missing or emptied file) WriteConf is not stable.
  The metadata comments of the first peer are read back as comments in front of the file
  and written again, so a second write of the same peers duplicates them.
\<close>

theorem write_conf_without_interface_accumulates:
  "let once = render_conf (parsed_file None) [sample_peer];
       twice = render_conf (parse_content once) [sample_peer]
   in cf_pre (parse_content once) \<noteq> [] \<and> length once < length twice
      \<and> length (filter meta_comment (split_on nl once)) = 2
      \<and> length (filter meta_comment (split_on nl twice)) = 4"
proof -
  have once: "render_conf (parsed_file None) [sample_peer] = unlines sample_lines"
    by (simp add: render_conf_def parsed_file_def sample_peer_lines)
  have pre: "cf_pre (parse_content (unlines sample_lines)) =
      nl # ''# wg-sockd:name=phone'' @ nl # ''# wg-sockd:created=2024-01-01T00:00:00Z''"
    "cf_interface (parse_content (unlines sample_lines)) = []" by code_simp+
  then have twice: "render_conf (parse_content (unlines sample_lines)) [sample_peer] =
      unlines (take 3 sample_lines @ sample_lines)"
    by (simp add: render_conf_def sample_peer_lines) (simp add: sample_lines_def)
  have "length (filter meta_comment (split_on nl (unlines sample_lines))) = 2"
    "length (filter meta_comment (split_on nl (unlines (take 3 sample_lines @ sample_lines)))) = 4"
    by code_simp+
  then show ?thesis
    unfolding once Let_def twice using pre by (simp add: sample_lines_def)
qed

end
