(* ===== verification/GoNet.thy ===== *)
theory GoNet
  imports GoStrings "HOL-Library.Word"
begin

text \<open>
  The parts of Go's packages \<open>net\<close> and \<open>net/netip\<close> that the repository calls: parsing of
  addresses, prefixes and CIDRs (IPv4, IPv6 with ellipsis, embedded IPv4 and zone), printing
  of addresses, masks and \<open>SplitHostPort\<close>. IPv4 addresses are 32-bit words, IPv6 addresses
  128-bit words; \<open>net.IP\<close> is the 16-byte form, an IPv4 address being mapped into it.
\<close>

unbundle bit_operations_syntax

type_synonym ipv4 = "32 word"
type_synonym ipv6 = "128 word"

datatype addr = Addr4 ipv4 | Addr6 ipv6 string

subsection \<open>Parsing addresses\<close>

definition octet :: "string \<Rightarrow> nat option" where
  "octet f =
     (if f \<noteq> [] \<and> list_all is_digit f \<and> (length f = 1 \<or> hd f \<noteq> CHR ''0'') \<and> length f \<le> 3 \<and> dec_val f \<le> 255
      then Some (dec_val f) else None)"

definition ip4_of_octets :: "nat \<Rightarrow> nat \<Rightarrow> nat \<Rightarrow> nat \<Rightarrow> ipv4" where
  "ip4_of_octets a b c d = word_of_nat (((a * 256 + b) * 256 + c) * 256 + d)"

definition parse_ipv4_fields :: "string \<Rightarrow> (nat \<times> nat \<times> nat \<times> nat) option" where
  "parse_ipv4_fields s =
     (case split_on (CHR ''.'') s of
        [a, b, c, d] \<Rightarrow>
          (case (octet a, octet b, octet c, octet d) of
             (Some a, Some b, Some c, Some d) \<Rightarrow> Some (a, b, c, d)
           | _ \<Rightarrow> None)
      | _ \<Rightarrow> None)"

definition parse_ipv4 :: "string \<Rightarrow> ipv4 option" where
  "parse_ipv4 s = map_option (\<lambda>(a, b, c, d). ip4_of_octets a b c d) (parse_ipv4_fields s)"

definition hex_digit :: "char \<Rightarrow> nat option" where
  "hex_digit c =
     (let n = (of_char c :: nat) in
      if 48 \<le> n \<and> n \<le> 57 then Some (n - 48)
      else if 97 \<le> n \<and> n \<le> 102 then Some (n - 87)
      else if 65 \<le> n \<and> n \<le> 70 then Some (n - 55) else None)"

definition is_hex :: "char \<Rightarrow> bool" where
  "is_hex c \<longleftrightarrow> hex_digit c \<noteq> None"

definition hex_val :: "string \<Rightarrow> nat" where
  "hex_val s = foldl (\<lambda>a c. 16 * a + the (hex_digit c)) 0 s"

text \<open>
  The group loop of \<open>netip.parseIPv6\<close>: the 16-bit groups read so far, the position of the
  ellipsis (counted in groups) and the rest of the text.
\<close>

function ip6_groups :: "nat list \<Rightarrow> nat option \<Rightarrow> string \<Rightarrow> (nat list \<times> nat option) option" where
  "ip6_groups acc ell s =
     (if 8 \<le> length acc then (if s = [] then Some (acc, ell) else None)
      else
        let ds = takeWhile is_hex s; rest = dropWhile is_hex s in
        if ds = [] \<or> 4 < length ds then None
        else if rest \<noteq> [] \<and> hd rest = CHR ''.'' then
          (if ell = None \<and> length acc \<noteq> 6 \<or> 8 < length acc + 2 then None
           else case parse_ipv4_fields s of
                  None \<Rightarrow> None
                | Some (a, b, c, d) \<Rightarrow> Some (acc @ [a * 256 + b, c * 256 + d], ell))
        else
          let acc = acc @ [hex_val ds] in
          (case rest of
             [] \<Rightarrow> Some (acc, ell)
           | c # s1 \<Rightarrow>
               if c \<noteq> CHR '':'' then None
               else (case s1 of
                       [] \<Rightarrow> None
                     | c1 # s2 \<Rightarrow>
                         if c1 = CHR '':'' then
                           (if ell \<noteq> None then None
                            else if s2 = [] then Some (acc, Some (length acc))
                            else ip6_groups acc (Some (length acc)) s2)
                         else ip6_groups acc ell s1)))"
  by pat_completeness auto
termination
proof (relation "measure (\<lambda>(acc, ell, s). length s)", goal_cases)
  case (2 acc ell s ds rest acc' c s1 c1 s2)
  then have "length (dropWhile is_hex s) = Suc (Suc (length s2))" by (metis length_Cons)
  moreover have "length (dropWhile is_hex s) \<le> length s" by (simp add: length_dropWhile_le)
  ultimately show ?case by simp
next
  case (3 acc ell s ds rest acc' c s1 c1 s2)
  then have "length (dropWhile is_hex s) = Suc (length s1)" by (metis length_Cons)
  moreover have "length (dropWhile is_hex s) \<le> length s" by (simp add: length_dropWhile_le)
  ultimately show ?case by simp
qed simp

declare ip6_groups.simps [simp del]

definition ip6_of_groups :: "nat list \<Rightarrow> ipv6" where
  "ip6_of_groups gs = word_of_nat (foldl (\<lambda>a g. a * 65536 + g) 0 gs)"

definition expand_ellipsis :: "nat list \<times> nat option \<Rightarrow> nat list option" where
  "expand_ellipsis r =
     (case r of (gs, ell) \<Rightarrow>
        if length gs < 8 then
          (case ell of None \<Rightarrow> None
           | Some e \<Rightarrow> Some (take e gs @ replicate (8 - length gs) 0 @ drop e gs))
        else if ell \<noteq> None then None else Some gs)"

definition parse_ipv6 :: "string \<Rightarrow> addr option" where
  "parse_ipv6 t =
     (let s = takeWhile (\<lambda>c. c \<noteq> CHR ''%'') t; zone = tl (dropWhile (\<lambda>c. c \<noteq> CHR ''%'') t) in
      if CHR ''%'' \<in> set t \<and> zone = [] then None
      else if s = ''::'' then Some (Addr6 0 zone)
      else
        (case (if has_prefix ''::'' s then ip6_groups [] (Some 0) (drop 2 s) else ip6_groups [] None s) of
           None \<Rightarrow> None
         | Some r \<Rightarrow> map_option (\<lambda>gs. Addr6 (ip6_of_groups gs) zone) (expand_ellipsis r)))"

definition parse_addr :: "string \<Rightarrow> addr option" where
  "parse_addr s =
     (case find (\<lambda>c. c = CHR ''.'' \<or> c = CHR '':'' \<or> c = CHR ''%'') s of
        None \<Rightarrow> None
      | Some c \<Rightarrow>
          if c = CHR ''.'' then map_option Addr4 (parse_ipv4 s)
          else if c = CHR '':'' then parse_ipv6 s else None)"

subsection \<open>netip.ParsePrefix and net.ParseCIDR\<close>

definition mask4 :: "nat \<Rightarrow> ipv4 \<Rightarrow> ipv4" where
  "mask4 n w = push_bit (32 - n) (drop_bit (32 - n) w)"

definition mask6 :: "nat \<Rightarrow> ipv6 \<Rightarrow> ipv6" where
  "mask6 n w = push_bit (128 - n) (drop_bit (128 - n) w)"

fun prefix_len :: "addr \<Rightarrow> nat" where
  "prefix_len (Addr4 _) = 32"
| "prefix_len (Addr6 _ _) = 128"

definition split_last :: "char \<Rightarrow> string \<Rightarrow> (string \<times> string) option" where
  "split_last c s =
     (if c \<in> set s then
        (let r = rev s in Some (rev (tl (dropWhile (\<lambda>x. x \<noteq> c) r)), rev (takeWhile (\<lambda>x. x \<noteq> c) r)))
      else None)"

definition parse_prefix :: "string \<Rightarrow> (addr \<times> nat) option" where
  "parse_prefix s =
     (case split_last (CHR ''/'') s of
        None \<Rightarrow> None
      | Some (a, bits) \<Rightarrow>
          (case parse_addr a of
             None \<Rightarrow> None
           | Some ip \<Rightarrow>
               if (case ip of Addr6 _ z \<Rightarrow> z \<noteq> [] | Addr4 _ \<Rightarrow> False) then None
               else if 1 < length bits \<and> (hd bits = CHR ''0'' \<or> \<not> is_digit (hd bits)) then None
               else (case parse_int64 bits of
                       None \<Rightarrow> None
                     | Some n \<Rightarrow> if 0 \<le> n \<and> n \<le> int (prefix_len ip) then Some (ip, nat n) else None)))"

fun masked :: "addr \<times> nat \<Rightarrow> addr \<times> nat" where
  "masked (Addr4 w, n) = (Addr4 (mask4 n w), n)"
| "masked (Addr6 w z, n) = (Addr6 (mask6 n w) z, n)"

text \<open>\<open>net.IP\<close> in its 16-byte form, and \<open>net.IPNet\<close>.\<close>

datatype ipnet = Net4 ipv4 nat | Net6 ipv6 nat

definition ip_of_v4 :: "ipv4 \<Rightarrow> ipv6" where
  "ip_of_v4 w = push_bit 32 0xFFFF OR ucast w"

definition ip_to4 :: "ipv6 \<Rightarrow> ipv4 option" where
  "ip_to4 w = (if drop_bit 32 w = 0xFFFF then Some (ucast w) else None)"

definition split_first :: "char \<Rightarrow> string \<Rightarrow> (string \<times> string) option" where
  "split_first c s =
     (if c \<in> set s then Some (takeWhile (\<lambda>x. x \<noteq> c) s, tl (dropWhile (\<lambda>x. x \<noteq> c) s)) else None)"

definition parse_cidr :: "string \<Rightarrow> (ipv6 \<times> ipnet) option" where
  "parse_cidr s =
     (case split_first (CHR ''/'') s of
        None \<Rightarrow> None
      | Some (a, m) \<Rightarrow>
          (case parse_addr a of
             None \<Rightarrow> None
           | Some (Addr4 w) \<Rightarrow>
               if m \<noteq> [] \<and> list_all is_digit m \<and> dec_val m \<le> 32
               then Some (ip_of_v4 w, Net4 (mask4 (dec_val m) w) (dec_val m)) else None
           | Some (Addr6 w z) \<Rightarrow>
               if z = [] \<and> m \<noteq> [] \<and> list_all is_digit m \<and> dec_val m \<le> 128
               then Some (w, Net6 (mask6 (dec_val m) w) (dec_val m)) else None))"

subsection \<open>Printing addresses\<close>

definition dotted :: "ipv4 \<Rightarrow> string" where
  "dotted w = dec (unat (drop_bit 24 w AND 255)) @ ''.'' @ dec (unat (drop_bit 16 w AND 255)) @ ''.'' @
     dec (unat (drop_bit 8 w AND 255)) @ ''.'' @ dec (unat (w AND 255))"

definition hex_char :: "nat \<Rightarrow> char" where
  "hex_char d = (if d < 10 then char_of (48 + d) else char_of (87 + d))"

fun hex :: "nat \<Rightarrow> string" where
  "hex n = (if n < 16 then [hex_char n] else hex (n div 16) @ [hex_char (n mod 16)])"

declare hex.simps [simp del]

definition groups_of :: "ipv6 \<Rightarrow> nat list" where
  "groups_of w = map (\<lambda>i. unat (drop_bit (112 - 16 * i) w AND 0xFFFF)) [0..<8]"

text \<open>The longest run of at least two zero groups, the first one on a tie.\<close>

definition zero_run :: "nat list \<Rightarrow> nat \<Rightarrow> nat" where
  "zero_run gs i = length (takeWhile (\<lambda>g. g = 0) (drop i gs))"

definition best_run :: "nat list \<Rightarrow> (nat \<times> nat) option" where
  "best_run gs = foldl (\<lambda>best i. let l = zero_run gs i in
     if 2 \<le> l \<and> (case best of None \<Rightarrow> True | Some (s, e) \<Rightarrow> e - s < l) then Some (i, i + l) else best) None [0..<8]"

definition ip6_string :: "ipv6 \<Rightarrow> string" where
  "ip6_string w =
     (let gs = groups_of w in
      case best_run gs of
        None \<Rightarrow> join '':'' (map hex gs)
      | Some (s, e) \<Rightarrow> join '':'' (map hex (take s gs)) @ ''::'' @ join '':'' (map hex (drop e gs)))"

text \<open>\<open>net.IP.String\<close>: dotted for an IPv4-mapped address, RFC 5952 otherwise.\<close>

definition ip_string :: "ipv6 \<Rightarrow> string" where
  "ip_string w = (case ip_to4 w of Some v \<Rightarrow> dotted v | None \<Rightarrow> ip6_string w)"

text \<open>\<open>netip.Prefix.String\<close>: an IPv4-mapped IPv6 address keeps its \<open>::ffff:\<close>.\<close>

definition addr_string :: "addr \<Rightarrow> string" where
  "addr_string a =
     (case a of
        Addr4 w \<Rightarrow> dotted w
      | Addr6 w z \<Rightarrow>
          (case ip_to4 w of Some v \<Rightarrow> ''::ffff:'' @ dotted v | None \<Rightarrow> ip6_string w) @
          (if z = [] then [] else CHR ''%'' # z))"

definition prefix_string :: "addr \<times> nat \<Rightarrow> string" where
  "prefix_string p = addr_string (fst p) @ ''/'' @ dec (snd p)"

subsection \<open>net.SplitHostPort\<close>

definition split_host_port :: "string \<Rightarrow> (string \<times> string) option" where
  "split_host_port hp =
     (case split_last (CHR '':'') hp of
        None \<Rightarrow> None
      | Some (before, port) \<Rightarrow>
          if hd hp = CHR ''['' then
            (if CHR '']'' \<in> set hp \<and> takeWhile (\<lambda>c. c \<noteq> CHR '']'') hp @ '']'' = before
                \<and> CHR ''['' \<notin> set (tl hp) \<and> CHR '']'' \<notin> set port
             then Some (tl (takeWhile (\<lambda>c. c \<noteq> CHR '']'') hp), port) else None)
          else if CHR '':'' \<in> set before \<or> CHR ''['' \<in> set hp \<or> CHR '']'' \<in> set hp then None
          else Some (before, port))"

subsection \<open>Laws\<close>

lemma dec_hd_nonzero: "0 < n \<Longrightarrow> hd (dec n) \<noteq> CHR ''0''"
proof (induction n rule: dec.induct)
  case (1 n)
  show ?case
  proof (cases "n < 10")
    case True
    with 1 have "n \<in> {1,2,3,4,5,6,7,8,9}" by auto
    then show ?thesis by (auto simp: dec.simps[of n])
  next
    case False
    with 1 have "hd (dec (n div 10)) \<noteq> CHR ''0''" by simp
    with False show ?thesis by (simp add: dec.simps[of n])
  qed
qed

lemma length_dec_le_3: "n < 1000 \<Longrightarrow> length (dec n) \<le> 3"
  by (simp add: dec.simps[of n] dec.simps[of "n div 10"] dec.simps[of "n div 10 div 10"])

lemma dec_all_digits [simp]: "list_all is_digit (dec n)"
  by (auto simp: list_all_iff dest: dec_digits)

lemma octet_dec: "n < 256 \<Longrightarrow> octet (dec n) = Some n"
  using dec_hd_nonzero[of n] length_dec_le_3[of n]
  by (cases "n = 0") (auto simp: octet_def, simp add: dec.simps)

lemma dot_notin_dec: "\<not> is_digit c \<Longrightarrow> c \<notin> set (dec n)"
  by (blast dest: dec_digits)

lemma not_digits: "\<not> is_digit CHR ''.''" "\<not> is_digit CHR ''/''" "\<not> is_digit CHR '':''"
  "\<not> is_digit CHR ''%''" "\<not> is_digit CHR '',''"
  by code_simp+

text \<open>The decimal prefix of a concatenation is read back up to the separator.\<close>

lemma split_on_dec_sep:
  "\<not> is_digit c \<Longrightarrow> split_on c (dec n @ c # s) = dec n # split_on c s"
  by (simp add: split_on_append_sep split_on_sep_free dot_notin_dec)

lemma parse_ipv4_fields_dec:
  assumes "a < 256" "b < 256" "c < 256" "d < 256"
  shows "parse_ipv4_fields (dec a @ ''.'' @ dec b @ ''.'' @ dec c @ ''.'' @ dec d) = Some (a, b, c, d)"
  using assms by (simp add: parse_ipv4_fields_def split_on_dec_sep split_on_sep_free dot_notin_dec
      not_digits octet_dec)

lemma unat_low_octet: "unat ((x :: ipv4) AND 255) = unat x mod 256"
proof -
  have "(x AND 255) = take_bit 8 x" by (simp add: take_bit_eq_mask mask_eq_exp_minus_1)
  then have "unat (x AND 255) = take_bit 8 (unat x)" by (simp only: unsigned_take_bit_eq)
  then show ?thesis by (simp add: take_bit_eq_mod)
qed

lemma unat_drop_bit: "unat (drop_bit k (w :: 'a :: len word)) = unat w div 2 ^ k"
proof -
  have "take_bit LENGTH('a) (unat w) = unat w" by (rule take_bit_nat_eq_self) (rule unsigned_less)
  then have "unat (drop_bit k w) = drop_bit k (unat w)" by (simp only: unsigned_drop_bit_eq)
  also have "\<dots> = unat w div 2 ^ k" by (rule drop_bit_eq_div)
  finally show ?thesis .
qed

lemma base_256_digits:
  fixes n :: nat
  assumes "n < 4294967296"
  shows "((n div 16777216 mod 256 * 256 + n div 65536 mod 256) * 256 + n div 256 mod 256) * 256
    + n mod 256 = n"
proof -
  have 1: "n div 65536 = n div 256 div 256" "n div 16777216 = n div 256 div 256 div 256"
    by (simp_all flip: div_mult2_eq)
  have "n div 256 div 256 div 256 < 256" using assms by (simp add: less_mult_imp_div_less)
  then show ?thesis unfolding 1 by (simp add: div_mod_decomp)
qed

lemma octets_of_ip4:
  "ip4_of_octets (unat (drop_bit 24 w AND 255)) (unat (drop_bit 16 w AND 255))
     (unat (drop_bit 8 w AND 255)) (unat (w AND 255)) = w"
proof -
  have "unat w < 4294967296" using unsigned_less[of w] by simp
  note base = base_256_digits[OF this]
  have pow: "(2::nat) ^ 24 = 16777216" "(2::nat) ^ 16 = 65536" "(2::nat) ^ 8 = 256" by simp_all
  show ?thesis unfolding ip4_of_octets_def unat_low_octet unat_drop_bit pow base by simp
qed

lemma octet_bound: "unat ((x :: ipv4) AND 255) < 256"
  by (simp add: unat_low_octet)

lemma parse_ipv4_dotted [simp]: "parse_ipv4 (dotted w) = Some w"
  by (simp add: parse_ipv4_def dotted_def parse_ipv4_fields_dec[simplified] octet_bound octets_of_ip4)

lemma find_append: "find P (xs @ ys) = (case find P xs of None \<Rightarrow> find P ys | Some x \<Rightarrow> Some x)"
  by (induction xs) auto

lemma find_dec: "(\<And>c. is_digit c \<Longrightarrow> \<not> P c) \<Longrightarrow> find P (dec n) = None"
  by (auto simp: find_None_iff dest: dec_digits)

lemma parse_addr_dotted [simp]: "parse_addr (dotted w) = Some (Addr4 w)"
proof -
  have "find (\<lambda>c. c = CHR ''.'' \<or> c = CHR '':'' \<or> c = CHR ''%'') (dec n @ CHR ''.'' # s) = Some CHR ''.''" for n s
    by (subst find_append, subst find_dec) (use not_digits in auto)
  then have "find (\<lambda>c. c = CHR ''.'' \<or> c = CHR '':'' \<or> c = CHR ''%'') (dotted w) = Some CHR ''.''"
    by (simp add: dotted_def)
  then show ?thesis by (simp add: parse_addr_def)
qed

lemma dotted_chars: "c \<in> set (dotted w) \<Longrightarrow> is_digit c \<or> c = CHR ''.''"
  by (auto simp: dotted_def dest: dec_digits)

lemma slash_notin_dotted [simp]: "CHR ''/'' \<notin> set (dotted w)"
  using dotted_chars not_digits by fastforce

lemma takeWhile_upto: "x \<notin> set p \<Longrightarrow> takeWhile (\<lambda>y. y \<noteq> x) (p @ x # q) = p"
  by (induction p) auto

lemma dropWhile_upto: "x \<notin> set p \<Longrightarrow> dropWhile (\<lambda>y. y \<noteq> x) (p @ x # q) = x # q"
  by (induction p) auto

lemma split_last_sep: "c \<notin> set q \<Longrightarrow> split_last c (p @ c # q) = Some (p, q)"
  by (simp add: split_last_def takeWhile_upto dropWhile_upto)

lemma split_first_sep: "c \<notin> set p \<Longrightarrow> split_first c (p @ c # q) = Some (p, q)"
  by (simp add: split_first_def takeWhile_upto dropWhile_upto)

lemma parse_int64_dec: "n < 2 ^ 63 \<Longrightarrow> parse_int64 (dec n) = Some (int n)"
proof -
  assume n: "n < 2 ^ 63"
  obtain c r where cr: "dec n = c # r" by (cases "dec n") auto
  then have "is_digit c" by (metis dec_digits list.set_intros(1))
  then have "c \<noteq> CHR ''-''" "c \<noteq> CHR ''+''" by (auto simp: is_digit_def)
  moreover have "int n < 2 ^ 63" using n by simp
  ultimately show ?thesis
    using cr dec_all_digits[of n] dec_val_dec[of n] by (simp add: parse_int64_def)
qed

lemma parse_prefix_dotted:
  assumes "n \<le> 32"
  shows "parse_prefix (dotted w @ CHR ''/'' # dec n) = Some (Addr4 w, n)"
proof -
  have slash: "CHR ''/'' \<notin> set (dec n)" by (simp add: dot_notin_dec not_digits)
  have hd: "\<not> (1 < length (dec n) \<and> (hd (dec n) = CHR ''0'' \<or> \<not> is_digit (hd (dec n))))"
    using dec_hd_nonzero[of n] dec_digits[of "hd (dec n)" n] by (cases "n = 0") (auto simp: dec.simps[of 0])
  have "parse_int64 (dec n) = Some (int n)" using assms by (intro parse_int64_dec) simp
  with assms hd show ?thesis by (simp add: parse_prefix_def split_last_sep slash)
qed

lemma parse_cidr_dotted:
  assumes "n \<le> 32"
  shows "parse_cidr (dotted w @ CHR ''/'' # dec n) = Some (ip_of_v4 w, Net4 (mask4 n w) n)"
  using assms by (simp add: parse_cidr_def split_first_sep)

lemma mapped_low: "(ucast (push_bit 32 h OR (ucast w :: ipv6)) :: ipv4) = w"
  by (rule bit_word_eqI) (auto simp: bit_simps)

lemma mapped_high: "drop_bit 32 (push_bit 32 h OR (ucast (w :: ipv4) :: ipv6)) = take_bit 96 h"
  by (rule bit_word_eqI) (auto simp: bit_simps dest: bit_imp_le_length)

lemma ip_to4_of_v4 [simp]: "ip_to4 (ip_of_v4 w) = Some w"
  unfolding ip_to4_def ip_of_v4_def mapped_high mapped_low by simp

lemma ip_string_v4 [simp]: "ip_string (ip_of_v4 w) = dotted w"
  by (simp add: ip_string_def)

lemma dotted_inject [simp]: "dotted v = dotted w \<longleftrightarrow> v = w"
  by (metis option.inject parse_ipv4_dotted)

end
