(* ===== verification/Wireguard.thy ===== *)
theory Wireguard
  imports GoNet "HOL-Library.AList"
begin

text \<open>
  Package \<open>wireguard\<close>: key text (\<open>ParseKey\<close>), IPv6 derivation (\<open>DeriveIPv6\<close>), the allowed-IP
  computation (\<open>ComputeAllowedIPs\<close>), the \<open>WireGuardClient\<close> interface with its contract, and its
  two implementations, the in-memory \<open>DevClient\<close> and the netlink \<open>WgctrlClient\<close>.
\<close>

unbundle bit_operations_syntax

subsection \<open>Keys and base64 (client.go)\<close>

text \<open>A \<open>wgtypes.Key\<close> is an array of 32 bytes; the predicate below says a byte string is one.\<close>

type_synonym wgkey = string

definition is_key :: "wgkey \<Rightarrow> bool" where
  "is_key k \<longleftrightarrow> length k = 32"

text \<open>The standard alphabet of \<open>encoding/base64\<close> and its decoder, which skips CR and LF.\<close>

definition b64_alphabet :: string where
  "b64_alphabet = ''ABCDEFGHIJKLMNOPQRSTUVWXYZabcdefghijklmnopqrstuvwxyz0123456789+/''"

definition b64_char :: "nat \<Rightarrow> char" where
  "b64_char n = b64_alphabet ! n"

definition b64_val :: "char \<Rightarrow> nat option" where
  "b64_val c =
     (let n = (of_char c :: nat) in
      if 65 \<le> n \<and> n \<le> 90 then Some (n - 65)
      else if 97 \<le> n \<and> n \<le> 122 then Some (n - 71)
      else if 48 \<le> n \<and> n \<le> 57 then Some (n + 4)
      else if n = 43 then Some 62 else if n = 47 then Some 63 else None)"

fun b64_encode :: "string \<Rightarrow> string" where
  "b64_encode [] = []"
| "b64_encode [a] =
     [b64_char (of_char a div 4), b64_char ((of_char a mod 4) * 16), CHR ''='', CHR ''='']"
| "b64_encode [a, b] =
     [b64_char (of_char a div 4), b64_char ((of_char a mod 4) * 16 + of_char b div 16),
      b64_char ((of_char b mod 16) * 4), CHR ''='']"
| "b64_encode (a # b # c # r) =
     b64_char (of_char a div 4) # b64_char ((of_char a mod 4) * 16 + of_char b div 16) #
     b64_char ((of_char b mod 16) * 4 + of_char c div 64) # b64_char (of_char c mod 64) # b64_encode r"

fun b64_quads :: "string \<Rightarrow> string option" where
  "b64_quads [] = Some []"
| "b64_quads (c1 # c2 # c3 # c4 # r) =
     (case (b64_val c1, b64_val c2) of
        (Some v1, Some v2) \<Rightarrow>
          (case b64_val c3 of
             None \<Rightarrow> (if c3 = CHR ''='' \<and> c4 = CHR ''='' \<and> r = [] then Some [char_of (v1 * 4 + v2 div 16)] else None)
           | Some v3 \<Rightarrow>
               (case b64_val c4 of
                  None \<Rightarrow> (if c4 = CHR ''='' \<and> r = []
                           then Some [char_of (v1 * 4 + v2 div 16), char_of (v2 mod 16 * 16 + v3 div 4)] else None)
                | Some v4 \<Rightarrow>
                    map_option (\<lambda>t. char_of (v1 * 4 + v2 div 16) # char_of (v2 mod 16 * 16 + v3 div 4) #
                                    char_of (v3 mod 4 * 64 + v4) # t) (b64_quads r)))
      | _ \<Rightarrow> None)"
| "b64_quads _ = None"

definition base64_decode :: "string \<Rightarrow> string option" where
  "base64_decode s = b64_quads (filter (\<lambda>c. c \<noteq> nl \<and> c \<noteq> cr) s)"

definition parse_key :: "string \<Rightarrow> wgkey option" where
  "parse_key s =
     (case base64_decode s of
        None \<Rightarrow> None
      | Some d \<Rightarrow> if length d \<noteq> 32 then None else Some d)"

subsection \<open>DeriveIPv6 (ipv6.go)\<close>

definition host_part :: "nat \<Rightarrow> ipv4 \<Rightarrow> ipv4" where
  "host_part n w = w AND (push_bit (32 - n) 1 - 1)"

definition derive_ipv6 :: "string \<Rightarrow> string \<Rightarrow> string option" where
  "derive_ipv6 client_address prefix =
     (if prefix = [] then Some []
      else if client_address = [] then Some []
      else
        (case parse_prefix client_address of
           None \<Rightarrow> None
         | Some (Addr6 _ _, _) \<Rightarrow> Some []
         | Some (Addr4 w, bits) \<Rightarrow>
             if bits = 32 then Some (prefix @ dec (unat (w AND 255)) @ ''/128'')
             else Some (prefix @ dec (unat (host_part bits w)) @ ''/128'')))"

subsection \<open>ComputeAllowedIPs (cidr.go)\<close>

definition RouteCountWarningThreshold :: nat where
  "RouteCountWarningThreshold = 50"

record cidr_result =
  cr_prefixes :: "string list"
  cr_route_count :: nat
  cr_warning :: string

definition route_warning :: "nat \<Rightarrow> string" where
  "route_warning n =
     (if RouteCountWarningThreshold < n
      then ''route count '' @ dec n @ '' exceeds threshold of '' @ dec RouteCountWarningThreshold else [])"

text \<open>The parsing loops: the prefixes of a list, masked, or the first text that does not parse.\<close>

fun parse_masked :: "string list \<Rightarrow> string + (addr \<times> nat) list" where
  "parse_masked [] = Inr []"
| "parse_masked (s # ss) =
     (case parse_prefix s of
        None \<Rightarrow> Inl s
      | Some p \<Rightarrow> (case parse_masked ss of Inl e \<Rightarrow> Inl e | Inr ps \<Rightarrow> Inr (masked p # ps)))"

text \<open>
  \<open>ip_set allowed excluded\<close> stands for the third-party \<open>netipx.IPSetBuilder\<close>: \<open>AddPrefix\<close> of the
  first list, \<open>RemovePrefix\<close> of the second, then \<open>IPSet().Prefixes()\<close>; \<open>None\<close> is its error.
  The function's own error names the text that did not parse, or is empty for the builder's.
\<close>

definition compute_allowed_ips ::
  "((addr \<times> nat) list \<Rightarrow> (addr \<times> nat) list \<Rightarrow> (addr \<times> nat) list option) \<Rightarrow>
   string list \<Rightarrow> string list \<Rightarrow> string + cidr_result" where
  "compute_allowed_ips ip_set allowed excluded =
     (if allowed = [] then Inr \<lparr>cr_prefixes = [], cr_route_count = 0, cr_warning = []\<rparr>
      else if excluded = [] then
        (case find (\<lambda>s. parse_prefix s = None) allowed of
           Some s \<Rightarrow> Inl s
         | None \<Rightarrow> Inr \<lparr>cr_prefixes = allowed, cr_route_count = length allowed,
                        cr_warning = route_warning (length allowed)\<rparr>)
      else
        (case parse_masked allowed of
           Inl s \<Rightarrow> Inl s
         | Inr as \<Rightarrow>
             (case parse_masked excluded of
                Inl s \<Rightarrow> Inl s
              | Inr es \<Rightarrow>
                  (case ip_set as es of
                     None \<Rightarrow> Inl []
                   | Some ps \<Rightarrow>
                       let strs = sort (map prefix_string ps) in
                       Inr \<lparr>cr_prefixes = strs, cr_route_count = length strs,
                            cr_warning = route_warning (length strs)\<rparr>))))"

subsection \<open>Devices, peers and the client interface (client.go)\<close>

record udp_addr =
  ua_ip :: ipv6
  ua_port :: nat
  ua_zone :: string

definition udp_string :: "udp_addr \<Rightarrow> string" where
  "udp_string a =
     (let host = ip_string (ua_ip a) @ (if ua_zone a = [] then [] else CHR ''%'' # ua_zone a) in
      if CHR '':'' \<in> set host \<or> CHR ''%'' \<in> set host
      then ''['' @ host @ '']:'' @ dec (ua_port a) else host @ '':'' @ dec (ua_port a))"

record wg_peer =
  wp_key :: wgkey
  wp_endpoint :: "udp_addr option"
  wp_allowed :: "ipnet list"
  wp_handshake :: nat
  wp_rx :: int
  wp_tx :: int
  wp_keepalive :: int

record wg_device =
  dev_name :: string
  dev_key :: wgkey
  dev_port :: int
  dev_peers :: "wg_peer list"

record wg_peer_config =
  wc_key :: wgkey
  wc_allowed :: "ipnet list"
  wc_endpoint :: "udp_addr option"
  wc_remove :: bool
  wc_replace :: bool
  wc_keepalive :: "int option"
  wc_psk :: "wgkey option"

datatype wg_err = WgNotFound | WgFailed

text \<open>The methods of \<open>WireGuardClient\<close> over the state \<open>'k\<close> of the kernel (or of the process).\<close>

record 'k wg_client =
  get_device :: "string \<Rightarrow> ('k, wg_err, wg_device) prog"
  configure_peers :: "string \<Rightarrow> wg_peer_config list \<Rightarrow> ('k, wg_err, unit) prog"
  remove_peer_key :: "string \<Rightarrow> wgkey \<Rightarrow> ('k, wg_err, unit) prog"
  generate_key_pair :: "('k, wg_err, wgkey \<times> wgkey) prog"
  generate_psk :: "('k, wg_err, wgkey) prog"

text \<open>What a batch of peer configurations does to the set of configured keys.\<close>

definition config_key :: "wgkey set \<Rightarrow> wg_peer_config \<Rightarrow> wgkey set" where
  "config_key K c = (if wc_remove c then K - {wc_key c} else insert (wc_key c) K)"

definition config_keys :: "wg_peer_config list \<Rightarrow> wgkey set \<Rightarrow> wgkey set" where
  "config_keys cs K = foldl config_key K cs"

subsection \<open>DevClient (dev_client.go)\<close>

text \<open>
  The map of peers is an association list in the order Go happens to iterate it. Randomness is a
  script of private keys (\<open>wgtypes.GeneratePrivateKey\<close>, whose error is \<open>None\<close>); \<open>pub\<close> is the
  curve operation of \<open>wgtypes.Key.PublicKey\<close>.
\<close>

record dev_client =
  dc_peers :: "(wgkey \<times> wg_peer) list"
  dc_name :: string
  dc_private :: wgkey
  dc_public :: wgkey
  dc_random :: "wgkey option list"

definition dev_random :: "(dev_client, wg_err, wgkey) prog" where
  "dev_random d =
     (case dc_random d of
        [] \<Rightarrow> (Inl WgFailed, d)
      | None # r \<Rightarrow> (Inl WgFailed, d\<lparr>dc_random := r\<rparr>)
      | Some k # r \<Rightarrow> (Inr k, d\<lparr>dc_random := r\<rparr>))"

definition new_dev_client :: "(wgkey \<Rightarrow> wgkey) \<Rightarrow> string \<Rightarrow> wgkey option list \<Rightarrow> wg_err + dev_client" where
  "new_dev_client pub name rnd =
     (case rnd of
        Some priv # r \<Rightarrow>
          Inr \<lparr>dc_peers = [], dc_name = name, dc_private = priv, dc_public = pub priv, dc_random = r\<rparr>
      | _ \<Rightarrow> Inl WgFailed)"

definition dev_get_device :: "string \<Rightarrow> (dev_client, wg_err, wg_device) prog" where
  "dev_get_device name d =
     (Inr \<lparr>dev_name = dc_name d, dev_key = dc_public d, dev_port = 51820, dev_peers = map snd (dc_peers d)\<rparr>, d)"

definition dev_new_peer :: "wg_peer_config \<Rightarrow> wg_peer" where
  "dev_new_peer c = \<lparr>wp_key = wc_key c, wp_endpoint = None, wp_allowed = wc_allowed c, wp_handshake = 0,
     wp_rx = 0, wp_tx = 0, wp_keepalive = 0\<rparr>"

definition dev_configure_one :: "(wgkey \<times> wg_peer) list \<Rightarrow> wg_peer_config \<Rightarrow> (wgkey \<times> wg_peer) list" where
  "dev_configure_one ps c =
     (if wc_remove c then AList.delete (wc_key c) ps
      else (case map_of ps (wc_key c) of
              Some e \<Rightarrow> (if wc_replace c then AList.update (wc_key c) (e\<lparr>wp_allowed := wc_allowed c\<rparr>) ps else ps)
            | None \<Rightarrow> AList.update (wc_key c) (dev_new_peer c) ps))"

definition dev_configure_peers :: "string \<Rightarrow> wg_peer_config list \<Rightarrow> (dev_client, wg_err, unit) prog" where
  "dev_configure_peers name cs d = (Inr (), d\<lparr>dc_peers := foldl dev_configure_one (dc_peers d) cs\<rparr>)"

definition dev_remove_peer :: "string \<Rightarrow> wgkey \<Rightarrow> (dev_client, wg_err, unit) prog" where
  "dev_remove_peer name key d =
     (if map_of (dc_peers d) key = None then (Inl WgNotFound, d)
      else (Inr (), d\<lparr>dc_peers := AList.delete key (dc_peers d)\<rparr>))"

definition dev_generate_key_pair :: "(wgkey \<Rightarrow> wgkey) \<Rightarrow> (dev_client, wg_err, wgkey \<times> wgkey) prog" where
  "dev_generate_key_pair pub = bindE dev_random (\<lambda>priv. ret (priv, pub priv))"

definition dev_interface :: "(wgkey \<Rightarrow> wgkey) \<Rightarrow> dev_client wg_client" where
  "dev_interface pub = \<lparr>get_device = dev_get_device, configure_peers = dev_configure_peers,
     remove_peer_key = dev_remove_peer, generate_key_pair = dev_generate_key_pair pub, generate_psk = dev_random\<rparr>"

subsection \<open>WgctrlClient (wgctrl.go)\<close>

text \<open>
  The netlink library is a parameter: \<open>device\<close> and \<open>configure\<close> are the methods \<open>Device\<close> and
  \<open>ConfigureDevice\<close> of \<open>wgctrl.Client\<close>, over records with the fields the conversion functions
  copy, so that the conversions of wgctrl.go are the identity; \<open>new_private\<close> and \<open>new_key\<close> are
  \<open>wgtypes.GeneratePrivateKey\<close> and \<open>wgtypes.GenerateKey\<close>.
\<close>

record 'k wgctrl_lib =
  lib_device :: "string \<Rightarrow> ('k, unit, wg_device) prog"
  lib_configure :: "string \<Rightarrow> wg_peer_config list \<Rightarrow> ('k, unit, unit) prog"
  lib_private :: "('k, unit, wgkey) prog"
  lib_key :: "('k, unit, wgkey) prog"
  lib_public :: "wgkey \<Rightarrow> wgkey"

definition wgctrl_get_device :: "'k wgctrl_lib \<Rightarrow> string \<Rightarrow> ('k, wg_err, wg_device) prog" where
  "wgctrl_get_device l name = mapErr (\<lambda>_. WgFailed) (lib_device l name)"

definition wgctrl_configure_peers :: "'k wgctrl_lib \<Rightarrow> string \<Rightarrow> wg_peer_config list \<Rightarrow> ('k, wg_err, unit) prog" where
  "wgctrl_configure_peers l name cs = mapErr (\<lambda>_. WgFailed) (lib_configure l name cs)"

definition removal :: "wgkey \<Rightarrow> wg_peer_config" where
  "removal key = \<lparr>wc_key = key, wc_allowed = [], wc_endpoint = None, wc_remove = True, wc_replace = False,
     wc_keepalive = None, wc_psk = None\<rparr>"

definition wgctrl_remove_peer :: "'k wgctrl_lib \<Rightarrow> string \<Rightarrow> wgkey \<Rightarrow> ('k, wg_err, unit) prog" where
  "wgctrl_remove_peer l name key = wgctrl_configure_peers l name [removal key]"

definition wgctrl_interface :: "'k wgctrl_lib \<Rightarrow> 'k wg_client" where
  "wgctrl_interface l = \<lparr>get_device = wgctrl_get_device l, configure_peers = wgctrl_configure_peers l,
     remove_peer_key = wgctrl_remove_peer l,
     generate_key_pair = bindE (mapErr (\<lambda>_. WgFailed) (lib_private l)) (\<lambda>p. ret (p, lib_public l p)),
     generate_psk = mapErr (\<lambda>_. WgFailed) (lib_key l)\<rparr>"

subsection \<open>The key text is read back\<close>

lemma b64_table:
  "list_all (\<lambda>n. b64_val (b64_char n) = Some n \<and> b64_char n \<noteq> nl \<and> b64_char n \<noteq> cr) [0..<64]"
  by (simp add: b64_val_def b64_char_def b64_alphabet_def upt_conv_Cons)

lemma b64_val_char: "n < 64 \<Longrightarrow> b64_val (b64_char n) = Some n"
  and b64_char_plain: "n < 64 \<Longrightarrow> b64_char n \<noteq> nl" "n < 64 \<Longrightarrow> b64_char n \<noteq> cr"
  using b64_table by (auto simp: list_all_iff)

lemma b64_val_pad [simp]: "b64_val CHR ''='' = None"
  by (simp add: b64_val_def)

lemma byte_bounds:
  fixes a b :: nat
  assumes "a < 256" "b < 256"
  shows "a mod 4 * 16 + b div 16 < 64" "a mod 16 * 4 + b div 64 < 64"
proof -
  have "a mod 4 < 4" "b div 16 < 16" using assms by auto
  then show "a mod 4 * 16 + b div 16 < 64" by linarith
  have "a mod 16 < 16" "b div 64 < 4" using assms by auto
  then show "a mod 16 * 4 + b div 64 < 64" by linarith
qed

lemma byte_bounds0: "a < 256 \<Longrightarrow> a div 4 < 64" "a mod 4 * 16 < 64" "a mod 16 * 4 < 64" "a mod 64 < 64" for a :: nat
  by simp_all

lemma b64_quads_encode: "b64_quads (b64_encode s) = Some s"
proof (induction s rule: b64_encode.induct)
  case (2 a)
  show ?case
    by (simp add: b64_val_char byte_bounds byte_bounds0)
next
  case (3 a b)
  have "of_char b div 16 < (16::nat)" using nat_of_char_less_256[of b] by linarith
  then show ?case by (simp add: b64_val_char byte_bounds byte_bounds0)
next
  case (4 a b c r)
  have "of_char b div 16 < (16::nat)" "of_char c div 64 < (4::nat)"
    using nat_of_char_less_256[of b] nat_of_char_less_256[of c] by linarith+
  with 4 show ?case by (simp add: b64_val_char byte_bounds byte_bounds0)
qed simp

lemma b64_encode_plain: "filter (\<lambda>c. c \<noteq> nl \<and> c \<noteq> cr) (b64_encode s) = b64_encode s"
  by (induction s rule: b64_encode.induct) (simp_all add: b64_char_plain byte_bounds byte_bounds0)

lemma parse_key_b64: "is_key k \<Longrightarrow> parse_key (b64_encode k) = Some k"
  by (simp add: parse_key_def base64_decode_def b64_encode_plain b64_quads_encode is_key_def)

lemma parse_key_is_key: "parse_key s = Some k \<Longrightarrow> is_key k"
  by (auto simp: parse_key_def is_key_def split: option.splits if_splits)

subsection \<open>Derived IPv6 addresses\<close>

lemma host_part_mod:
  assumes "n \<le> 32"
  shows "unat (host_part n w) = unat w mod 2 ^ (32 - n)"
proof -
  have "host_part n w = take_bit (32 - n) w"
    by (simp add: host_part_def take_bit_eq_mask mask_eq_exp_minus_1 push_bit_eq_mult)
  then have "unat (host_part n w) = take_bit (32 - n) (unat w)" by (simp only: unsigned_take_bit_eq)
  then show ?thesis by (simp add: take_bit_eq_mod)
qed

lemma derive_ipv6_v4:
  assumes "n < 32" "prefix \<noteq> []"
  shows "derive_ipv6 (dotted w @ CHR ''/'' # dec n) prefix =
    Some (prefix @ dec (unat w mod 2 ^ (32 - n)) @ ''/128'')"
  using assms by (simp add: derive_ipv6_def parse_prefix_dotted host_part_mod)

text \<open>Two addresses of one network of \<open>n\<close> bits agree on the upper bits.\<close>

lemma same_net_unat:
  fixes v w :: ipv4
  assumes "mask4 n v = mask4 n w" "n \<le> 32" "unat v mod 2 ^ (32 - n) = unat w mod 2 ^ (32 - n)"
  shows "v = w"
proof -
  have "take_bit (32 - n) (unat v) = take_bit (32 - n) (unat w)" using assms(3) by (simp add: take_bit_eq_mod)
  then have low: "take_bit (32 - n) v = take_bit (32 - n) w" by (metis unsigned_take_bit_eq word_eq_iff_unsigned)
  have "v = push_bit (32 - n) (drop_bit (32 - n) v) OR take_bit (32 - n) v" for v :: ipv4
    by (rule bit_word_eqI) (auto simp: bit_simps)
  with low assms(1) show "v = w" unfolding mask4_def by metis
qed

subsection \<open>The contract of a client\<close>

text \<open>
  What the callers rely on, on states satisfying the provider's invariant \<open>ok\<close>: reading the device
  reports the configured keys once each and changes nothing, a successful batch has the effect of
  its entries in order and a failed one at most part of it, removing a peer removes that key (or
  nothing, when it fails), and generating keys leaves the peers alone. \<open>keys\<close> is the set of
  configured keys.
\<close>

definition added_keys :: "wg_peer_config list \<Rightarrow> wgkey set" where
  "added_keys cs = {wc_key c |c. c \<in> set cs \<and> \<not> wc_remove c}"

definition removed_keys :: "wg_peer_config list \<Rightarrow> wgkey set" where
  "removed_keys cs = {wc_key c |c. c \<in> set cs \<and> wc_remove c}"

locale wg_contract =
  fixes C :: "'k wg_client" and keys :: "'k \<Rightarrow> wgkey set" and ok :: "'k \<Rightarrow> bool"
  assumes get_device_ok: "ok k \<Longrightarrow> get_device C n k = (r, k') \<Longrightarrow> ok k' \<and> keys k' = keys k"
    and get_device_peers: "ok k \<Longrightarrow> get_device C n k = (Inr d, k') \<Longrightarrow>
      wp_key ` set (dev_peers d) = keys k \<and> distinct (map wp_key (dev_peers d))"
    and configure_ok: "ok k \<Longrightarrow> configure_peers C n cs k = (u, k') \<Longrightarrow>
      ok k' \<and> keys k - removed_keys cs \<subseteq> keys k' \<and> keys k' \<subseteq> keys k \<union> added_keys cs"
    and configure_keys: "ok k \<Longrightarrow> configure_peers C n cs k = (Inr (), k') \<Longrightarrow> keys k' = config_keys cs (keys k)"
    and remove_ok: "ok k \<Longrightarrow> remove_peer_key C n x k = (u, k') \<Longrightarrow>
      ok k' \<and> keys k' \<in> {keys k, keys k - {x}}"
    and remove_keys: "ok k \<Longrightarrow> remove_peer_key C n x k = (Inr (), k') \<Longrightarrow> keys k' = keys k - {x}"
    and key_pair_ok: "ok k \<Longrightarrow> generate_key_pair C k = (kp, k') \<Longrightarrow> ok k' \<and> keys k' = keys k"
    and psk_ok: "ok k \<Longrightarrow> generate_psk C k = (ks, k') \<Longrightarrow> ok k' \<and> keys k' = keys k"
begin

text \<open>The batches the agent sends either add or remove.\<close>

lemma config_keys_removals:
  "\<forall>c \<in> set cs. wc_remove c \<Longrightarrow> config_keys cs K = K - wc_key ` set cs"
  by (induction cs arbitrary: K) (auto simp: config_keys_def config_key_def)

lemma config_keys_additions:
  "\<forall>c \<in> set cs. \<not> wc_remove c \<Longrightarrow> config_keys cs K = K \<union> wc_key ` set cs"
  by (induction cs arbitrary: K) (auto simp: config_keys_def config_key_def)

lemma configure_additions:
  assumes "ok k" "configure_peers C n cs k = (Inr (), k')" "\<forall>c \<in> set cs. \<not> wc_remove c"
  shows "keys k' = keys k \<union> wc_key ` set cs"
  using configure_keys[OF assms(1,2)] config_keys_additions[OF assms(3)] by simp

lemma configure_removals:
  assumes "ok k" "configure_peers C n cs k = (Inr (), k')" "\<forall>c \<in> set cs. wc_remove c"
  shows "keys k' = keys k - wc_key ` set cs"
  using configure_keys[OF assms(1,2)] config_keys_removals[OF assms(3)] by simp

text \<open>A failed batch of removals, or of additions, goes in one direction only.\<close>

lemma removals_shrink:
  assumes "ok k" "configure_peers C n cs k = (u, k')" "\<forall>c \<in> set cs. wc_remove c"
  shows "keys k' \<subseteq> keys k"
  using configure_ok[OF assms(1,2)] assms(3) by (auto simp: added_keys_def)

lemma additions_grow:
  assumes "ok k" "configure_peers C n cs k = (u, k')" "\<forall>c \<in> set cs. \<not> wc_remove c"
  shows "keys k \<subseteq> keys k'"
  using configure_ok[OF assms(1,2)] assms(3) by (auto simp: removed_keys_def)

end

text \<open>The keys of the in-memory client, whose map entries carry their own key.\<close>

definition dev_keys :: "dev_client \<Rightarrow> wgkey set" where
  "dev_keys d = fst ` set (dc_peers d)"

definition dev_ok :: "dev_client \<Rightarrow> bool" where
  "dev_ok d \<longleftrightarrow> distinct (map fst (dc_peers d)) \<and> list_all (\<lambda>(k, p). wp_key p = k) (dc_peers d)"

lemma map_of_fst_image: "map_of ps k \<noteq> None \<longleftrightarrow> k \<in> fst ` set ps"
  by (auto simp: map_of_eq_None_iff)

lemma set_update_subset: "set (AList.update k v ps) \<subseteq> insert (k, v) (set ps)"
  by (induction ps) auto

lemma keys_delete: "fst ` set (AList.delete k ps) = fst ` set ps - {k}"
proof -
  have "set (map fst (AList.delete k ps)) = set (removeAll k (map fst ps))" by (simp only: delete_keys)
  then show ?thesis by simp
qed

lemma dev_configure_one_keys: "fst ` set (dev_configure_one ps c) = config_key (fst ` set ps) c"
proof (cases "wc_remove c")
  case True
  then show ?thesis by (simp add: dev_configure_one_def config_key_def keys_delete)
next
  case False
  show ?thesis
  proof (cases "map_of ps (wc_key c)")
    case None
    with False show ?thesis by (simp add: dev_configure_one_def config_key_def dom_update)
  next
    case (Some e)
    then have "wc_key c \<in> fst ` set ps" by (metis map_of_fst_image option.distinct(1))
    with False Some show ?thesis
      by (simp add: dev_configure_one_def config_key_def dom_update insert_absorb)
  qed
qed

lemma dev_configure_one_ok:
  assumes "distinct (map fst ps)" "list_all (\<lambda>(k, p). wp_key p = k) ps"
  shows "distinct (map fst (dev_configure_one ps c)) \<and> list_all (\<lambda>(k, p). wp_key p = k) (dev_configure_one ps c)"
proof -
  have del: "set (AList.delete k ps) \<subseteq> set ps" for k by (auto simp: AList.delete_eq)
  show ?thesis
    using assms set_update_subset[of "wc_key c" _ ps] del[of "wc_key c"] map_of_SomeD[of ps "wc_key c"]
    by (fastforce simp: dev_configure_one_def distinct_update distinct_delete list_all_iff dev_new_peer_def
        split: option.splits)
qed

lemma dev_configure_all_keys: "fst ` set (foldl dev_configure_one ps cs) = config_keys cs (fst ` set ps)"
  by (induction cs arbitrary: ps) (simp_all add: config_keys_def dev_configure_one_keys)

lemma dev_configure_all_ok:
  "distinct (map fst ps) \<Longrightarrow> list_all (\<lambda>(k, p). wp_key p = k) ps \<Longrightarrow>
   distinct (map fst (foldl dev_configure_one ps cs)) \<and>
   list_all (\<lambda>(k, p). wp_key p = k) (foldl dev_configure_one ps cs)"
  by (induction cs arbitrary: ps) (simp_all add: dev_configure_one_ok)

lemma config_keys_upper: "config_keys cs K \<subseteq> K \<union> added_keys cs"
proof (induction cs arbitrary: K)
  case (Cons c cs)
  have "config_keys (c # cs) K = config_keys cs (config_key K c)" by (simp add: config_keys_def)
  also have "\<dots> \<subseteq> config_key K c \<union> added_keys cs" by (rule Cons.IH)
  also have "\<dots> \<subseteq> K \<union> added_keys (c # cs)" by (auto simp: config_key_def added_keys_def)
  finally show ?case .
qed (simp add: config_keys_def)

lemma config_keys_lower: "K - removed_keys cs \<subseteq> config_keys cs K"
proof (induction cs arbitrary: K)
  case (Cons c cs)
  have "K - removed_keys (c # cs) \<subseteq> config_key K c - removed_keys cs"
    by (auto simp: config_key_def removed_keys_def)
  also have "\<dots> \<subseteq> config_keys cs (config_key K c)" by (rule Cons.IH)
  finally show ?case by (simp add: config_keys_def)
qed (simp add: config_keys_def)

lemma dev_random_peers: "dc_peers (snd (dev_random d)) = dc_peers d"
  by (simp add: dev_random_def split: list.splits option.splits)

lemma dev_random_inv:
  "dev_ok d \<Longrightarrow> dev_random d = (r, d') \<Longrightarrow> dev_ok d' \<and> dev_keys d' = dev_keys d"
  using dev_random_peers[of d] by (simp add: dev_ok_def dev_keys_def)

lemma dev_delete_keys: "dev_keys (d\<lparr>dc_peers := AList.delete x (dc_peers d)\<rparr>) = dev_keys d - {x}"
  by (simp add: dev_keys_def keys_delete)

lemma dev_delete_ok: "dev_ok d \<Longrightarrow> dev_ok (d\<lparr>dc_peers := AList.delete x (dc_peers d)\<rparr>)"
proof -
  assume ok: "dev_ok d"
  have "set (AList.delete x (dc_peers d)) \<subseteq> set (dc_peers d)" by (auto simp: AList.delete_eq)
  with ok show ?thesis unfolding dev_ok_def by (auto simp: distinct_delete list_all_iff)
qed

lemma dev_keys_absent: "map_of (dc_peers d) x = None \<longleftrightarrow> x \<notin> dev_keys d"
  using map_of_fst_image[of "dc_peers d" x] by (auto simp: dev_keys_def)

lemma dev_device_peers:
  assumes "dev_ok d"
  shows "wp_key ` set (map snd (dc_peers d)) = dev_keys d \<and> distinct (map wp_key (map snd (dc_peers d)))"
proof -
  have "map wp_key (map snd (dc_peers d)) = map fst (dc_peers d)"
    using assms by (auto simp: dev_ok_def list_all_iff)
  then show ?thesis using assms unfolding dev_ok_def dev_keys_def by (metis list.set_map)
qed

interpretation dev_contract: wg_contract "dev_interface pub" dev_keys dev_ok
proof (unfold_locales, goal_cases)
  case (2 k n d k')
  then show ?case using dev_device_peers[of k] by (auto simp: dev_interface_def dev_get_device_def)
next
  case (3 k n cs u k')
  then show ?case
    using config_keys_upper[of cs "dev_keys k"] config_keys_lower[of "dev_keys k" cs]
    by (clarsimp simp: dev_interface_def dev_configure_peers_def dev_ok_def dev_keys_def
        dev_configure_all_keys dev_configure_all_ok)
next
  case (5 k n x u k')
  then show ?case
    using dev_delete_keys[where x = x] dev_delete_ok[where x = x]
    by (auto simp: dev_interface_def dev_remove_peer_def split: if_splits)
next
  case (6 k n x k')
  then show ?case using dev_delete_keys[where x = x]
    by (auto simp: dev_interface_def dev_remove_peer_def split: if_splits)
next
  case (7 k kp k')
  then show ?case
    using dev_random_inv
    by (auto simp: dev_interface_def dev_generate_key_pair_def bindE_def split: prod.splits sum.splits)
next
  case (8 k ks k')
  then show ?case using dev_random_inv by (auto simp: dev_interface_def)
qed (auto simp: dev_interface_def dev_get_device_def dev_configure_peers_def dev_keys_def
    simp flip: dev_configure_all_keys)

text \<open>A client whose calls do not fail: a configured key is removed, a batch is applied.\<close>

locale reliable_wg = wg_contract +
  assumes remove_reliable: "ok k \<Longrightarrow> remove_peer_key C n x k = (u, k') \<Longrightarrow> keys k' = keys k - {x}"
    and configure_reliable: "ok k \<Longrightarrow> configure_peers C n cs k = (u, k') \<Longrightarrow> u = Inr ()"

interpretation dev_reliable: reliable_wg "dev_interface pub" dev_keys dev_ok
  by unfold_locales
    (auto simp: dev_interface_def dev_remove_peer_def dev_configure_peers_def dev_delete_keys dev_keys_absent
      split: if_splits)

text \<open>
  The netlink client meets the contract when the library does: reading and key generation leave the
  peers alone, a configuration call has the effect of its entries, and a failed one at most part of it.
\<close>

definition wgctrl_lib_ok :: "'k wgctrl_lib \<Rightarrow> ('k \<Rightarrow> wgkey set) \<Rightarrow> bool" where
  "wgctrl_lib_ok l keys \<longleftrightarrow>
     (\<forall>n k. keys (snd (lib_device l n k)) = keys k) \<and>
     (\<forall>n k d. fst (lib_device l n k) = Inr d \<longrightarrow>
        wp_key ` set (dev_peers d) = keys k \<and> distinct (map wp_key (dev_peers d))) \<and>
     (\<forall>n cs k. keys k - removed_keys cs \<subseteq> keys (snd (lib_configure l n cs k)) \<and>
        keys (snd (lib_configure l n cs k)) \<subseteq> keys k \<union> added_keys cs) \<and>
     (\<forall>n cs k. fst (lib_configure l n cs k) = Inr () \<longrightarrow> keys (snd (lib_configure l n cs k)) = config_keys cs (keys k)) \<and>
     (\<forall>k. keys (snd (lib_private l k)) = keys k) \<and> (\<forall>k. keys (snd (lib_key l k)) = keys k)"

lemma mapErr_snd [simp]: "snd (mapErr f m w) = snd (m w)"
  by (simp add: mapErr_def split: prod.splits sum.splits)

lemma mapErr_state: "mapErr f m w = (r, w') \<Longrightarrow> w' = snd (m w)"
  by (metis mapErr_snd snd_conv)

lemma mapErr_Inr: "mapErr f m w = (Inr a, w') \<longleftrightarrow> m w = (Inr a, w')"
  by (auto simp: mapErr_def split: prod.splits sum.splits)

lemma bindE_state: "bindE (mapErr g m) (\<lambda>x. ret (f x)) w = (r, w') \<Longrightarrow> w' = snd (m w)"
  by (auto simp: bindE_def mapErr_def split: prod.splits sum.splits)

theorem wgctrl_meets_contract:
  assumes "wgctrl_lib_ok l keys"
  shows "wg_contract (wgctrl_interface l) keys (\<lambda>_. True)"
proof (unfold_locales, goal_cases)
  case (1 k n r k')
  then have "k' = snd (lib_device l n k)"
    by (simp add: wgctrl_interface_def wgctrl_get_device_def mapErr_state)
  with assms show ?case by (simp add: wgctrl_lib_ok_def)
next
  case (2 k n d k')
  then have "fst (lib_device l n k) = Inr d"
    by (simp add: wgctrl_interface_def wgctrl_get_device_def mapErr_Inr)
  with assms show ?case by (simp add: wgctrl_lib_ok_def)
next
  case (3 k n cs u k')
  then have "k' = snd (lib_configure l n cs k)"
    by (simp add: wgctrl_interface_def wgctrl_configure_peers_def mapErr_state)
  with assms show ?case by (simp add: wgctrl_lib_ok_def)
next
  case (4 k n cs k')
  then have "lib_configure l n cs k = (Inr (), k')"
    by (simp add: wgctrl_interface_def wgctrl_configure_peers_def mapErr_Inr)
  with assms show ?case unfolding wgctrl_lib_ok_def by (metis fst_conv snd_conv)
next
  case (5 k n x u k')
  then have k': "k' = snd (lib_configure l n [removal x] k)"
    by (simp add: wgctrl_interface_def wgctrl_remove_peer_def wgctrl_configure_peers_def mapErr_state)
  have "removed_keys [removal x] = {x}" "added_keys [removal x] = {}"
    by (simp_all add: removed_keys_def added_keys_def removal_def)
  moreover have "keys k - removed_keys [removal x] \<subseteq> keys k' \<and> keys k' \<subseteq> keys k \<union> added_keys [removal x]"
    using assms by (simp add: wgctrl_lib_ok_def k')
  ultimately show ?case by auto
next
  case (6 k n x k')
  then have "lib_configure l n [removal x] k = (Inr (), k')"
    by (simp add: wgctrl_interface_def wgctrl_remove_peer_def wgctrl_configure_peers_def mapErr_Inr)
  then have "keys k' = config_keys [removal x] (keys k)"
    using assms unfolding wgctrl_lib_ok_def by (metis fst_conv snd_conv)
  then show ?case by (simp add: config_keys_def config_key_def removal_def)
next
  case (7 k kp k')
  then have "k' = snd (lib_private l k)"
    by (simp add: wgctrl_interface_def bindE_state)
  with assms show ?case by (simp add: wgctrl_lib_ok_def)
next
  case (8 k ks k')
  then have "k' = snd (lib_key l k)"
    by (simp add: wgctrl_interface_def mapErr_state)
  with assms show ?case by (simp add: wgctrl_lib_ok_def)
qed

subsection \<open>What the computed prefixes cover\<close>

fun in_prefix :: "addr \<times> nat \<Rightarrow> addr \<Rightarrow> bool" where
  "in_prefix (Addr4 w, n) (Addr4 v) = (mask4 n v = mask4 n w)"
| "in_prefix (Addr6 w z, n) (Addr6 v y) = (y = [] \<and> mask6 n v = mask6 n w)"
| "in_prefix _ _ = False"

definition text_covers :: "string \<Rightarrow> addr \<Rightarrow> bool" where
  "text_covers s a = (case parse_prefix s of None \<Rightarrow> False | Some p \<Rightarrow> in_prefix p a)"

text \<open>
  The documented behaviour of \<open>netipx.IPSet\<close>: the prefixes it returns are valid and cover exactly
  the addresses of the added prefixes that are in none of the removed ones.
\<close>

definition ip_set_sound :: "((addr \<times> nat) list \<Rightarrow> (addr \<times> nat) list \<Rightarrow> (addr \<times> nat) list option) \<Rightarrow> bool" where
  "ip_set_sound f \<longleftrightarrow> (\<forall>as es ps. f as es = Some ps \<longrightarrow>
     (\<forall>p \<in> set ps. snd p \<le> prefix_len (fst p)) \<and>
     (\<forall>a. (\<exists>p \<in> set ps. in_prefix p a) \<longleftrightarrow> (\<exists>p \<in> set as. in_prefix p a) \<and> \<not> (\<exists>p \<in> set es. in_prefix p a)))"

definition is_v4_text :: "string \<Rightarrow> bool" where
  "is_v4_text s = (case parse_prefix s of Some (Addr4 _, _) \<Rightarrow> True | _ \<Rightarrow> False)"

lemma mask4_idem [simp]: "mask4 n (mask4 n w) = mask4 n w"
  unfolding mask4_def by (rule bit_word_eqI) (auto simp: bit_simps)

lemma mask6_idem [simp]: "mask6 n (mask6 n w) = mask6 n w"
  unfolding mask6_def by (rule bit_word_eqI) (auto simp: bit_simps)

lemma in_prefix_masked [simp]: "in_prefix (masked p) a = in_prefix p a"
  by (cases "(p, a)" rule: in_prefix.cases) auto

lemma in_prefix_self: "\<exists>a. in_prefix p a"
proof (cases p)
  case (Pair x n)
  then show ?thesis by (cases x) (auto intro: exI[of _ "Addr4 y" for y] exI[of _ "Addr6 y []" for y])
qed

lemma parse_masked_covers:
  "parse_masked ss = Inr ps \<Longrightarrow> (\<exists>p \<in> set ps. in_prefix p a) \<longleftrightarrow> (\<exists>s \<in> set ss. text_covers s a)"
proof (induction ss arbitrary: ps)
  case (Cons s ss)
  then obtain p qs where p: "parse_prefix s = Some p" "parse_masked ss = Inr qs" "ps = masked p # qs"
    by (auto split: option.splits sum.splits)
  then show ?case using Cons.IH[OF p(2)] by (simp add: text_covers_def)
qed simp

lemma text_covers_prefix_string:
  "n \<le> 32 \<Longrightarrow> text_covers (prefix_string (Addr4 w, n)) a = in_prefix (Addr4 w, n) a"
  by (simp add: text_covers_def prefix_string_def addr_string_def parse_prefix_dotted)

lemma v4_covers: "is_v4_text s \<Longrightarrow> text_covers s a \<Longrightarrow> \<exists>v. a = Addr4 v"
  by (cases a) (auto simp: is_v4_text_def text_covers_def split: option.splits addr.splits prod.splits)

lemma compute_allowed_ips_cases:
  assumes "compute_allowed_ips f allowed excluded = Inr r" "excluded \<noteq> []" "allowed \<noteq> []"
  obtains as es ps where "parse_masked allowed = Inr as" "parse_masked excluded = Inr es"
    "f as es = Some ps" "cr_prefixes r = sort (map prefix_string ps)"
  using assms by (auto simp: compute_allowed_ips_def Let_def split: sum.splits option.splits)

lemma compute_allowed_ips_v4_prefixes:
  assumes "ip_set_sound f" "list_all is_v4_text allowed" "parse_masked allowed = Inr as"
    "f as es = Some ps" "p \<in> set ps"
  shows "\<exists>w n. p = (Addr4 w, n) \<and> n \<le> 32"
proof -
  obtain a where a: "in_prefix p a" using in_prefix_self by blast
  with assms have "\<exists>q \<in> set as. in_prefix q a" unfolding ip_set_sound_def by blast
  then obtain s where "s \<in> set allowed" "text_covers s a" using parse_masked_covers[OF assms(3)] by blast
  then obtain v where "a = Addr4 v" using assms(2) v4_covers unfolding list_all_iff by blast
  moreover obtain x n where p: "p = (x, n)" by (cases p)
  ultimately obtain w where "x = Addr4 w" using a by (cases x) auto
  moreover have "n \<le> prefix_len x" using assms(1,4,5) p unfolding ip_set_sound_def by fastforce
  ultimately show ?thesis using p by simp
qed

subsection \<open>Properties\<close>

text \<open>
  DeriveIPv6 is injective on the IPv4 addresses of one network of fewer than 32 bits: two
  clients of the tunnel network get the same derived IPv6 address only if they have the same IPv4
  address.
\<close>
theorem derive_ipv6_injective:
  assumes "n < 32" "prefix \<noteq> []" "mask4 n v = mask4 n w"
    and "derive_ipv6 (dotted v @ CHR ''/'' # dec n) prefix = derive_ipv6 (dotted w @ CHR ''/'' # dec n) prefix"
  shows "v = w"
proof (rule same_net_unat)
  show "unat v mod 2 ^ (32 - n) = unat w mod 2 ^ (32 - n)"
    using assms by (simp add: derive_ipv6_v4)
qed (use assms in simp_all)

text \<open>
  A host address (/32) is mapped by its last octet alone, so hosts of different networks
  collide: DeriveIPv6 gives 10.0.1.2/32 and 10.0.2.2/32 the same IPv6 address.
\<close>
theorem derive_ipv6_host_collision:
  "derive_ipv6 (dotted w @ ''/32'') (c # prefix) = Some ((c # prefix) @ dec (unat w mod 256) @ ''/128'') \<and>
   derive_ipv6 ''10.0.1.2/32'' (c # prefix) = derive_ipv6 ''10.0.2.2/32'' (c # prefix)"
proof -
  have *: "derive_ipv6 (dotted w @ ''/32'') (c # prefix) = Some ((c # prefix) @ dec (unat w mod 256) @ ''/128'')"
    for w using parse_prefix_dotted[of 32 w] by (simp add: derive_ipv6_def dec.simps unat_low_octet)
  have "dotted 167772418 = ''10.0.1.2''" "dotted 167772674 = ''10.0.2.2''"
    by (simp_all add: dotted_def unat_low_octet unat_drop_bit dec.simps)
  with *[of 167772418] *[of 167772674] show ?thesis using *[of w] by simp
qed


text \<open>An IP set for one call: 10.0.0.0/8 and 192.168.0.0/16 without 192.168.0.0/16.\<close>

definition sample_ip_set :: "(addr \<times> nat) list \<Rightarrow> (addr \<times> nat) list \<Rightarrow> (addr \<times> nat) list option" where
  "sample_ip_set as es =
     (if as = [(Addr4 0x0A000000, 8), (Addr4 0xC0A80000, 16)] \<and> es = [(Addr4 0xC0A80000, 16)]
      then Some [(Addr4 0x0A000000, 8)] else None)"

lemma mask4_top: "mask4 n v = mask4 n w \<Longrightarrow> n \<le> 32 \<Longrightarrow> k \<ge> 32 - n \<Longrightarrow> drop_bit k v = drop_bit k w"
proof -
  assume a: "mask4 n v = mask4 n w" "n \<le> 32" "k \<ge> 32 - n"
  have "drop_bit k (mask4 n x) = drop_bit k x" for x :: ipv4
    using a(2,3) unfolding mask4_def by (intro bit_word_eqI) (auto simp: bit_simps dest: bit_imp_le_length)
  with a(1) show ?thesis by metis
qed

lemma sample_ip_set_sound: "ip_set_sound sample_ip_set"
proof -
  have "\<not> (mask4 8 v = mask4 8 0x0A000000 \<and> mask4 16 v = mask4 16 0xC0A80000)" for v
    using mask4_top[of 8 v "0x0A000000" 24] mask4_top[of 16 v "0xC0A80000" 24] by auto
  then have "\<not> (in_prefix (Addr4 0x0A000000, 8) a \<and> in_prefix (Addr4 0xC0A80000, 16) a)" for a
    by (cases a) auto
  then show ?thesis by (auto simp: ip_set_sound_def sample_ip_set_def split: if_splits)
qed

lemma sample_prefixes:
  "parse_prefix ''10.0.0.0/8'' = Some (Addr4 0x0A000000, 8)"
  "parse_prefix ''192.168.0.0/16'' = Some (Addr4 0xC0A80000, 16)"
proof -
  have "dotted 0x0A000000 = ''10.0.0.0''" "dotted 0xC0A80000 = ''192.168.0.0''"
    by (simp_all add: dotted_def unat_low_octet unat_drop_bit dec.simps)
  then show "parse_prefix ''10.0.0.0/8'' = Some (Addr4 0x0A000000, 8)"
    "parse_prefix ''192.168.0.0/16'' = Some (Addr4 0xC0A80000, 16)"
    using parse_prefix_dotted[of 8 "0x0A000000"] parse_prefix_dotted[of 16 "0xC0A80000"]
    by (simp_all add: dec.simps)
qed

lemma sample_compute:
  "compute_allowed_ips sample_ip_set [''10.0.0.0/8'', ''192.168.0.0/16''] [''192.168.0.0/16''] =
     Inr \<lparr>cr_prefixes = [''10.0.0.0/8''], cr_route_count = 1, cr_warning = []\<rparr>"
proof -
  have "mask4 8 0x0A000000 = 0x0A000000" "mask4 16 0xC0A80000 = 0xC0A80000"
    by (simp_all add: mask4_def)
  moreover have "prefix_string (Addr4 0x0A000000, 8) = ''10.0.0.0/8''"
    by (simp add: prefix_string_def addr_string_def dotted_def unat_low_octet unat_drop_bit dec.simps)
  ultimately show ?thesis
    by (simp add: compute_allowed_ips_def sample_prefixes sample_ip_set_def route_warning_def
        RouteCountWarningThreshold_def)
qed


theorem derive_ipv6_injective_witness:
  "derive_ipv6 (dotted 0x0A000002 @ CHR ''/'' # dec 24) ''fd00::'' \<noteq>
   derive_ipv6 (dotted 0x0A000003 @ CHR ''/'' # dec 24) ''fd00::''"
proof -
  have "mask4 24 0x0A000002 = mask4 24 0x0A000003" by (simp add: mask4_def)
  then show ?thesis using derive_ipv6_injective[of 24 "''fd00::''" "0x0A000002" "0x0A000003"] by auto
qed

text \<open>
  ParseKey accepts the base64 text of exactly the 32-byte strings and gives the bytes back.
\<close>
theorem parse_key_roundtrip:
  "parse_key (b64_encode k) = (if length k = 32 then Some k else None)"
  by (simp add: parse_key_def base64_decode_def b64_encode_plain b64_quads_encode)

end
