(* ===== verification/Storage.thy ===== *)
theory Storage
  imports GoStrings
begin

text \<open>
  Package \<open>storage\<close>: the tables of the SQLite database with their constraints and triggers
  (db.go), the operations on peers (peers.go) and profiles (profiles.go), the error classes
  (errors.go), and the recovery chain (backup.go). A statement that SQLite rejects leaves the
  tables unchanged; every statement can also fail for a reason of the environment, which the
  script \<open>db_faults\<close> decides.
\<close>

subsection \<open>Tables and errors\<close>

record peer =
  pr_id :: nat
  pr_public_key :: string
  pr_friendly_name :: string
  pr_allowed_ips :: string
  pr_profile :: "string option"
  pr_enabled :: bool
  pr_auto_discovered :: bool
  pr_created_at :: nat
  pr_notes :: string
  pr_endpoint :: string
  pr_persistent_keepalive :: "int option"
  pr_client_dns :: string
  pr_client_mtu :: "int option"
  pr_client_address :: string
  pr_last_seen_endpoint :: string
  pr_preshared_key :: string
  pr_client_allowed_ips :: string

record profile =
  pf_name :: string
  pf_allowed_ips :: "string list"
  pf_exclude_ips :: "string list"
  pf_description :: string
  pf_is_default :: bool
  pf_created_at :: nat
  pf_persistent_keepalive :: "int option"
  pf_client_dns :: string
  pf_client_mtu :: "int option"
  pf_use_preshared_key :: bool

text \<open>
  The error classes callers tell apart: \<open>sql.ErrNoRows\<close>, a unique or primary-key violation, the
  trigger on a missing profile, the rewritten message of a profile still in use, anything else.
\<close>

datatype db_err = ErrNoRows | ErrUnique | ErrNoProfile | ErrProfileInUse | ErrDriver

definition IsConflict :: "db_err \<Rightarrow> bool" where
  "IsConflict e \<longleftrightarrow> e = ErrUnique"

record db =
  db_peers :: "peer list"
  db_profiles :: "profile list"
  db_next_id :: nat
  db_now :: nat
  db_faults :: "bool list"

text \<open>One statement: it may fail in the driver, otherwise the tables decide.\<close>

definition stmt :: "(db, db_err, 'a) prog \<Rightarrow> (db, db_err, 'a) prog" where
  "stmt m = (\<lambda>d. if next_fault (db_faults d) then (Inl ErrDriver, d\<lparr>db_faults := tl (db_faults d)\<rparr>)
                 else m (d\<lparr>db_faults := tl (db_faults d)\<rparr>))"

definition has_profile :: "string \<Rightarrow> db \<Rightarrow> bool" where
  "has_profile n d \<longleftrightarrow> n \<in> pf_name ` set (db_profiles d)"

definition profile_ok :: "string option \<Rightarrow> db \<Rightarrow> bool" where
  "profile_ok po d = (case po of None \<Rightarrow> True | Some n \<Rightarrow> has_profile n d)"

text \<open>The unique index on keys and the partial one on non-empty client addresses.\<close>

definition unique_ok :: "peer list \<Rightarrow> bool" where
  "unique_ok ps \<longleftrightarrow> distinct (map pr_public_key ps) \<and>
     distinct (filter (\<lambda>a. a \<noteq> []) (map pr_client_address ps))"

text \<open>INSERT: the trigger on the profile runs before the unique indexes are checked.\<close>

definition insert_row :: "peer \<Rightarrow> (db, db_err, nat) prog" where
  "insert_row p d =
     (let r = p\<lparr>pr_id := db_next_id d, pr_created_at := db_now d\<rparr> in
      if \<not> profile_ok (pr_profile p) d then (Inl ErrNoProfile, d)
      else if \<not> unique_ok (db_peers d @ [r]) then (Inl ErrUnique, d)
      else (Inr (db_next_id d), d\<lparr>db_peers := db_peers d @ [r], db_next_id := Suc (db_next_id d)\<rparr>))"

text \<open>UPDATE of the row with a key; no such row is \<open>sql.ErrNoRows\<close> (RowsAffected is zero).\<close>

definition update_rows :: "string \<Rightarrow> (peer \<Rightarrow> peer) \<Rightarrow> peer list \<Rightarrow> peer list" where
  "update_rows key f ps = map (\<lambda>p. if pr_public_key p = key then f p else p) ps"

definition has_peer :: "string \<Rightarrow> db \<Rightarrow> bool" where
  "has_peer key d \<longleftrightarrow> key \<in> pr_public_key ` set (db_peers d)"

definition update_key :: "string \<Rightarrow> (peer \<Rightarrow> peer) \<Rightarrow> (db, db_err, unit) prog" where
  "update_key key f d =
     (if \<not> has_peer key d then (Inl ErrNoRows, d)
      else if \<not> unique_ok (update_rows key f (db_peers d)) then (Inl ErrUnique, d)
      else (Inr (), d\<lparr>db_peers := update_rows key f (db_peers d)\<rparr>))"

subsection \<open>Peers (peers.go)\<close>

definition ListPeers :: "(db, db_err, peer list) prog" where
  "ListPeers = stmt (\<lambda>d. (Inr (sort_key pr_created_at (db_peers d)), d))"

definition GetPeerByPubKey :: "string \<Rightarrow> (db, db_err, peer) prog" where
  "GetPeerByPubKey key = stmt (\<lambda>d.
     case find (\<lambda>p. pr_public_key p = key) (db_peers d) of None \<Rightarrow> (Inl ErrNoRows, d) | Some p \<Rightarrow> (Inr p, d))"

definition GetPeerByID :: "nat \<Rightarrow> (db, db_err, peer) prog" where
  "GetPeerByID i = stmt (\<lambda>d.
     case find (\<lambda>p. pr_id p = i) (db_peers d) of None \<Rightarrow> (Inl ErrNoRows, d) | Some p \<Rightarrow> (Inr p, d))"

text \<open>The columns the INSERT names; the last seen endpoint gets its default.\<close>

definition inserted :: "peer \<Rightarrow> peer" where
  "inserted p = p\<lparr>pr_last_seen_endpoint := []\<rparr>"

definition CreatePeer :: "peer \<Rightarrow> (db, db_err, nat) prog" where
  "CreatePeer p = stmt (insert_row (inserted p))"

definition DeletePeer :: "string \<Rightarrow> (db, db_err, unit) prog" where
  "DeletePeer key = stmt (\<lambda>d.
     if has_peer key d then (Inr (), d\<lparr>db_peers := filter (\<lambda>p. pr_public_key p \<noteq> key) (db_peers d)\<rparr>)
     else (Inl ErrNoRows, d))"

text \<open>A partial update: \<open>None\<close> leaves the column alone (a nil pointer).\<close>

record peer_update =
  up_friendly_name :: "string option"
  up_allowed_ips :: "string option"
  up_profile :: "string option option"
  up_enabled :: "bool option"
  up_notes :: "string option"
  up_endpoint :: "string option"
  up_persistent_keepalive :: "int option option"
  up_client_dns :: "string option"
  up_client_mtu :: "int option option"
  up_client_address :: "string option"
  up_preshared_key :: "string option"
  up_client_allowed_ips :: "string option"

definition no_update :: peer_update where
  "no_update = \<lparr>up_friendly_name = None, up_allowed_ips = None, up_profile = None, up_enabled = None,
     up_notes = None, up_endpoint = None, up_persistent_keepalive = None, up_client_dns = None,
     up_client_mtu = None, up_client_address = None, up_preshared_key = None, up_client_allowed_ips = None\<rparr>"

definition upd :: "'a option \<Rightarrow> 'a \<Rightarrow> 'a" where
  "upd v old = (case v of None \<Rightarrow> old | Some x \<Rightarrow> x)"

definition apply_update :: "peer_update \<Rightarrow> peer \<Rightarrow> peer" where
  "apply_update u p = p\<lparr>
     pr_friendly_name := upd (up_friendly_name u) (pr_friendly_name p),
     pr_allowed_ips := upd (up_allowed_ips u) (pr_allowed_ips p),
     pr_profile := upd (up_profile u) (pr_profile p),
     pr_enabled := upd (up_enabled u) (pr_enabled p),
     pr_notes := upd (up_notes u) (pr_notes p),
     pr_endpoint := upd (up_endpoint u) (pr_endpoint p),
     pr_persistent_keepalive := upd (up_persistent_keepalive u) (pr_persistent_keepalive p),
     pr_client_dns := upd (up_client_dns u) (pr_client_dns p),
     pr_client_mtu := upd (up_client_mtu u) (pr_client_mtu p),
     pr_client_address := upd (up_client_address u) (pr_client_address p),
     pr_preshared_key := upd (up_preshared_key u) (pr_preshared_key p),
     pr_client_allowed_ips := upd (up_client_allowed_ips u) (pr_client_allowed_ips p)\<rparr>"

text \<open>
  UpdatePeer: no column set means no statement at all. The trigger on the profile fires for a
  row that exists, when the profile column is among the ones set.
\<close>

definition UpdatePeer :: "string \<Rightarrow> peer_update \<Rightarrow> (db, db_err, unit) prog" where
  "UpdatePeer key u =
     (if u = no_update then ret ()
      else stmt (\<lambda>d.
        if has_peer key d \<and> \<not> profile_ok (upd (up_profile u) None) d then (Inl ErrNoProfile, d)
        else update_key key (apply_update u) d))"

text \<open>INSERT OR IGNORE: a conflict on a unique column is no error and inserts nothing.\<close>

definition insert_or_ignore :: "peer \<Rightarrow> (db, db_err, unit) prog" where
  "insert_or_ignore r d =
     (case insert_row r d of
        (Inr _, d') \<Rightarrow> (Inr (), d')
      | (Inl e, d') \<Rightarrow> (if e = ErrUnique then Inr () else Inl e, d'))"

definition UpsertPeerFromReconcile ::
  "string \<Rightarrow> string \<Rightarrow> bool \<Rightarrow> bool \<Rightarrow> string \<Rightarrow> int option \<Rightarrow> (db, db_err, unit) prog" where
  "UpsertPeerFromReconcile key name auto_disc enabled endpoint pka = stmt (insert_or_ignore
     \<lparr>pr_id = 0, pr_public_key = key, pr_friendly_name = name, pr_allowed_ips = [],
        pr_profile = None, pr_enabled = enabled, pr_auto_discovered = auto_disc, pr_created_at = 0,
        pr_notes = [], pr_endpoint = [], pr_persistent_keepalive = pka, pr_client_dns = [],
        pr_client_mtu = None, pr_client_address = [], pr_last_seen_endpoint = endpoint,
        pr_preshared_key = [], pr_client_allowed_ips = []\<rparr>)"

definition ApprovePeer :: "string \<Rightarrow> (db, db_err, unit) prog" where
  "ApprovePeer key = stmt (update_key key (\<lambda>p. p\<lparr>pr_enabled := True, pr_auto_discovered := False\<rparr>))"

text \<open>A transaction: an error of any statement, or of the commit, restores the tables.\<close>

definition restore :: "db \<Rightarrow> db \<Rightarrow> db" where
  "restore d d' = d\<lparr>db_faults := db_faults d'\<rparr>"

definition transaction :: "(db, db_err, 'a) prog \<Rightarrow> (db, db_err, 'a) prog" where
  "transaction m d =
     (case thenE (stmt (ret ())) (bindE m (\<lambda>a. thenE (stmt (ret ())) (ret a))) d of
        (Inl e, d') \<Rightarrow> (Inl e, restore d d')
      | (Inr a, d') \<Rightarrow> (Inr a, d'))"

definition CreatePeersBatch :: "peer list \<Rightarrow> (db, db_err, nat list) prog" where
  "CreatePeersBatch ps = transaction (forE ps (\<lambda>p. stmt (insert_row (inserted p))))"

definition CountPeers :: "(db, db_err, nat) prog" where
  "CountPeers = stmt (\<lambda>d. (Inr (length (db_peers d)), d))"

text \<open>GROUP BY gives each profile in use once; the Go map keeps the pairs.\<close>

definition CountPeersPerProfile :: "(db, db_err, string \<rightharpoonup> nat) prog" where
  "CountPeersPerProfile = stmt (\<lambda>d. (Inr (\<lambda>n.
     let c = length (filter (\<lambda>p. pr_profile p = Some n) (db_peers d)) in if c = 0 then None else Some c), d))"

definition UpdatePeerPublicKey :: "string \<Rightarrow> string \<Rightarrow> (db, db_err, unit) prog" where
  "UpdatePeerPublicKey old new = stmt (update_key old (\<lambda>p. p\<lparr>pr_public_key := new\<rparr>))"

definition IsClientAddressTaken :: "string \<Rightarrow> string \<Rightarrow> (db, db_err, bool) prog" where
  "IsClientAddressTaken addr exclude =
     (if addr = [] then ret False
      else stmt (\<lambda>d. (Inr (0 < length (filter (\<lambda>p. pr_client_address p = addr \<and> pr_public_key p \<noteq> exclude)
                                        (db_peers d))), d)))"

text \<open>The updates in the order the Go map is iterated; an absent key is no error here.\<close>

definition UpdateLastSeenEndpoints :: "(string \<times> string) list \<Rightarrow> (db, db_err, unit) prog" where
  "UpdateLastSeenEndpoints us =
     (if us = [] then ret ()
      else transaction (thenE (stmt (ret ()))
        (bindE (forE us (\<lambda>(key, ep). stmt (modifyE (\<lambda>d. d\<lparr>db_peers :=
             update_rows key (\<lambda>p. p\<lparr>pr_last_seen_endpoint := ep\<rparr>) (db_peers d)\<rparr>))))
           (\<lambda>_. ret ()))))"

definition CountPeersWithEmptyClientAddress :: "(db, db_err, nat) prog" where
  "CountPeersWithEmptyClientAddress =
     stmt (\<lambda>d. (Inr (length (filter (\<lambda>p. pr_client_address p = []) (db_peers d))), d))"

definition ListClientAddresses :: "(db, db_err, string list) prog" where
  "ListClientAddresses = stmt (\<lambda>d. (Inr (filter (\<lambda>a. a \<noteq> []) (map pr_client_address (db_peers d))), d))"

subsection \<open>Profiles (profiles.go)\<close>

text \<open>
  The JSON columns hold what \<open>json.Marshal\<close> writes for a list of strings and are read with
  \<open>json.Unmarshal\<close>; the model keeps the list.
\<close>

record profile_seed =
  sd_name :: string
  sd_allowed_ips :: "string list"
  sd_exclude_ips :: "string list"
  sd_description :: string
  sd_persistent_keepalive :: "int option"
  sd_client_dns :: string
  sd_client_mtu :: "int option"
  sd_use_preshared_key :: bool

definition ListProfiles :: "(db, db_err, profile list) prog" where
  "ListProfiles = stmt (\<lambda>d. (Inr (sort_key pf_name (db_profiles d)), d))"

definition GetProfile :: "string \<Rightarrow> (db, db_err, profile) prog" where
  "GetProfile name = stmt (\<lambda>d.
     case find (\<lambda>p. pf_name p = name) (db_profiles d) of None \<Rightarrow> (Inl ErrNoRows, d) | Some p \<Rightarrow> (Inr p, d))"

definition insert_profile :: "profile \<Rightarrow> (db, db_err, unit) prog" where
  "insert_profile p d =
     (if has_profile (pf_name p) d then (Inl ErrUnique, d)
      else (Inr (), d\<lparr>db_profiles := db_profiles d @ [p\<lparr>pf_created_at := db_now d\<rparr>]\<rparr>))"

definition CreateProfile :: "profile \<Rightarrow> (db, db_err, unit) prog" where
  "CreateProfile p = stmt (insert_profile p)"

definition profile_columns :: "profile \<Rightarrow> profile \<Rightarrow> profile" where
  "profile_columns u p = p\<lparr>pf_allowed_ips := pf_allowed_ips u, pf_exclude_ips := pf_exclude_ips u,
     pf_description := pf_description u, pf_persistent_keepalive := pf_persistent_keepalive u,
     pf_client_dns := pf_client_dns u, pf_client_mtu := pf_client_mtu u,
     pf_use_preshared_key := pf_use_preshared_key u\<rparr>"

definition UpdateProfile :: "string \<Rightarrow> profile \<Rightarrow> (db, db_err, unit) prog" where
  "UpdateProfile name u = stmt (\<lambda>d.
     if \<not> has_profile name d then (Inl ErrNoRows, d)
     else (Inr (), d\<lparr>db_profiles :=
       map (\<lambda>p. if pf_name p = name then profile_columns u p else p) (db_profiles d)\<rparr>))"

definition DeleteProfile :: "string \<Rightarrow> (db, db_err, unit) prog" where
  "DeleteProfile name = stmt (\<lambda>d.
     if \<not> has_profile name d then (Inl ErrNoRows, d)
     else if list_ex (\<lambda>p. pr_profile p = Some name) (db_peers d) then (Inl ErrProfileInUse, d)
     else (Inr (), d\<lparr>db_profiles := filter (\<lambda>p. pf_name p \<noteq> name) (db_profiles d)\<rparr>))"

definition seeded :: "profile_seed \<Rightarrow> profile" where
  "seeded s = \<lparr>pf_name = sd_name s, pf_allowed_ips = sd_allowed_ips s, pf_exclude_ips = sd_exclude_ips s,
     pf_description = sd_description s, pf_is_default = True, pf_created_at = 0,
     pf_persistent_keepalive = sd_persistent_keepalive s, pf_client_dns = sd_client_dns s,
     pf_client_mtu = sd_client_mtu s, pf_use_preshared_key = sd_use_preshared_key s\<rparr>"

text \<open>
  SeedProfiles: BEGIN IMMEDIATE, the count, the inserts, COMMIT; every way out that has not
  committed (a table that is not empty included) runs the deferred ROLLBACK.
\<close>

definition SeedProfiles :: "profile_seed list \<Rightarrow> (db, db_err, unit) prog" where
  "SeedProfiles seeds =
     (if seeds = [] then ret ()
      else (\<lambda>d.
        case thenE (stmt (ret ()))
               (bindE (stmt (getE (\<lambda>d. length (db_profiles d)))) (\<lambda>count.
                  if 0 < count then ret False
                  else bindE (forE seeds (\<lambda>s. stmt (insert_profile (seeded s)))) (\<lambda>_.
                       thenE (stmt (ret ())) (ret True)))) d of
          (Inl e, d') \<Rightarrow> (Inl e, restore d d')
        | (Inr committed, d') \<Rightarrow> (Inr (), if committed then d' else restore d d')))"

subsection \<open>Backup and recovery (backup.go)\<close>

datatype db_file = Corrupt | Sound db

record disk =
  dk_db :: "db_file option"
  dk_bak :: "db_file option"
  dk_now :: nat
  dk_faults :: "bool list"

definition disk_call :: "(disk, unit, 'a) prog \<Rightarrow> (disk, unit, 'a) prog" where
  "disk_call m = (\<lambda>d. if next_fault (dk_faults d) then (Inl (), d\<lparr>dk_faults := tl (dk_faults d)\<rparr>)
                      else m (d\<lparr>dk_faults := tl (dk_faults d)\<rparr>))"

text \<open>
  copyFileSync: open the source, create (and truncate) the destination, copy, fsync. A failure
  of the copy leaves a truncated destination.
\<close>

definition copyFileSync :: "(disk \<Rightarrow> db_file option) \<Rightarrow> (db_file \<Rightarrow> disk \<Rightarrow> disk) \<Rightarrow> (disk, unit, unit) prog" where
  "copyFileSync src put =
     bindE (disk_call (\<lambda>d. case src d of None \<Rightarrow> (Inl (), d) | Some f \<Rightarrow> (Inr f, d))) (\<lambda>f.
     thenE (disk_call (modifyE (put Corrupt)))
    (thenE (disk_call (modifyE (put f)))
           (disk_call (ret ()))))"

definition put_bak :: "db_file \<Rightarrow> disk \<Rightarrow> disk" where
  "put_bak f d = d\<lparr>dk_bak := Some f\<rparr>"

definition put_db :: "db_file \<Rightarrow> disk \<Rightarrow> disk" where
  "put_db f d = d\<lparr>dk_db := Some f\<rparr>"

text \<open>Backup: the WAL checkpoint, then the copy.\<close>

definition Backup :: "(disk, unit, unit) prog" where
  "Backup = thenE (disk_call (ret ())) (copyFileSync dk_db put_bak)"

definition fresh_db :: "disk \<Rightarrow> db" where
  "fresh_db d = \<lparr>db_peers = [], db_profiles = [], db_next_id = 1, db_now = dk_now d, db_faults = []\<rparr>"

text \<open>NewDB opens the file, creating it with the empty schema when it is missing.\<close>

definition NewDB :: "(disk, unit, db) prog" where
  "NewDB = disk_call (\<lambda>d. case dk_db d of
     None \<Rightarrow> (Inr (fresh_db d), put_db (Sound (fresh_db d)) d)
   | Some Corrupt \<Rightarrow> (Inl (), d)
   | Some (Sound b) \<Rightarrow> (Inr b, d))"

definition isDBHealthy :: "disk \<Rightarrow> bool \<times> disk" where
  "isDBHealthy d = (case thenE NewDB (disk_call (ret ())) d of (Inr _, d') \<Rightarrow> (True, d') | (Inl _, d') \<Rightarrow> (False, d'))"

definition InsertRecoveredPeer :: "string \<Rightarrow> string \<Rightarrow> string \<Rightarrow> (db, db_err, unit) prog" where
  "InsertRecoveredPeer key name notes = stmt (insert_or_ignore
     \<lparr>pr_id = 0, pr_public_key = key, pr_friendly_name = name, pr_allowed_ips = ''[]'',
        pr_profile = None, pr_enabled = True, pr_auto_discovered = False, pr_created_at = 0,
        pr_notes = notes, pr_endpoint = [], pr_persistent_keepalive = None, pr_client_dns = [],
        pr_client_mtu = None, pr_client_address = [], pr_last_seen_endpoint = [],
        pr_preshared_key = [], pr_client_allowed_ips = []\<rparr>)"

datatype recovery = NotNeeded | FromBackup | FromConf | CleanStart | Panicked

definition recovered_name :: "string \<Rightarrow> string \<Rightarrow> string" where
  "recovered_name key name =
     (if name = [] then ''recovered-'' @ (if 8 < length key then take 8 key else key) else name)"

text \<open>
  The insert loop over the comments' map, in its iteration order: the number recovered, or the
  slice panic of the log line \<open>pubKey[:8]\<close> for a failed insert of a shorter key.
\<close>

fun recover_peers :: "(string \<times> string \<times> string) list \<Rightarrow> nat \<Rightarrow> db \<Rightarrow> nat option \<times> db" where
  "recover_peers [] n d = (Some n, d)"
| "recover_peers ((key, name, notes) # ms) n d =
     (case InsertRecoveredPeer key (recovered_name key name) notes d of
        (Inr _, d') \<Rightarrow> recover_peers ms (Suc n) d'
      | (Inl _, d') \<Rightarrow> if length key < 8 then (None, d') else recover_peers ms n d')"

text \<open>Level 3 and the removal of the damaged files (os.Remove errors are ignored).\<close>

definition remove_db :: "disk \<Rightarrow> disk" where
  "remove_db d = d\<lparr>dk_db := None\<rparr>"

definition recover_clean :: "disk \<Rightarrow> recovery \<times> disk" where
  "recover_clean d = (CleanStart, remove_db d)"

definition recover_conf :: "((string \<times> string \<times> string) list) option \<Rightarrow> bool list \<Rightarrow> disk \<Rightarrow> recovery \<times> disk" where
  "recover_conf meta stmts d =
     (case meta of
        None \<Rightarrow> recover_clean d
      | Some [] \<Rightarrow> recover_clean d
      | Some ms \<Rightarrow>
          (case NewDB (remove_db d) of
             (Inl _, d') \<Rightarrow> recover_clean d'
           | (Inr b, d') \<Rightarrow>
               (case recover_peers ms 0 (b\<lparr>db_faults := stmts\<rparr>) of
                  (None, b') \<Rightarrow> (Panicked, put_db (Sound b') d')
                | (Some n, b') \<Rightarrow>
                    if 0 < n then (FromConf, put_db (Sound (b'\<lparr>db_faults := []\<rparr>)) d')
                    else recover_clean d')))"

text \<open>
  RecoverDB. \<open>meta\<close> is what \<open>parseComments\<close> gives for the configuration file (\<open>None\<close> for an error
  or a nil function), in the iteration order of the map; \<open>stmts\<close> scripts the failures of the
  insert statements.
\<close>

definition RecoverDB :: "((string \<times> string \<times> string) list) option \<Rightarrow> bool list \<Rightarrow> disk \<Rightarrow> recovery \<times> disk" where
  "RecoverDB meta stmts d =
     (if dk_db d = None then (NotNeeded, d)
      else
        (case isDBHealthy d of
           (True, d1) \<Rightarrow> (NotNeeded, d1)
         | (False, d1) \<Rightarrow>
             if dk_bak d1 = None then recover_conf meta stmts d1
             else (case copyFileSync dk_bak put_db d1 of
                     (Inl _, d2) \<Rightarrow> recover_conf meta stmts d2
                   | (Inr _, d2) \<Rightarrow>
                       (case isDBHealthy d2 of
                          (True, d3) \<Rightarrow> (FromBackup, d3)
                        | (False, d3) \<Rightarrow> recover_conf meta stmts d3))))"

subsection \<open>The database invariant\<close>

text \<open>
  Keys and non-empty client addresses are unique, a peer's profile exists, identifiers are unique
  and below the next one, profile names are unique.
\<close>

definition db_inv :: "db \<Rightarrow> bool" where
  "db_inv d \<longleftrightarrow> unique_ok (db_peers d) \<and> (\<forall>p \<in> set (db_peers d). profile_ok (pr_profile p) d) \<and>
     distinct (map pr_id (db_peers d)) \<and> (\<forall>p \<in> set (db_peers d). pr_id p < db_next_id d) \<and>
     distinct (map pf_name (db_profiles d))"

lemma profile_ok_cong: "db_profiles d' = db_profiles d \<Longrightarrow> profile_ok po d' = profile_ok po d"
  by (simp add: profile_ok_def has_profile_def split: option.splits)

lemma profile_ok_faults [simp]: "profile_ok po (d\<lparr>db_faults := fs\<rparr>) = profile_ok po d"
  and has_profile_faults [simp]: "has_profile n (d\<lparr>db_faults := fs\<rparr>) = has_profile n d"
  and has_peer_faults [simp]: "has_peer n (d\<lparr>db_faults := fs\<rparr>) = has_peer n d"
  by (simp_all add: profile_ok_def has_profile_def has_peer_def split: option.splits)

lemma db_inv_faults [simp]: "db_inv (d\<lparr>db_faults := fs\<rparr>) = db_inv d"
  by (simp add: db_inv_def)

lemma db_inv_restore [simp]: "db_inv (restore d d') = db_inv d"
  by (simp add: restore_def)

lemma keeps_stmt_gen: "(\<And>d fs. P (d\<lparr>db_faults := fs\<rparr>) = P d) \<Longrightarrow> keeps P m \<Longrightarrow> keeps P (stmt m)"
  unfolding keeps_def stmt_def by simp

lemma keeps_stmt [keeps_intros]: "keeps db_inv m \<Longrightarrow> keeps db_inv (stmt m)"
  unfolding keeps_def stmt_def by simp

lemma keeps_query: "(\<And>d. snd (m d) = d) \<Longrightarrow> keeps db_inv m"
  by (simp add: keeps_def)

lemma insert_row_inv [keeps_intros]: "keeps db_inv (insert_row p)"
proof (rule keepsI)
  fix d assume inv: "db_inv d"
  let ?r = "p\<lparr>pr_id := db_next_id d, pr_created_at := db_now d\<rparr>"
  show "db_inv (snd (insert_row p d))"
  proof (cases "profile_ok (pr_profile p) d \<and> unique_ok (db_peers d @ [?r])")
    case True
    have "profile_ok po (d\<lparr>db_peers := ps, db_next_id := i\<rparr>) = profile_ok po d" for po ps i
      by (rule profile_ok_cong) simp
    with True inv show ?thesis by (auto simp: insert_row_def db_inv_def Let_def)
  qed (use inv in \<open>auto simp: insert_row_def Let_def\<close>)
qed

lemma update_rows_map: "update_rows key f ps = map (\<lambda>p. if pr_public_key p = key then f p else p) ps"
  by (rule update_rows_def)

lemma set_update_rows: "q \<in> set (update_rows key f ps) \<longleftrightarrow>
    (\<exists>p \<in> set ps. q = (if pr_public_key p = key then f p else p))"
  unfolding update_rows_def set_map image_iff by (rule refl)

text \<open>An update keeps the identifiers; its new rows must respect the profile trigger.\<close>

lemma update_key_inv:
  assumes "\<And>p. pr_id (f p) = pr_id p" "\<And>p. p \<in> set (db_peers d) \<Longrightarrow> profile_ok (pr_profile p) d \<Longrightarrow>
      profile_ok (pr_profile (f p)) d"
    and "db_inv d"
  shows "db_inv (snd (update_key key f d))"
proof (cases "has_peer key d \<and> unique_ok (update_rows key f (db_peers d))")
  case True
  have ids: "map pr_id (update_rows key f ps) = map pr_id ps" for ps
    using assms(1) by (simp add: update_rows_def)
  have "profile_ok po (d\<lparr>db_peers := ps\<rparr>) = profile_ok po d" for po ps by (rule profile_ok_cong) simp
  with True assms ids show ?thesis
    by (auto simp: update_key_def db_inv_def set_update_rows)
qed (use assms in \<open>auto simp: update_key_def\<close>)

lemma update_key_keeps [keeps_intros]:
  "(\<And>p. pr_id (f p) = pr_id p) \<Longrightarrow> (\<And>p. pr_profile (f p) = pr_profile p) \<Longrightarrow> keeps db_inv (update_key key f)"
  by (rule keepsI, rule update_key_inv) auto

lemma unique_ok_filter: "unique_ok ps \<Longrightarrow> unique_ok (filter P ps)"
proof -
  assume u: "unique_ok ps"
  have "filter (\<lambda>a. a \<noteq> []) (map pr_client_address (filter P ps)) =
      map pr_client_address (filter P (filter (\<lambda>p. pr_client_address p \<noteq> []) ps))"
    by (simp add: filter_map comp_def conj_commute)
  moreover have "distinct (map pr_client_address (filter (\<lambda>p. pr_client_address p \<noteq> []) ps))"
    using u by (simp add: unique_ok_def filter_map comp_def)
  then have "distinct (map pr_client_address (filter P (filter (\<lambda>p. pr_client_address p \<noteq> []) ps)))"
    by (rule distinct_map_filter)
  ultimately show ?thesis using u by (simp only: unique_ok_def distinct_map_filter)
qed

lemma keeps_transaction [keeps_intros]: "keeps db_inv m \<Longrightarrow> keeps db_inv (transaction m)"
proof (rule keepsI)
  fix d assume m: "keeps db_inv m" and d: "db_inv d"
  have "keeps db_inv (thenE (stmt (ret ())) (bindE m (\<lambda>a. thenE (stmt (ret ())) (ret a))))"
    by (intro keeps_intros m)
  from keepsD[OF this d] show "db_inv (snd (transaction m d))"
    using d by (auto simp: transaction_def split: prod.splits sum.splits)
qed

lemma keeps_transaction_gen:
  assumes "\<And>d fs. P (d\<lparr>db_faults := fs\<rparr>) = P d" "keeps P m"
  shows "keeps P (transaction m)"
proof (rule keepsI)
  fix d assume "P d"
  moreover have "keeps P (thenE (stmt (ret ())) (bindE m (\<lambda>a. thenE (stmt (ret ())) (ret a))))"
    by (intro keeps_intros keeps_stmt_gen assms)
  ultimately show "P (snd (transaction m d))"
    by (auto simp: transaction_def restore_def assms(1) dest: keepsD' split: prod.splits sum.splits)
qed

lemma ListPeers_inv [keeps_intros]: "keeps db_inv ListPeers"
  and GetPeerByPubKey_inv [keeps_intros]: "keeps db_inv (GetPeerByPubKey key)"
  and GetPeerByID_inv [keeps_intros]: "keeps db_inv (GetPeerByID i)"
  and CountPeers_inv [keeps_intros]: "keeps db_inv CountPeers"
  and CountPeersPerProfile_inv [keeps_intros]: "keeps db_inv CountPeersPerProfile"
  and CountEmpty_inv [keeps_intros]: "keeps db_inv CountPeersWithEmptyClientAddress"
  and ListClientAddresses_inv [keeps_intros]: "keeps db_inv ListClientAddresses"
  and ListProfiles_inv [keeps_intros]: "keeps db_inv ListProfiles"
  and GetProfile_inv [keeps_intros]: "keeps db_inv (GetProfile name)"
  unfolding ListPeers_def GetPeerByPubKey_def GetPeerByID_def CountPeers_def CountPeersPerProfile_def
    CountPeersWithEmptyClientAddress_def ListClientAddresses_def ListProfiles_def GetProfile_def
  by (intro keeps_stmt keeps_query; simp split: option.splits)+

lemma IsClientAddressTaken_inv [keeps_intros]: "keeps db_inv (IsClientAddressTaken a x)"
  unfolding IsClientAddressTaken_def by (intro keeps_if keeps_ret keeps_stmt keeps_query) simp

lemma CreatePeer_inv [keeps_intros]: "keeps db_inv (CreatePeer p)"
  unfolding CreatePeer_def by (intro keeps_intros)

lemma ApprovePeer_inv [keeps_intros]: "keeps db_inv (ApprovePeer key)"
  unfolding ApprovePeer_def by (intro keeps_stmt update_key_keeps) simp_all

lemma UpdatePeerPublicKey_inv [keeps_intros]: "keeps db_inv (UpdatePeerPublicKey old new)"
  unfolding UpdatePeerPublicKey_def by (intro keeps_stmt update_key_keeps) simp_all

lemma CreatePeersBatch_inv [keeps_intros]: "keeps db_inv (CreatePeersBatch ps)"
  unfolding CreatePeersBatch_def by (intro keeps_transaction keeps_forE keeps_stmt insert_row_inv)

lemma DeletePeer_inv [keeps_intros]: "keeps db_inv (DeletePeer key)"
  unfolding DeletePeer_def
proof (intro keeps_stmt keepsI)
  fix d assume d: "db_inv d"
  have "profile_ok po (d\<lparr>db_peers := ps\<rparr>) = profile_ok po d" for po ps by (rule profile_ok_cong) simp
  with d show "db_inv (snd (if has_peer key d
      then (Inr (), d\<lparr>db_peers := filter (\<lambda>p. pr_public_key p \<noteq> key) (db_peers d)\<rparr>) else (Inl ErrNoRows, d)))"
    by (auto simp: db_inv_def unique_ok_filter distinct_map_filter)
qed

lemma insert_or_ignore_keeps: "keeps P (insert_row r) \<Longrightarrow> keeps P (insert_or_ignore r)"
  by (fastforce simp: keeps_def insert_or_ignore_def split: prod.splits sum.splits)

lemma UpsertPeerFromReconcile_inv [keeps_intros]: "keeps db_inv (UpsertPeerFromReconcile k n ad en ep pka)"
  unfolding UpsertPeerFromReconcile_def by (intro keeps_stmt insert_or_ignore_keeps insert_row_inv)

lemma InsertRecoveredPeer_inv [keeps_intros]: "keeps db_inv (InsertRecoveredPeer k n notes)"
  unfolding InsertRecoveredPeer_def by (intro keeps_stmt insert_or_ignore_keeps insert_row_inv)

lemma UpdatePeer_inv [keeps_intros]: "keeps db_inv (UpdatePeer key u)"
proof -
  have "keeps db_inv (\<lambda>d. if has_peer key d \<and> \<not> profile_ok (upd (up_profile u) None) d
      then (Inl ErrNoProfile, d) else update_key key (apply_update u) d)"
  proof (rule keepsI)
    fix d assume d: "db_inv d"
    show "db_inv (snd (if has_peer key d \<and> \<not> profile_ok (upd (up_profile u) None) d
      then (Inl ErrNoProfile, d) else update_key key (apply_update u) d))"
    proof (cases "has_peer key d \<longrightarrow> profile_ok (upd (up_profile u) None) d")
      case True
      show ?thesis
      proof (cases "has_peer key d")
        case False
        with d show ?thesis by (simp add: update_key_def)
      next
        case peer: True
        have "db_inv (snd (update_key key (apply_update u) d))"
          using True peer d
          by (intro update_key_inv) (auto simp: apply_update_def upd_def split: option.splits)
        with True peer show ?thesis by simp
      qed
    qed (use d in simp)
  qed
  then show ?thesis unfolding UpdatePeer_def by (intro keeps_intros)
qed

lemma update_rows_same:
  assumes "\<And>p. g (f p) = g p"
  shows "map g (update_rows key f ps) = map g ps"
  using assms by (simp add: update_rows_def)

lemma UpdateLastSeenEndpoints_inv [keeps_intros]: "keeps db_inv (UpdateLastSeenEndpoints us)"
proof -
  have "db_inv (d\<lparr>db_peers := update_rows key (\<lambda>p. p\<lparr>pr_last_seen_endpoint := ep\<rparr>) (db_peers d)\<rparr>)"
    if "db_inv d" for d key ep
  proof -
    have "profile_ok po (d\<lparr>db_peers := ps\<rparr>) = profile_ok po d" for po ps by (rule profile_ok_cong) simp
    with that show ?thesis
      by (auto simp: db_inv_def unique_ok_def update_rows_same set_update_rows)
  qed
  then show ?thesis unfolding UpdateLastSeenEndpoints_def by (intro keeps_intros)
qed

lemma insert_profile_inv [keeps_intros]: "keeps db_inv (insert_profile p)"
proof (rule keepsI)
  fix d assume d: "db_inv d"
  have "profile_ok po d \<Longrightarrow> profile_ok po (d\<lparr>db_profiles := db_profiles d @ ps\<rparr>)" for po ps
    by (auto simp: profile_ok_def has_profile_def split: option.splits)
  with d show "db_inv (snd (insert_profile p d))"
    by (auto simp: insert_profile_def db_inv_def has_profile_def)
qed

lemma CreateProfile_inv [keeps_intros]: "keeps db_inv (CreateProfile p)"
  unfolding CreateProfile_def by (intro keeps_intros)

lemma profile_columns_name [simp]: "pf_name (profile_columns u p) = pf_name p"
  by (simp add: profile_columns_def)

lemma profile_ok_names:
  "pf_name ` set (db_profiles d') = pf_name ` set (db_profiles d) \<Longrightarrow> profile_ok po d' = profile_ok po d"
  by (simp add: profile_ok_def has_profile_def split: option.splits)

lemma UpdateProfile_inv [keeps_intros]: "keeps db_inv (UpdateProfile name u)"
  unfolding UpdateProfile_def
proof (intro keeps_stmt keepsI)
  fix d assume d: "db_inv d"
  let ?f = "\<lambda>p. if pf_name p = name then profile_columns u p else p"
  have names: "map pf_name (map ?f ps) = map pf_name ps" for ps by simp
  have "pf_name ` set (map ?f ps) = pf_name ` set ps" for ps using arg_cong[OF names, of set ps] by (simp only: set_map)
  then have "profile_ok po (d\<lparr>db_profiles := map ?f (db_profiles d)\<rparr>) = profile_ok po d" for po
    by (intro profile_ok_names) simp
  with d names have "db_inv (d\<lparr>db_profiles := map ?f (db_profiles d)\<rparr>)"
    unfolding db_inv_def by (simp del: map_map)
  with d show "db_inv (snd (if \<not> has_profile name d then (Inl ErrNoRows, d)
      else (Inr (), d\<lparr>db_profiles := map ?f (db_profiles d)\<rparr>)))" by simp
qed

lemma DeleteProfile_inv [keeps_intros]: "keeps db_inv (DeleteProfile name)"
  unfolding DeleteProfile_def
proof (intro keeps_stmt keepsI)
  fix d assume d: "db_inv d"
  let ?d = "d\<lparr>db_profiles := filter (\<lambda>p. pf_name p \<noteq> name) (db_profiles d)\<rparr>"
  have "pf_name ` set (db_profiles ?d) = pf_name ` set (db_profiles d) - {name}" by auto
  then have "po \<noteq> Some name \<Longrightarrow> profile_ok po d \<Longrightarrow> profile_ok po ?d" for po
    by (auto simp only: profile_ok_def has_profile_def split: option.splits)
  with d have "\<not> list_ex (\<lambda>p. pr_profile p = Some name) (db_peers d) \<Longrightarrow> db_inv ?d"
    by (auto simp: db_inv_def list_ex_iff distinct_map_filter)
  with d show "db_inv (snd (if \<not> has_profile name d then (Inl ErrNoRows, d)
     else if list_ex (\<lambda>p. pr_profile p = Some name) (db_peers d) then (Inl ErrProfileInUse, d)
     else (Inr (), ?d)))"
    by simp
qed

lemma SeedProfiles_inv [keeps_intros]: "keeps db_inv (SeedProfiles seeds)"
proof (rule keepsI)
  fix d assume d: "db_inv d"
  let ?m = "thenE (stmt (ret ()))
               (bindE (stmt (getE (\<lambda>d. length (db_profiles d)))) (\<lambda>count.
                  if 0 < count then ret False
                  else bindE (forE seeds (\<lambda>s. stmt (insert_profile (seeded s)))) (\<lambda>_.
                       thenE (stmt (ret ())) (ret True))))"
  have "keeps db_inv ?m" by (intro keeps_intros)
  from keepsD[OF this d] show "db_inv (snd (SeedProfiles seeds d))"
    using d by (auto simp: SeedProfiles_def split: prod.splits sum.splits)
qed

lemmas db_ops_inv = CreatePeer_inv DeletePeer_inv UpdatePeer_inv UpsertPeerFromReconcile_inv ApprovePeer_inv
  CreatePeersBatch_inv UpdatePeerPublicKey_inv UpdateLastSeenEndpoints_inv CreateProfile_inv UpdateProfile_inv
  DeleteProfile_inv SeedProfiles_inv InsertRecoveredPeer_inv

subsection \<open>Facts the callers use\<close>

lemma stmt_err: "stmt m d = (Inl e, d') \<Longrightarrow>
    (e = ErrDriver \<and> d' = d\<lparr>db_faults := tl (db_faults d)\<rparr>) \<or> m (d\<lparr>db_faults := tl (db_faults d)\<rparr>) = (Inl e, d')"
  by (auto simp: stmt_def split: if_splits)

lemma stmt_ok: "stmt m d = (Inr a, d') \<Longrightarrow> m (d\<lparr>db_faults := tl (db_faults d)\<rparr>) = (Inr a, d')"
  by (auto simp: stmt_def split: if_splits)

text \<open>The tables, without the script of failures.\<close>

definition tables :: "db \<Rightarrow> peer list \<times> profile list \<times> nat" where
  "tables d = (db_peers d, db_profiles d, db_next_id d)"

lemma tables_faults [simp]: "tables (d\<lparr>db_faults := fs\<rparr>) = tables d"
  by (simp add: tables_def)

lemma tables_restore [simp]: "tables (restore d d') = tables d"
  by (simp add: restore_def)

lemma insert_row_err: "insert_row p d = (Inl e, d') \<Longrightarrow> d' = d"
  by (auto simp: insert_row_def Let_def split: if_splits)

lemma update_key_err: "update_key key f d = (Inl e, d') \<Longrightarrow> d' = d"
  by (auto simp: update_key_def split: if_splits)

lemma transaction_err: "transaction m d = (Inl e, d') \<Longrightarrow> tables d' = tables d"
  by (auto simp: transaction_def split: prod.splits sum.splits)

lemma transaction_ok:
  assumes "transaction m d = (Inr a, d')"
  obtains d1 d2 where "tables d1 = tables d" "db_now d1 = db_now d" "m d1 = (Inr a, d2)" "tables d' = tables d2"
proof -
  have "thenE (stmt (ret ())) (bindE m (\<lambda>a. thenE (stmt (ret ())) (ret a))) d = (Inr a, d')"
    using assms by (auto simp: transaction_def split: prod.splits sum.splits)
  then obtain u d1 where 1: "stmt (ret ()) d = (Inr u, d1)" "bindE m (\<lambda>a. thenE (stmt (ret ())) (ret a)) d1 = (Inr a, d')"
    by (blast dest: thenE_InrD)
  then obtain b d2 where 2: "m d1 = (Inr b, d2)" "thenE (stmt (ret ())) (ret b) d2 = (Inr a, d')"
    by (blast dest: bindE_InrD)
  then obtain v where 3: "stmt (ret ()) d2 = (Inr v, d')" "b = a" by (auto dest!: thenE_InrD)
  have "tables d1 = tables d \<and> db_now d1 = db_now d" using stmt_ok[OF 1(1)] by (auto simp: tables_def)
  moreover have "tables d' = tables d2" using stmt_ok[OF 3(1)] by auto
  ultimately show thesis using 2 3 that by blast
qed

text \<open>The rows a batch appends: the given peers in order, with consecutive identifiers.\<close>

definition numbered :: "nat \<Rightarrow> nat \<Rightarrow> peer list \<Rightarrow> peer list" where
  "numbered now i ps = map (\<lambda>(j, p). (inserted p)\<lparr>pr_id := j, pr_created_at := now\<rparr>) (zip [i..<i + length ps] ps)"

lemma numbered_Nil [simp]: "numbered now i [] = []"
  by (simp add: numbered_def)

lemma numbered_Cons [simp]:
  "numbered now i (p # ps) = (inserted p)\<lparr>pr_id := i, pr_created_at := now\<rparr> # numbered now (Suc i) ps"
  by (simp add: numbered_def upt_conv_Cons del: upt_Suc)

lemma batch_rows:
  "forE ps (\<lambda>p. stmt (insert_row (inserted p))) d = (Inr ids, d') \<Longrightarrow>
     db_peers d' = db_peers d @ numbered (db_now d) (db_next_id d) ps \<and> db_profiles d' = db_profiles d \<and>
     ids = [db_next_id d..<db_next_id d + length ps] \<and> db_next_id d' = db_next_id d + length ps"
proof (induction ps arbitrary: d ids)
  case (Cons p ps)
  from forE_ConsD[OF Cons.prems] obtain i d1 js where 1: "stmt (insert_row (inserted p)) d = (Inr i, d1)"
    and 2: "forE ps (\<lambda>p. stmt (insert_row (inserted p))) d1 = (Inr js, d')" "ids = i # js" by blast
  have 3: "db_peers d1 = db_peers d @ [(inserted p)\<lparr>pr_id := db_next_id d, pr_created_at := db_now d\<rparr>]"
    "db_profiles d1 = db_profiles d" "i = db_next_id d" "db_next_id d1 = Suc (db_next_id d)" "db_now d1 = db_now d"
    using stmt_ok[OF 1] by (auto simp: insert_row_def Let_def split: if_splits)
  from Cons.IH[OF 2(1)] show ?case by (simp add: 2(2) 3 upt_conv_Cons del: upt_Suc)
qed simp

lemma seed_rows:
  "forE seeds (\<lambda>s. stmt (insert_profile (seeded s))) d = (Inr us, d') \<Longrightarrow>
     db_profiles d' = db_profiles d @ map (\<lambda>s. (seeded s)\<lparr>pf_created_at := db_now d\<rparr>) seeds \<and>
     db_peers d' = db_peers d"
proof (induction seeds arbitrary: d us)
  case (Cons s seeds)
  from forE_ConsD[OF Cons.prems] obtain u d1 vs where 1: "stmt (insert_profile (seeded s)) d = (Inr u, d1)"
    and 2: "forE seeds (\<lambda>s. stmt (insert_profile (seeded s))) d1 = (Inr vs, d')" by blast
  have "db_profiles d1 = db_profiles d @ [(seeded s)\<lparr>pf_created_at := db_now d\<rparr>]" "db_peers d1 = db_peers d"
    "db_now d1 = db_now d"
    using stmt_ok[OF 1] by (auto simp: insert_profile_def split: if_splits)
  with Cons.IH[OF 2] show ?case by simp
qed simp

subsection \<open>Facts on recovery\<close>

definition recovered_row :: "nat \<Rightarrow> nat \<Rightarrow> string \<times> string \<times> string \<Rightarrow> peer" where
  "recovered_row i now m = (case m of (key, name, notes) \<Rightarrow>
     \<lparr>pr_id = i, pr_public_key = key, pr_friendly_name = recovered_name key name, pr_allowed_ips = ''[]'',
      pr_profile = None, pr_enabled = True, pr_auto_discovered = False, pr_created_at = now,
      pr_notes = notes, pr_endpoint = [], pr_persistent_keepalive = None, pr_client_dns = [],
      pr_client_mtu = None, pr_client_address = [], pr_last_seen_endpoint = [],
      pr_preshared_key = [], pr_client_allowed_ips = []\<rparr>)"

lemma insert_recovered:
  assumes "InsertRecoveredPeer key (recovered_name key name) notes d = (r, d')"
  shows "db_now d' = db_now d \<and> db_profiles d' = db_profiles d \<and> db_next_id d \<le> db_next_id d' \<and>
    (db_peers d' = db_peers d \<or> (\<exists>i. db_peers d' = db_peers d @ [recovered_row i (db_now d) (key, name, notes)]))"
  using assms unfolding InsertRecoveredPeer_def stmt_def insert_or_ignore_def insert_row_def recovered_row_def
  by (fastforce simp: Let_def profile_ok_def split: if_splits)

text \<open>Every row of a recovered table comes from an entry of the comments.\<close>

lemma recover_peers_rows:
  assumes "recover_peers ms n d = (r, d')"
    and "\<forall>p \<in> set (db_peers d). \<exists>m i. m \<in> M \<and> p = recovered_row i (db_now d) m" "set ms \<subseteq> M"
  shows "\<forall>p \<in> set (db_peers d'). \<exists>m i. m \<in> M \<and> p = recovered_row i (db_now d) m"
  using assms
proof (induction ms n d rule: recover_peers.induct)
  case (2 key name memo ms n d)
  obtain q d1 where ins: "InsertRecoveredPeer key (recovered_name key name) memo d = (q, d1)" by (rule prod.exhaust)
  have now: "db_now d1 = db_now d" using insert_recovered[OF ins] by simp
  have rows: "\<forall>p \<in> set (db_peers d1). \<exists>m i. m \<in> M \<and> p = recovered_row i (db_now d1) m"
  proof (cases "db_peers d1 = db_peers d")
    case True
    with now "2.prems"(2) show ?thesis by simp
  next
    case False
    then obtain i where "db_peers d1 = db_peers d @ [recovered_row i (db_now d) (key, name, memo)]"
      using insert_recovered[OF ins] by blast
    moreover have "(key, name, memo) \<in> M" using "2.prems"(3) by simp
    ultimately show ?thesis using now "2.prems"(2) by auto
  qed
  have sub: "set ms \<subseteq> M" using "2.prems"(3) by simp
  show ?case
  proof (cases q)
    case (Inr u)
    then have "recover_peers ms (Suc n) d1 = (r, d')" using "2.prems"(1) ins by simp
    from "2.IH"(2)[OF ins[symmetric] Inr this rows sub] show ?thesis by (simp add: now)
  next
    case (Inl e)
    show ?thesis
    proof (cases "length key < 8")
      case True
      then have "d' = d1" using "2.prems"(1) ins Inl by simp
      then show ?thesis using rows now by simp
    next
      case False
      then have "recover_peers ms n d1 = (r, d')" using "2.prems"(1) ins Inl by simp
      from "2.IH"(1)[OF ins[symmetric] Inl False this rows sub] show ?thesis by (simp add: now)
    qed
  qed
qed simp

lemma recover_peers_inv: "db_inv d \<Longrightarrow> db_inv (snd (recover_peers ms n d))"
proof (induction ms n d rule: recover_peers.induct)
  case (2 key name memo ms n d)
  obtain q d1 where ins: "InsertRecoveredPeer key (recovered_name key name) memo d = (q, d1)" by (rule prod.exhaust)
  have inv: "db_inv d1" using keepsD[OF InsertRecoveredPeer_inv "2.prems"] ins by (metis snd_conv)
  show ?case
    using "2.IH"(2)[OF ins[symmetric] _ inv] "2.IH"(1)[OF ins[symmetric] _ _ inv] inv ins
    by (cases q) auto
qed simp

lemma recover_peers_panic: "recover_peers ms n d = (None, d') \<Longrightarrow> \<exists>m \<in> set ms. length (fst m) < 8"
proof (induction ms n d rule: recover_peers.induct)
  case (2 key name memo ms n d)
  then show ?case by (cases "length key < 8") (fastforce split: prod.splits sum.splits)+
qed simp

lemma disk_call_frame:
  assumes "\<And>d. g (d\<lparr>dk_faults := tl (dk_faults d)\<rparr>) = g d" "\<And>d. g (snd (m d)) = g d"
  shows "g (snd (disk_call m d)) = g d"
  using assms by (simp add: disk_call_def)

lemma copy_ok: "copyFileSync dk_bak put_db d = (Inr u, d') \<Longrightarrow> dk_db d' = dk_bak d \<and> dk_bak d' = dk_bak d \<and> dk_bak d \<noteq> None"
  by (auto simp: copyFileSync_def disk_call_def put_db_def bindE_def thenE_def split: if_splits option.splits)

lemma copy_bak: "dk_bak (snd (copyFileSync dk_bak put_db d)) = dk_bak d"
  by (auto simp: copyFileSync_def disk_call_def put_db_def bindE_def thenE_def split: option.splits)

lemma NewDB_bak: "NewDB d = (r, d') \<Longrightarrow> dk_bak d' = dk_bak d \<and> dk_now d' = dk_now d"
  by (auto simp: NewDB_def disk_call_def put_db_def split: if_splits option.splits db_file.splits)

lemma NewDB_db: "dk_db d \<noteq> None \<Longrightarrow> NewDB d = (r, d') \<Longrightarrow> dk_db d' = dk_db d"
  by (auto simp: NewDB_def disk_call_def put_db_def split: if_splits option.splits db_file.splits)

lemma NewDB_fresh:
  "dk_db d = None \<Longrightarrow> NewDB d = (Inr b, d') \<Longrightarrow> b = fresh_db d \<and> dk_db d' = Some (Sound b)"
  by (auto simp: NewDB_def disk_call_def put_db_def fresh_db_def split: if_splits)

lemma healthy_frame:
  assumes "dk_db d \<noteq> None" "isDBHealthy d = (r, d')"
  shows "dk_db d' = dk_db d \<and> dk_bak d' = dk_bak d \<and> (r \<longrightarrow> (\<exists>b. dk_db d = Some (Sound b)))"
proof -
  obtain q d1 where n: "NewDB d = (q, d1)" by (rule prod.exhaust)
  have f: "dk_db d1 = dk_db d" "dk_bak d1 = dk_bak d" using NewDB_db[OF assms(1) n] NewDB_bak[OF n] by auto
  have s: "q = Inr b \<Longrightarrow> \<exists>b. dk_db d = Some (Sound b)" for b
    using n assms(1) by (auto simp: NewDB_def disk_call_def split: if_splits option.splits db_file.splits)
  show ?thesis
    using assms(2) n f s
    by (cases q) (auto simp: isDBHealthy_def thenE_def bindE_def disk_call_def split: if_splits)
qed

definition rows_from :: "(string \<times> string \<times> string) list \<Rightarrow> db \<Rightarrow> bool" where
  "rows_from ms b \<longleftrightarrow> (\<forall>p \<in> set (db_peers b). \<exists>m i. m \<in> set ms \<and> p = recovered_row i (db_now b) m)"

lemma recover_peers_now: "recover_peers ms n d = (r, d') \<Longrightarrow> db_now d' = db_now d"
proof (induction ms n d rule: recover_peers.induct)
  case (2 key name memo ms n d)
  obtain q d1 where ins: "InsertRecoveredPeer key (recovered_name key name) memo d = (q, d1)" by (rule prod.exhaust)
  then show ?case using "2.IH"(2)[OF ins[symmetric]] "2.IH"(1)[OF ins[symmetric]] "2.prems" insert_recovered[OF ins]
    by (cases q) (auto split: if_splits)
qed simp

text \<open>What each outcome of the recovery chain says of the database file and of its origin.\<close>

fun recovered_as :: "(string \<times> string \<times> string) list option \<Rightarrow> disk \<Rightarrow> recovery \<Rightarrow> disk \<Rightarrow> bool" where
  "recovered_as meta d NotNeeded d' \<longleftrightarrow> dk_db d' = dk_db d"
| "recovered_as meta d FromBackup d' \<longleftrightarrow> (\<exists>b. dk_bak d = Some (Sound b) \<and> dk_db d' = Some (Sound b))"
| "recovered_as meta d FromConf d' \<longleftrightarrow>
     (\<exists>ms b. meta = Some ms \<and> dk_db d' = Some (Sound b) \<and> db_inv b \<and> rows_from ms b)"
| "recovered_as meta d CleanStart d' \<longleftrightarrow> dk_db d' = None"
| "recovered_as meta d Panicked d' \<longleftrightarrow> (\<exists>ms. meta = Some ms \<and> (\<exists>m \<in> set ms. length (fst m) < 8))"

lemma recover_conf_outcome:
  assumes "recover_conf meta stmts d0 = (r, d')"
  shows "recovered_as meta d r d' \<and> dk_bak d' = dk_bak d0"
proof (cases "\<exists>m ms. meta = Some (m # ms)")
  case False
  then have "recover_conf meta stmts d0 = recover_clean d0"
    by (cases meta) (auto simp: recover_conf_def split: list.splits)
  then show ?thesis using assms by (auto simp: recover_clean_def remove_db_def)
next
  case True
  then obtain m ms where meta: "meta = Some (m # ms)" by blast
  obtain q d1 where n: "NewDB (remove_db d0) = (q, d1)" by (rule prod.exhaust)
  have bak: "dk_bak d1 = dk_bak d0" using NewDB_bak[OF n] by (simp add: remove_db_def)
  show ?thesis
  proof (cases q)
    case (Inl e)
    then show ?thesis using assms meta n bak by (auto simp: recover_conf_def recover_clean_def remove_db_def)
  next
    case (Inr b)
    obtain o' b' where rp: "recover_peers (m # ms) 0 (b\<lparr>db_faults := stmts\<rparr>) = (o', b')" by (rule prod.exhaust)
    have b: "b = fresh_db (remove_db d0)" using NewDB_fresh[OF _ n[unfolded Inr]] by (simp add: remove_db_def)
    then have inv0: "db_inv (b\<lparr>db_faults := stmts\<rparr>)" by (simp add: db_inv_def fresh_db_def unique_ok_def)
    have inv: "db_inv b'" using recover_peers_inv[OF inv0, of "m # ms" 0] rp by simp
    have rows: "rows_from (m # ms) b'"
      using recover_peers_rows[OF rp, of "set (m # ms)"] recover_peers_now[OF rp] b
      by (simp add: rows_from_def fresh_db_def)
    have ok: "db_inv (b'\<lparr>db_faults := []\<rparr>) \<and> rows_from (m # ms) (b'\<lparr>db_faults := []\<rparr>)"
      using inv rows by (simp add: rows_from_def)
    have run: "(r, d') = (case o' of None \<Rightarrow> (Panicked, put_db (Sound b') d1)
      | Some n \<Rightarrow> if 0 < n then (FromConf, put_db (Sound (b'\<lparr>db_faults := []\<rparr>)) d1) else recover_clean d1)"
      using assms meta n Inr rp by (simp add: recover_conf_def)
    show ?thesis
    proof (cases o')
      case None
      then show ?thesis using run bak meta recover_peers_panic[OF rp[unfolded None]] by (simp add: put_db_def)
    next
      case (Some k)
      then show ?thesis using run bak meta ok by (auto simp: put_db_def recover_clean_def remove_db_def split: if_splits)
    qed
  qed
qed

subsection \<open>Properties\<close>

text \<open>
  Every operation that changes the database, whatever its outcome and whichever statements
  fail, keeps keys, client addresses, identifiers and profile names unique and every peer's
  profile existing.
\<close>
theorem database_invariant:
  "keeps db_inv (CreatePeer p) \<and> keeps db_inv (DeletePeer key) \<and> keeps db_inv (UpdatePeer key u) \<and>
   keeps db_inv (UpsertPeerFromReconcile key name ad en ep pka) \<and> keeps db_inv (ApprovePeer key) \<and>
   keeps db_inv (CreatePeersBatch ps) \<and> keeps db_inv (UpdatePeerPublicKey key key') \<and>
   keeps db_inv (UpdateLastSeenEndpoints us) \<and> keeps db_inv (CreateProfile f) \<and>
   keeps db_inv (UpdateProfile name f) \<and> keeps db_inv (DeleteProfile name) \<and>
   keeps db_inv (SeedProfiles seeds) \<and> keeps db_inv (InsertRecoveredPeer key name notes)"
  by (intro conjI db_ops_inv)

text \<open>
  A batch insert is all or nothing: either the tables are as before, or every peer has been
  appended in order and the identifiers returned are consecutive.
\<close>
theorem batch_all_or_nothing:
  "case CreatePeersBatch ps d of
     (Inl e, d') \<Rightarrow> tables d' = tables d
   | (Inr ids, d') \<Rightarrow> db_peers d' = db_peers d @ numbered (db_now d) (db_next_id d) ps \<and>
       ids = [db_next_id d..<db_next_id d + length ps] \<and> db_profiles d' = db_profiles d"
proof (cases "CreatePeersBatch ps d")
  case (Pair r d')
  show ?thesis
  proof (cases r)
    case (Inl e)
    with Pair show ?thesis by (auto simp: CreatePeersBatch_def dest: transaction_err)
  next
    case (Inr ids)
    with Pair have "transaction (forE ps (\<lambda>p. stmt (insert_row (inserted p)))) d = (Inr ids, d')"
      by (simp add: CreatePeersBatch_def)
    then obtain d1 d2 where "tables d1 = tables d" "db_now d1 = db_now d"
      "forE ps (\<lambda>p. stmt (insert_row (inserted p))) d1 = (Inr ids, d2)" "tables d' = tables d2"
      by (rule transaction_ok)
    with batch_rows[OF this(3)] Pair Inr show ?thesis by (simp add: tables_def)
  qed
qed

text \<open>
  A partial update touches the row with the given key only, writes exactly the columns that
  are set, and an error leaves the tables as they were.
\<close>
theorem update_peer_frame:
  "case UpdatePeer key u d of
     (Inl e, d') \<Rightarrow> tables d' = tables d
   | (Inr _, d') \<Rightarrow> db_peers d' = map (\<lambda>p. if pr_public_key p = key then apply_update u p else p) (db_peers d) \<and>
       db_profiles d' = db_profiles d"
proof (cases "u = no_update")
  case True
  have "apply_update no_update p = p" for p by (simp add: apply_update_def no_update_def upd_def)
  then show ?thesis by (simp add: True UpdatePeer_def map_idI)
next
  case False
  then show ?thesis
    by (auto simp: UpdatePeer_def stmt_def update_key_def update_rows_def tables_def split: prod.splits sum.splits)
qed

text \<open>
  Seeding profiles never changes a non-empty profile table, and otherwise inserts either all
  the seeds, in order and marked as defaults, or none.
\<close>
theorem seed_profiles_once:
  "case SeedProfiles seeds d of
     (r, d') \<Rightarrow> db_peers d' = db_peers d \<and>
       (db_profiles d' = db_profiles d \<or>
        db_profiles d = [] \<and> db_profiles d' = map (\<lambda>s. (seeded s)\<lparr>pf_created_at := db_now d\<rparr>) seeds)"
proof (cases "seeds = []")
  case False
  let ?ins = "\<lambda>count. if 0 < count then ret False
     else bindE (forE seeds (\<lambda>s. stmt (insert_profile (seeded s)))) (\<lambda>_. thenE (stmt (ret ())) (ret True))"
  let ?m = "thenE (stmt (ret ())) (bindE (stmt (getE (\<lambda>d. length (db_profiles d)))) ?ins)"
  have step: "db_peers x = db_peers d \<and> db_profiles d = [] \<and>
      db_profiles x = map (\<lambda>s. (seeded s)\<lparr>pf_created_at := db_now d\<rparr>) seeds"
    if run: "?m d = (Inr True, x)" for x
  proof -
    from run obtain u d1 where 1: "stmt (ret ()) d = (Inr u, d1)"
      "bindE (stmt (getE (\<lambda>d. length (db_profiles d)))) ?ins d1 = (Inr True, x)" by (blast dest: thenE_InrD)
    then obtain n d2 where 2: "stmt (getE (\<lambda>d. length (db_profiles d))) d1 = (Inr n, d2)" "?ins n d2 = (Inr True, x)"
      by (blast dest: bindE_InrD)
    then obtain us d3 where 3: "n = 0" "forE seeds (\<lambda>s. stmt (insert_profile (seeded s))) d2 = (Inr us, d3)"
      "thenE (stmt (ret ())) (ret True) d3 = (Inr True, x)" by (auto split: if_splits dest!: bindE_InrD)
    have "db_peers d2 = db_peers d \<and> db_profiles d2 = db_profiles d \<and> db_now d2 = db_now d \<and> db_profiles d = []"
      using stmt_ok[OF 1(1)] stmt_ok[OF 2(1)] 3(1) by auto
    moreover have "db_peers x = db_peers d3 \<and> db_profiles x = db_profiles d3"
      using 3(3) by (auto dest!: thenE_InrD stmt_ok)
    ultimately show ?thesis using seed_rows[OF 3(2)] by simp
  qed
  show ?thesis
  proof (cases "?m d")
    case (Pair r x)
    then show ?thesis using step False
      by (cases r) (auto simp: SeedProfiles_def restore_def)
  qed
qed (simp add: SeedProfiles_def)

text \<open>
  A profile that a peer uses cannot be deleted; the deletion of another existing profile
  removes that profile only.
\<close>
theorem delete_profile_in_use:
  "case DeleteProfile name d of
     (Inl _, d') \<Rightarrow> tables d' = tables d
   | (Inr _, d') \<Rightarrow> Some name \<notin> pr_profile ` set (db_peers d) \<and> has_profile name d \<and>
       db_peers d' = db_peers d \<and> db_profiles d' = filter (\<lambda>p. pf_name p \<noteq> name) (db_profiles d)"
  by (auto simp: DeleteProfile_def stmt_def list_ex_iff)

lemma recover_outcome:
  "case RecoverDB meta stmts d of (r, d') \<Rightarrow> recovered_as meta d r d' \<and> dk_bak d' = dk_bak d"
proof (cases "dk_db d")
  case (Some f)
  obtain h d1 where 1: "isDBHealthy d = (h, d1)" by (rule prod.exhaust)
  from Some have "dk_db d \<noteq> None" by simp
  note f1 = healthy_frame[OF this 1]
  obtain q d2 where 2: "copyFileSync dk_bak put_db d1 = (q, d2)" by (rule prod.exhaust)
  have bak2: "dk_bak d2 = dk_bak d" using copy_bak[of d1] 2 f1 by simp
  obtain h2 d3 where 3: "isDBHealthy d2 = (h2, d3)" by (rule prod.exhaust)
  have conf: "case recover_conf meta stmts x of (r, d') \<Rightarrow> recovered_as meta d r d' \<and> dk_bak d' = dk_bak d"
    if "dk_bak x = dk_bak d" for x
    using recover_conf_outcome[of meta stmts x _ _ d] that by (auto split: prod.splits)
  show ?thesis
  proof (cases "h \<or> dk_bak d1 = None")
    case True
    then show ?thesis using Some 1 f1 conf[of d1] by (cases h) (auto simp: RecoverDB_def)
  next
    case False
    show ?thesis
    proof (cases q)
      case (Inl e)
      then show ?thesis using Some 1 2 False conf[OF bak2] by (auto simp: RecoverDB_def)
    next
      case (Inr u)
      note c = copy_ok[OF 2[unfolded Inr]]
      then have "dk_db d2 \<noteq> None" by simp
      note f3 = healthy_frame[OF this 3]
      have run: "RecoverDB meta stmts d = (if h2 then (FromBackup, d3) else recover_conf meta stmts d3)"
        using Some 1 2 3 Inr False by (auto simp: RecoverDB_def)
      show ?thesis using run c f1 f3 conf[of d3] by (cases h2) auto
    qed
  qed
qed (simp add: RecoverDB_def)


end
