(* ===== verification/Firewall.thy ===== *)
theory Firewall
  imports Storage GoNet "HOL-Library.AList"
begin

text \<open>
  Package \<open>firewall\<close>: the per-peer rules of iptables.go, the no-op driver and the choice between
  them (firewall.go). The \<open>iptables\<close> binary is a parameter, a function from arguments to an
  effect on a state \<open>'i\<close>; its documented behaviour is the reference interpreter \<open>ipt_step\<close> over
  rule sets, which a call either follows or, when it fails for a reason of the system, leaves
  without effect.
\<close>

subsection \<open>Running iptables\<close>

type_synonym 'i runner = "string list \<Rightarrow> ('i, unit, string) prog"

record fw_config =
  fc_enabled :: bool
  fc_driver :: string
  fc_managed_chain :: string
  fc_wg_interface :: string

datatype fw_err = FwJump | FwDrop | FwPeerJump | FwSync nat | FwUnknownDriver | FwNoBinary

definition run :: "'i runner \<Rightarrow> string list \<Rightarrow> ('i, unit, unit) prog" where
  "run ipt args = bindE (ipt args) (\<lambda>_. ret ())"

definition NewIptablesFirewall :: "fw_config \<Rightarrow> 'i runner \<Rightarrow> 'i \<Rightarrow> 'i" where
  "NewIptablesFirewall cfg ipt w = snd (run ipt [''-N'', fc_managed_chain cfg] w)"

subsection \<open>Names and sources\<close>

definition peerChainName :: "string \<Rightarrow> string" where
  "peerChainName key = ''WG_PEER_'' @ take 16 (filter is_alnum key)"

definition sourceCIDR :: "string \<Rightarrow> string" where
  "sourceCIDR addr =
     (if addr = [] then []
      else (case parse_cidr addr of None \<Rightarrow> addr | Some (ip, _) \<Rightarrow> ip_string ip @ ''/32''))"

subsection \<open>The dispatch chain\<close>

definition ensureDispatchChain :: "fw_config \<Rightarrow> 'i runner \<Rightarrow> ('i, fw_err, unit) prog" where
  "ensureDispatchChain cfg ipt =
     thenE (ignoreE (run ipt [''-N'', fc_managed_chain cfg]))
    (bindE (tryE (run ipt [''-C'', ''FORWARD'', ''-i'', fc_wg_interface cfg, ''-j'', fc_managed_chain cfg])) (\<lambda>r.
       case r of
         Inr _ \<Rightarrow> ret ()
       | Inl _ \<Rightarrow> mapErr (\<lambda>_. FwJump)
           (run ipt [''-I'', ''FORWARD'', ''1'', ''-i'', fc_wg_interface cfg, ''-j'', fc_managed_chain cfg])))"

text \<open>The lines of a listing that jump to a chain, turned into the arguments of their deletion.\<close>

definition jumps_to :: "string \<Rightarrow> string \<Rightarrow> string list list" where
  "jumps_to output chain =
     map (\<lambda>l. go_fields (''-D '' @ drop 3 l))
       (filter (\<lambda>l. has_prefix ''-A '' l \<and> has_suffix (''-j '' @ chain) l) (map trim_space (split_on nl output)))"

definition delete_rules :: "'i runner \<Rightarrow> string list list \<Rightarrow> ('i, unit, unit) prog" where
  "delete_rules ipt rules = bindE (forE rules (\<lambda>args. ignoreE (run ipt args))) (\<lambda>_. ret ())"

definition removeAllDispatchJumpsTo :: "fw_config \<Rightarrow> 'i runner \<Rightarrow> string \<Rightarrow> ('i, unit, unit) prog" where
  "removeAllDispatchJumpsTo cfg ipt chain =
     bindE (tryE (ipt [''-S'', fc_managed_chain cfg])) (\<lambda>r.
       case r of Inl _ \<Rightarrow> ret () | Inr output \<Rightarrow> delete_rules ipt (jumps_to output chain))"

subsection \<open>RemovePeer, ApplyPeer\<close>

definition RemovePeer :: "fw_config \<Rightarrow> 'i runner \<Rightarrow> peer \<Rightarrow> ('i, fw_err, unit) prog" where
  "RemovePeer cfg ipt p =
     (let src = sourceCIDR (pr_client_address p); chain = peerChainName (pr_public_key p) in
      thenE (if src \<noteq> [] then ignoreE (run ipt [''-D'', fc_managed_chain cfg, ''-s'', src, ''-j'', chain])
             else ignoreE (removeAllDispatchJumpsTo cfg ipt chain))
     (thenE (ignoreE (run ipt [''-F'', chain]))
            (ignoreE (run ipt [''-X'', chain]))))"

text \<open>The destinations of \<open>client_allowed_ips\<close>: split at commas, trimmed, empty ones skipped.\<close>

definition destinations :: "string \<Rightarrow> string list" where
  "destinations s = (if s = [] then [] else filter (\<lambda>c. c \<noteq> []) (map trim_space (split_on (CHR '','') s)))"

definition accept_rules :: "'i runner \<Rightarrow> string \<Rightarrow> string \<Rightarrow> string list \<Rightarrow> ('i, fw_err, unit) prog" where
  "accept_rules ipt chain src cidrs =
     bindE (forE cidrs (\<lambda>d. ignoreE (run ipt [''-A'', chain, ''-s'', src, ''-d'', d, ''-j'', ''ACCEPT''])))
       (\<lambda>_. ret ())"

definition ensurePeerJump :: "fw_config \<Rightarrow> 'i runner \<Rightarrow> string \<Rightarrow> string \<Rightarrow> ('i, fw_err, unit) prog" where
  "ensurePeerJump cfg ipt src chain =
     bindE (tryE (run ipt [''-C'', fc_managed_chain cfg, ''-s'', src, ''-j'', chain])) (\<lambda>r.
       case r of
         Inr _ \<Rightarrow> ret ()
       | Inl _ \<Rightarrow> mapErr (\<lambda>_. FwPeerJump)
           (run ipt [''-A'', fc_managed_chain cfg, ''-s'', src, ''-j'', chain]))"

definition ApplyPeer :: "fw_config \<Rightarrow> 'i runner \<Rightarrow> peer \<Rightarrow> ('i, fw_err, unit) prog" where
  "ApplyPeer cfg ipt p =
     (if \<not> pr_enabled p then RemovePeer cfg ipt p
      else let src = sourceCIDR (pr_client_address p); chain = peerChainName (pr_public_key p) in
        if src = [] then ret ()
        else
          thenE (ignoreE (run ipt [''-N'', chain]))
         (thenE (ignoreE (run ipt [''-F'', chain]))
         (thenE (accept_rules ipt chain src (destinations (pr_client_allowed_ips p)))
         (thenE (mapErr (\<lambda>_. FwDrop) (run ipt [''-A'', chain, ''-j'', ''DROP'']))
         (thenE (ensureDispatchChain cfg ipt)
         (ensurePeerJump cfg ipt src chain))))))"

subsection \<open>Sync\<close>

text \<open>The chains declared by a listing, the second field of its \<open>-N WG_PEER_\<close> lines.\<close>

definition declared_chains :: "string \<Rightarrow> string list" where
  "declared_chains output =
     concat (map (\<lambda>l. if has_prefix ''-N WG_PEER_'' l then take 1 (drop 1 (go_fields l)) else [])
       (map trim_space (split_on nl output)))"

definition remove_orphan :: "'i runner \<Rightarrow> unit + string \<Rightarrow> string \<Rightarrow> ('i, fw_err, unit) prog" where
  "remove_orphan ipt dispatch chain =
     thenE (ignoreE (case dispatch of Inl _ \<Rightarrow> ret () | Inr output \<Rightarrow> delete_rules ipt (jumps_to output chain)))
    (thenE (ignoreE (run ipt [''-F'', chain]))
           (ignoreE (run ipt [''-X'', chain])))"

definition cleanupOrphanChains :: "fw_config \<Rightarrow> 'i runner \<Rightarrow> string list \<Rightarrow> ('i, fw_err, unit) prog" where
  "cleanupOrphanChains cfg ipt expected =
     bindE (tryE (ipt [''-S''])) (\<lambda>r.
       case r of
         Inl _ \<Rightarrow> ret ()
       | Inr output \<Rightarrow>
           bindE (tryE (ipt [''-S'', fc_managed_chain cfg])) (\<lambda>dispatch.
             bindE (forE (filter (\<lambda>c. c \<notin> set expected) (rev (remdups (rev (declared_chains output)))))
               (remove_orphan ipt dispatch)) (\<lambda>_. ret ())))"

text \<open>The peers' calls; the errors are counted and the loop goes on.\<close>

definition sync_peer :: "fw_config \<Rightarrow> 'i runner \<Rightarrow> peer \<Rightarrow> ('i, fw_err, nat) prog" where
  "sync_peer cfg ipt p =
     bindE (tryE (if pr_enabled p then ApplyPeer cfg ipt p else RemovePeer cfg ipt p)) (\<lambda>r.
       ret (case r of Inl (e :: fw_err) \<Rightarrow> 1 | Inr _ \<Rightarrow> 0))"

definition Sync :: "fw_config \<Rightarrow> 'i runner \<Rightarrow> peer list \<Rightarrow> ('i, fw_err, unit) prog" where
  "Sync cfg ipt peers =
     thenE (ensureDispatchChain cfg ipt)
    (thenE (ignoreE (run ipt [''-F'', fc_managed_chain cfg]))
    (bindE (forE peers (sync_peer cfg ipt)) (\<lambda>errs.
       thenE (cleanupOrphanChains cfg ipt (map (\<lambda>p. peerChainName (pr_public_key p)) peers))
             (guardE (sum_list errs = 0) (FwSync (sum_list errs))))))"

subsection \<open>The driver interface (firewall.go, noop.go)\<close>

record 'f firewall =
  fw_sync :: "peer list \<Rightarrow> ('f, fw_err, unit) prog"
  fw_apply_peer :: "peer \<Rightarrow> ('f, fw_err, unit) prog"
  fw_remove_peer :: "peer \<Rightarrow> ('f, fw_err, unit) prog"

definition NoopFirewall :: "'f firewall" where
  "NoopFirewall = \<lparr>fw_sync = (\<lambda>_. ret ()), fw_apply_peer = (\<lambda>_. ret ()), fw_remove_peer = (\<lambda>_. ret ())\<rparr>"

definition IptablesFirewall :: "fw_config \<Rightarrow> 'i runner \<Rightarrow> 'i firewall" where
  "IptablesFirewall cfg ipt = \<lparr>fw_sync = Sync cfg ipt, fw_apply_peer = ApplyPeer cfg ipt,
     fw_remove_peer = RemovePeer cfg ipt\<rparr>"

text \<open>New: \<open>found\<close> says whether the binary is on the path.\<close>

definition New :: "fw_config \<Rightarrow> bool \<Rightarrow> 'i runner \<Rightarrow> ('i, fw_err, 'i firewall) prog" where
  "New cfg found ipt =
     (if \<not> fc_enabled cfg \<or> fc_driver cfg = ''none'' then ret NoopFirewall
      else if fc_driver cfg = ''iptables'' then
        (if found then thenE (modifyE (NewIptablesFirewall cfg ipt)) (ret (IptablesFirewall cfg ipt))
         else fail FwNoBinary)
      else fail FwUnknownDriver)"

subsection \<open>What iptables does\<close>

text \<open>
  A rule set: the chains in order with their rules, a rule being its arguments. The reference
  interpreter covers the commands the driver issues; a rule is accepted when its target exists and
  its address matches are CIDRs.
\<close>

type_synonym ruleset = "(string \<times> string list list) list"

definition builtin_chains :: "string list" where
  "builtin_chains = [''INPUT'', ''FORWARD'', ''OUTPUT'']"

definition is_cidr4 :: "string \<Rightarrow> bool" where
  "is_cidr4 s = (case parse_cidr s of Some (_, Net4 _ _) \<Rightarrow> True
     | None \<Rightarrow> (case parse_addr s of Some (Addr4 _) \<Rightarrow> True | _ \<Rightarrow> False) | _ \<Rightarrow> False)"

fun rule_matches_ok :: "string list \<Rightarrow> bool" where
  "rule_matches_ok [] = True"
| "rule_matches_ok (f # v # r) =
     ((f = ''-s'' \<and> is_cidr4 v \<or> f = ''-d'' \<and> is_cidr4 v \<or> f = ''-i'') \<and> rule_matches_ok r)"
| "rule_matches_ok _ = False"

definition rule_target :: "string list \<Rightarrow> string" where
  "rule_target r = (if r = [] then [] else last r)"

definition rule_ok :: "ruleset \<Rightarrow> string list \<Rightarrow> bool" where
  "rule_ok rs r \<longleftrightarrow> 2 \<le> length r \<and> r ! (length r - 2) = ''-j'' \<and> rule_matches_ok (take (length r - 2) r) \<and>
     (rule_target r \<in> {''ACCEPT'', ''DROP''} \<or> rule_target r \<in> fst ` set rs - set builtin_chains)"

definition referenced :: "ruleset \<Rightarrow> string \<Rightarrow> bool" where
  "referenced rs c \<longleftrightarrow> list_ex (\<lambda>(_, rules). list_ex (\<lambda>r. rule_target r = c) rules) rs"

definition list_rules :: "string \<times> string list list \<Rightarrow> string list" where
  "list_rules c = map (\<lambda>r. ''-A '' @ fst c @ '' '' @ join '' '' r) (snd c)"

definition list_decl :: "string \<times> string list list \<Rightarrow> string" where
  "list_decl c = (if fst c \<in> set builtin_chains then ''-P '' @ fst c @ '' ACCEPT'' else ''-N '' @ fst c)"

fun ipt_step :: "string list \<Rightarrow> ruleset \<Rightarrow> (unit + string) \<times> ruleset" where
  "ipt_step (cmd # args) rs =
     (if cmd = ''-S'' then
        (case args of
           [] \<Rightarrow> (Inr (unlines (map list_decl rs @ concat (map list_rules rs))), rs)
         | c # _ \<Rightarrow> (case map_of rs c of None \<Rightarrow> (Inl (), rs)
                     | Some rules \<Rightarrow> (Inr (unlines (list_decl (c, rules) # list_rules (c, rules))), rs)))
      else (case args of
        [] \<Rightarrow> (Inl (), rs)
      | c # r \<Rightarrow>
          if cmd = ''-N'' then
            (if map_of rs c = None then (Inr [], rs @ [(c, [])]) else (Inl (), rs))
          else (case map_of rs c of
             None \<Rightarrow> (Inl (), rs)
           | Some rules \<Rightarrow>
               if cmd = ''-F'' then (Inr [], AList.update c [] rs)
               else if cmd = ''-X'' then
                 (if rules = [] \<and> \<not> referenced rs c \<and> c \<notin> set builtin_chains
                  then (Inr [], AList.delete c rs) else (Inl (), rs))
               else if cmd = ''-A'' then
                 (if rule_ok rs r then (Inr [], AList.update c (rules @ [r]) rs) else (Inl (), rs))
               else if cmd = ''-I'' then
                 (if r \<noteq> [] \<and> hd r = ''1'' \<and> rule_ok rs (tl r) then (Inr [], AList.update c (tl r # rules) rs)
                  else (Inl (), rs))
               else if cmd = ''-C'' then (if r \<in> set rules then (Inr [], rs) else (Inl (), rs))
               else if cmd = ''-D'' then
                 (if r \<in> set rules then (Inr [], AList.update c (remove1 r rules) rs) else (Inl (), rs))
               else (Inl (), rs))))"
| "ipt_step [] rs = (Inl (), rs)"

declare ipt_step.simps [simp del]

text \<open>The commands of the driver, on the map of chains.\<close>

lemma cmd_N:
  "map_of (snd (run ipt_step [''-N'', c] w)) =
     (map_of w)(c \<mapsto> (case map_of w c of None \<Rightarrow> [] | Some rules \<Rightarrow> rules))"
  by (auto simp: run_def bindE_def ipt_step.simps fun_eq_iff map_add_def map_of_append split: option.splits)

lemma cmd_F:
  "map_of (snd (run ipt_step [''-F'', c] w)) = (if map_of w c = None then map_of w else (map_of w)(c \<mapsto> []))"
  by (auto simp: run_def bindE_def ipt_step.simps update_conv' split: option.splits)

lemma cmd_X:
  "map_of (snd (run ipt_step [''-X'', c] w)) =
     (if map_of w c = Some [] \<and> \<not> referenced w c \<and> c \<notin> set builtin_chains then (map_of w)(c := None) else map_of w)"
  by (auto simp: run_def bindE_def ipt_step.simps delete_conv' split: option.splits)

lemma cmd_A:
  "run ipt_step (''-A'' # c # r) w =
     (case map_of w c of None \<Rightarrow> (Inl (), w)
      | Some rules \<Rightarrow> if rule_ok w r then (Inr (), AList.update c (rules @ [r]) w) else (Inl (), w))"
  by (auto simp: run_def bindE_def ipt_step.simps split: option.splits)

lemma cmd_I:
  "run ipt_step (''-I'' # c # ''1'' # r) w =
     (case map_of w c of None \<Rightarrow> (Inl (), w)
      | Some rules \<Rightarrow> if rule_ok w r then (Inr (), AList.update c (r # rules) w) else (Inl (), w))"
  by (auto simp: run_def bindE_def ipt_step.simps split: option.splits)

lemma cmd_C:
  "run ipt_step (''-C'' # c # r) w =
     ((case map_of w c of None \<Rightarrow> Inl () | Some rules \<Rightarrow> if r \<in> set rules then Inr () else Inl ()), w)"
  by (auto simp: run_def bindE_def ipt_step.simps split: option.splits)

lemma cmd_D:
  "run ipt_step (''-D'' # c # r) w =
     (case map_of w c of None \<Rightarrow> (Inl (), w)
      | Some rules \<Rightarrow> if r \<in> set rules then (Inr (), AList.update c (remove1 r rules) w) else (Inl (), w))"
  by (auto simp: run_def bindE_def ipt_step.simps split: option.splits)

lemma cmd_S:
  "ipt_step [''-S''] w = (Inr (unlines (map list_decl w @ concat (map list_rules w))), w)"
  "ipt_step [''-S'', c] w =
     (case map_of w c of None \<Rightarrow> (Inl (), w)
      | Some rules \<Rightarrow> (Inr (unlines (list_decl (c, rules) # list_rules (c, rules))), w))"
  by (auto simp: ipt_step.simps split: option.splits)

lemmas ipt_cmds = cmd_N cmd_F cmd_X cmd_A cmd_I cmd_C cmd_D cmd_S

text \<open>A command that fails changes nothing; a command touches the chain it names only.\<close>

lemma ipt_step_err: "ipt_step args w = (Inl e, w') \<Longrightarrow> w' = w"
  by (cases args) (auto simp: ipt_step.simps Let_def split: if_splits list.splits option.splits)

lemma ipt_step_frame: "c \<noteq> x \<Longrightarrow> map_of (snd (ipt_step (cmd # c # r) w)) x = map_of w x"
  by (auto simp: ipt_step.simps update_conv' map_add_def delete_conv' split: if_splits option.splits)

lemma run_frame: "c \<noteq> x \<Longrightarrow> map_of (snd (run ipt_step (cmd # c # r) w)) x = map_of w x"
  using ipt_step_frame[of c x cmd r w] by (auto simp: run_def bindE_def split: prod.splits sum.splits)

subsection \<open>The contract of the binary\<close>

text \<open>
  \<open>iptables\<close>: every call follows the interpreter on the view \<open>rules\<close> of the state or fails
  without effect. \<open>reliable_iptables\<close>: it always follows it.
\<close>

locale iptables =
  fixes ipt :: "'i runner" and rules :: "'i \<Rightarrow> ruleset"
  assumes obeys: "ipt args w = (r, w') \<Longrightarrow> (r = Inl () \<and> rules w' = rules w) \<or> ipt_step args (rules w) = (r, rules w')"
begin

lemma run_err: "run ipt args w = (Inl e, w') \<Longrightarrow> rules w' = rules w"
  using obeys[of args w] ipt_step_err
  by (auto simp: run_def bindE_def split: prod.splits sum.splits)

lemma run_ok: "run ipt args w = (Inr u, w') \<Longrightarrow> run ipt_step args (rules w) = (Inr (), rules w')"
  using obeys[of args w] by (auto simp: run_def bindE_def split: prod.splits sum.splits)

lemma run_other: "c \<noteq> x \<Longrightarrow> map_of (rules (snd (run ipt (cmd # c # r) w))) x = map_of (rules w) x"
proof (cases "run ipt (cmd # c # r) w")
  case (Pair o' w')
  assume "c \<noteq> x"
  then show ?thesis using Pair run_err[of "cmd # c # r" w _ w'] run_ok[of "cmd # c # r" w _ w']
      run_frame[of c x cmd r "rules w"]
    by (cases o') auto
qed

text \<open>The rules of a chain, and what the appending and checking commands establish.\<close>

definition chain :: "string \<Rightarrow> 'i \<Rightarrow> string list list option" where
  "chain c w = map_of (rules w) c"

lemma append_ok:
  "run ipt (''-A'' # c # r) w = (Inr u, w') \<Longrightarrow>
     \<exists>rs. chain c w = Some rs \<and> chain c w' = Some (rs @ [r]) \<and> (\<forall>x. x \<noteq> c \<longrightarrow> chain x w' = chain x w)"
  by (drule run_ok) (auto simp: cmd_A chain_def update_conv' split: option.splits if_splits dest!: sym[of _ "rules w'"])

lemma check_ok:
  "run ipt (''-C'' # c # r) w = (Inr u, w') \<Longrightarrow>
     rules w' = rules w \<and> (\<exists>rs. chain c w = Some rs \<and> r \<in> set rs)"
  using run_ok[of "''-C'' # c # r" w u w']
  by (auto simp: cmd_C chain_def split: option.splits if_splits)

lemma insert_ok:
  "run ipt (''-I'' # c # ''1'' # r) w = (Inr u, w') \<Longrightarrow>
     \<exists>rs. chain c w = Some rs \<and> chain c w' = Some (r # rs) \<and> (\<forall>x. x \<noteq> c \<longrightarrow> chain x w' = chain x w)"
  by (drule run_ok) (auto simp: cmd_I chain_def update_conv' split: option.splits if_splits dest!: sym[of _ "rules w'"])

lemma run_other_chain: "c \<noteq> x \<Longrightarrow> chain x (snd (run ipt (cmd # c # r) w)) = chain x w"
  by (simp add: chain_def run_other)

lemma ensure_ok:
  assumes "ensureDispatchChain cfg ipt w = (Inr u, w')"
  shows "(\<exists>rs. chain ''FORWARD'' w' = Some rs \<and>
      [''-i'', fc_wg_interface cfg, ''-j'', fc_managed_chain cfg] \<in> set rs) \<and>
    (\<forall>x. x \<noteq> ''FORWARD'' \<longrightarrow> x \<noteq> fc_managed_chain cfg \<longrightarrow> chain x w' = chain x w)"
proof -
  let ?jump = "[''-i'', fc_wg_interface cfg, ''-j'', fc_managed_chain cfg]"
  define w1 where "w1 = snd (run ipt [''-N'', fc_managed_chain cfg] w)"
  have f1: "chain x w1 = chain x w" if "x \<noteq> fc_managed_chain cfg" for x
    using that run_other_chain[of "fc_managed_chain cfg" x] by (auto simp: w1_def)
  obtain r w2 where 2: "run ipt (''-C'' # ''FORWARD'' # ?jump) w1 = (r, w2)" by (rule prod.exhaust)
  show ?thesis
  proof (cases r)
    case (Inr v)
    then have "w' = w2" using assms 2 by (simp add: ensureDispatchChain_def run_simps flip: w1_def)
    with check_ok[OF 2[unfolded Inr]] f1 show ?thesis by (auto simp: chain_def)
  next
    case (Inl e)
    then have "run ipt (''-I'' # ''FORWARD'' # ''1'' # ?jump) w2 = (Inr u, w')"
      using assms 2 by (auto simp: ensureDispatchChain_def run_simps mapErr_def split: prod.splits sum.splits simp flip: w1_def)
    with insert_ok[OF this] run_err[OF 2[unfolded Inl]] f1 show ?thesis by (fastforce simp: chain_def)
  qed
qed

lemma accept_step:
  "\<exists>as. chain c (snd (run ipt (''-A'' # c # r) w)) = map_option (\<lambda>rs. rs @ as) (chain c w) \<and> set as \<subseteq> {r}"
proof (cases "run ipt (''-A'' # c # r) w")
  case (Pair o' w')
  show ?thesis
  proof (cases o')
    case (Inl e)
    with run_err[of "''-A'' # c # r" w e w'] Pair have "chain c w' = map_option (\<lambda>rs. rs @ []) (chain c w)"
      by (cases "chain c w") (auto simp: chain_def)
    with Pair show ?thesis by (intro exI[of _ "[]"]) simp
  next
    case (Inr u)
    with append_ok[of c r w u w'] Pair have "chain c w' = map_option (\<lambda>rs. rs @ [r]) (chain c w)" by auto
    with Pair show ?thesis by (intro exI[of _ "[r]"]) simp
  qed
qed

lemma accept_rules_run:
  "accept_rules ipt c src ds w =
     (Inr (), foldl (\<lambda>w d. snd (run ipt [''-A'', c, ''-s'', src, ''-d'', d, ''-j'', ''ACCEPT''] w)) w ds)"
  unfolding accept_rules_def by (simp add: bindE_def forE_ignoreE)

lemma accept_rules_Cons:
  "snd (accept_rules ipt c src (d # ds) w) =
     snd (accept_rules ipt c src ds (snd (run ipt [''-A'', c, ''-s'', src, ''-d'', d, ''-j'', ''ACCEPT''] w)))"
  by (simp add: accept_rules_run)

lemma accept_rules_chain:
  "\<exists>as. chain c (snd (accept_rules ipt c src ds w)) = map_option (\<lambda>rs. rs @ as) (chain c w) \<and>
     set as \<subseteq> {[''-s'', src, ''-d'', d, ''-j'', ''ACCEPT''] |d. d \<in> set ds}"
proof (induction ds arbitrary: w)
  case Nil
  show ?case by (intro exI[of _ "[]"]) (simp add: accept_rules_run option.map_ident)
next
  case (Cons d ds)
  let ?w = "snd (run ipt [''-A'', c, ''-s'', src, ''-d'', d, ''-j'', ''ACCEPT''] w)"
  obtain as where as: "chain c ?w = map_option (\<lambda>rs. rs @ as) (chain c w)"
    "set as \<subseteq> {[''-s'', src, ''-d'', d, ''-j'', ''ACCEPT'']}" using accept_step by blast
  obtain bs where bs: "chain c (snd (accept_rules ipt c src ds ?w)) = map_option (\<lambda>rs. rs @ bs) (chain c ?w)"
    "set bs \<subseteq> {[''-s'', src, ''-d'', d, ''-j'', ''ACCEPT''] |d. d \<in> set ds}" using Cons.IH by blast
  have "chain c (snd (accept_rules ipt c src (d # ds) w)) = map_option (\<lambda>rs. rs @ (as @ bs)) (chain c w)"
    unfolding accept_rules_Cons bs(1) as(1) by (cases "chain c w") auto
  moreover have "set (as @ bs) \<subseteq> {[''-s'', src, ''-d'', x, ''-j'', ''ACCEPT''] |x. x \<in> set (d # ds)}"
    using as(2) bs(2) by auto
  ultimately show ?case by blast
qed

lemma flush_cases: "chain c (snd (run ipt [''-F'', c] w)) \<in> {chain c w, Some []}"
proof (cases "run ipt [''-F'', c] w")
  case (Pair o' w')
  then show ?thesis using cmd_F[of c "rules w"]
    by (cases o') (auto simp: chain_def dest!: run_err run_ok split: if_splits)
qed

lemma create_cases: "chain c (snd (run ipt [''-N'', c] w)) \<in> {chain c w, Some []}"
proof (cases "run ipt [''-N'', c] w")
  case (Pair o' w')
  then show ?thesis using cmd_N[of c "rules w"]
    by (cases o') (auto simp: chain_def dest!: run_err run_ok split: option.splits)
qed

lemma peer_jump_ok:
  assumes "ensurePeerJump cfg ipt src c w = (Inr u, w')"
  shows "(\<exists>ds. chain (fc_managed_chain cfg) w' = Some ds \<and> [''-s'', src, ''-j'', c] \<in> set ds) \<and>
    (\<forall>x. x \<noteq> fc_managed_chain cfg \<longrightarrow> chain x w' = chain x w)"
proof -
  let ?M = "fc_managed_chain cfg" and ?jump = "[''-s'', src, ''-j'', c]"
  obtain r w2 where 2: "run ipt (''-C'' # ?M # ?jump) w = (r, w2)" by (rule prod.exhaust)
  show ?thesis
  proof (cases r)
    case (Inr v)
    then have "w' = w2" using assms 2 by (simp add: ensurePeerJump_def run_simps)
    with check_ok[OF 2[unfolded Inr]] show ?thesis by (auto simp: chain_def)
  next
    case (Inl e)
    then have "mapErr (\<lambda>_. FwPeerJump) (run ipt (''-A'' # ?M # ?jump)) w2 = (Inr u, w')"
      using assms 2 by (simp add: ensurePeerJump_def run_simps)
    from append_ok[OF mapErr_InrD[OF this]] run_err[OF 2[unfolded Inl]] show ?thesis
      by (fastforce simp: chain_def)
  qed
qed

text \<open>
  A successful ApplyPeer, whatever failed on the way: the chain ends in the DROP rule, what comes
  before it is old or an ACCEPT the peer is entitled to, and both jumps to it are in place.
\<close>

lemma apply_peer_closed:
  assumes ok: "ApplyPeer cfg ipt p w = (Inr u, w')" and "pr_enabled p" "sourceCIDR (pr_client_address p) = src"
    "src \<noteq> []" "peerChainName (pr_public_key p) = c" and names: "c \<noteq> fc_managed_chain cfg" "c \<noteq> ''FORWARD''"
      "fc_managed_chain cfg \<noteq> ''FORWARD''"
  shows "\<exists>old rs ds fs. chain c w' = Some (rs @ [[''-j'', ''DROP'']]) \<and>
      set rs \<subseteq> set old \<union> {[''-s'', src, ''-d'', d, ''-j'', ''ACCEPT''] |d. d \<in> set (destinations (pr_client_allowed_ips p))} \<and>
      (old = [] \<or> chain c w = Some old) \<and>
      chain (fc_managed_chain cfg) w' = Some ds \<and> [''-s'', src, ''-j'', c] \<in> set ds \<and>
      chain ''FORWARD'' w' = Some fs \<and> [''-i'', fc_wg_interface cfg, ''-j'', fc_managed_chain cfg] \<in> set fs"
proof -
  let ?acc = "{[''-s'', src, ''-d'', d, ''-j'', ''ACCEPT''] |d. d \<in> set (destinations (pr_client_allowed_ips p))}"
  let ?M = "fc_managed_chain cfg"
  define w1 where "w1 = snd (run ipt [''-N'', c] w)"
  define w2 where "w2 = snd (run ipt [''-F'', c] w1)"
  define w3 where "w3 = snd (accept_rules ipt c src (destinations (pr_client_allowed_ips p)) w2)"
  have acc: "accept_rules ipt c src (destinations (pr_client_allowed_ips p)) w2 = (Inr (), w3)"
    unfolding w3_def by (simp add: accept_rules_run)
  have "thenE (mapErr (\<lambda>_. FwDrop) (run ipt [''-A'', c, ''-j'', ''DROP'']))
      (thenE (ensureDispatchChain cfg ipt) (ensurePeerJump cfg ipt src c)) w3 = (Inr u, w')"
    using ok assms(2-5)
    by (simp add: ApplyPeer_def Let_def thenE_ignoreE
        thenE_Inr[where m = "accept_rules ipt c src (destinations (pr_client_allowed_ips p))", OF acc]
        flip: w1_def w2_def)
  then obtain v w4 where 4: "mapErr (\<lambda>_. FwDrop) (run ipt [''-A'', c, ''-j'', ''DROP'']) w3 = (Inr v, w4)"
    and "thenE (ensureDispatchChain cfg ipt) (ensurePeerJump cfg ipt src c) w4 = (Inr u, w')"
    by (blast dest: thenE_InrD)
  then obtain v' w5 where 5: "ensureDispatchChain cfg ipt w4 = (Inr v', w5)" "ensurePeerJump cfg ipt src c w5 = (Inr u, w')"
    by (blast dest: thenE_InrD)
  from append_ok[OF mapErr_InrD[OF 4]] obtain rs
    where rs: "chain c w3 = Some rs" "chain c w4 = Some (rs @ [[''-j'', ''DROP'']])" by blast
  obtain as where as: "chain c w3 = map_option (\<lambda>rs. rs @ as) (chain c w2)" "set as \<subseteq> ?acc"
    using accept_rules_chain unfolding w3_def by blast
  have "chain c w2 = chain c w1 \<or> chain c w2 = Some []"
    using flush_cases[of c w1] by (simp add: w2_def)
  moreover have "chain c w1 = chain c w \<or> chain c w1 = Some []"
    using create_cases[of c w] by (simp add: w1_def)
  ultimately obtain old where old: "chain c w2 = Some old" "old = [] \<or> chain c w = Some old"
    using as(1) rs(1) by (cases "chain c w2") auto
  have "rs = old @ as" using as(1) rs(1) old(1) by simp
  then have sub: "set rs \<subseteq> set old \<union> ?acc" using as(2) by auto
  have c5: "chain c w5 = Some (rs @ [[''-j'', ''DROP'']])" using ensure_ok[OF 5(1)] names rs(2) by metis
  then have c': "chain c w' = Some (rs @ [[''-j'', ''DROP'']])" using peer_jump_ok[OF 5(2)] names by simp
  obtain ds where ds: "chain ?M w' = Some ds" "[''-s'', src, ''-j'', c] \<in> set ds"
    using peer_jump_ok[OF 5(2)] by blast
  obtain fs where fs: "chain ''FORWARD'' w5 = Some fs" "[''-i'', fc_wg_interface cfg, ''-j'', ?M] \<in> set fs"
    using ensure_ok[OF 5(1)] by blast
  then have "chain ''FORWARD'' w' = Some fs" using peer_jump_ok[OF 5(2)] names(3) by auto
  with sub old(2) c' ds fs(2) show ?thesis by blast
qed

end

subsection \<open>The effect of the operations on a reliable binary\<close>

definition active :: "peer \<Rightarrow> bool" where
  "active p \<longleftrightarrow> pr_enabled p \<and> pr_client_address p \<noteq> []"

definition peer_chain :: "peer \<Rightarrow> string" where
  "peer_chain p = peerChainName (pr_public_key p)"

definition peer_source :: "peer \<Rightarrow> string" where
  "peer_source p = sourceCIDR (pr_client_address p)"

definition jump_rule :: "peer \<Rightarrow> string list" where
  "jump_rule p = [''-s'', peer_source p, ''-j'', peer_chain p]"

definition peer_rules :: "peer \<Rightarrow> string list list" where
  "peer_rules p =
     map (\<lambda>d. [''-s'', peer_source p, ''-d'', d, ''-j'', ''ACCEPT''])
       (filter is_cidr4 (destinations (pr_client_allowed_ips p))) @ [[''-j'', ''DROP'']]"

text \<open>
  Well-formed inputs: a managed chain that is no peer chain and no built-in one, written without
  separators, and peers with an IPv4 CIDR as client address (or none).
\<close>

definition chain_char :: "char \<Rightarrow> bool" where
  "chain_char c \<longleftrightarrow> is_alnum c \<or> c = CHR ''_''"

definition cfg_ok :: "fw_config \<Rightarrow> bool" where
  "cfg_ok cfg \<longleftrightarrow> list_all chain_char (fc_managed_chain cfg) \<and> fc_managed_chain cfg \<noteq> [] \<and>
     \<not> has_prefix ''WG_PEER_'' (fc_managed_chain cfg) \<and> fc_managed_chain cfg \<notin> set builtin_chains"

definition v4_peer :: "peer \<Rightarrow> bool" where
  "v4_peer p \<longleftrightarrow> pr_client_address p = [] \<or>
     (\<exists>w n. n \<le> 32 \<and> pr_client_address p = dotted w @ CHR ''/'' # dec n)"

lemma peer_chain_prefix: "has_prefix ''WG_PEER_'' (peer_chain p)"
  unfolding peer_chain_def peerChainName_def by (rule has_prefix_append)

lemma peer_chain_not_builtin: "peer_chain p \<notin> set builtin_chains"
  using peer_chain_prefix[of p] by (auto simp: builtin_chains_def)

lemma cfg_names: "cfg_ok cfg \<Longrightarrow> peer_chain p \<noteq> fc_managed_chain cfg \<and> peer_chain p \<noteq> ''FORWARD'' \<and>
    fc_managed_chain cfg \<noteq> ''FORWARD''"
  using peer_chain_prefix[of p] peer_chain_not_builtin[of p] by (auto simp: cfg_ok_def builtin_chains_def)

lemma peer_source_v4:
  assumes "v4_peer p" "pr_client_address p \<noteq> []"
  obtains w n where "n \<le> 32" "pr_client_address p = dotted w @ CHR ''/'' # dec n" "peer_source p = dotted w @ ''/32''"
proof -
  obtain w n where "n \<le> 32" "pr_client_address p = dotted w @ CHR ''/'' # dec n"
    using assms by (auto simp: v4_peer_def)
  moreover then have "peer_source p = dotted w @ ''/32''"
    by (simp add: peer_source_def sourceCIDR_def parse_cidr_dotted)
  ultimately show thesis by (rule that)
qed

lemma dec_32 [simp]: "dec 32 = ''32''"
  by (simp add: dec.simps)

lemma is_cidr4_host [simp]: "is_cidr4 (dotted w @ ''/32'')"
  using parse_cidr_dotted[of 32 w] by (simp add: is_cidr4_def)

lemma peer_source_cidr: "v4_peer p \<Longrightarrow> pr_client_address p \<noteq> [] \<Longrightarrow> is_cidr4 (peer_source p) \<and> peer_source p \<noteq> []"
  by (erule (1) peer_source_v4) auto

lemma accept_rule_ok: "rule_ok w [''-s'', s, ''-d'', d, ''-j'', ''ACCEPT''] \<longleftrightarrow> is_cidr4 s \<and> is_cidr4 d"
  by (simp add: rule_ok_def rule_target_def numeral_2_eq_2)

lemma drop_rule_ok: "rule_ok w [''-j'', ''DROP'']"
  by (simp add: rule_ok_def rule_target_def)

lemma map_of_keys: "c \<in> fst ` set w \<longleftrightarrow> map_of w c \<noteq> None"
  by (simp add: map_of_eq_None_iff)

lemma jump_rule_ok:
  "is_cidr4 s \<Longrightarrow> map_of w c \<noteq> None \<Longrightarrow> c \<notin> set builtin_chains \<Longrightarrow> rule_ok w [''-s'', s, ''-j'', c]"
  by (auto simp: rule_ok_def rule_target_def map_of_keys numeral_2_eq_2)

lemma forward_rule_ok:
  "map_of w c \<noteq> None \<Longrightarrow> c \<notin> set builtin_chains \<Longrightarrow> rule_ok w [''-i'', i, ''-j'', c]"
  by (auto simp: rule_ok_def rule_target_def map_of_keys numeral_2_eq_2)

lemma accept_effect:
  assumes "map_of w c = Some rs" "is_cidr4 src"
  shows "map_of (foldl (\<lambda>w d. snd (run ipt_step [''-A'', c, ''-s'', src, ''-d'', d, ''-j'', ''ACCEPT''] w)) w ds) =
    (map_of w)(c \<mapsto> rs @ map (\<lambda>d. [''-s'', src, ''-d'', d, ''-j'', ''ACCEPT'']) (filter is_cidr4 ds))"
  using assms
proof (induction ds arbitrary: w rs)
  case (Cons d ds)
  show ?case
  proof (cases "is_cidr4 d")
    case True
    let ?r = "[''-s'', src, ''-d'', d, ''-j'', ''ACCEPT'']"
    have step: "snd (run ipt_step [''-A'', c, ''-s'', src, ''-d'', d, ''-j'', ''ACCEPT''] w) = AList.update c (rs @ [?r]) w"
      using Cons.prems True by (simp add: cmd_A accept_rule_ok)
    have "map_of (AList.update c (rs @ [?r]) w) c = Some (rs @ [?r])" by (simp add: update_conv')
    note IH = Cons.IH[OF this Cons.prems(2)]
    show ?thesis unfolding foldl.simps step IH using True by (simp add: update_conv')
  next
    case False
    then have step: "snd (run ipt_step [''-A'', c, ''-s'', src, ''-d'', d, ''-j'', ''ACCEPT''] w) = w"
      using Cons.prems by (simp add: cmd_A accept_rule_ok)
    show ?thesis unfolding foldl.simps step Cons.IH[OF Cons.prems] using False by simp
  qed
qed (simp add: map_upd_triv)

lemma ensure_effect:
  assumes "cfg_ok cfg" "map_of w ''FORWARD'' \<noteq> None"
  obtains w' fs where "ensureDispatchChain cfg ipt_step w = (Inr (), w')"
    "map_of w' = (map_of w)(fc_managed_chain cfg \<mapsto> (case map_of w (fc_managed_chain cfg) of None \<Rightarrow> [] | Some rs \<Rightarrow> rs),
       ''FORWARD'' \<mapsto> fs)"
proof -
  let ?M = "fc_managed_chain cfg"
  define w1 where "w1 = snd (run ipt_step [''-N'', ?M] w)"
  have m1: "map_of w1 = (map_of w)(?M \<mapsto> (case map_of w ?M of None \<Rightarrow> [] | Some rs \<Rightarrow> rs))"
    unfolding w1_def by (rule cmd_N)
  have names: "?M \<noteq> ''FORWARD''" "?M \<notin> set builtin_chains" using assms(1) cfg_names by (auto simp: cfg_ok_def)
  obtain fs where fs: "map_of w1 ''FORWARD'' = Some fs" using assms(2) names m1 by auto
  have ok: "rule_ok w1 [''-i'', fc_wg_interface cfg, ''-j'', ?M]" by (rule forward_rule_ok) (simp_all add: m1 names)
  show thesis
  proof (cases "[''-i'', fc_wg_interface cfg, ''-j'', ?M] \<in> set fs")
    case True
    then have "ensureDispatchChain cfg ipt_step w = (Inr (), w1)"
      using fs by (simp add: ensureDispatchChain_def run_simps cmd_C flip: w1_def)
    moreover have "map_of w1 = (map_of w1)(''FORWARD'' \<mapsto> fs)" using fs by (simp add: map_upd_triv)
    ultimately show thesis using that m1 by metis
  next
    case False
    let ?fs = "[''-i'', fc_wg_interface cfg, ''-j'', ?M] # fs"
    have "ensureDispatchChain cfg ipt_step w = (Inr (), AList.update ''FORWARD'' ?fs w1)"
      using fs False ok by (simp add: ensureDispatchChain_def run_simps cmd_C cmd_I mapErr_def flip: w1_def)
    moreover have "map_of (AList.update ''FORWARD'' ?fs w1) = (map_of w1)(''FORWARD'' \<mapsto> ?fs)" by (rule update_conv')
    ultimately show thesis using that m1 by metis
  qed
qed

definition add_jump :: "peer \<Rightarrow> string list list \<Rightarrow> string list list" where
  "add_jump p ds = (if jump_rule p \<in> set ds then ds else ds @ [jump_rule p])"

lemma peer_jump_effect:
  assumes "map_of w (fc_managed_chain cfg) = Some ds" "map_of w (peer_chain p) \<noteq> None" "is_cidr4 (peer_source p)"
  shows "\<exists>w'. ensurePeerJump cfg ipt_step (peer_source p) (peer_chain p) w = (Inr (), w') \<and>
    map_of w' = (map_of w)(fc_managed_chain cfg \<mapsto> add_jump p ds)"
proof (cases "jump_rule p \<in> set ds")
  case True
  then have "ensurePeerJump cfg ipt_step (peer_source p) (peer_chain p) w = (Inr (), w)"
    using assms(1) by (simp add: ensurePeerJump_def run_simps cmd_C jump_rule_def)
  with True assms(1) show ?thesis by (simp add: add_jump_def map_upd_triv)
next
  case False
  have "rule_ok w (jump_rule p)"
    unfolding jump_rule_def using assms(2,3) peer_chain_not_builtin by (intro jump_rule_ok)
  with False assms(1)
  have "ensurePeerJump cfg ipt_step (peer_source p) (peer_chain p) w =
      (Inr (), AList.update (fc_managed_chain cfg) (ds @ [jump_rule p]) w)"
    by (simp add: ensurePeerJump_def run_simps cmd_C cmd_A mapErr_def jump_rule_def)
  with False show ?thesis by (simp add: add_jump_def update_conv')
qed

lemma apply_effect:
  assumes "cfg_ok cfg" "active p" "v4_peer p" "map_of w ''FORWARD'' \<noteq> None"
  shows "\<exists>w' fs. ApplyPeer cfg ipt_step p w = (Inr (), w') \<and>
    map_of w' = (map_of w)(peer_chain p \<mapsto> peer_rules p, ''FORWARD'' \<mapsto> fs,
      fc_managed_chain cfg \<mapsto> add_jump p (case map_of w (fc_managed_chain cfg) of None \<Rightarrow> [] | Some ds \<Rightarrow> ds))"
proof -
  let ?c = "peer_chain p" and ?src = "peer_source p" and ?M = "fc_managed_chain cfg"
  let ?ds = "destinations (pr_client_allowed_ips p)"
  let ?acc = "map (\<lambda>d. [''-s'', ?src, ''-d'', d, ''-j'', ''ACCEPT'']) (filter is_cidr4 ?ds)"
  have src: "is_cidr4 ?src" "?src \<noteq> []" using peer_source_cidr assms(2,3) by (auto simp: active_def)
  note names = cfg_names[OF assms(1), of p]
  define w2 where "w2 = snd (run ipt_step [''-F'', ?c] (snd (run ipt_step [''-N'', ?c] w)))"
  define w3 where "w3 = foldl (\<lambda>w d. snd (run ipt_step [''-A'', ?c, ''-s'', ?src, ''-d'', d, ''-j'', ''ACCEPT''] w)) w2 ?ds"
  define w4 where "w4 = AList.update ?c (?acc @ [[''-j'', ''DROP'']]) w3"
  have m2: "map_of w2 = (map_of w)(?c \<mapsto> [])" by (simp add: w2_def cmd_F cmd_N)
  have m3: "map_of w3 = (map_of w)(?c \<mapsto> ?acc)"
    unfolding w3_def using accept_effect[of w2 ?c "[]" ?src ?ds] m2 src(1) by simp
  have m4: "map_of w4 = (map_of w)(?c \<mapsto> peer_rules p)" by (simp add: w4_def m3 update_conv' peer_rules_def)
  have f4: "map_of w4 ''FORWARD'' \<noteq> None" using assms(4) names by (simp add: m4)
  obtain w5 fs where 5: "ensureDispatchChain cfg ipt_step w4 = (Inr (), w5)"
    "map_of w5 = (map_of w4)(?M \<mapsto> (case map_of w4 ?M of None \<Rightarrow> [] | Some rs \<Rightarrow> rs), ''FORWARD'' \<mapsto> fs)"
    using ensure_effect[OF assms(1) f4] by blast
  let ?old = "case map_of w ?M of None \<Rightarrow> [] | Some rs \<Rightarrow> rs"
  have 6: "map_of w5 ?M = Some ?old" "map_of w5 ?c \<noteq> None" using names by (auto simp: 5(2) m4)
  obtain w6 where 7: "ensurePeerJump cfg ipt_step ?src ?c w5 = (Inr (), w6)"
    "map_of w6 = (map_of w5)(?M \<mapsto> add_jump p ?old)"
    using peer_jump_effect[OF 6 src(1)] by blast
  have "run ipt_step [''-A'', ?c, ''-j'', ''DROP''] w3 = (Inr (), w4)"
    using m3 by (simp add: cmd_A drop_rule_ok w4_def)
  then have "mapErr (\<lambda>_. FwDrop) (run ipt_step [''-A'', ?c, ''-j'', ''DROP'']) w3 = (Inr (), w4)"
    by (simp add: mapErr_def)
  moreover have "accept_rules ipt_step ?c ?src ?ds w2 = (Inr (), w3)"
    by (simp add: accept_rules_def bindE_def forE_ignoreE w3_def)
  ultimately have "ApplyPeer cfg ipt_step p w = (Inr (), w6)"
    using assms(2) src(2) 5(1) 7(1)
    by (simp add: ApplyPeer_def active_def Let_def run_simps flip: peer_chain_def peer_source_def w2_def)
  moreover have "map_of w6 = (map_of w)(?c \<mapsto> peer_rules p, ''FORWARD'' \<mapsto> fs, ?M \<mapsto> add_jump p ?old)"
    using names by (auto simp: 7(2) 5(2) m4 fun_eq_iff)
  ultimately show ?thesis by blast
qed

text \<open>Listings of a dispatch chain that only jumps to other peers' chains.\<close>

lemma alnum_solid: "chain_char c \<Longrightarrow> solid c"
  by (auto simp: chain_char_def is_alnum_def is_digit_def solid_def space_seqs_def)

lemma peer_chain_chars: "list_all chain_char (peer_chain p)"
proof -
  have "chain_char c" if "c \<in> set (take 16 (filter is_alnum k))" for c k
    using set_take_subset[of 16 "filter is_alnum k"] that by (auto simp: chain_char_def)
  then show ?thesis
    by (auto simp: peer_chain_def peerChainName_def list_all_iff chain_char_def is_alnum_def is_digit_def)
qed

lemma last_word:
  assumes "has_suffix (''-j '' @ x) (u @ ''-j '' @ y)" "sp \<notin> set x" "sp \<notin> set y"
  shows "x = y"
proof -
  obtain t where t: "u @ ''-j '' @ y = t @ ''-j '' @ x" using assms(1) by (auto simp: has_suffix_iff)
  have w: "takeWhile (\<lambda>c. c \<noteq> sp) (rev (v @ ''-j '' @ z)) = rev z" if "sp \<notin> set z" for v z
    using takeWhile_upto[of sp "rev z" "CHR ''j'' # CHR ''-'' # rev v"] that by simp
  have "rev y = rev x" using w[OF assms(2), of t] w[OF assms(3), of u] t by metis
  then show ?thesis by simp
qed

lemma list_all_notin: "list_all P s \<Longrightarrow> \<not> P c \<Longrightarrow> c \<notin> set s"
  by (auto simp: list_all_iff)

lemma no_sep: "\<not> chain_char nl" "\<not> chain_char sp"
  by (simp_all add: chain_char_def is_alnum_def is_digit_def)

definition jump_line :: "string \<Rightarrow> peer \<Rightarrow> string" where
  "jump_line M q = ''-A '' @ M @ '' -s '' @ peer_source q @ '' -j '' @ peer_chain q"

lemma list_rules_jumps: "list_rules (M, map jump_rule qs) = map (jump_line M) qs"
  by (simp add: list_rules_def jump_rule_def jump_line_def)

lemma jump_line_nl:
  assumes "list_all chain_char M" "v4_peer q" "active q"
  shows "nl \<notin> set (jump_line M q)"
proof -
  obtain w n where src: "peer_source q = dotted w @ ''/32''"
    using peer_source_v4[OF assms(2)] assms(3) by (auto simp: active_def)
  have "nl \<notin> set (dotted w)" using dotted_chars[of nl w] by (auto simp: is_digit_def)
  with src list_all_notin[OF assms(1) no_sep(1)] list_all_notin[OF peer_chain_chars no_sep(1), of q]
  show ?thesis by (auto simp: jump_line_def)
qed

lemma jump_line_trim: "trim_space (jump_line M q) = jump_line M q"
proof -
  let ?c = "peer_chain q"
  have ne: "?c \<noteq> []" by (simp add: peer_chain_def peerChainName_def)
  then have "chain_char (last ?c)" using peer_chain_chars[of q] by (auto simp: list_all_iff)
  then have d: "solid (last ?c)" by (rule alnum_solid)
  have c: "solid (CHR ''-'')" by (simp add: solid_def space_seqs_def)
  let ?u = "''A '' @ M @ '' -s '' @ peer_source q @ '' -j '' @ butlast ?c"
  have l: "jump_line M q = CHR ''-'' # ?u @ [last ?c]" using ne by (simp add: jump_line_def)
  show ?thesis unfolding l by (subst trim_space_key[OF c d]) simp
qed

lemma decl_not_rule: "c \<notin> set builtin_chains \<Longrightarrow> \<not> has_prefix ''-A '' (trim_space (list_decl (c, rules)))"
proof -
  assume "c \<notin> set builtin_chains"
  then have "list_decl (c, rules) = CHR ''-'' # [] @ CHR ''N'' # CHR '' '' # c" by (simp add: list_decl_def)
  moreover have "solid (CHR ''-'')" "solid (CHR ''N'')" by (simp_all add: solid_def space_seqs_def)
  ultimately show ?thesis by (simp only: trim_space_key) simp
qed

text \<open>No line of such a listing jumps to a chain that no listed peer owns.\<close>

lemma jumps_to_none:
  assumes "cfg_ok cfg" "\<forall>q \<in> set qs. v4_peer q \<and> active q \<and> peer_chain q \<noteq> c" "sp \<notin> set c"
  shows "jumps_to (unlines (list_decl (fc_managed_chain cfg, map jump_rule qs) #
     list_rules (fc_managed_chain cfg, map jump_rule qs))) c = []"
proof -
  let ?M = "fc_managed_chain cfg"
  let ?ls = "list_decl (?M, map jump_rule qs) # map (jump_line ?M) qs"
  have M: "list_all chain_char ?M" "?M \<notin> set builtin_chains" using assms(1) by (auto simp: cfg_ok_def)
  have "nl \<notin> set (list_decl (?M, map jump_rule qs))"
    using list_all_notin[OF M(1) no_sep(1)] M(2) by (simp add: list_decl_def)
  then have "\<forall>l \<in> set ?ls. nl \<notin> set l" using jump_line_nl[OF M(1)] assms(2) by auto
  then have split: "split_on nl (unlines ?ls) = ?ls @ [[]]" by (rule split_on_unlines)
  have "\<not> has_suffix (''-j '' @ c) (jump_line ?M q)" if "q \<in> set qs" for q
    using last_word[of c "''-A '' @ ?M @ '' -s '' @ peer_source q @ '' ''" "peer_chain q"] assms(2,3) that
      list_all_notin[OF peer_chain_chars no_sep(2), of q]
    by (auto simp: jump_line_def)
  then show ?thesis
    unfolding jumps_to_def list_rules_jumps split using decl_not_rule[OF M(2)]
    by (auto simp: filter_empty_conv jump_line_trim)
qed

definition foreign :: "peer list \<Rightarrow> string \<Rightarrow> bool" where
  "foreign qs c \<longleftrightarrow> (\<forall>q \<in> set qs. v4_peer q \<and> active q \<and> peer_chain q \<noteq> c) \<and> sp \<notin> set c"

lemma list_dispatch:
  "map_of w (fc_managed_chain cfg) = Some (map jump_rule qs) \<Longrightarrow>
   ipt_step [''-S'', fc_managed_chain cfg] w =
     (Inr (unlines (list_decl (fc_managed_chain cfg, map jump_rule qs) #
        list_rules (fc_managed_chain cfg, map jump_rule qs))), w)"
  by (simp add: cmd_S)

lemma remove_effect:
  assumes "cfg_ok cfg" "map_of w (fc_managed_chain cfg) = Some (map jump_rule qs)" "foreign qs (peer_chain p)"
  shows "\<exists>w'. RemovePeer cfg ipt_step p w = (Inr (), w') \<and> (\<forall>x. x \<noteq> peer_chain p \<longrightarrow> map_of w' x = map_of w x)"
proof -
  let ?M = "fc_managed_chain cfg" and ?c = "peer_chain p"
  have "jump_rule p \<noteq> jump_rule q" if "q \<in> set qs" for q
    using assms(3) that by (auto simp: jump_rule_def foreign_def)
  then have "jump_rule p \<notin> set (map jump_rule qs)" by auto
  then have del: "run ipt_step [''-D'', ?M, ''-s'', peer_source p, ''-j'', ?c] w = (Inl (), w)"
    using assms(2) by (simp add: cmd_D jump_rule_def)
  have "removeAllDispatchJumpsTo cfg ipt_step ?c w = (Inr (), w)"
    using jumps_to_none[OF assms(1), of qs ?c] assms(3)
    by (simp add: removeAllDispatchJumpsTo_def run_simps list_dispatch[OF assms(2)] delete_rules_def foreign_def
        bindE_def)
  with del have "RemovePeer cfg ipt_step p w =
      (Inr (), snd (run ipt_step [''-X'', ?c] (snd (run ipt_step [''-F'', ?c] w))))"
    by (simp add: RemovePeer_def Let_def thenE_ignoreE flip: peer_chain_def peer_source_def)
  moreover have "map_of (snd (run ipt_step [''-X'', ?c] (snd (run ipt_step [''-F'', ?c] w)))) x = map_of w x"
    if "x \<noteq> ?c" for x using that run_frame[of ?c x] by simp
  ultimately show ?thesis by blast
qed

text \<open>
  The loop of Sync: after the peers \<open>done\<close>, the dispatch chain holds the jumps of the active ones
  in order and each of them has its rules.
\<close>

definition synced :: "fw_config \<Rightarrow> peer list \<Rightarrow> ruleset \<Rightarrow> bool" where
  "synced cfg ps w \<longleftrightarrow> map_of w ''FORWARD'' \<noteq> None \<and>
     map_of w (fc_managed_chain cfg) = Some (map jump_rule (filter active ps)) \<and>
     (\<forall>p \<in> set ps. active p \<longrightarrow> map_of w (peer_chain p) = Some (peer_rules p))"

lemma peer_chain_no_sp: "sp \<notin> set (peer_chain p)"
  using list_all_notin[OF peer_chain_chars no_sep(2)] .

lemma sync_step:
  assumes "cfg_ok cfg" "synced cfg ps w" "\<forall>q \<in> set ps. v4_peer q \<and> peer_chain q \<noteq> peer_chain p" "v4_peer p"
  shows "\<exists>w'. sync_peer cfg ipt_step p w = (Inr 0, w') \<and> synced cfg (ps @ [p]) w'"
proof -
  let ?M = "fc_managed_chain cfg"
  note names = cfg_names[OF assms(1)]
  have disp: "map_of w ?M = Some (map jump_rule (filter active ps))" and fwd: "map_of w ''FORWARD'' \<noteq> None"
    using assms(2) by (auto simp: synced_def)
  show ?thesis
  proof (cases "active p")
    case True
    obtain w' fs where ap: "ApplyPeer cfg ipt_step p w = (Inr (), w')"
      and m: "map_of w' = (map_of w)(peer_chain p \<mapsto> peer_rules p, ''FORWARD'' \<mapsto> fs,
        ?M \<mapsto> add_jump p (map jump_rule (filter active ps)))"
      using apply_effect[OF assms(1) True assms(4) fwd] by (auto simp: disp)
    have "jump_rule p \<noteq> jump_rule q" if "q \<in> set ps" for q
      using assms(3) that by (auto simp: jump_rule_def)
    then have "add_jump p (map jump_rule (filter active ps)) = map jump_rule (filter active (ps @ [p]))"
      using True by (auto simp: add_jump_def)
    then have "synced cfg (ps @ [p]) w'" using assms(2,3) names by (auto simp: synced_def m)
    moreover have "sync_peer cfg ipt_step p w = (Inr 0, w')"
      using True ap by (simp add: sync_peer_def active_def run_simps)
    ultimately show ?thesis by blast
  next
    case False
    have "\<exists>w'. sync_peer cfg ipt_step p w = (Inr 0, w') \<and> (\<forall>x. x \<noteq> peer_chain p \<longrightarrow> map_of w' x = map_of w x)"
    proof (cases "pr_enabled p")
      case True
      with False have "ApplyPeer cfg ipt_step p w = (Inr (), w)"
        by (simp add: ApplyPeer_def active_def sourceCIDR_def)
      with True show ?thesis by (simp add: sync_peer_def run_simps)
    next
      case off: False
      have "foreign (filter active ps) (peer_chain p)" using assms(3) peer_chain_no_sp by (auto simp: foreign_def)
      from remove_effect[OF assms(1) disp this] off show ?thesis by (auto simp: sync_peer_def run_simps)
    qed
    then obtain w' where "sync_peer cfg ipt_step p w = (Inr 0, w')" "\<forall>x. x \<noteq> peer_chain p \<longrightarrow> map_of w' x = map_of w x"
      by blast
    moreover from this(2) names[of p] have "map_of w' ''FORWARD'' = map_of w ''FORWARD''" "map_of w' ?M = map_of w ?M"
      by metis+
    then have "synced cfg (ps @ [p]) w'" using assms(2,3) False \<open>\<forall>x. x \<noteq> peer_chain p \<longrightarrow> _ x\<close> by (auto simp: synced_def)
    ultimately show ?thesis by blast
  qed
qed

lemma sync_loop:
  assumes "cfg_ok cfg" "synced cfg done w" "\<forall>q \<in> set (done @ ps). v4_peer q" "distinct (map peer_chain (done @ ps))"
  shows "\<exists>w'. forE ps (sync_peer cfg ipt_step) w = (Inr (map (\<lambda>_. 0) ps), w') \<and> synced cfg (done @ ps) w'"
  using assms(2-4)
proof (induction ps arbitrary: "done" w)
  case (Cons p ps)
  have "\<forall>q \<in> set done. v4_peer q \<and> peer_chain q \<noteq> peer_chain p" "v4_peer p"
    using Cons.prems(2,3) by (force simp: image_iff)+
  from sync_step[OF assms(1) Cons.prems(1) this] obtain w1
    where 1: "sync_peer cfg ipt_step p w = (Inr 0, w1)" "synced cfg (done @ [p]) w1" by blast
  from Cons.IH[OF 1(2)] Cons.prems(2,3) obtain w'
    where "forE ps (sync_peer cfg ipt_step) w1 = (Inr (map (\<lambda>_. 0) ps), w')" "synced cfg (done @ p # ps) w'" by auto
  with 1 show ?case by (auto simp: bindE_def)
qed simp

subsection \<open>Orphan cleanup\<close>

lemma next_seq_solid: "solid c \<Longrightarrow> next_seq space_seqs (c # s) = None"
proof -
  assume c: "solid c"
  have "\<not> (q \<noteq> [] \<and> has_prefix q (c # s))" if "q \<in> set space_seqs" for q
    using c that by (cases q) (auto simp: solid_def)
  then show ?thesis unfolding next_seq_def find_None_iff by blast
qed

lemma go_fields_solid: "list_all solid u \<Longrightarrow> go_fields_from acc (u @ s) = go_fields_from (acc @ u) s"
proof (induction u arbitrary: acc)
  case (Cons c u)
  then have "go_fields_from acc (c # u @ s) = go_fields_from (acc @ [c]) (u @ s)"
    by (subst go_fields_from.simps) (simp add: next_seq_solid)
  with Cons show ?case by simp
qed simp

lemma go_fields_first: "acc \<noteq> [] \<Longrightarrow> \<exists>x ys. go_fields_from acc s = (acc @ x) # ys"
proof (induction acc s rule: go_fields_from.induct)
  case (1 acc s)
  show ?case
  proof (cases "next_seq space_seqs s")
    case (Some q)
    with "1.prems" have "go_fields_from acc s = (acc @ []) # go_fields_from [] (drop (length q) s)"
      by (subst go_fields_from.simps) simp
    then show ?thesis by blast
  next
    case None
    show ?thesis
    proof (cases s)
      case Nil
      with None "1.prems" have "go_fields_from acc s = (acc @ []) # []" by (subst go_fields_from.simps) simp
      then show ?thesis by blast
    next
      case (Cons c r)
      with "1.IH"(1)[OF None Cons] obtain x ys where "go_fields_from (acc @ [c]) r = ((acc @ [c]) @ x) # ys" by auto
      then have "go_fields_from acc s = (acc @ c # x) # ys" using None Cons by (subst go_fields_from.simps) simp
      then show ?thesis by blast
    qed
  qed
qed

text \<open>A chain named by a \<open>-N WG_PEER_\<close> line has that prefix and no space.\<close>

lemma declared_prefix:
  assumes "c \<in> set (declared_chains out)"
  shows "has_prefix ''WG_PEER_'' c \<and> sp \<notin> set c"
proof -
  obtain l where l: "has_prefix ''-N WG_PEER_'' l" "c \<in> set (take 1 (drop 1 (go_fields l)))"
    using assms by (auto simp: declared_chains_def split: if_splits)
  from l(1) obtain s where s: "l = ''-N'' @ sp # ''WG_PEER_'' @ s" by (auto simp: has_prefix_iff)
  have sol: "list_all solid ''-N''" "list_all solid ''WG_PEER_''" by (simp_all add: solid_def space_seqs_def)
  have "go_fields l = go_fields_from ''-N'' (sp # ''WG_PEER_'' @ s)"
    unfolding go_fields_def s using go_fields_solid[OF sol(1), of "[]"] by simp
  also have "\<dots> = ''-N'' # go_fields_from [] (''WG_PEER_'' @ s)"
    by (subst go_fields_from.simps) (simp add: next_seq_def space_seqs_def)
  also have "go_fields_from [] (''WG_PEER_'' @ s) = go_fields_from ''WG_PEER_'' s"
    using go_fields_solid[OF sol(2), of "[]"] by simp
  finally obtain x ys where "go_fields l = ''-N'' # (''WG_PEER_'' @ x) # ys"
    using go_fields_first[of "''WG_PEER_''" s] by auto
  with l(2) have "c = ''WG_PEER_'' @ x" by simp
  have "c \<in> set (go_fields l)" using l(2) by (metis in_set_dropD in_set_takeD)
  then have "sp \<notin> set c" by (rule go_fields_no_sp)
  with \<open>c = ''WG_PEER_'' @ x\<close> show ?thesis by simp
qed

lemma remove_orphan_effect:
  assumes "cfg_ok cfg" "foreign qs c" "D = Inr (unlines (list_decl (fc_managed_chain cfg, map jump_rule qs) #
        list_rules (fc_managed_chain cfg, map jump_rule qs)))"
  shows "\<exists>w'. remove_orphan ipt_step D c w = (Inr (), w') \<and> (\<forall>x. x \<noteq> c \<longrightarrow> map_of w' x = map_of w x)"
proof -
  have "delete_rules ipt_step [] v = (Inr (), v)" for v :: ruleset by (simp add: delete_rules_def bindE_def)
  then have "remove_orphan ipt_step D c w = (Inr (), snd (run ipt_step [''-X'', c] (snd (run ipt_step [''-F'', c] w))))"
    using jumps_to_none[OF assms(1), of qs c] assms(2,3) by (simp add: remove_orphan_def thenE_ignoreE foreign_def)
  then show ?thesis using run_frame[of c _ ] by auto
qed

lemma cleanup_effect:
  assumes "cfg_ok cfg" "map_of w (fc_managed_chain cfg) = Some (map jump_rule qs)"
    "\<forall>q \<in> set qs. v4_peer q \<and> active q \<and> peer_chain q \<in> set expected"
  shows "\<exists>w'. cleanupOrphanChains cfg ipt_step expected w = (Inr (), w') \<and>
    (\<forall>x. x \<in> set expected \<or> \<not> has_prefix ''WG_PEER_'' x \<longrightarrow> map_of w' x = map_of w x)"
proof -
  let ?M = "fc_managed_chain cfg"
  let ?D = "Inr (unlines (list_decl (?M, map jump_rule qs) # list_rules (?M, map jump_rule qs))) :: unit + string"
  let ?out = "unlines (map list_decl w @ concat (map list_rules w))"
  let ?os = "filter (\<lambda>c. c \<notin> set expected) (rev (remdups (rev (declared_chains ?out))))"
  have os: "foreign qs c \<and> has_prefix ''WG_PEER_'' c \<and> c \<notin> set expected" if "c \<in> set ?os" for c
    using that assms(3) declared_prefix[of c ?out] by (auto simp: foreign_def)
  have loop: "\<exists>us w'. forE cs (remove_orphan ipt_step ?D) v = (Inr us, w') \<and>
      (\<forall>x. x \<in> set expected \<or> \<not> has_prefix ''WG_PEER_'' x \<longrightarrow> map_of w' x = map_of v x)"
    if "\<forall>c \<in> set cs. foreign qs c \<and> has_prefix ''WG_PEER_'' c \<and> c \<notin> set expected" for cs v
    using that
  proof (induction cs arbitrary: v)
    case (Cons c cs)
    then obtain v1 where 1: "remove_orphan ipt_step ?D c v = (Inr (), v1)" "\<forall>x. x \<noteq> c \<longrightarrow> map_of v1 x = map_of v x"
      using remove_orphan_effect[OF assms(1), of qs c ?D v] by auto
    from Cons obtain us w' where 2: "forE cs (remove_orphan ipt_step ?D) v1 = (Inr us, w')"
      "\<forall>x. x \<in> set expected \<or> \<not> has_prefix ''WG_PEER_'' x \<longrightarrow> map_of w' x = map_of v1 x" by fastforce
    have "forE (c # cs) (remove_orphan ipt_step ?D) v = (Inr (() # us), w')"
      using 1(1) 2(1) by (simp add: bindE_def)
    moreover have "\<forall>x. x \<in> set expected \<or> \<not> has_prefix ''WG_PEER_'' x \<longrightarrow> map_of w' x = map_of v x"
      using 1(2) 2(2) Cons.prems by fastforce
    ultimately show ?case by blast
  qed simp
  obtain us w' where r: "forE ?os (remove_orphan ipt_step ?D) w = (Inr us, w')"
    "\<forall>x. x \<in> set expected \<or> \<not> has_prefix ''WG_PEER_'' x \<longrightarrow> map_of w' x = map_of w x"
    using loop[of ?os w] os by blast
  have "cleanupOrphanChains cfg ipt_step expected w = (Inr (), w')"
    using r(1) by (simp add: cleanupOrphanChains_def bindE_tryE cmd_S(1) list_dispatch[OF assms(2)] bindE_def)
  with r(2) show ?thesis by blast
qed

lemma sync_effect:
  assumes "cfg_ok cfg" "map_of w ''FORWARD'' \<noteq> None" "\<forall>p \<in> set ps. v4_peer p" "distinct (map peer_chain ps)"
  shows "\<exists>w'. Sync cfg ipt_step ps w = (Inr (), w') \<and> synced cfg ps w'"
proof -
  let ?M = "fc_managed_chain cfg"
  note names = cfg_names[OF assms(1)]
  obtain w1 fs where 1: "ensureDispatchChain cfg ipt_step w = (Inr (), w1)"
    "map_of w1 = (map_of w)(?M \<mapsto> (case map_of w ?M of None \<Rightarrow> [] | Some rs \<Rightarrow> rs), ''FORWARD'' \<mapsto> fs)"
    using ensure_effect[OF assms(1,2)] by blast
  define w2 where "w2 = snd (run ipt_step [''-F'', ?M] w1)"
  have "synced cfg [] w2" using names by (auto simp: synced_def w2_def cmd_F 1(2))
  from sync_loop[OF assms(1) this, of ps] assms(3,4) obtain w3
    where 3: "forE ps (sync_peer cfg ipt_step) w2 = (Inr (map (\<lambda>_. 0) ps), w3)" "synced cfg ps w3" by auto
  have disp: "map_of w3 ?M = Some (map jump_rule (filter active ps))" using 3(2) by (simp add: synced_def)
  have own: "\<forall>q \<in> set (filter active ps). v4_peer q \<and> active q \<and> peer_chain q \<in> set (map peer_chain ps)"
    using assms(3) by auto
  obtain w4 where 4: "cleanupOrphanChains cfg ipt_step (map peer_chain ps) w3 = (Inr (), w4)"
    "\<forall>x. x \<in> set (map peer_chain ps) \<or> \<not> has_prefix ''WG_PEER_'' x \<longrightarrow> map_of w4 x = map_of w3 x"
    using cleanup_effect[OF assms(1) disp own] by blast
  have "sum_list (map (\<lambda>_. 0::nat) ps) = 0" by simp
  then have "Sync cfg ipt_step ps w = (Inr (), w4)"
    using 1(1) 3(1) 4(1)
    by (simp add: Sync_def run_simps bindE_Inr peer_chain_def[abs_def, symmetric] flip: w2_def)
  moreover have "\<not> has_prefix ''WG_PEER_'' ''FORWARD''" "\<not> has_prefix ''WG_PEER_'' ?M"
    using assms(1) by (auto simp: cfg_ok_def)
  then have "synced cfg ps w4" using 3(2) 4(2) by (auto simp: synced_def)
  ultimately show ?thesis by blast
qed

subsection \<open>The verdict on a packet\<close>

record packet =
  pk_src :: ipv4
  pk_dst :: ipv4
  pk_in :: string

datatype verdict = Accept | Drop

definition cidr4_covers :: "string \<Rightarrow> ipv4 \<Rightarrow> bool" where
  "cidr4_covers s v = (case parse_cidr s of
     Some (_, Net4 w n) \<Rightarrow> mask4 n v = w
   | Some (_, Net6 _ _) \<Rightarrow> False
   | None \<Rightarrow> parse_addr s = Some (Addr4 v))"

fun rule_matches :: "packet \<Rightarrow> string list \<Rightarrow> bool" where
  "rule_matches k (f # v # r) =
     (if f = ''-s'' then cidr4_covers v (pk_src k) \<and> rule_matches k r
      else if f = ''-d'' then cidr4_covers v (pk_dst k) \<and> rule_matches k r
      else if f = ''-i'' then v = pk_in k \<and> rule_matches k r else True)"
| "rule_matches k _ = True"

text \<open>
  A packet walks a chain; a jump to another chain that gives no verdict returns. The first argument
  bounds the depth of jumps.
\<close>

function walk :: "nat \<Rightarrow> ruleset \<Rightarrow> packet \<Rightarrow> string list list \<Rightarrow> verdict option" where
  "walk n rs k [] = None"
| "walk n rs k (r # rest) =
     (if \<not> rule_matches k r then walk n rs k rest
      else if rule_target r = ''ACCEPT'' then Some Accept
      else if rule_target r = ''DROP'' then Some Drop
      else (case n of
              0 \<Rightarrow> walk n rs k rest
            | Suc m \<Rightarrow> (case walk m rs k (case map_of rs (rule_target r) of None \<Rightarrow> [] | Some rules \<Rightarrow> rules) of
                         Some v \<Rightarrow> Some v | None \<Rightarrow> walk n rs k rest)))"
  by pat_completeness auto
termination
  by (relation "measures [\<lambda>(n, rs, k, rules). n, \<lambda>(n, rs, k, rules). length rules]") auto

declare walk.simps(2) [simp del]

definition chain_verdict :: "ruleset \<Rightarrow> packet \<Rightarrow> string \<Rightarrow> verdict option" where
  "chain_verdict rs k c = walk (length rs) rs k (case map_of rs c of None \<Rightarrow> [] | Some rules \<Rightarrow> rules)"

lemma mask4_32 [simp]: "mask4 32 w = w"
  by (simp add: mask4_def)

lemma host_covers [simp]: "cidr4_covers (dotted w @ ''/32'') v \<longleftrightarrow> v = w"
  using parse_cidr_dotted[of 32 w] by (simp add: cidr4_covers_def)

text \<open>The client address of a peer as a number.\<close>

definition client_ip :: "peer \<Rightarrow> ipv4 option" where
  "client_ip p = (case parse_cidr (pr_client_address p) of None \<Rightarrow> None | Some (ip, _) \<Rightarrow> ip_to4 ip)"

lemma source_covers:
  "v4_peer p \<Longrightarrow> active p \<Longrightarrow> cidr4_covers (peer_source p) v \<longleftrightarrow> client_ip p = Some v"
  by (rule peer_source_v4[of p]) (auto simp: active_def client_ip_def parse_cidr_dotted)

definition may_reach :: "peer \<Rightarrow> ipv4 \<Rightarrow> bool" where
  "may_reach p v \<longleftrightarrow> list_ex (\<lambda>d. is_cidr4 d \<and> cidr4_covers d v) (destinations (pr_client_allowed_ips p))"

lemma walk_peer_rules:
  assumes "v4_peer p" "active p" "client_ip p = Some (pk_src k)"
  shows "walk n rs k (peer_rules p) = Some (if may_reach p (pk_dst k) then Accept else Drop)"
proof -
  let ?acc = "\<lambda>d. [''-s'', peer_source p, ''-d'', d, ''-j'', ''ACCEPT'']"
  have "cidr4_covers (peer_source p) (pk_src k)" using source_covers[OF assms(1,2)] assms(3) by simp
  then have m: "rule_matches k (?acc d) \<longleftrightarrow> cidr4_covers d (pk_dst k)" for d by simp
  have "walk n rs k (map ?acc ds @ [[''-j'', ''DROP'']]) =
      Some (if list_ex (\<lambda>d. cidr4_covers d (pk_dst k)) ds then Accept else Drop)" for ds
    by (induction ds) (simp_all add: m rule_target_def walk.simps(2) del: rule_matches.simps(1), simp add: rule_target_def)
  moreover have "list_ex (\<lambda>d. cidr4_covers d (pk_dst k)) (filter is_cidr4 ds) =
      list_ex (\<lambda>d. is_cidr4 d \<and> cidr4_covers d (pk_dst k)) ds" for ds
    by (induction ds) auto
  ultimately show ?thesis by (simp add: peer_rules_def may_reach_def)
qed

lemma walk_dispatch:
  assumes "\<forall>q \<in> set qs. v4_peer q \<and> active q \<and> map_of rs (peer_chain q) = Some (peer_rules q)"
    "p \<in> set qs" "client_ip p = Some (pk_src k)" "\<forall>q \<in> set qs. client_ip q = client_ip p \<longrightarrow> q = p"
  shows "walk (Suc n) rs k (map jump_rule qs) = Some (if may_reach p (pk_dst k) then Accept else Drop)"
  using assms
proof (induction qs)
  case (Cons q qs)
  have m: "rule_matches k (jump_rule q) \<longleftrightarrow> client_ip q = Some (pk_src k)"
    using source_covers[of q "pk_src k"] Cons.prems(1) by (simp add: jump_rule_def)
  show ?case
  proof (cases "q = p")
    case True
    have "rule_target (jump_rule q) = peer_chain q" by (simp add: jump_rule_def rule_target_def)
    moreover have "peer_chain q \<noteq> ''ACCEPT''" "peer_chain q \<noteq> ''DROP''" using peer_chain_prefix[of q] by auto
    ultimately show ?thesis
      using True m Cons.prems(1,3) walk_peer_rules[of q k n rs]
      by (simp add: walk.simps(2)[of "Suc n" rs k "jump_rule p"])
  next
    case False
    then have "client_ip q \<noteq> client_ip p" using Cons.prems(4) by (metis list.set_intros(1))
    then have "\<not> rule_matches k (jump_rule q)" unfolding m Cons.prems(3) .
    moreover have "walk (Suc n) rs k (map jump_rule qs) = Some (if may_reach p (pk_dst k) then Accept else Drop)"
    proof (rule Cons.IH)
      show "p \<in> set qs" using False Cons.prems(2) by simp
      show "client_ip p = Some (pk_src k)" by (rule Cons.prems(3))
    qed (use Cons.prems(1,4) in \<open>meson list.set_intros(2)\<close>)+
    ultimately show ?thesis by (simp only: list.map walk.simps(2)[of "Suc n" rs k "jump_rule q"] if_True not_True_eq_False not_False_eq_True)
  qed
qed simp

subsection \<open>The reliable contract\<close>

locale reliable_iptables =
  fixes ipt :: "'i runner" and rules :: "'i \<Rightarrow> ruleset"
  assumes follows: "ipt_step args (rules w) = (fst (ipt args w), rules (snd (ipt args w)))"
begin

lemma ipt_sim [sim_intros]: "sim rules (ipt args) (ipt_step args)"
  by (rule simI) (rule follows)

lemma run_sim [sim_intros]: "sim rules (run ipt args) (run ipt_step args)"
  unfolding run_def by (intro sim_intros)

lemma delete_rules_sim [sim_intros]: "sim rules (delete_rules ipt rs) (delete_rules ipt_step rs)"
  unfolding delete_rules_def by (intro sim_intros)

lemma ensure_sim [sim_intros]: "sim rules (ensureDispatchChain cfg ipt) (ensureDispatchChain cfg ipt_step)"
  unfolding ensureDispatchChain_def by (intro sim_intros)

lemma remove_sim [sim_intros]: "sim rules (RemovePeer cfg ipt p) (RemovePeer cfg ipt_step p)"
  unfolding RemovePeer_def removeAllDispatchJumpsTo_def by (intro sim_intros)

lemma apply_sim [sim_intros]: "sim rules (ApplyPeer cfg ipt p) (ApplyPeer cfg ipt_step p)"
  unfolding ApplyPeer_def accept_rules_def ensurePeerJump_def by (intro sim_intros)

lemma cleanup_sim [sim_intros]: "sim rules (cleanupOrphanChains cfg ipt e) (cleanupOrphanChains cfg ipt_step e)"
  unfolding cleanupOrphanChains_def remove_orphan_def by (intro sim_intros)

text \<open>Sync on the binary is Sync on its rule set.\<close>

lemma sync_sim: "sim rules (Sync cfg ipt ps) (Sync cfg ipt_step ps)"
  unfolding Sync_def sync_peer_def by (intro sim_intros)

end

sublocale reliable_iptables \<subseteq> iptables
proof
  fix args w r w' assume "ipt args w = (r, w')"
  then show "(r = Inl () \<and> rules w' = rules w) \<or> ipt_step args (rules w) = (r, rules w')"
    using follows[of args w] by simp
qed

interpretation ideal: reliable_iptables ipt_step id
  by unfold_locales simp

text \<open>The interpreter with scripted failures of the system.\<close>

definition faulty_ipt :: "(bool list \<times> ruleset) runner" where
  "faulty_ipt args = (\<lambda>(fs, rs). if next_fault fs then (Inl (), (tl fs, rs))
     else (case ipt_step args rs of (r, rs') \<Rightarrow> (r, (tl fs, rs'))))"

lemma faulty_ipt_run:
  "faulty_ipt args (fs, rs) = (if next_fault fs then (Inl (), (tl fs, rs))
     else (case ipt_step args rs of (r, rs') \<Rightarrow> (r, (tl fs, rs'))))"
  by (simp add: faulty_ipt_def)

interpretation faulty: iptables faulty_ipt snd
  by unfold_locales (auto simp: faulty_ipt_def split: if_splits prod.splits)

subsection \<open>Properties\<close>


text \<open>
  ApplyPeer fails closed: whichever iptables calls fail, when it returns without error the
  peer's chain ends in DROP, everything before it is an old rule or an ACCEPT for one of the peer's
  destinations, and the jumps from FORWARD and from the dispatch chain are in place.
\<close>
theorem apply_peer_fails_closed:
  assumes "iptables ipt rules" "cfg_ok cfg" "active p" "peer_source p \<noteq> []"
    and "ApplyPeer cfg ipt p w = (Inr (), w')"
  shows "\<exists>old rs ds fs. map_of (rules w') (peer_chain p) = Some (rs @ [[''-j'', ''DROP'']]) \<and>
      set rs \<subseteq> set old \<union> {[''-s'', peer_source p, ''-d'', d, ''-j'', ''ACCEPT''] |d.
        d \<in> set (destinations (pr_client_allowed_ips p))} \<and>
      (old = [] \<or> map_of (rules w) (peer_chain p) = Some old) \<and>
      map_of (rules w') (fc_managed_chain cfg) = Some ds \<and> jump_rule p \<in> set ds \<and>
      map_of (rules w') ''FORWARD'' = Some fs \<and> [''-i'', fc_wg_interface cfg, ''-j'', fc_managed_chain cfg] \<in> set fs"
proof -
  have names: "peer_chain p \<noteq> fc_managed_chain cfg" "peer_chain p \<noteq> ''FORWARD''" "fc_managed_chain cfg \<noteq> ''FORWARD''"
    using cfg_names[OF assms(2)] by auto
  have "pr_enabled p" using assms(3) by (simp add: active_def)
  from iptables.apply_peer_closed[OF assms(1,5) this peer_source_def[symmetric] assms(4) peer_chain_def[symmetric] names]
  show ?thesis unfolding iptables.chain_def[OF assms(1)] jump_rule_def .
qed

text \<open>
  A chain name is WG_PEER_ followed by at most 16 letters or digits, 24 bytes at most, within
  the limit of iptables.
\<close>
theorem chain_name_bounds:
  "has_prefix ''WG_PEER_'' (peerChainName key) \<and> length (peerChainName key) \<le> 24 \<and>
   list_all chain_char (peerChainName key)"
proof -
  have "list_all chain_char (peerChainName key)"
    using peer_chain_chars[of "undefined\<lparr>pr_public_key := key\<rparr>"] by (simp add: peer_chain_def)
  moreover have "has_prefix ''WG_PEER_'' (peerChainName key)" unfolding peerChainName_def by (rule has_prefix_append)
  ultimately show ?thesis by (simp add: peerChainName_def)
qed

text \<open>
  Re-applying an active peer opens a window: after the flush of its chain and before the new
  rules, its packets get no verdict from the dispatch chain and fall through to whatever follows
  the jump in FORWARD.
\<close>
theorem reapply_window:
  assumes "cfg_ok cfg" "synced cfg ps w" "\<forall>p \<in> set ps. v4_peer p" "distinct (map client_ip (filter active ps))"
    and "p \<in> set ps" "active p" "client_ip p = Some (pk_src k)"
  shows "chain_verdict (snd (run ipt_step [''-F'', peer_chain p] w)) k (fc_managed_chain cfg) = None"
proof -
  let ?w = "snd (run ipt_step [''-F'', peer_chain p] w)" and ?qs = "filter active ps"
  have names: "peer_chain p \<noteq> fc_managed_chain cfg" using cfg_names[OF assms(1)] by simp
  have c: "map_of ?w (peer_chain p) = Some []" using assms(2,5,6) by (auto simp: cmd_F synced_def)
  have d: "map_of ?w (fc_managed_chain cfg) = Some (map jump_rule ?qs)"
    using assms(2) run_frame[OF names] by (simp add: synced_def)
  have "walk (Suc n) ?w k (map jump_rule qs) = None" if "set qs \<subseteq> set ?qs" for qs n
    using that
  proof (induction qs)
    case (Cons q qs)
    then have q: "q \<in> set ?qs" and IH: "walk (Suc n) ?w k (map jump_rule qs) = None" by auto
    have m: "rule_matches k (jump_rule q) \<longleftrightarrow> client_ip q = client_ip p"
      using source_covers[of q "pk_src k"] assms(3,7) q by (auto simp: jump_rule_def)
    have t: "rule_target (jump_rule q) = peer_chain q" by (simp add: jump_rule_def rule_target_def)
    have "peer_chain q \<noteq> ''ACCEPT''" "peer_chain q \<noteq> ''DROP''" using peer_chain_prefix[of q] by auto
    moreover have "client_ip q = client_ip p \<Longrightarrow> q = p"
      using assms(4-6) q by (auto simp: distinct_map dest: inj_onD)
    ultimately show ?case using IH c m t
      by (cases "q = p") (auto simp: walk.simps(2)[of "Suc n" ?w k "jump_rule q"]
          walk.simps(2)[of "Suc n" ?w k "jump_rule p"])
  qed simp
  from this[of ?qs] d show ?thesis
    by (cases ?w) (auto simp: chain_verdict_def)
qed

subsection \<open>A sample configuration\<close>

definition sample_fw :: fw_config where
  "sample_fw = \<lparr>fc_enabled = True, fc_driver = ''iptables'', fc_managed_chain = ''WG_SOCKD_FORWARD'',
     fc_wg_interface = ''wg0''\<rparr>"

definition sample_fw_peer :: peer where
  "sample_fw_peer = \<lparr>pr_id = 1, pr_public_key = ''abc+DEF/123='', pr_friendly_name = ''laptop'',
     pr_allowed_ips = ''10.0.0.2/32'', pr_profile = None, pr_enabled = True, pr_auto_discovered = False,
     pr_created_at = 0, pr_notes = [], pr_endpoint = [], pr_persistent_keepalive = None, pr_client_dns = [],
     pr_client_mtu = None, pr_client_address = ''10.0.0.2/24'', pr_last_seen_endpoint = [],
     pr_preshared_key = [], pr_client_allowed_ips = ''192.168.1.0/24, 10.9.0.1/32''\<rparr>"

definition sample_ruleset :: ruleset where
  "sample_ruleset = [(''INPUT'', []), (''FORWARD'', []), (''OUTPUT'', [])]"

lemma sample_cfg_ok: "cfg_ok sample_fw"
  by (simp add: cfg_ok_def sample_fw_def builtin_chains_def chain_char_def is_alnum_def is_digit_def)

lemma sample_client: "dotted 0x0A000002 = ''10.0.0.2''" "dec 24 = ''24''" "dotted 0xC0A80100 = ''192.168.1.0''"
  by (simp_all add: dotted_def unat_low_octet unat_drop_bit dec.simps)

lemma sample_peer_facts: "v4_peer sample_fw_peer" "active sample_fw_peer" "client_ip sample_fw_peer = Some 0x0A000002"
proof -
  have a: "pr_client_address sample_fw_peer = dotted 0x0A000002 @ CHR ''/'' # dec 24"
    by (simp add: sample_fw_peer_def sample_client)
  then show "v4_peer sample_fw_peer" unfolding v4_peer_def by (intro disjI2 exI conjI) auto
  show "active sample_fw_peer" by (simp add: active_def sample_fw_peer_def)
  show "client_ip sample_fw_peer = Some 0x0A000002" by (simp add: client_ip_def a parse_cidr_dotted)
qed

lemma sample_may_reach: "may_reach sample_fw_peer 0xC0A80107" "\<not> may_reach sample_fw_peer 0x08080808"
  "is_cidr4 ''192.168.1.0/24''" "is_cidr4 ''10.9.0.1/32''"
  "destinations (pr_client_allowed_ips sample_fw_peer) = [''192.168.1.0/24'', ''10.9.0.1/32'']"
proof -
  have "destinations (pr_client_allowed_ips sample_fw_peer) = [''192.168.1.0/24'', ''10.9.0.1/32'']"
    unfolding sample_fw_peer_def by code_simp
  moreover have "dotted 0x0A090001 = ''10.9.0.1''" "mask4 24 0xC0A80100 = 0xC0A80100"
    by (simp_all add: dotted_def unat_low_octet unat_drop_bit dec.simps mask4_def)
  then have "parse_cidr ''192.168.1.0/24'' = Some (ip_of_v4 0xC0A80100, Net4 0xC0A80100 24)"
    "parse_cidr ''10.9.0.1/32'' = Some (ip_of_v4 0x0A090001, Net4 0x0A090001 32)"
    using parse_cidr_dotted[of 24 "0xC0A80100"] parse_cidr_dotted[of 32 "0x0A090001"] by (simp_all add: sample_client)
  ultimately show "may_reach sample_fw_peer 0xC0A80107" "\<not> may_reach sample_fw_peer 0x08080808"
    "is_cidr4 ''192.168.1.0/24''" "is_cidr4 ''10.9.0.1/32''"
    "destinations (pr_client_allowed_ips sample_fw_peer) = [''192.168.1.0/24'', ''10.9.0.1/32'']"
    by (simp_all add: may_reach_def is_cidr4_def cidr4_covers_def mask4_def)
qed

lemma sample_names:
  "peerChainName (pr_public_key sample_fw_peer) = ''WG_PEER_abcDEF123''"
  "sourceCIDR (pr_client_address sample_fw_peer) = ''10.0.0.2/32''" "is_cidr4 ''10.0.0.2/32''"
proof -
  show "peerChainName (pr_public_key sample_fw_peer) = ''WG_PEER_abcDEF123''"
    by (simp add: peerChainName_def sample_fw_peer_def is_alnum_def is_digit_def)
  have a: "pr_client_address sample_fw_peer = dotted 0x0A000002 @ CHR ''/'' # dec 24"
    by (simp add: sample_fw_peer_def sample_client)
  have "sourceCIDR (pr_client_address sample_fw_peer) = dotted 0x0A000002 @ ''/32''"
    unfolding sourceCIDR_def a by (subst parse_cidr_dotted) simp_all
  then show "sourceCIDR (pr_client_address sample_fw_peer) = ''10.0.0.2/32''" by (simp add: sample_client)
  show "is_cidr4 ''10.0.0.2/32''" using is_cidr4_host[of "0x0A000002"] by (simp add: sample_client)
qed


theorem reapply_window_witness:
  "\<exists>w. chain_verdict w \<lparr>pk_src = 0x0A000002, pk_dst = 0x08080808, pk_in = ''wg0''\<rparr> ''WG_SOCKD_FORWARD'' = None"
proof -
  have "map_of sample_ruleset ''FORWARD'' \<noteq> None" by (simp add: sample_ruleset_def)
  with sync_effect[OF sample_cfg_ok, of sample_ruleset "[sample_fw_peer]"] sample_peer_facts
  obtain w where "synced sample_fw [sample_fw_peer] w" by auto
  from reapply_window[OF sample_cfg_ok this, of sample_fw_peer "\<lparr>pk_src = 0x0A000002, pk_dst = 0x08080808, pk_in = ''wg0''\<rparr>"]
  show ?thesis using sample_peer_facts by (auto simp: sample_fw_def)
qed

text \<open>The third iptables call, the first ACCEPT, fails; ApplyPeer goes on and succeeds.\<close>

theorem apply_peer_fails_closed_witness:
  "\<exists>w'. ApplyPeer sample_fw faulty_ipt sample_fw_peer ([False, False, True], sample_ruleset) = (Inr (), w') \<and>
     (\<exists>rs. map_of (snd w') (peer_chain sample_fw_peer) = Some (rs @ [[''-j'', ''DROP'']]))"
proof -
  have run: "fst (ApplyPeer sample_fw faulty_ipt sample_fw_peer ([False, False, True], sample_ruleset)) = Inr ()"
    using sample_peer_facts(2)
    by (simp add: ApplyPeer_def Let_def active_def sample_names sample_may_reach accept_rules_def ensureDispatchChain_def
        ensurePeerJump_def run_def bindE_def thenE_def mapErr_def faulty_ipt_run ipt_step.simps sample_fw_def
        sample_ruleset_def rule_ok_def rule_target_def builtin_chains_def numeral_2_eq_2)
  then obtain w' where r: "ApplyPeer sample_fw faulty_ipt sample_fw_peer ([False, False, True], sample_ruleset) = (Inr (), w')"
    by (metis prod.collapse)
  have "peer_source sample_fw_peer \<noteq> []"
    using peer_source_cidr[OF sample_peer_facts(1)] sample_peer_facts(2) by (simp add: active_def)
  from apply_peer_fails_closed[OF faulty.iptables_axioms sample_cfg_ok sample_peer_facts(2) this r]
  show ?thesis using r by blast
qed

end
