(* ===== verification/Debounce.thy ===== *)
theory Debounce
  imports Confwriter
begin

text \<open>
  Coalesced configuration writes: the flags of \<open>DebouncedWriter\<close> with the critical sections of
  its methods (debounce.go), the shared writer (shared.go), and the interleavings of the goroutines
  that call them, as a step relation. A goroutine is suspended at the points where it holds no
  lock: between taking the pending mark, reading the peers and writing the file.
\<close>

subsection \<open>The flags and their critical sections\<close>

record deb_flags =
  df_pending :: bool
  df_timer :: bool
  df_closed :: bool

definition NewDebouncedWriter :: deb_flags where
  "NewDebouncedWriter = \<lparr>df_pending = False, df_timer = False, df_closed = False\<rparr>"

definition deb_notify :: "deb_flags \<Rightarrow> deb_flags" where
  "deb_notify d = (if df_closed d then d else d\<lparr>df_pending := True, df_timer := True\<rparr>)"

text \<open>The section of \<open>flush\<close>: whether this goroutine has to write.\<close>

definition deb_take :: "deb_flags \<Rightarrow> bool \<times> deb_flags" where
  "deb_take d = (if \<not> df_pending d then (False, d) else (True, d\<lparr>df_pending := False\<rparr>))"

definition deb_flush :: "deb_flags \<Rightarrow> bool \<times> deb_flags" where
  "deb_flush d = (df_pending d, d\<lparr>df_timer := False\<rparr>)"

definition deb_close :: "deb_flags \<Rightarrow> bool \<times> deb_flags" where
  "deb_close d = (df_pending d, d\<lparr>df_closed := True, df_timer := False\<rparr>)"

definition deb_direct :: "deb_flags \<Rightarrow> deb_flags" where
  "deb_direct d = d\<lparr>df_timer := False, df_pending := False\<rparr>"

text \<open>\<open>SharedWriter.WriteConf\<close> and, over it, \<open>DirectWrite\<close> with its flags.\<close>

definition SharedWriteConf :: "peer_conf list \<Rightarrow> (conf_fs, conf_error, unit) prog" where
  "SharedWriteConf peers = write_conf peers"

definition DirectWrite :: "peer_conf list \<Rightarrow> (deb_flags \<times> conf_fs, conf_error, unit) prog" where
  "DirectWrite peers = (\<lambda>(d, fs). case SharedWriteConf peers fs of (r, fs') \<Rightarrow> (r, (deb_direct d, fs')))"

text \<open>A flush run without interference, in one go; its write error is only logged.\<close>

definition flush_now :: "(deb_flags \<Rightarrow> bool \<times> deb_flags) \<Rightarrow> peer_conf list \<Rightarrow> deb_flags \<times> conf_fs \<Rightarrow> deb_flags \<times> conf_fs" where
  "flush_now section peers = (\<lambda>(d, fs).
     case section d of (pending, d1) \<Rightarrow>
       if pending then (case deb_take d1 of (go, d2) \<Rightarrow>
         if go then (d2, snd (SharedWriteConf peers fs)) else (d2, fs)) else (d1, fs))"

subsection \<open>Goroutines\<close>

text \<open>
  \<open>Mutated\<close>: a handler has committed to the database and will call \<open>Notify\<close>; \<open>Flushing\<close>: a goroutine
  will run \<open>flush\<close>; \<open>Taken\<close>: it has taken the pending mark; \<open>Holding p\<close>: it has the peers \<open>p\<close> and
  will write them; \<open>Direct p\<close>: a handler has listed the peers \<open>p\<close> for \<open>DirectWrite\<close>.
\<close>

datatype 'p goroutine = Mutated | Flushing | Taken | Holding 'p | Direct 'p

record 'p conf_state =
  cs_db :: 'p
  cs_file :: 'p
  cs_flags :: deb_flags
  cs_run :: "'p goroutine list"

text \<open>One goroutine \<open>g\<close> of the list moves on.\<close>

definition leaves :: "'p goroutine \<Rightarrow> 'p conf_state \<Rightarrow> 'p conf_state \<Rightarrow> bool" where
  "leaves g s s' \<longleftrightarrow> g \<in> set (cs_run s) \<and> s' = s\<lparr>cs_run := remove1 g (cs_run s)\<rparr>"

definition enters :: "'p goroutine \<Rightarrow> 'p conf_state \<Rightarrow> 'p conf_state" where
  "enters g s = s\<lparr>cs_run := g # cs_run s\<rparr>"

inductive conf_step :: "'p conf_state \<Rightarrow> 'p conf_state \<Rightarrow> bool" where
  mutate: "conf_step s (enters Mutated (s\<lparr>cs_db := p\<rparr>))"
| notify: "leaves Mutated s s1 \<Longrightarrow> conf_step s (s1\<lparr>cs_flags := deb_notify (cs_flags s1)\<rparr>)"
| fire: "df_timer (cs_flags s) \<Longrightarrow>
    conf_step s (enters Flushing (s\<lparr>cs_flags := (cs_flags s)\<lparr>df_timer := False\<rparr>\<rparr>))"
| flush: "deb_flush (cs_flags s) = (b, d) \<Longrightarrow>
    conf_step s (if b then enters Flushing (s\<lparr>cs_flags := d\<rparr>) else s\<lparr>cs_flags := d\<rparr>)"
| take: "leaves Flushing s s1 \<Longrightarrow> deb_take (cs_flags s1) = (b, d) \<Longrightarrow>
    conf_step s (if b then enters Taken (s1\<lparr>cs_flags := d\<rparr>) else s1\<lparr>cs_flags := d\<rparr>)"
| snapshot: "leaves Taken s s1 \<Longrightarrow> conf_step s (enters (Holding (cs_db s)) s1)"
| list_direct: "conf_step s (enters (Direct (cs_db s)) s)"
| direct: "leaves (Direct p) s s1 \<Longrightarrow>
    conf_step s (enters (Holding p) (s1\<lparr>cs_flags := deb_direct (cs_flags s1)\<rparr>))"
| write_file: "leaves (Holding p) s s1 \<Longrightarrow> conf_step s (s1\<lparr>cs_file := p\<rparr>)"

text \<open>The runs that serialise the writers and let nothing bypass the debounce.\<close>

definition writing :: "'p goroutine \<Rightarrow> bool" where
  "writing g \<longleftrightarrow> (case g of Taken \<Rightarrow> True | Holding _ \<Rightarrow> True | _ \<Rightarrow> False)"

definition calm :: "'p conf_state \<Rightarrow> bool" where
  "calm s \<longleftrightarrow> length (filter writing (cs_run s)) \<le> 1 \<and> (\<forall>p. Direct p \<notin> set (cs_run s))"

inductive calm_run :: "'p conf_state \<Rightarrow> 'p conf_state \<Rightarrow> bool" where
  start: "calm_run s s"
| step: "calm_run s t \<Longrightarrow> conf_step t u \<Longrightarrow> calm u \<Longrightarrow> \<not> df_closed (cs_flags u) \<Longrightarrow> calm_run s u"

inductive any_run :: "'p conf_state \<Rightarrow> 'p conf_state \<Rightarrow> bool" where
  any_start: "any_run s s"
| any_step: "any_run s t \<Longrightarrow> conf_step t u \<Longrightarrow> any_run s u"

inductive_cases conf_stepE: "conf_step s t"

definition idle :: "'p \<Rightarrow> 'p conf_state" where
  "idle p = \<lparr>cs_db = p, cs_file = p, cs_flags = NewDebouncedWriter, cs_run = []\<rparr>"

definition quiet :: "'p conf_state \<Rightarrow> bool" where
  "quiet s \<longleftrightarrow> cs_run s = [] \<and> \<not> df_pending (cs_flags s)"

subsection \<open>No update is lost on serialised runs\<close>

text \<open>
  The file is current, or somebody who has not read the database yet will write it, or the one
  writer holds the current peers.
\<close>

definition covered :: "'p conf_state \<Rightarrow> bool" where
  "covered s \<longleftrightarrow> Mutated \<in> set (cs_run s) \<or> df_pending (cs_flags s) \<or> Taken \<in> set (cs_run s) \<or>
     Holding (cs_db s) \<in> set (cs_run s) \<or> (\<forall>p. Holding p \<notin> set (cs_run s)) \<and> cs_file s = cs_db s"

lemma leaves_set: "leaves g s s' \<Longrightarrow> x \<in> set (cs_run s) \<Longrightarrow> x \<noteq> g \<Longrightarrow> x \<in> set (cs_run s')"
  by (auto simp: leaves_def)

lemma leaves_sub: "leaves g s s' \<Longrightarrow> x \<in> set (cs_run s') \<Longrightarrow> x \<in> set (cs_run s)"
  by (auto simp: leaves_def dest: subsetD[OF set_remove1_subset])

lemma leaves_more: "leaves g s s' \<Longrightarrow> cs_db s' = cs_db s \<and> cs_file s' = cs_file s \<and> cs_flags s' = cs_flags s"
  by (simp add: leaves_def)

lemma one_writer:
  assumes "length (filter writing gs) \<le> 1" "g \<in> set gs" "h \<in> set gs" "writing g" "writing h"
  shows "g = h" and "\<not> (\<exists>x \<in> set (remove1 g gs). writing x)"
proof -
  have mem: "g \<in> set (filter writing gs)" "h \<in> set (filter writing gs)" using assms by auto
  then obtain x where x: "filter writing gs = [x]" using assms(1) by (cases "filter writing gs") auto
  with mem have "g \<in> set [x]" "h \<in> set [x]" by (simp_all only: x)
  then show "g = h" by simp
  have "filter writing (remove1 g gs) = remove1 g (filter writing gs)" using assms(4) by (simp add: filter_remove1)
  then have "filter writing (remove1 g gs) = []"
    using \<open>g \<in> set [x]\<close> x by simp
  then show "\<not> (\<exists>x \<in> set (remove1 g gs). writing x)" by (simp add: filter_empty_conv)
qed

lemma covered_step:
  assumes "conf_step s t" "calm s" "calm t" "\<not> df_closed (cs_flags t)" "covered s"
  shows "covered t"
  using assms(1)
proof (cases rule: conf_step.cases)
  case (mutate p)
  then show ?thesis by (simp add: covered_def enters_def)
next
  case (notify s1)
  then show ?thesis using assms(4) by (simp add: covered_def deb_notify_def split: if_splits)
next
  case fire
  then show ?thesis using assms(5) by (auto simp: covered_def enters_def split: if_splits)
next
  case (flush b d)
  then show ?thesis using assms(5) by (auto simp: covered_def enters_def deb_flush_def)
next
  case (take s1 b d)
  have "x \<in> set (cs_run s1) \<longleftrightarrow> x \<in> set (cs_run s)" if "x \<noteq> Flushing" for x
    using leaves_set[OF take(2)] leaves_sub[OF take(2)] that by blast
  then show ?thesis using assms(5) take leaves_more[OF take(2)]
    by (auto simp: covered_def enters_def deb_take_def split: if_splits)
next
  case (snapshot s1)
  have "cs_run s1 = remove1 Taken (cs_run s)" "Taken \<in> set (cs_run s)" using snapshot(2) by (auto simp: leaves_def)
  then show ?thesis using snapshot leaves_more[OF snapshot(2)] by (auto simp: covered_def enters_def)
next
  case list_direct
  then have "Direct (cs_db s) \<in> set (cs_run t)" by (simp add: enters_def)
  with assms(3) show ?thesis by (auto simp: calm_def)
next
  case (direct p s1)
  then have "Direct p \<in> set (cs_run s)" by (simp add: leaves_def)
  with assms(2) show ?thesis by (auto simp: calm_def)
next
  case (write_file p s1)
  have r: "cs_run s1 = remove1 (Holding p) (cs_run s)" "Holding p \<in> set (cs_run s)"
    using write_file(2) by (auto simp: leaves_def)
  have calm: "length (filter writing (cs_run s)) \<le> 1" using assms(2) by (simp add: calm_def)
  have one: "x = Holding p" if "x \<in> set (cs_run s)" "writing x" for x
    using one_writer(1)[OF calm r(2) that(1) _ that(2)] by (simp add: writing_def)
  have none: "\<not> (\<exists>x \<in> set (cs_run s1). writing x)"
    unfolding r(1) using one_writer(2)[OF calm r(2) r(2)] by (simp add: writing_def)
  have "Taken \<notin> set (cs_run s)" using one[of Taken] by (auto simp: writing_def)
  moreover have "Holding (cs_db s) \<in> set (cs_run s) \<Longrightarrow> cs_db s = p"
    using one[of "Holding (cs_db s)"] by (simp add: writing_def)
  moreover have "Holding q \<notin> set (cs_run s1)" for q using none by (auto simp: writing_def)
  moreover have "Mutated \<in> set (cs_run s) \<Longrightarrow> Mutated \<in> set (cs_run s1)" unfolding r(1) by simp
  ultimately show ?thesis using assms(5) write_file leaves_more[OF write_file(2)] r(2)
    by (auto simp: covered_def split: if_splits)
qed

lemma calm_run_inv:
  assumes "calm_run (idle p) s"
  shows "calm s \<and> covered s"
  using assms
proof (induction "idle p :: 'a conf_state" s rule: calm_run.induct)
  case start
  show ?case by (simp add: calm_def covered_def idle_def NewDebouncedWriter_def)
next
  case (step t u)
  then show ?case using covered_step by blast
qed

subsection \<open>Properties\<close>


text \<open>
  DirectWrite can lose an update: a handler lists the peers, another handler commits and
  notifies, the first one's DirectWrite cancels the pending write and writes its older list. The
  writer is then idle with a file that misses the commit.
\<close>
theorem direct_write_race:
  "\<exists>s. any_run (idle p) s \<and> quiet s \<and> cs_db s = q \<and> cs_file s = p"
proof -
  let ?s1 = "enters (Direct p) (idle p)"
  let ?s2 = "enters Mutated (?s1\<lparr>cs_db := q\<rparr>)"
  let ?s3 = "(?s1\<lparr>cs_db := q\<rparr>)\<lparr>cs_flags := deb_notify (cs_flags (idle p :: 'a conf_state))\<rparr>"
  let ?s4 = "enters (Holding p) (?s3\<lparr>cs_run := [], cs_flags := deb_direct (cs_flags ?s3)\<rparr>)"
  let ?s5 = "?s3\<lparr>cs_run := [], cs_flags := deb_direct (cs_flags ?s3)\<rparr>"
  have 1: "conf_step (idle p) ?s1" using conf_step.list_direct[of "idle p"] by (simp add: idle_def)
  have 2: "conf_step ?s1 ?s2" by (rule conf_step.mutate)
  have "leaves Mutated ?s2 (?s1\<lparr>cs_db := q\<rparr>)" by (simp add: leaves_def enters_def)
  from conf_step.notify[OF this] have 3: "conf_step ?s2 ?s3" by (simp add: enters_def)
  have "leaves (Direct p) ?s3 (?s3\<lparr>cs_run := []\<rparr>)" by (simp add: leaves_def enters_def idle_def)
  from conf_step.direct[OF this] have 4: "conf_step ?s3 ?s4" by (simp add: enters_def)
  have "leaves (Holding p) ?s4 ?s5" by (simp add: leaves_def enters_def)
  from conf_step.write_file[OF this] have 5: "conf_step ?s4 ?s5" by (simp add: enters_def idle_def)
  have "any_run (idle p) ?s5" using 1 2 3 4 5 by (meson any_run.intros)
  moreover have "quiet ?s5" by (simp add: quiet_def deb_direct_def)
  ultimately show ?thesis by (intro exI[of _ ?s5]) (simp add: enters_def idle_def)
qed


end
