(* ===== verification/Validation.thy ===== *)
theory Validation
  imports Wireguard
begin

text \<open>
  Input validation (middleware/validation.go). The character classes of the name pattern are those
  of the standard library; letters and digits beyond ASCII are a parameter \<open>ln\<close> on code points.
\<close>

definition ValidatePublicKey :: "string \<Rightarrow> bool" where
  "ValidatePublicKey key \<longleftrightarrow> key \<noteq> [] \<and> length key = 44 \<and>
     (case base64_decode key of None \<Rightarrow> False | Some d \<Rightarrow> length d = 32)"

definition ValidateAllowedIPs :: "string list \<Rightarrow> bool" where
  "ValidateAllowedIPs ips = list_all (\<lambda>s. parse_prefix (trim_space s) \<noteq> None) ips"

text \<open>
  The runes of a UTF-8 string, an invalid byte giving U+FFFD: the lead byte gives the width, the
  continuation bytes must be in range and the encoding the shortest one, surrogates excluded.
\<close>

definition cont :: "char \<Rightarrow> bool" where
  "cont c \<longleftrightarrow> 128 \<le> (of_char c :: nat) \<and> (of_char c :: nat) < 192"

fun decode_rune :: "string \<Rightarrow> nat \<times> nat" where
  "decode_rune [] = (65533, 0)"
| "decode_rune (c # r) =
     (let b = of_char c in
      if b < 128 then (b, 1)
      else if 194 \<le> b \<and> b < 224 then
        (case r of c1 # _ \<Rightarrow> if cont c1 then ((b - 192) * 64 + (of_char c1 - 128), 2) else (65533, 1) | _ \<Rightarrow> (65533, 1))
      else if 224 \<le> b \<and> b < 240 then
        (case r of c1 # c2 # _ \<Rightarrow>
           (let v = (b - 224) * 4096 + (of_char c1 - 128) * 64 + (of_char c2 - 128) in
            if cont c1 \<and> cont c2 \<and> 2048 \<le> v \<and> \<not> (55296 \<le> v \<and> v < 57344) then (v, 3) else (65533, 1))
         | _ \<Rightarrow> (65533, 1))
      else if 240 \<le> b \<and> b < 245 then
        (case r of c1 # c2 # c3 # _ \<Rightarrow>
           (let v = (b - 240) * 262144 + (of_char c1 - 128) * 4096 + (of_char c2 - 128) * 64 + (of_char c3 - 128) in
            if cont c1 \<and> cont c2 \<and> cont c3 \<and> 65536 \<le> v \<and> v < 1114112 then (v, 4) else (65533, 1))
         | _ \<Rightarrow> (65533, 1))
      else (65533, 1))"

lemma decode_rune_width: "s \<noteq> [] \<Longrightarrow> 0 < snd (decode_rune s)"
  by (cases s) (auto simp: Let_def split: list.splits)

function runes :: "string \<Rightarrow> nat list" where
  "runes s = (if s = [] then [] else fst (decode_rune s) # runes (drop (snd (decode_rune s)) s))"
  by pat_completeness auto
termination
  by (relation "measure length") (auto simp: decode_rune_width)

declare runes.simps [simp del]

definition name_rune :: "(nat \<Rightarrow> bool) \<Rightarrow> nat \<Rightarrow> bool" where
  "name_rune ln r \<longleftrightarrow>
     (if r < 128 then is_alnum (char_of r) \<or> char_of r \<in> set '' -_.,'()'' else ln r)"

definition ValidateFriendlyName :: "(nat \<Rightarrow> bool) \<Rightarrow> string \<Rightarrow> bool" where
  "ValidateFriendlyName ln name \<longleftrightarrow>
     (if name = [] then True
      else length name \<le> 64 \<and> \<not> contains_any name [nl, cr, tab] \<and> list_all (name_rune ln) (runes name))"

definition ValidateNotes :: "string \<Rightarrow> bool" where
  "ValidateNotes notes \<longleftrightarrow> \<not> contains_any notes [cr]"

subsection \<open>Accepted names are harmless in the configuration file\<close>

lemma contains_any_iff: "contains_any s cs \<longleftrightarrow> (\<exists>c \<in> set s. c \<in> set cs)"
  by (auto simp: contains_any_def list_ex_iff)

text \<open>
  A friendly name that passes validation has no line break, carriage return or tab and at most
  64 bytes.
\<close>
theorem friendly_name_safe:
  assumes "ValidateFriendlyName ln name"
  shows "nl \<notin> set name \<and> cr \<notin> set name \<and> tab \<notin> set name \<and> length name \<le> 64"
  using assms by (auto simp: ValidateFriendlyName_def contains_any_iff split: if_splits)

theorem friendly_name_safe_witness:
  "ValidateFriendlyName (\<lambda>_. False) ''Bob (laptop)'' \<and> nl \<notin> set ''Bob (laptop)''"
proof -
  have "ValidateFriendlyName (\<lambda>_. False) ''Bob (laptop)''"
    by code_simp
  with friendly_name_safe[OF this] show ?thesis by simp
qed

text \<open>
  ValidatePublicKey accepts the text of every key.
\<close>
theorem validate_key_text:
  "ValidatePublicKey (b64_encode k) \<longleftrightarrow> length k = 32"
proof -
  have "length (b64_encode k) = 4 * ((length k + 2) div 3)" by (induction k rule: b64_encode.induct) (simp_all, presburger)
  then show ?thesis
    by (auto simp: ValidatePublicKey_def base64_decode_def b64_encode_plain b64_quads_encode)
qed

end
