(* ===== verification/World.thy ===== *)
theory World
  imports Debounce Firewall Wireguard
begin

text \<open>
  The state the agent's operations act on: the kernel (or its stand-in) behind the WireGuard client,
  the database, the firewall behind its driver, the configuration file and the flags of the
  debounced writer; the environment they read; and the calls into each component. \<open>w_log\<close> is a
  record of the calls to the kernel and the firewall, kept for statements about their order.
\<close>

datatype call =
    FwApply string | FwRemove string | KernelConfigure "wgkey list" | KernelRemove wgkey

record ('k, 'f) world =
  w_kern :: 'k
  w_db :: db
  w_fw :: 'f
  w_fs :: conf_fs
  w_deb :: deb_flags
  w_log :: "call list"

text \<open>
  The environment: the client and the driver, the text of a key (\<open>wgtypes.Key.String\<close>), the IP set
  library, name resolution (\<open>net.ResolveUDPAddr\<close>), the QR encoder, the configuration values, the
  Unicode classes.
\<close>

record ('k, 'f) env =
  e_wg :: "'k wg_client"
  e_fw :: "'f firewall"
  e_key :: "wgkey \<Rightarrow> string"
  e_ip_set :: "(addr \<times> nat) list \<Rightarrow> (addr \<times> nat) list \<Rightarrow> (addr \<times> nat) list option"
  e_resolve :: "string \<Rightarrow> udp_addr option"
  e_qr :: "string \<Rightarrow> string option"
  e_letters :: "nat \<Rightarrow> bool"
  e_interface :: string
  e_ipv6_prefix :: string
  e_peer_limit :: int
  e_external_endpoint :: string
  e_debounced :: bool

text \<open>The text of a key is read back by ParseKey (it is its base64 text).\<close>

definition key_text :: "(wgkey \<Rightarrow> string) \<Rightarrow> bool" where
  "key_text f \<longleftrightarrow> (\<forall>k. is_key k \<longrightarrow> parse_key (f k) = Some k)"

lemma key_text_b64: "key_text b64_encode"
  by (simp add: key_text_def parse_key_b64)

lemma key_text_inj: "key_text f \<Longrightarrow> is_key k \<Longrightarrow> is_key l \<Longrightarrow> f k = f l \<Longrightarrow> k = l"
  unfolding key_text_def by (metis option.inject)

subsection \<open>Calls\<close>

definition on_db :: "(db, db_err, 'a) prog \<Rightarrow> (('k, 'f) world, db_err, 'a) prog" where
  "on_db m w = (case m (w_db w) of (r, d) \<Rightarrow> (r, w\<lparr>w_db := d\<rparr>))"

definition get_dev :: "('k, 'f) env \<Rightarrow> (('k, 'f) world, wg_err, wg_device) prog" where
  "get_dev env w = (case get_device (e_wg env) (e_interface env) (w_kern w) of (r, k) \<Rightarrow> (r, w\<lparr>w_kern := k\<rparr>))"

definition configure :: "('k, 'f) env \<Rightarrow> wg_peer_config list \<Rightarrow> (('k, 'f) world, wg_err, unit) prog" where
  "configure env cs w =
     (case configure_peers (e_wg env) (e_interface env) cs (w_kern w) of
        (r, k) \<Rightarrow> (r, w\<lparr>w_kern := k, w_log := w_log w @ [KernelConfigure (map wc_key cs)]\<rparr>))"

definition remove_key :: "('k, 'f) env \<Rightarrow> wgkey \<Rightarrow> (('k, 'f) world, wg_err, unit) prog" where
  "remove_key env key w =
     (case remove_peer_key (e_wg env) (e_interface env) key (w_kern w) of
        (r, k) \<Rightarrow> (r, w\<lparr>w_kern := k, w_log := w_log w @ [KernelRemove key]\<rparr>))"

definition gen_key_pair :: "('k, 'f) env \<Rightarrow> (('k, 'f) world, wg_err, wgkey \<times> wgkey) prog" where
  "gen_key_pair env w = (case generate_key_pair (e_wg env) (w_kern w) of (r, k) \<Rightarrow> (r, w\<lparr>w_kern := k\<rparr>))"

definition gen_psk :: "('k, 'f) env \<Rightarrow> (('k, 'f) world, wg_err, wgkey) prog" where
  "gen_psk env w = (case generate_psk (e_wg env) (w_kern w) of (r, k) \<Rightarrow> (r, w\<lparr>w_kern := k\<rparr>))"

text \<open>The firewall's errors are only logged by every caller.\<close>

definition applied :: "('k, 'f) env \<Rightarrow> peer \<Rightarrow> ('k, 'f) world \<Rightarrow> ('k, 'f) world" where
  "applied env p w = w\<lparr>w_fw := snd (fw_apply_peer (e_fw env) p (w_fw w)),
     w_log := w_log w @ [FwApply (pr_public_key p)]\<rparr>"

definition removed :: "('k, 'f) env \<Rightarrow> peer \<Rightarrow> ('k, 'f) world \<Rightarrow> ('k, 'f) world" where
  "removed env p w = w\<lparr>w_fw := snd (fw_remove_peer (e_fw env) p (w_fw w)),
     w_log := w_log w @ [FwRemove (pr_public_key p)]\<rparr>"

definition fw_apply :: "('k, 'f) env \<Rightarrow> peer \<Rightarrow> (('k, 'f) world, 'e, unit) prog" where
  "fw_apply env p = modifyE (applied env p)"

definition fw_remove :: "('k, 'f) env \<Rightarrow> peer \<Rightarrow> (('k, 'f) world, 'e, unit) prog" where
  "fw_remove env p = modifyE (removed env p)"

definition write_shared :: "peer_conf list \<Rightarrow> (('k, 'f) world, conf_error, unit) prog" where
  "write_shared peers w = (case SharedWriteConf peers (w_fs w) of (r, fs) \<Rightarrow> (r, w\<lparr>w_fs := fs\<rparr>))"

definition write_direct :: "peer_conf list \<Rightarrow> (('k, 'f) world, conf_error, unit) prog" where
  "write_direct peers w =
     (case DirectWrite peers (w_deb w, w_fs w) of (r, (d, fs)) \<Rightarrow> (r, w\<lparr>w_deb := d, w_fs := fs\<rparr>))"

definition notify_writer :: "(('k, 'f) world, 'e, unit) prog" where
  "notify_writer = modifyE (\<lambda>w. w\<lparr>w_deb := deb_notify (w_deb w)\<rparr>)"

subsection \<open>What a call leaves alone\<close>

lemma on_db_frame [simp]:
  "w_kern (snd (on_db m w)) = w_kern w" "w_fw (snd (on_db m w)) = w_fw w"
  "w_log (snd (on_db m w)) = w_log w" "w_db (snd (on_db m w)) = snd (m (w_db w))"
  "fst (on_db m w) = fst (m (w_db w))" "w_fs (snd (on_db m w)) = w_fs w" "w_deb (snd (on_db m w)) = w_deb w"
  by (simp_all add: on_db_def split: prod.splits)

lemma get_dev_frame [simp]:
  "w_db (snd (get_dev env w)) = w_db w" "w_fw (snd (get_dev env w)) = w_fw w"
  "w_log (snd (get_dev env w)) = w_log w" "w_fs (snd (get_dev env w)) = w_fs w"
  by (simp_all add: get_dev_def split: prod.splits)

lemma configure_frame [simp]:
  "w_db (snd (configure env cs w)) = w_db w" "w_fw (snd (configure env cs w)) = w_fw w"
  "w_fs (snd (configure env cs w)) = w_fs w"
  "w_log (snd (configure env cs w)) = w_log w @ [KernelConfigure (map wc_key cs)]"
  by (simp_all add: configure_def split: prod.splits)

lemma remove_key_frame [simp]:
  "w_db (snd (remove_key env x w)) = w_db w" "w_fw (snd (remove_key env x w)) = w_fw w"
  "w_fs (snd (remove_key env x w)) = w_fs w"
  "w_log (snd (remove_key env x w)) = w_log w @ [KernelRemove x]"
  by (simp_all add: remove_key_def split: prod.splits)

lemma gen_frame [simp]:
  "w_db (snd (gen_key_pair env w)) = w_db w" "w_fw (snd (gen_key_pair env w)) = w_fw w"
  "w_log (snd (gen_key_pair env w)) = w_log w" "w_fs (snd (gen_key_pair env w)) = w_fs w"
  "w_db (snd (gen_psk env w)) = w_db w" "w_fw (snd (gen_psk env w)) = w_fw w"
  "w_log (snd (gen_psk env w)) = w_log w" "w_fs (snd (gen_psk env w)) = w_fs w"
  by (simp_all add: gen_key_pair_def gen_psk_def split: prod.splits)

lemma applied_frame [simp]:
  "w_db (applied env p w) = w_db w" "w_kern (applied env p w) = w_kern w" "w_fs (applied env p w) = w_fs w"
  "w_deb (applied env p w) = w_deb w" "w_log (applied env p w) = w_log w @ [FwApply (pr_public_key p)]"
  "w_fw (applied env p w) = snd (fw_apply_peer (e_fw env) p (w_fw w))"
  by (simp_all add: applied_def)

lemma removed_frame [simp]:
  "w_db (removed env p w) = w_db w" "w_kern (removed env p w) = w_kern w" "w_fs (removed env p w) = w_fs w"
  "w_deb (removed env p w) = w_deb w" "w_log (removed env p w) = w_log w @ [FwRemove (pr_public_key p)]"
  "w_fw (removed env p w) = snd (fw_remove_peer (e_fw env) p (w_fw w))"
  by (simp_all add: removed_def)

lemma fw_run [simp]: "fw_apply env p w = (Inr (), applied env p w)" "fw_remove env p w = (Inr (), removed env p w)"
  by (simp_all add: fw_apply_def fw_remove_def)

lemma thenE_fw [run_simps]:
  "thenE (fw_apply env p) n w = n (applied env p w)" "thenE (fw_remove env p) n w = n (removed env p w)"
  by (simp_all add: thenE_def bindE_def)

lemma write_frame [simp]:
  "w_db (snd (write_shared ps w)) = w_db w" "w_kern (snd (write_shared ps w)) = w_kern w"
  "w_fw (snd (write_shared ps w)) = w_fw w" "w_log (snd (write_shared ps w)) = w_log w"
  "w_db (snd (write_direct ps w)) = w_db w" "w_kern (snd (write_direct ps w)) = w_kern w"
  "w_fw (snd (write_direct ps w)) = w_fw w" "w_log (snd (write_direct ps w)) = w_log w"
  by (simp_all add: write_shared_def write_direct_def split: prod.splits)

text \<open>Preservation of a fact about one component.\<close>

definition db_ok :: "('k, 'f) world \<Rightarrow> bool" where
  "db_ok w \<longleftrightarrow> db_inv (w_db w)"

lemma keeps_on_db [keeps_intros]: "keeps db_inv m \<Longrightarrow> keeps db_ok (on_db m)"
  by (auto simp: keeps_def db_ok_def)

lemma keeps_db_calls [keeps_intros]:
  "keeps db_ok (get_dev env)" "keeps db_ok (configure env cs)" "keeps db_ok (remove_key env x)"
  "keeps db_ok (gen_key_pair env)" "keeps db_ok (gen_psk env)" "keeps db_ok (fw_apply env p)"
  "keeps db_ok (fw_remove env p)" "keeps db_ok (write_shared ps)" "keeps db_ok (write_direct ps)"
  "keeps db_ok notify_writer"
  by (auto simp: keeps_def db_ok_def notify_writer_def)

end
