(* ===== verification/Reconciler.thy ===== *)
theory Reconciler
  imports World
begin

text \<open>
  The reconciler (reconciler.go): one pass compares the peers of the kernel with the peers of the
  database, removes from the kernel what is unknown or disabled, adds what is missing, rewrites the
  configuration file and records the endpoints seen. Go iterates its maps in an unspecified order,
  which the record of orders fixes. Shown, over the contract of the WireGuard client: a pass never
  adds a key that is not enabled and never removes one that is, a pass without failures makes the
  kernel and the enabled peers agree, and a pass over a state in agreement does nothing to them.
\<close>

subsection \<open>The maps\<close>

record orders =
  ord_kernel :: "(string \<times> wg_peer) list \<Rightarrow> (string \<times> wg_peer) list"
  ord_db :: "(string \<times> peer) list \<Rightarrow> (string \<times> peer) list"
  ord_seen :: "(string \<times> string) list \<Rightarrow> (string \<times> string) list"

definition orders_ok :: "orders \<Rightarrow> bool" where
  "orders_ok o' \<longleftrightarrow> (\<forall>xs. set (ord_kernel o' xs) = set xs) \<and> (\<forall>xs. set (ord_db o' xs) = set xs) \<and>
     (\<forall>xs. set (ord_seen o' xs) = set xs)"

text \<open>A map filled by a loop over a slice: a later element replaces an earlier one of the same key.\<close>

definition by_key :: "('a \<Rightarrow> string) \<Rightarrow> 'a list \<Rightarrow> (string \<times> 'a) list" where
  "by_key f xs = foldl (\<lambda>m x. AList.update (f x) x m) [] xs"

subsection \<open>One pass\<close>

datatype reconcile_err = GettingDevice wg_err | ListingPeers db_err

text \<open>\<open>time.Duration(n) * time.Second\<close>, in 64 bits.\<close>

definition seconds :: "int \<Rightarrow> int" where
  "seconds n = sint (word_of_int (n * 1000000000) :: 64 word)"

definition extractKernelPeerInfo :: "wg_peer \<Rightarrow> string \<times> int option" where
  "extractKernelPeerInfo p =
     (case wp_endpoint p of None \<Rightarrow> [] | Some a \<Rightarrow> udp_string a,
      if 0 < wp_keepalive p then Some (wp_keepalive p div 1000000000) else None)"

definition short_key :: "string \<Rightarrow> string" where
  "short_key k = (if 8 < length k then take 8 k else k)"

text \<open>Step 1, for one peer of the kernel.\<close>

definition remove_stale :: "('k, 'f) env \<Rightarrow> (string \<times> peer) list \<Rightarrow> string \<times> wg_peer \<Rightarrow> (('k, 'f) world, reconcile_err, unit) prog" where
  "remove_stale env db_set = (\<lambda>(text, wp).
     case map_of db_set text of
       Some p \<Rightarrow>
         (if \<not> pr_enabled p then thenE (ignoreE (remove_key env (wp_key wp))) (fw_remove env p) else ret ())
     | None \<Rightarrow>
         (case extractKernelPeerInfo wp of (endpoint, pka) \<Rightarrow>
            thenE (ignoreE (remove_key env (wp_key wp)))
              (ignoreE (on_db (UpsertPeerFromReconcile text (''unknown-'' @ short_key text) True False endpoint pka)))))"

text \<open>The networks of a comma-separated list, what does not parse left out.\<close>

definition parse_nets :: "string \<Rightarrow> ipnet list" where
  "parse_nets s =
     (if s = [] then []
      else List.map_filter (\<lambda>c. map_option snd (parse_cidr (trim_space c))) (split_on CHR '','' s))"

definition missing_config :: "('k, 'f) env \<Rightarrow> peer \<Rightarrow> wgkey \<Rightarrow> wg_peer_config" where
  "missing_config env p key =
     \<lparr>wc_key = key, wc_allowed = parse_nets (pr_allowed_ips p),
      wc_endpoint = (if pr_endpoint p \<noteq> [] then e_resolve env (pr_endpoint p) else None),
      wc_remove = False, wc_replace = False, wc_keepalive = map_option seconds (pr_persistent_keepalive p),
      wc_psk = (if pr_preshared_key p \<noteq> [] then parse_key (pr_preshared_key p) else None)\<rparr>"

text \<open>Step 2, for one peer of the database.\<close>

definition add_missing :: "('k, 'f) env \<Rightarrow> (string \<times> wg_peer) list \<Rightarrow> string \<times> peer \<Rightarrow> (('k, 'f) world, reconcile_err, unit) prog" where
  "add_missing env kern_set = (\<lambda>(text, p).
     if \<not> pr_enabled p then ret ()
     else if map_of kern_set text \<noteq> None then ret ()
     else (case parse_key text of
             None \<Rightarrow> ret ()
           | Some key \<Rightarrow>
               bindE (tryE (configure env [missing_config env p key])) (\<lambda>r.
                 case r of Inl _ \<Rightarrow> ret () | Inr _ \<Rightarrow> fw_apply env p)))"

text \<open>Step 3: the enabled peers as the file lists them.\<close>

definition conf_of_peer :: "peer \<Rightarrow> peer_conf" where
  "conf_of_peer p = \<lparr>pc_public_key = pr_public_key p, pc_allowed_ips = pr_allowed_ips p,
     pc_preshared_key = pr_preshared_key p, pc_friendly_name = pr_friendly_name p,
     pc_created_at = pr_created_at p, pc_notes = pr_notes p, pc_endpoint = pr_endpoint p,
     pc_persistent_keepalive = (case pr_persistent_keepalive p of None \<Rightarrow> 0 | Some k \<Rightarrow> k)\<rparr>"

definition rewriteConf :: "(('k, 'f) world, unit, unit) prog" where
  "rewriteConf =
     bindE (mapErr (\<lambda>_. ()) (on_db ListPeers)) (\<lambda>ps.
       mapErr (\<lambda>_. ()) (write_shared (map conf_of_peer (filter pr_enabled ps))))"

text \<open>Step 4: the endpoints that changed.\<close>

definition seen_deltas :: "(string \<times> wg_peer) list \<Rightarrow> (string \<times> peer) list \<Rightarrow> (string \<times> string) list" where
  "seen_deltas kern_set db_set =
     List.map_filter (\<lambda>(text, wp).
       case map_of db_set text of
         None \<Rightarrow> None
       | Some p \<Rightarrow>
           (let ep = fst (extractKernelPeerInfo wp) in if ep \<noteq> pr_last_seen_endpoint p then Some (text, ep) else None))
       kern_set"

definition record_seen :: "orders \<Rightarrow> (string \<times> string) list \<Rightarrow> (('k, 'f) world, reconcile_err, unit) prog" where
  "record_seen o' deltas = (if deltas \<noteq> [] then ignoreE (on_db (UpdateLastSeenEndpoints (ord_seen o' deltas))) else ret ())"

definition ReconcileOnce :: "('k, 'f) env \<Rightarrow> orders \<Rightarrow> (('k, 'f) world, reconcile_err, unit) prog" where
  "ReconcileOnce env o' =
     bindE (mapErr GettingDevice (get_dev env)) (\<lambda>dev.
     bindE (mapErr ListingPeers (on_db ListPeers)) (\<lambda>ps.
       (let kern_set = by_key (\<lambda>p. e_key env (wp_key p)) (dev_peers dev);
            db_set = by_key pr_public_key ps in
        bindE (forE (ord_kernel o' kern_set) (remove_stale env db_set)) (\<lambda>_.
        bindE (forE (ord_db o' db_set) (add_missing env kern_set)) (\<lambda>_.
        thenE (ignoreE rewriteConf) (record_seen o' (seen_deltas kern_set db_set)))))))"

subsection \<open>Maps and loops\<close>

lemma by_key_snoc: "by_key f (xs @ [x]) = AList.update (f x) x (by_key f xs)"
  by (simp add: by_key_def)

lemma keys_by_key: "fst ` set (by_key f xs) = f ` set xs"
  by (induction xs rule: rev_induct) (simp_all add: by_key_snoc dom_update, simp add: by_key_def)

lemma update_absent: "k \<notin> fst ` set ps \<Longrightarrow> AList.update k v ps = ps @ [(k, v)]"
  by (induction ps) auto

lemma by_key_distinct: "distinct (map f xs) \<Longrightarrow> by_key f xs = map (\<lambda>x. (f x, x)) xs"
proof (induction xs rule: rev_induct)
  case Nil
  show ?case by (simp add: by_key_def)
next
  case (snoc x xs)
  then have "f x \<notin> fst ` set (by_key f xs)" unfolding keys_by_key by auto
  with snoc show ?case by (simp add: by_key_snoc update_absent)
qed

lemma map_of_by_key:
  "distinct (map f xs) \<Longrightarrow> map_of (by_key f xs) t = Some x \<longleftrightarrow> x \<in> set xs \<and> f x = t"
  by (subst by_key_distinct, assumption, subst map_of_eq_Some_iff) (auto simp: comp_def)

lemma map_of_by_key_None: "map_of (by_key f xs) t = None \<longleftrightarrow> t \<notin> f ` set xs"
  using keys_by_key[of f xs] by (simp add: map_of_eq_None_iff)

text \<open>A loop whose steps never fail leads from each state to the next.\<close>

lemma forE_total:
  "(\<And>x w. fst (f x w) = Inr ()) \<Longrightarrow> forE xs f w = (Inr (map (\<lambda>_. ()) xs), foldl (\<lambda>w x. snd (f x w)) w xs)"
proof (induction xs arbitrary: w)
  case (Cons x xs)
  have "f x w = (Inr (), snd (f x w))" using Cons.prems[of x w] by (cases "f x w") simp
  then show ?case using Cons.IH[OF Cons.prems, of "snd (f x w)"] by (simp add: bindE_Inr)
qed simp

lemma remove_stale_total: "fst (remove_stale env db_set x w) = Inr ()"
  by (simp add: remove_stale_def thenE_ignoreE split: prod.splits option.splits)

lemma add_missing_total: "fst (add_missing env kern_set x w) = Inr ()"
  by (simp add: add_missing_def bindE_tryE split: prod.splits option.splits sum.splits)

lemma bindE_state_split:
  "bindE m f w = (r, w') \<Longrightarrow> (\<exists>e. m w = (Inl e, w') \<and> r = Inl e) \<or> (\<exists>a w1. m w = (Inr a, w1) \<and> f a w1 = (r, w'))"
  by (auto simp: bindE_def split: prod.splits sum.splits)

definition after_removals :: "('k, 'f) env \<Rightarrow> orders \<Rightarrow> wg_device \<Rightarrow> peer list \<Rightarrow> ('k, 'f) world \<Rightarrow> ('k, 'f) world" where
  "after_removals env o' dev ps w =
     foldl (\<lambda>w x. snd (remove_stale env (by_key pr_public_key ps) x w)) w
       (ord_kernel o' (by_key (\<lambda>p. e_key env (wp_key p)) (dev_peers dev)))"

definition after_additions :: "('k, 'f) env \<Rightarrow> orders \<Rightarrow> wg_device \<Rightarrow> peer list \<Rightarrow> ('k, 'f) world \<Rightarrow> ('k, 'f) world" where
  "after_additions env o' dev ps w =
     foldl (\<lambda>w x. snd (add_missing env (by_key (\<lambda>p. e_key env (wp_key p)) (dev_peers dev)) x w)) w
       (ord_db o' (by_key pr_public_key ps))"

lemma record_seen_frame [simp]:
  "fst (record_seen o' ds w) = Inr ()" "w_kern (snd (record_seen o' ds w)) = w_kern w"
  "w_fw (snd (record_seen o' ds w)) = w_fw w" "w_log (snd (record_seen o' ds w)) = w_log w"
  by (simp_all add: record_seen_def)

lemma rewriteConf_state:
  "snd (rewriteConf w) = snd (on_db ListPeers w) \<or>
   (\<exists>ps. snd (rewriteConf w) = snd (write_shared ps (snd (on_db ListPeers w))))"
proof (cases "on_db ListPeers w")
  case (Pair r w1)
  then show ?thesis
    by (cases r) (simp_all add: rewriteConf_def bindE_def mapErr_def split: prod.splits sum.splits, metis snd_conv)
qed

lemma ListPeers_tables [simp]: "tables (snd (ListPeers d)) = tables d"
  by (simp add: ListPeers_def stmt_def)

lemma rewriteConf_frame [simp]:
  "w_kern (snd (rewriteConf w)) = w_kern w" "w_fw (snd (rewriteConf w)) = w_fw w"
  "w_log (snd (rewriteConf w)) = w_log w" "tables (w_db (snd (rewriteConf w))) = tables (w_db w)"
  using rewriteConf_state[of w] by auto

text \<open>A pass that does not stop at a read ends in the two loops, the file and the endpoints.\<close>

lemma reconcile_run:
  assumes "ReconcileOnce env o' w = (Inr (), w')"
  obtains dev k' d' ps where "get_device (e_wg env) (e_interface env) (w_kern w) = (Inr dev, k')"
    "ListPeers (w_db w) = (Inr ps, d')"
    "w' = snd (record_seen o' (seen_deltas (by_key (\<lambda>p. e_key env (wp_key p)) (dev_peers dev)) (by_key pr_public_key ps))
      (snd (rewriteConf (after_additions env o' dev ps (after_removals env o' dev ps (w\<lparr>w_kern := k', w_db := d'\<rparr>))))))"
proof -
  obtain dev w1 where 1: "get_dev env w = (Inr dev, w1)"
    and r1: "bindE (mapErr ListingPeers (on_db ListPeers)) (\<lambda>ps.
       (let kern_set = by_key (\<lambda>p. e_key env (wp_key p)) (dev_peers dev);
            db_set = by_key pr_public_key ps in
        bindE (forE (ord_kernel o' kern_set) (remove_stale env db_set)) (\<lambda>_.
        bindE (forE (ord_db o' db_set) (add_missing env kern_set)) (\<lambda>_.
        thenE (ignoreE rewriteConf) (record_seen o' (seen_deltas kern_set db_set)))))) w1 = (Inr (), w')"
    using assms unfolding ReconcileOnce_def by (blast dest: bindE_InrD mapErr_InrD)
  from bindE_InrD[OF r1] obtain ps w2 where 2: "on_db ListPeers w1 = (Inr ps, w2)"
    and r2: "(let kern_set = by_key (\<lambda>p. e_key env (wp_key p)) (dev_peers dev);
            db_set = by_key pr_public_key ps in
        bindE (forE (ord_kernel o' kern_set) (remove_stale env db_set)) (\<lambda>_.
        bindE (forE (ord_db o' db_set) (add_missing env kern_set)) (\<lambda>_.
        thenE (ignoreE rewriteConf) (record_seen o' (seen_deltas kern_set db_set))))) w2 = (Inr (), w')"
    by (blast dest: mapErr_InrD)
  obtain k' where k': "get_device (e_wg env) (e_interface env) (w_kern w) = (Inr dev, k')" "w1 = w\<lparr>w_kern := k'\<rparr>"
    using 1 by (auto simp: get_dev_def split: prod.splits)
  obtain d' where d': "ListPeers (w_db w) = (Inr ps, d')" "w2 = w1\<lparr>w_db := d'\<rparr>"
    using 2 k'(2) by (auto simp: on_db_def split: prod.splits)
  have "w' = snd (record_seen o' (seen_deltas (by_key (\<lambda>p. e_key env (wp_key p)) (dev_peers dev)) (by_key pr_public_key ps))
      (snd (rewriteConf (after_additions env o' dev ps (after_removals env o' dev ps w2)))))"
    using r2 by (simp add: Let_def forE_total[OF remove_stale_total] forE_total[OF add_missing_total]
        bindE_Inr[OF forE_total[OF remove_stale_total]] bindE_Inr[OF forE_total[OF add_missing_total]]
        thenE_ignoreE after_removals_def after_additions_def)
  then show ?thesis using that[OF k'(1) d'(1)] k'(2) d'(2) by simp
qed

subsection \<open>What a pass does to the kernel\<close>

definition stale :: "(string \<times> peer) list \<Rightarrow> string \<Rightarrow> bool" where
  "stale db_set t \<longleftrightarrow> (case map_of db_set t of None \<Rightarrow> True | Some p \<Rightarrow> \<not> pr_enabled p)"

definition stale_keys :: "(string \<times> peer) list \<Rightarrow> (string \<times> wg_peer) list \<Rightarrow> wgkey set" where
  "stale_keys db_set xs = {wp_key p |t p. (t, p) \<in> set xs \<and> stale db_set t}"

definition missing_keys :: "(string \<times> wg_peer) list \<Rightarrow> (string \<times> peer) list \<Rightarrow> wgkey set" where
  "missing_keys kern_set xs =
     {k. \<exists>t p. (t, p) \<in> set xs \<and> pr_enabled p \<and> map_of kern_set t = None \<and> parse_key t = Some k}"

lemma stale_keys_Cons:
  "stale_keys db_set ((t, p) # xs) = (if stale db_set t then {wp_key p} else {}) \<union> stale_keys db_set xs"
  by (auto simp: stale_keys_def)

lemma missing_keys_Cons:
  "missing_keys kern_set ((t, p) # xs) =
    (if pr_enabled p \<and> map_of kern_set t = None then (case parse_key t of None \<Rightarrow> {} | Some k \<Rightarrow> {k}) else {}) \<union>
    missing_keys kern_set xs"
  by (auto simp: missing_keys_def split: option.splits)

lemma remove_key_kern: "w_kern (snd (remove_key env x w)) = snd (remove_peer_key (e_wg env) (e_interface env) x (w_kern w))"
  by (simp add: remove_key_def split: prod.splits)

lemma configure_kern: "w_kern (snd (configure env cs w)) = snd (configure_peers (e_wg env) (e_interface env) cs (w_kern w))"
  and configure_result: "fst (configure env cs w) = fst (configure_peers (e_wg env) (e_interface env) cs (w_kern w))"
  by (simp_all add: configure_def split: prod.splits)

lemma remove_stale_kern:
  "w_kern (snd (remove_stale env db_set (t, p) w)) =
     (if stale db_set t then snd (remove_peer_key (e_wg env) (e_interface env) (wp_key p) (w_kern w)) else w_kern w)"
  by (simp add: remove_stale_def stale_def thenE_ignoreE remove_key_kern split: prod.splits option.splits)

lemma add_missing_kern:
  "w_kern (snd (add_missing env kern_set (t, p) w)) =
     (if pr_enabled p \<and> map_of kern_set t = None
      then (case parse_key t of None \<Rightarrow> w_kern w
            | Some k \<Rightarrow> snd (configure_peers (e_wg env) (e_interface env) [missing_config env p k] (w_kern w)))
      else w_kern w)"
  by (simp add: add_missing_def bindE_tryE configure_kern split: option.splits sum.splits)

lemma missing_config_batch [simp]:
  "added_keys [missing_config env p k] = {k}" "removed_keys [missing_config env p k] = {}"
  "config_keys [missing_config env p k] K = insert k K"
  by (simp_all add: added_keys_def removed_keys_def config_keys_def config_key_def missing_config_def)

context wg_contract begin

lemma stale_loop:
  assumes "e_wg env = C" "ok (w_kern w)"
  shows "ok (w_kern (foldl (\<lambda>w x. snd (remove_stale env db_set x w)) w xs)) \<and>
    keys (w_kern (foldl (\<lambda>w x. snd (remove_stale env db_set x w)) w xs)) \<subseteq> keys (w_kern w) \<and>
    keys (w_kern w) - stale_keys db_set xs \<subseteq> keys (w_kern (foldl (\<lambda>w x. snd (remove_stale env db_set x w)) w xs))"
  using assms(2)
proof (induction xs arbitrary: w)
  case Nil
  then show ?case by simp
next
  case (Cons x xs)
  obtain t p where x: "x = (t, p)" by (cases x)
  let ?w = "snd (remove_stale env db_set x w)"
  have "ok (w_kern ?w) \<and> keys (w_kern ?w) \<subseteq> keys (w_kern w) \<and>
      keys (w_kern w) - (if stale db_set t then {wp_key p} else {}) \<subseteq> keys (w_kern ?w)"
    using remove_ok[OF Cons.prems, of "e_interface env" "wp_key p"] Cons.prems
    by (cases "remove_peer_key C (e_interface env) (wp_key p) (w_kern w)") (auto simp: x remove_stale_kern assms(1))
  with Cons.IH[of ?w] show ?case by (auto simp: x stale_keys_Cons)
qed

lemma missing_loop:
  assumes "e_wg env = C" "ok (w_kern w)"
  shows "ok (w_kern (foldl (\<lambda>w x. snd (add_missing env kern_set x w)) w xs)) \<and>
    keys (w_kern w) \<subseteq> keys (w_kern (foldl (\<lambda>w x. snd (add_missing env kern_set x w)) w xs)) \<and>
    keys (w_kern (foldl (\<lambda>w x. snd (add_missing env kern_set x w)) w xs)) \<subseteq> keys (w_kern w) \<union> missing_keys kern_set xs"
  using assms(2)
proof (induction xs arbitrary: w)
  case Nil
  then show ?case by simp
next
  case (Cons x xs)
  obtain t p where x: "x = (t, p)" by (cases x)
  let ?w = "snd (add_missing env kern_set x w)"
  have conf: "ok (snd (configure_peers C (e_interface env) [missing_config env p k] (w_kern w))) \<and>
      keys (w_kern w) \<subseteq> keys (snd (configure_peers C (e_interface env) [missing_config env p k] (w_kern w))) \<and>
      keys (snd (configure_peers C (e_interface env) [missing_config env p k] (w_kern w))) \<subseteq> insert k (keys (w_kern w))" for k
    using configure_ok[OF Cons.prems, of "e_interface env" "[missing_config env p k]"]
    by (cases "configure_peers C (e_interface env) [missing_config env p k] (w_kern w)") auto
  have "ok (w_kern ?w) \<and> keys (w_kern w) \<subseteq> keys (w_kern ?w) \<and>
      keys (w_kern ?w) \<subseteq> keys (w_kern w) \<union> missing_keys kern_set [(t, p)]"
  proof (cases "parse_key t")
    case None
    then show ?thesis using Cons.prems by (simp add: x add_missing_kern)
  next
    case (Some k)
    then show ?thesis using conf[of k] Cons.prems
      by (auto simp: x add_missing_kern assms(1) missing_keys_Cons)
  qed
  moreover have "missing_keys kern_set (x # xs) = missing_keys kern_set [(t, p)] \<union> missing_keys kern_set xs"
    by (auto simp: x missing_keys_def)
  ultimately show ?case using Cons.IH[of ?w] by auto
qed

end

context reliable_wg begin

lemma stale_loop_exact:
  assumes "e_wg env = C" "ok (w_kern w)"
  shows "keys (w_kern (foldl (\<lambda>w x. snd (remove_stale env db_set x w)) w xs)) = keys (w_kern w) - stale_keys db_set xs"
  using assms(2)
proof (induction xs arbitrary: w)
  case Nil
  then show ?case by (simp add: stale_keys_def)
next
  case (Cons x xs)
  obtain t p where x: "x = (t, p)" by (cases x)
  let ?w = "snd (remove_stale env db_set x w)"
  have "ok (w_kern ?w)" using stale_loop[OF assms(1) Cons.prems, of db_set "[x]"] by simp
  moreover have "keys (w_kern ?w) = keys (w_kern w) - (if stale db_set t then {wp_key p} else {})"
    using remove_reliable[OF Cons.prems, of "e_interface env" "wp_key p"]
    by (cases "remove_peer_key C (e_interface env) (wp_key p) (w_kern w)") (auto simp: x remove_stale_kern assms(1))
  ultimately show ?case using Cons.IH[of ?w] by (auto simp: x stale_keys_Cons)
qed

lemma missing_loop_exact:
  assumes "e_wg env = C" "ok (w_kern w)"
  shows "keys (w_kern (foldl (\<lambda>w x. snd (add_missing env kern_set x w)) w xs)) = keys (w_kern w) \<union> missing_keys kern_set xs"
  using assms(2)
proof (induction xs arbitrary: w)
  case Nil
  then show ?case by (simp add: missing_keys_def)
next
  case (Cons x xs)
  obtain t p where x: "x = (t, p)" by (cases x)
  let ?w = "snd (add_missing env kern_set x w)"
  have ok': "ok (w_kern ?w)" using missing_loop[OF assms(1) Cons.prems, of kern_set "[x]"] by simp
  have "keys (snd (configure_peers C (e_interface env) [missing_config env p k] (w_kern w))) = insert k (keys (w_kern w))" for k
  proof -
    obtain u k' where r: "configure_peers C (e_interface env) [missing_config env p k] (w_kern w) = (u, k')" by fastforce
    with configure_reliable[OF Cons.prems r] configure_keys[OF Cons.prems] show ?thesis by fastforce
  qed
  then have "keys (w_kern ?w) = keys (w_kern w) \<union> missing_keys kern_set [(t, p)]"
    by (auto simp: x add_missing_kern assms(1) missing_keys_def split: option.splits)
  moreover have "missing_keys kern_set (x # xs) = missing_keys kern_set [(t, p)] \<union> missing_keys kern_set xs"
    by (auto simp: x missing_keys_def)
  ultimately show ?case using Cons.IH[OF ok'] by auto
qed

end

subsection \<open>The texts of the enabled peers\<close>

definition enabled_texts :: "db \<Rightarrow> string set" where
  "enabled_texts d = {pr_public_key p |p. p \<in> set (db_peers d) \<and> pr_enabled p}"

lemma enabled_texts_cong: "db_peers d' = db_peers d \<Longrightarrow> enabled_texts d' = enabled_texts d"
  by (simp add: enabled_texts_def)

lemma unique_texts: "db_inv d \<Longrightarrow> distinct (map pr_public_key (db_peers d))"
  by (simp add: db_inv_def unique_ok_def)

lemma ListPeers_result:
  assumes "ListPeers d = (Inr ps, d')"
  shows "set ps = set (db_peers d)" "distinct (map pr_public_key ps) = distinct (map pr_public_key (db_peers d))"
    "db_peers d' = db_peers d" "tables d' = tables d"
proof -
  have r: "ps = sort_key pr_created_at (db_peers d)" "d' = d\<lparr>db_faults := tl (db_faults d)\<rparr>"
    using assms by (auto simp: ListPeers_def stmt_def split: if_splits)
  show "set ps = set (db_peers d)" "db_peers d' = db_peers d" "tables d' = tables d" using r by simp_all
  show "distinct (map pr_public_key ps) = distinct (map pr_public_key (db_peers d))"
    by (simp add: r distinct_map)
qed

lemma stale_iff:
  assumes "distinct (map pr_public_key ps)"
  shows "stale (by_key pr_public_key ps) t \<longleftrightarrow> \<not> (\<exists>p \<in> set ps. pr_enabled p \<and> pr_public_key p = t)"
proof (cases "map_of (by_key pr_public_key ps) t")
  case None
  then show ?thesis unfolding stale_def using map_of_by_key_None[of pr_public_key ps t] by auto
next
  case (Some p)
  then have p: "p \<in> set ps" "pr_public_key p = t" using map_of_by_key[OF assms] by auto
  have "stale (by_key pr_public_key ps) t \<longleftrightarrow> \<not> pr_enabled p" using Some by (simp add: stale_def)
  moreover have "q = p" if "q \<in> set ps" "pr_public_key q = t" for q
    using map_of_by_key[OF assms, of t q] Some that by simp
  ultimately show ?thesis using p by metis
qed

lemma kernel_texts_distinct:
  assumes "key_text f" "\<forall>p \<in> set ps. is_key (wp_key p)" "distinct (map wp_key ps)"
  shows "distinct (map (\<lambda>p. f (wp_key p)) ps)"
proof -
  have "inj_on f (wp_key ` set ps)" using key_text_inj[OF assms(1)] assms(2) by (auto simp: inj_on_def)
  then have "distinct (map f (map wp_key ps))" using assms(3) by (simp only: distinct_map[of f] list.set_map simp_thms)
  then show ?thesis by (simp add: comp_def)
qed

lemma pass_stale_keys:
  assumes "orders_ok o'" "distinct (map pr_public_key ps)" "distinct (map (\<lambda>p. f (wp_key p)) qs)"
  shows "stale_keys (by_key pr_public_key ps) (ord_kernel o' (by_key (\<lambda>p. f (wp_key p)) qs)) =
    {wp_key q |q. q \<in> set qs \<and> \<not> (\<exists>p \<in> set ps. pr_enabled p \<and> pr_public_key p = f (wp_key q))}"
proof -
  have "set (ord_kernel o' (by_key (\<lambda>p. f (wp_key p)) qs)) = (\<lambda>q. (f (wp_key q), q)) ` set qs"
    using assms(1) by (simp add: orders_ok_def by_key_distinct[OF assms(3)])
  then show ?thesis unfolding stale_keys_def stale_iff[OF assms(2)] by auto
qed

lemma pass_missing_keys:
  assumes "orders_ok o'" "distinct (map pr_public_key ps)"
  shows "missing_keys (by_key (\<lambda>p. f (wp_key p)) qs) (ord_db o' (by_key pr_public_key ps)) =
    {k. \<exists>p \<in> set ps. pr_enabled p \<and> pr_public_key p \<notin> f ` wp_key ` set qs \<and> parse_key (pr_public_key p) = Some k}"
proof -
  have "set (ord_db o' (by_key pr_public_key ps)) = (\<lambda>p. (pr_public_key p, p)) ` set ps"
    using assms(1) by (simp add: orders_ok_def by_key_distinct[OF assms(2)])
  then show ?thesis unfolding missing_keys_def map_of_by_key_None by (auto simp: image_image)
qed

text \<open>The keys a pass removes and adds, in terms of the kernel and the database before it.\<close>

definition unwanted :: "(wgkey \<Rightarrow> string) \<Rightarrow> wgkey set \<Rightarrow> db \<Rightarrow> wgkey set" where
  "unwanted f K d = {k \<in> K. f k \<notin> enabled_texts d}"

definition wanted :: "(wgkey \<Rightarrow> string) \<Rightarrow> wgkey set \<Rightarrow> db \<Rightarrow> wgkey set" where
  "wanted f K d = {k. \<exists>t \<in> enabled_texts d. t \<notin> f ` K \<and> parse_key t = Some k}"

lemma pass_sets:
  assumes "orders_ok o'" "db_inv d" "key_text f" "\<forall>k \<in> K. is_key k"
    "wp_key ` set qs = K" "distinct (map wp_key qs)" "ListPeers d = (Inr ps, d')"
  shows "stale_keys (by_key pr_public_key ps) (ord_kernel o' (by_key (\<lambda>p. f (wp_key p)) qs)) = unwanted f K d"
    "missing_keys (by_key (\<lambda>p. f (wp_key p)) qs) (ord_db o' (by_key pr_public_key ps)) = wanted f K d"
proof -
  have dp: "distinct (map pr_public_key ps)" using ListPeers_result(2)[OF assms(7)] unique_texts[OF assms(2)] by simp
  have dq: "distinct (map (\<lambda>p. f (wp_key p)) qs)" using kernel_texts_distinct[OF assms(3) _ assms(6)] assms(4,5) by blast
  show "stale_keys (by_key pr_public_key ps) (ord_kernel o' (by_key (\<lambda>p. f (wp_key p)) qs)) = unwanted f K d"
    unfolding pass_stale_keys[OF assms(1) dp dq] using assms(5) ListPeers_result(1)[OF assms(7)]
    by (auto simp: unwanted_def enabled_texts_def)
  show "missing_keys (by_key (\<lambda>p. f (wp_key p)) qs) (ord_db o' (by_key pr_public_key ps)) = wanted f K d"
    unfolding pass_missing_keys[OF assms(1) dp] using assms(5) ListPeers_result(1)[OF assms(7)]
    by (auto simp: wanted_def enabled_texts_def)
qed

context wg_contract begin

lemma pass_bounds:
  assumes "e_wg env = C" "ok (w_kern w)" "\<forall>k \<in> keys (w_kern w). is_key k" "key_text (e_key env)" "orders_ok o'"
    "db_inv (w_db w)" "ReconcileOnce env o' w = (Inr (), w')"
  shows "ok (w_kern w') \<and> keys (w_kern w) - unwanted (e_key env) (keys (w_kern w)) (w_db w) \<subseteq> keys (w_kern w') \<and>
    keys (w_kern w') \<subseteq> keys (w_kern w) \<union> wanted (e_key env) (keys (w_kern w)) (w_db w)"
proof -
  from reconcile_run[OF assms(7)] obtain dev k' d' ps where
    run: "get_device C (e_interface env) (w_kern w) = (Inr dev, k')" "ListPeers (w_db w) = (Inr ps, d')"
      "w_kern w' = w_kern (after_additions env o' dev ps (after_removals env o' dev ps (w\<lparr>w_kern := k', w_db := d'\<rparr>)))"
    using assms(1) by (metis record_seen_frame(2) rewriteConf_frame(1))
  let ?w = "w\<lparr>w_kern := k', w_db := d'\<rparr>" and ?K = "keys (w_kern w)"
  have dev: "ok k'" "keys k' = ?K" "wp_key ` set (dev_peers dev) = ?K" "distinct (map wp_key (dev_peers dev))"
    using get_device_ok[OF assms(2) run(1)] get_device_peers[OF assms(2) run(1)] by auto
  note sets = pass_sets[OF assms(5,6,4,3) dev(3,4) run(2)]
  have 1: "ok (w_kern (after_removals env o' dev ps ?w))" "keys (w_kern (after_removals env o' dev ps ?w)) \<subseteq> ?K"
    "?K - unwanted (e_key env) ?K (w_db w) \<subseteq> keys (w_kern (after_removals env o' dev ps ?w))"
    using stale_loop[where w = ?w and db_set = "by_key pr_public_key ps" and
        xs = "ord_kernel o' (by_key (\<lambda>p. e_key env (wp_key p)) (dev_peers dev))", OF assms(1)] dev(1,2)
    unfolding after_removals_def sets(1) by simp_all
  then show ?thesis
    using missing_loop[OF assms(1) 1(1), of "by_key (\<lambda>p. e_key env (wp_key p)) (dev_peers dev)"
        "ord_db o' (by_key pr_public_key ps)"]
    unfolding run(3) after_additions_def sets(2) by auto
qed

lemma failed_pass:
  assumes "e_wg env = C" "ok (w_kern w)" "ReconcileOnce env o' w = (Inl e, w')"
  shows "ok (w_kern w') \<and> keys (w_kern w') = keys (w_kern w)"
proof -
  have "w_kern w' = snd (get_device C (e_interface env) (w_kern w))"
    using assms(3) unfolding ReconcileOnce_def
    by (auto simp: bindE_def mapErr_def get_dev_def on_db_def Let_def thenE_ignoreE assms(1)
        forE_total[OF remove_stale_total] forE_total[OF add_missing_total] split: prod.splits sum.splits)
       (metis Inl_Inr_False fst_conv record_seen_frame(1))+
  then show ?thesis using get_device_ok[OF assms(2), of "e_interface env"]
    by (cases "get_device C (e_interface env) (w_kern w)") auto
qed

end

context reliable_wg begin

lemma pass_exact:
  assumes "e_wg env = C" "ok (w_kern w)" "\<forall>k \<in> keys (w_kern w). is_key k" "key_text (e_key env)" "orders_ok o'"
    "db_inv (w_db w)" "ReconcileOnce env o' w = (Inr (), w')"
  shows "keys (w_kern w') = keys (w_kern w) - unwanted (e_key env) (keys (w_kern w)) (w_db w) \<union>
    wanted (e_key env) (keys (w_kern w)) (w_db w)"
proof -
  from reconcile_run[OF assms(7)] obtain dev k' d' ps where
    run: "get_device C (e_interface env) (w_kern w) = (Inr dev, k')" "ListPeers (w_db w) = (Inr ps, d')"
      "w_kern w' = w_kern (after_additions env o' dev ps (after_removals env o' dev ps (w\<lparr>w_kern := k', w_db := d'\<rparr>)))"
    using assms(1) by (metis record_seen_frame(2) rewriteConf_frame(1))
  let ?w = "w\<lparr>w_kern := k', w_db := d'\<rparr>" and ?K = "keys (w_kern w)"
  have dev: "ok k'" "keys k' = ?K" "wp_key ` set (dev_peers dev) = ?K" "distinct (map wp_key (dev_peers dev))"
    using get_device_ok[OF assms(2) run(1)] get_device_peers[OF assms(2) run(1)] by auto
  note sets = pass_sets[OF assms(5,6,4,3) dev(3,4) run(2)]
  have ok1: "ok (w_kern (after_removals env o' dev ps ?w))"
    using stale_loop[OF assms(1), of ?w] dev(1) by (simp add: after_removals_def)
  have "keys (w_kern (after_removals env o' dev ps ?w)) = ?K - unwanted (e_key env) ?K (w_db w)"
    using stale_loop_exact[where w = ?w and db_set = "by_key pr_public_key ps" and
        xs = "ord_kernel o' (by_key (\<lambda>p. e_key env (wp_key p)) (dev_peers dev))", OF assms(1)] dev(1,2)
    unfolding after_removals_def sets(1) by simp
  with missing_loop_exact[OF assms(1) ok1, of "by_key (\<lambda>p. e_key env (wp_key p)) (dev_peers dev)"
      "ord_db o' (by_key pr_public_key ps)"]
  show ?thesis unfolding run(3) after_additions_def sets(2) by simp
qed

end

subsection \<open>What a pass does to the database\<close>

definition holds_db :: "(db \<Rightarrow> bool) \<Rightarrow> ('k, 'f) world \<Rightarrow> bool" where
  "holds_db P w \<longleftrightarrow> P (w_db w)"

lemma keeps_on_db_gen: "keeps P m \<Longrightarrow> keeps (holds_db P) (on_db m)"
  by (simp add: keeps_def holds_db_def)

lemma enabled_texts_faults [simp]: "enabled_texts (d\<lparr>db_faults := fs\<rparr>) = enabled_texts d"
  by (rule enabled_texts_cong) simp

definition same_enabled :: "string set \<Rightarrow> db \<Rightarrow> bool" where
  "same_enabled E d \<longleftrightarrow> enabled_texts d = E"

lemma same_enabled_faults: "same_enabled E (d\<lparr>db_faults := fs\<rparr>) = same_enabled E d"
  by (simp add: same_enabled_def)

lemma insert_disabled: "\<not> pr_enabled p \<Longrightarrow> insert_row p d = (r, d') \<Longrightarrow> enabled_texts d' = enabled_texts d"
  by (auto simp: insert_row_def enabled_texts_def Let_def split: if_splits)

lemma upsert_same_enabled: "keeps (same_enabled E) (UpsertPeerFromReconcile t n ad False ep pka)"
proof -
  have "keeps (same_enabled E) (insert_row p)" if "\<not> pr_enabled p" for p
  proof (rule keepsI)
    fix d assume E: "same_enabled E d"
    obtain r d' where r: "insert_row p d = (r, d')" by fastforce
    with insert_disabled[OF that r] E show "same_enabled E (snd (insert_row p d))" by (simp add: same_enabled_def)
  qed
  then show ?thesis unfolding UpsertPeerFromReconcile_def
    by (intro keeps_stmt_gen same_enabled_faults insert_or_ignore_keeps) simp
qed

lemma enabled_texts_map:
  assumes "\<And>p. pr_public_key (g p) = pr_public_key p" "\<And>p. pr_enabled (g p) = pr_enabled p"
  shows "enabled_texts (d\<lparr>db_peers := map g (db_peers d)\<rparr>) = enabled_texts d"
proof -
  have "enabled_texts e = pr_public_key ` {p \<in> set (db_peers e). pr_enabled p}" for e
    by (auto simp: enabled_texts_def)
  moreover have "{p \<in> g ` S. pr_enabled p} = g ` {p \<in> S. pr_enabled p}" for S using assms(2) by auto
  ultimately show ?thesis by (simp add: image_image assms(1))
qed

lemma seen_same_enabled: "keeps (same_enabled E) (UpdateLastSeenEndpoints us)"
  unfolding UpdateLastSeenEndpoints_def
  by (intro keeps_intros keeps_stmt_gen keeps_transaction_gen same_enabled_faults)
     (simp add: same_enabled_def update_rows_def enabled_texts_map)

lemma list_same_enabled: "keeps (same_enabled E) ListPeers"
  unfolding ListPeers_def by (rule keeps_stmt_gen[OF same_enabled_faults]) (simp add: keeps_def)

lemma keeps_db_frame:
  "keeps (holds_db P) (get_dev env)" "keeps (holds_db P) (remove_key env x)"
  "keeps (holds_db P) (configure env cs)" "keeps (holds_db P) (fw_apply env p)"
  "keeps (holds_db P) (fw_remove env p)" "keeps (holds_db P) (write_shared ps)"
  by (simp_all add: keeps_def holds_db_def)

text \<open>A fact about the database that the three statements of a pass keep is kept by the pass.\<close>

lemma keeps_rewriteConf: "keeps P ListPeers \<Longrightarrow> keeps (holds_db P) rewriteConf"
  unfolding rewriteConf_def
  by (intro keeps_bindE keeps_mapErr keeps_on_db_gen keeps_db_frame)

lemma keeps_remove_stale:
  assumes "\<And>t n ep pka. keeps P (UpsertPeerFromReconcile t n True False ep pka)"
  shows "keeps (holds_db P) (remove_stale env db_set x)"
  unfolding remove_stale_def
  by (intro keeps_intros keeps_db_frame keeps_on_db_gen assms)

lemma keeps_add_missing: "keeps (holds_db P) (add_missing env kern_set x)"
  unfolding add_missing_def by (intro keeps_intros keeps_db_frame)

text \<open>A fact about the database that the three statements of a pass keep is kept by the pass.\<close>

lemma keeps_reconcile:
  assumes "keeps P ListPeers" "\<And>t n ep pka. keeps P (UpsertPeerFromReconcile t n True False ep pka)"
    "\<And>us. keeps P (UpdateLastSeenEndpoints us)"
  shows "keeps (holds_db P) (ReconcileOnce env o')"
proof -
  have "keeps (holds_db P) (record_seen o' ds)" for ds
    unfolding record_seen_def by (intro keeps_intros keeps_on_db_gen assms(3))
  then show ?thesis unfolding ReconcileOnce_def Let_def
    by (intro keeps_bindE keeps_thenE keeps_mapErr keeps_ignoreE keeps_forE keeps_db_frame keeps_on_db_gen assms(1)
        keeps_remove_stale[OF assms(2)] keeps_add_missing keeps_rewriteConf)
qed

subsection \<open>A pass over a state in agreement\<close>

lemma remove_stale_idle: "\<not> stale db_set (fst x) \<Longrightarrow> remove_stale env db_set x w = (Inr (), w)"
  by (cases x) (simp add: remove_stale_def stale_def split: option.splits)

lemma add_missing_idle: "pr_enabled (snd x) \<longrightarrow> map_of kern_set (fst x) \<noteq> None \<Longrightarrow> add_missing env kern_set x w = (Inr (), w)"
  by (cases x) (simp add: add_missing_def)

lemma foldl_idle: "(\<And>x. x \<in> set xs \<Longrightarrow> f w x = w) \<Longrightarrow> foldl f w xs = w"
  by (induction xs) simp_all

lemma idle_pass:
  assumes "orders_ok o'" "distinct (map pr_public_key ps)"
    "(\<lambda>q. e_key env (wp_key q)) ` set (dev_peers dev) = {pr_public_key p |p. p \<in> set ps \<and> pr_enabled p}"
  shows "after_additions env o' dev ps (after_removals env o' dev ps w) = w"
proof -
  let ?f = "\<lambda>q. e_key env (wp_key q)"
  have "\<not> stale (by_key pr_public_key ps) (fst x)" if "x \<in> set (ord_kernel o' (by_key ?f (dev_peers dev)))" for x
  proof -
    have "x \<in> set (by_key ?f (dev_peers dev))" using that assms(1) by (simp add: orders_ok_def)
    then have "fst x \<in> ?f ` set (dev_peers dev)" using keys_by_key[of ?f "dev_peers dev"] by blast
    then show ?thesis unfolding assms(3) stale_iff[OF assms(2)] by auto
  qed
  then have 1: "after_removals env o' dev ps w = w"
    unfolding after_removals_def by (intro foldl_idle) (simp add: remove_stale_idle)
  have "pr_enabled (snd x) \<longrightarrow> map_of (by_key ?f (dev_peers dev)) (fst x) \<noteq> None"
    if "x \<in> set (ord_db o' (by_key pr_public_key ps))" for x
  proof -
    have "x \<in> (\<lambda>p. (pr_public_key p, p)) ` set ps"
      using that assms(1) by (simp add: orders_ok_def by_key_distinct[OF assms(2)])
    then show ?thesis unfolding map_of_by_key_None assms(3) by auto
  qed
  then show ?thesis unfolding 1 after_additions_def by (intro foldl_idle) (simp add: add_missing_idle)
qed

subsection \<open>A sample\<close>

definition sample_orders :: orders where
  "sample_orders = \<lparr>ord_kernel = rev, ord_db = (\<lambda>xs. xs), ord_seen = (\<lambda>xs. xs)\<rparr>"

definition sample_env :: "(dev_client, unit) env" where
  "sample_env = \<lparr>e_wg = dev_interface (\<lambda>k. k), e_fw = NoopFirewall, e_key = b64_encode, e_ip_set = (\<lambda>as es. Some as),
     e_resolve = (\<lambda>_. None), e_qr = Some, e_letters = (\<lambda>_. False), e_interface = ''wg0'', e_ipv6_prefix = [],
     e_peer_limit = 250, e_external_endpoint = ''vpn.example:51820'', e_debounced = True\<rparr>"

definition sample_key :: "char \<Rightarrow> wgkey" where
  "sample_key c = replicate 32 c"

definition sample_row :: "nat \<Rightarrow> string \<Rightarrow> bool \<Rightarrow> string \<Rightarrow> peer" where
  "sample_row i key enabled addr = \<lparr>pr_id = i, pr_public_key = key, pr_friendly_name = ''sample'',
     pr_allowed_ips = addr, pr_profile = None, pr_enabled = enabled, pr_auto_discovered = False,
     pr_created_at = i, pr_notes = [], pr_endpoint = [], pr_persistent_keepalive = Some 25, pr_client_dns = [],
     pr_client_mtu = None, pr_client_address = addr, pr_last_seen_endpoint = [], pr_preshared_key = [],
     pr_client_allowed_ips = ''0.0.0.0/0''\<rparr>"

definition sample_dev :: "wgkey list \<Rightarrow> dev_client" where
  "sample_dev ks = \<lparr>dc_peers = map (\<lambda>k. (k, \<lparr>wp_key = k, wp_endpoint = None, wp_allowed = [], wp_handshake = 0,
       wp_rx = 0, wp_tx = 0, wp_keepalive = 0\<rparr>)) ks,
     dc_name = ''wg0'', dc_private = sample_key CHR ''z'', dc_public = sample_key CHR ''z'',
     dc_random = [Some (sample_key CHR ''r'')]\<rparr>"

text \<open>One enabled peer and a disabled one in the database; \<open>ks\<close> are the keys in the kernel.\<close>

definition sample_world :: "wgkey list \<Rightarrow> (dev_client, unit) world" where
  "sample_world ks = \<lparr>w_kern = sample_dev ks,
     w_db = \<lparr>db_peers = [sample_row 1 (b64_encode (sample_key CHR ''A'')) True ''10.0.0.2/32'',
                        sample_row 2 (b64_encode (sample_key CHR ''B'')) False ''10.0.0.3/32''],
            db_profiles = [], db_next_id = 3, db_now = 100, db_faults = []\<rparr>,
     w_fw = (), w_fs = \<lparr>fs_conf = None, fs_tmp = None, fs_faults = []\<rparr>,
     w_deb = NewDebouncedWriter, w_log = []\<rparr>"

lemma reconcile_total:
  assumes "fst (get_device (e_wg env) (e_interface env) (w_kern w)) = Inr dev" "db_faults (w_db w) = []"
  obtains w' where "ReconcileOnce env o' w = (Inr (), w')"
proof -
  obtain w1 where 1: "get_dev env w = (Inr dev, w1)" "w_db w1 = w_db w"
    using assms(1) by (cases "get_device (e_wg env) (e_interface env) (w_kern w)") (simp add: get_dev_def)
  obtain ps w2 where 2: "on_db ListPeers w1 = (Inr ps, w2)"
    using assms(2) 1(2) by (simp add: on_db_def ListPeers_def stmt_def)
  have m1: "mapErr GettingDevice (get_dev env) w = (Inr dev, w1)"
    and m2: "mapErr ListingPeers (on_db ListPeers) w1 = (Inr ps, w2)" using 1 2 by (simp_all add: mapErr_Inr)
  have "fst (ReconcileOnce env o' w) = Inr ()"
    unfolding ReconcileOnce_def bindE_Inr[where m = "mapErr GettingDevice (get_dev env)", OF m1]
      bindE_Inr[where m = "mapErr ListingPeers (on_db ListPeers)", OF m2] Let_def
      bindE_Inr[OF forE_total[OF remove_stale_total]] bindE_Inr[OF forE_total[OF add_missing_total]]
    by (simp add: thenE_ignoreE)
  then show ?thesis using that[of "snd (ReconcileOnce env o' w)"] by (simp add: prod_eq_iff)
qed

lemma enabled_texts_image: "enabled_texts d = pr_public_key ` set (filter pr_enabled (db_peers d))"
  by (auto simp: enabled_texts_def)

lemma sample_facts:
  "orders_ok sample_orders" "key_text (e_key sample_env)"
  "e_wg sample_env = dev_interface (\<lambda>k. k)" "is_key (sample_key c)"
  "distinct ks \<Longrightarrow> dev_ok (w_kern (sample_world ks))" "dev_keys (w_kern (sample_world ks)) = set ks"
  "enabled_texts (w_db (sample_world ks)) = {b64_encode (sample_key CHR ''A'')}"
  by (auto simp: orders_ok_def sample_orders_def sample_env_def key_text_b64 sample_key_def is_key_def
      dev_ok_def dev_keys_def sample_world_def sample_dev_def list_all_iff comp_def image_image
      enabled_texts_image sample_row_def)

lemma sample_texts: "b64_encode (sample_key CHR ''A'') \<noteq> b64_encode (sample_key CHR ''B'')"
  "b64_encode (sample_key CHR ''C'') \<noteq> b64_encode (sample_key CHR ''A'')"
proof -
  have "sample_key a = sample_key b" if "b64_encode (sample_key a) = b64_encode (sample_key b)" for a b
    by (rule key_text_inj[OF key_text_b64 sample_facts(4) sample_facts(4) that])
  then show "b64_encode (sample_key CHR ''A'') \<noteq> b64_encode (sample_key CHR ''B'')"
    "b64_encode (sample_key CHR ''C'') \<noteq> b64_encode (sample_key CHR ''A'')"
    by (fastforce simp: sample_key_def)+
qed

lemma sample_canonical: "\<forall>t \<in> enabled_texts (w_db (sample_world ks)). \<exists>k. is_key k \<and> t = e_key sample_env k"
  using sample_facts(4) unfolding sample_facts(7) by (auto simp: sample_env_def)

lemma sample_db: "db_inv (w_db (sample_world ks))"
  using sample_texts by (simp add: db_inv_def sample_world_def sample_row_def unique_ok_def profile_ok_def)

lemma sample_pass:
  obtains w' where "ReconcileOnce sample_env sample_orders (sample_world ks) = (Inr (), w')"
  by (rule reconcile_total[of sample_env "sample_world ks"])
     (auto simp: sample_env_def dev_interface_def dev_get_device_def sample_world_def)

subsection \<open>Properties\<close>

text \<open>
  C7: Whatever calls fail during a pass, every key in the kernel after it was there before or is
  the key of an enabled peer, and the keys of enabled peers that were in the kernel are still there.
  A pass never gives access to an unknown or disabled peer and never takes it from an enabled one.
\<close>
theorem reconcile_safety:
  assumes "wg_contract (e_wg env) keys ok" "ok (w_kern w)" "\<forall>k \<in> keys (w_kern w). is_key k"
    "key_text (e_key env)" "orders_ok o'" "db_inv (w_db w)" "ReconcileOnce env o' w = (r, w')"
  shows "(\<forall>k \<in> keys (w_kern w'). k \<in> keys (w_kern w) \<or> (\<exists>t \<in> enabled_texts (w_db w). parse_key t = Some k)) \<and>
    (\<forall>k \<in> keys (w_kern w). e_key env k \<in> enabled_texts (w_db w) \<longrightarrow> k \<in> keys (w_kern w'))"
proof (cases r)
  case (Inl e)
  then show ?thesis using wg_contract.failed_pass[OF assms(1) refl assms(2)] assms(7) by auto
next
  case (Inr u)
  then show ?thesis using wg_contract.pass_bounds[OF assms(1) refl assms(2-6)] assms(7)
    by (auto simp: wanted_def unwanted_def)
qed

theorem reconcile_safety_witness:
  "\<exists>w'. ReconcileOnce sample_env sample_orders (sample_world [sample_key CHR ''B'', sample_key CHR ''A'']) = (Inr (), w') \<and>
     sample_key CHR ''A'' \<in> dev_keys (w_kern w')"
proof -
  let ?w = "sample_world [sample_key CHR ''B'', sample_key CHR ''A'']"
  obtain w' where w': "ReconcileOnce sample_env sample_orders ?w = (Inr (), w')" by (rule sample_pass)
  have d: "distinct [sample_key CHR ''B'', sample_key CHR ''A'']" by (simp add: sample_key_def)
  have k: "wg_contract (e_wg sample_env) dev_keys dev_ok"
    using dev_contract.wg_contract_axioms by (simp add: sample_facts(3))
  have "\<forall>k \<in> dev_keys (w_kern ?w). e_key sample_env k \<in> enabled_texts (w_db ?w) \<longrightarrow> k \<in> dev_keys (w_kern w')"
    using reconcile_safety[OF k sample_facts(5)[OF d] _ sample_facts(2,1) sample_db w']
    by (auto simp: sample_facts)
  then have "sample_key CHR ''A'' \<in> dev_keys (w_kern w')" by (simp add: sample_facts) (simp add: sample_env_def)
  with w' show ?thesis by blast
qed

text \<open>
  C5: A pass whose WireGuard calls do not fail makes the kernel agree with the database: the keys
  in the kernel are exactly those of the enabled peers, whatever unknown, disabled or missing
  peers there were, and whatever the order in which Go iterates its maps.
\<close>
theorem reconcile_converges:
  assumes "reliable_wg (e_wg env) keys ok" "ok (w_kern w)" "\<forall>k \<in> keys (w_kern w). is_key k"
    "key_text (e_key env)" "orders_ok o'" "db_inv (w_db w)"
    "\<forall>t \<in> enabled_texts (w_db w). \<exists>k. is_key k \<and> t = e_key env k"
    "ReconcileOnce env o' w = (Inr (), w')"
  shows "e_key env ` keys (w_kern w') = enabled_texts (w_db w)"
proof -
  let ?f = "e_key env" and ?K = "keys (w_kern w)" and ?E = "enabled_texts (w_db w)"
  have "?f ` (?K - unwanted ?f ?K (w_db w)) = ?E \<inter> ?f ` ?K" by (auto simp: unwanted_def)
  moreover have "?f ` wanted ?f ?K (w_db w) = ?E - ?f ` ?K"
  proof (intro equalityI subsetI)
    fix t assume "t \<in> ?f ` wanted ?f ?K (w_db w)"
    then obtain k u where k: "t = ?f k" "u \<in> ?E" "u \<notin> ?f ` ?K" "parse_key u = Some k" by (auto simp: wanted_def)
    moreover obtain l where "is_key l" "u = ?f l" using assms(7) k(2) by blast
    ultimately show "t \<in> ?E - ?f ` ?K" using assms(4) by (simp add: key_text_def)
  next
    fix t assume t: "t \<in> ?E - ?f ` ?K"
    then obtain l where l: "is_key l" "t = ?f l" using assms(7) by blast
    then have "parse_key t = Some l" using assms(4) by (simp add: key_text_def)
    with t l show "t \<in> ?f ` wanted ?f ?K (w_db w)" by (auto simp: wanted_def)
  qed
  ultimately show ?thesis
    unfolding reliable_wg.pass_exact[OF assms(1) refl assms(2-6,8)] by (simp add: image_Un) blast
qed

theorem reconcile_converges_witness:
  "\<exists>w'. ReconcileOnce sample_env sample_orders (sample_world [sample_key CHR ''B'', sample_key CHR ''C'']) = (Inr (), w') \<and>
     b64_encode ` dev_keys (w_kern w') = {b64_encode (sample_key CHR ''A'')}"
proof -
  let ?w = "sample_world [sample_key CHR ''B'', sample_key CHR ''C'']"
  obtain w' where w': "ReconcileOnce sample_env sample_orders ?w = (Inr (), w')" by (rule sample_pass)
  have d: "distinct [sample_key CHR ''B'', sample_key CHR ''C'']" by (simp add: sample_key_def)
  have k: "reliable_wg (e_wg sample_env) dev_keys dev_ok"
    using dev_reliable.reliable_wg_axioms by (simp add: sample_facts(3))
  have "e_key sample_env ` dev_keys (w_kern w') = enabled_texts (w_db ?w)"
    using reconcile_converges[OF k sample_facts(5)[OF d] _ sample_facts(2,1) sample_db sample_canonical w'] sample_facts(4) by (simp add: sample_facts(6))
  then have "b64_encode ` dev_keys (w_kern w') = {b64_encode (sample_key CHR ''A'')}"
    unfolding sample_facts(7) by (simp add: sample_env_def)
  with w' show ?thesis by blast
qed

text \<open>
  A pass over a kernel that agrees with the database makes no call that changes the kernel or
  the firewall: reconciliation reaches a fixed point.
\<close>
theorem reconcile_quiet:
  assumes "wg_contract (e_wg env) keys ok" "ok (w_kern w)" "orders_ok o'" "db_inv (w_db w)"
    "e_key env ` keys (w_kern w) = enabled_texts (w_db w)" "ReconcileOnce env o' w = (Inr (), w')"
  shows "w_log w' = w_log w \<and> w_fw w' = w_fw w \<and> keys (w_kern w') = keys (w_kern w)"
proof -
  obtain dev k' d' ps where
    run: "get_device (e_wg env) (e_interface env) (w_kern w) = (Inr dev, k')" "ListPeers (w_db w) = (Inr ps, d')"
      "w' = snd (record_seen o' (seen_deltas (by_key (\<lambda>p. e_key env (wp_key p)) (dev_peers dev)) (by_key pr_public_key ps))
        (snd (rewriteConf (after_additions env o' dev ps (after_removals env o' dev ps (w\<lparr>w_kern := k', w_db := d'\<rparr>))))))"
    by (rule reconcile_run[OF assms(6)])
  have dp: "distinct (map pr_public_key ps)" using ListPeers_result(2)[OF run(2)] unique_texts[OF assms(4)] by simp
  have "(\<lambda>q. e_key env (wp_key q)) ` set (dev_peers dev) = e_key env ` (wp_key ` set (dev_peers dev))"
    by (simp only: image_image)
  also have "\<dots> = {pr_public_key p |p. p \<in> set ps \<and> pr_enabled p}"
    using wg_contract.get_device_peers[OF assms(1,2) run(1)] assms(5) ListPeers_result(1)[OF run(2)]
    by (simp add: enabled_texts_def)
  finally have agree: "(\<lambda>q. e_key env (wp_key q)) ` set (dev_peers dev) = {pr_public_key p |p. p \<in> set ps \<and> pr_enabled p}" .
  note idle = idle_pass[OF assms(3) dp agree]
  show ?thesis using wg_contract.get_device_ok[OF assms(1,2) run(1)] by (simp add: run(3) idle)
qed

theorem reconcile_quiet_witness:
  "\<exists>w'. ReconcileOnce sample_env sample_orders (sample_world [sample_key CHR ''A'']) = (Inr (), w') \<and> w_log w' = []"
proof -
  let ?w = "sample_world [sample_key CHR ''A'']"
  obtain w' where w': "ReconcileOnce sample_env sample_orders ?w = (Inr (), w')" by (rule sample_pass)
  have k: "wg_contract (e_wg sample_env) dev_keys dev_ok"
    using dev_contract.wg_contract_axioms by (simp add: sample_facts(3))
  have "e_key sample_env ` dev_keys (w_kern ?w) = enabled_texts (w_db ?w)"
    by (simp add: sample_facts) (simp add: sample_env_def)
  then have "w_log w' = w_log ?w"
    using reconcile_quiet[OF k sample_facts(5) sample_facts(1) sample_db _ w'] by (simp add: sample_facts)
  with w' show ?thesis by (simp add: sample_world_def)
qed

text \<open>
  A pass keeps the database invariant and changes nothing about which peers are enabled,
  whatever fails: unknown peers are recorded disabled, and only the last seen endpoints of known
  ones change.
\<close>
theorem reconcile_database:
  "keeps db_ok (ReconcileOnce env o') \<and> enabled_texts (w_db (snd (ReconcileOnce env o' w))) = enabled_texts (w_db w)"
proof
  have "keeps (holds_db db_inv) (ReconcileOnce env o')" by (intro keeps_reconcile keeps_intros)
  then show "keeps db_ok (ReconcileOnce env o')" by (simp add: keeps_def holds_db_def db_ok_def)
  have "keeps (holds_db (same_enabled (enabled_texts (w_db w)))) (ReconcileOnce env o')"
    by (intro keeps_reconcile list_same_enabled upsert_same_enabled seen_same_enabled)
  then show "enabled_texts (w_db (snd (ReconcileOnce env o' w))) = enabled_texts (w_db w)"
    by (auto simp: keeps_def holds_db_def same_enabled_def)
qed

end
