(* ===== verification/ClientConf.thy ===== *)
theory ClientConf
  imports GoStrings
begin

text \<open>
  The client configuration builder (confwriter/clientconf.go): the record the setters fill and
  \<open>Build\<close>. Shown: the lines of the built text are the ones the fields call for, and nothing else,
  when no field has a line break; each key is read back from the text.
\<close>

record client_conf =
  cc_address :: string
  cc_private_key :: string
  cc_dns :: string
  cc_mtu :: int
  cc_server_key :: string
  cc_server_endpoint :: string
  cc_pka :: int
  cc_preshared_key :: string
  cc_allowed_ips :: string

definition NewClientConfBuilder :: client_conf where
  "NewClientConfBuilder = \<lparr>cc_address = [], cc_private_key = [], cc_dns = [], cc_mtu = 0, cc_server_key = [],
     cc_server_endpoint = [], cc_pka = 0, cc_preshared_key = [], cc_allowed_ips = []\<rparr>"

definition conf_entry :: "string \<Rightarrow> string \<Rightarrow> string" where
  "conf_entry key v = key @ '' = '' @ v @ [nl]"

definition Build :: "client_conf \<Rightarrow> string" where
  "Build b =
     ''[Interface]'' @ [nl] @
     (if cc_private_key b \<noteq> [] then conf_entry ''PrivateKey'' (cc_private_key b)
      else ''# PrivateKey = <insert your private key>'' @ [nl]) @
     conf_entry ''Address'' (cc_address b) @
     (if cc_dns b \<noteq> [] then conf_entry ''DNS'' (cc_dns b) else []) @
     (if 0 < cc_mtu b then conf_entry ''MTU'' (itoa (cc_mtu b)) else []) @
     [nl] @ ''[Peer]'' @ [nl] @
     conf_entry ''PublicKey'' (cc_server_key b) @
     (if cc_preshared_key b \<noteq> [] then conf_entry ''PresharedKey'' (cc_preshared_key b) else []) @
     (if cc_allowed_ips b \<noteq> [] then conf_entry ''AllowedIPs'' (cc_allowed_ips b) else []) @
     conf_entry ''Endpoint'' (cc_server_endpoint b) @
     (if 0 < cc_pka b then conf_entry ''PersistentKeepalive'' (itoa (cc_pka b)) else [])"

subsection \<open>The lines of the text\<close>

text \<open>The settings the builder is asked for, in the order of the file.\<close>

definition interface_settings :: "client_conf \<Rightarrow> (string \<times> string) list" where
  "interface_settings b =
     (if cc_private_key b \<noteq> [] then [(''PrivateKey'', cc_private_key b)] else []) @
     [(''Address'', cc_address b)] @
     (if cc_dns b \<noteq> [] then [(''DNS'', cc_dns b)] else []) @
     (if 0 < cc_mtu b then [(''MTU'', itoa (cc_mtu b))] else [])"

definition peer_settings :: "client_conf \<Rightarrow> (string \<times> string) list" where
  "peer_settings b =
     [(''PublicKey'', cc_server_key b)] @
     (if cc_preshared_key b \<noteq> [] then [(''PresharedKey'', cc_preshared_key b)] else []) @
     (if cc_allowed_ips b \<noteq> [] then [(''AllowedIPs'', cc_allowed_ips b)] else []) @
     [(''Endpoint'', cc_server_endpoint b)] @
     (if 0 < cc_pka b then [(''PersistentKeepalive'', itoa (cc_pka b))] else [])"

definition setting_line :: "string \<times> string \<Rightarrow> string" where
  "setting_line s = fst s @ '' = '' @ snd s"

definition conf_lines :: "client_conf \<Rightarrow> string list" where
  "conf_lines b =
     ''[Interface]'' # (if cc_private_key b = [] then [''# PrivateKey = <insert your private key>''] else []) @
     map setting_line (interface_settings b) @ [[], ''[Peer]''] @ map setting_line (peer_settings b)"

definition one_line_fields :: "client_conf \<Rightarrow> bool" where
  "one_line_fields b \<longleftrightarrow> nl \<notin> set (cc_address b) \<and> nl \<notin> set (cc_private_key b) \<and> nl \<notin> set (cc_dns b) \<and>
     nl \<notin> set (cc_server_key b) \<and> nl \<notin> set (cc_server_endpoint b) \<and> nl \<notin> set (cc_preshared_key b) \<and>
     nl \<notin> set (cc_allowed_ips b)"

lemma conf_entry_line: "conf_entry k v = setting_line (k, v) @ [nl]"
  by (simp add: conf_entry_def setting_line_def)

lemma Build_lines: "Build b = concat (map (\<lambda>l. l @ [nl]) (conf_lines b))"
  by (simp add: Build_def conf_lines_def interface_settings_def peer_settings_def conf_entry_line)

lemma split_on_lines: "\<forall>l \<in> set ls. nl \<notin> set l \<Longrightarrow> split_on nl (concat (map (\<lambda>l. l @ [nl]) ls)) = ls @ [[]]"
  by (induction ls) (simp_all add: split_on_append_sep split_on_sep_free)

lemma nl_literals: "nl \<notin> set ''[Interface]''" "nl \<notin> set ''[Peer]''" "nl \<notin> set ''# PrivateKey = <insert your private key>''"
  by code_simp+

lemma conf_lines_plain: "one_line_fields b \<Longrightarrow> \<forall>l \<in> set (conf_lines b). nl \<notin> set l"
  by (auto simp: conf_lines_def interface_settings_def peer_settings_def setting_line_def one_line_fields_def)

text \<open>
  The client configuration has exactly the lines the fields call for: the two sections with
  one setting per field that is set, in order, when no field contains a line break.
\<close>
theorem client_conf_lines:
  assumes "one_line_fields b"
  shows "split_on nl (Build b) = conf_lines b @ [[]]"
  unfolding Build_lines by (rule split_on_lines[OF conf_lines_plain[OF assms]])

definition sample_client :: client_conf where
  "sample_client = \<lparr>cc_address = ''10.0.0.2/24'', cc_private_key = ''priv'', cc_dns = ''1.1.1.1'', cc_mtu = 0,
     cc_server_key = ''pub'', cc_server_endpoint = ''vpn:51820'', cc_pka = 25, cc_preshared_key = [],
     cc_allowed_ips = ''0.0.0.0/0''\<rparr>"

theorem client_conf_lines_witness:
  "split_on nl (Build sample_client) =
    [''[Interface]'', ''PrivateKey = priv'', ''Address = 10.0.0.2/24'', ''DNS = 1.1.1.1'', [], ''[Peer]'',
     ''PublicKey = pub'', ''AllowedIPs = 0.0.0.0/0'', ''Endpoint = vpn:51820'', ''PersistentKeepalive = 25'', []]"
proof -
  have "one_line_fields sample_client" by code_simp
  from client_conf_lines[OF this] show ?thesis by (simp, code_simp)
qed

text \<open>
  The DNS field is copied as it is: a value with a line break adds a line of its own to the
  client's configuration (for instance a PostUp command that wg-quick runs).
\<close>
theorem client_conf_injection:
  "\<exists>b. cc_dns b = ''1.1.1.1'' @ [nl] @ ''PostUp = id'' \<and> ''PostUp = id'' \<in> set (split_on nl (Build b))"
proof -
  let ?b = "sample_client\<lparr>cc_dns := ''1.1.1.1'' @ [nl] @ ''PostUp = id''\<rparr>"
  have "''PostUp = id'' \<in> set (split_on nl (Build ?b))" by code_simp
  then show ?thesis by (intro exI[of _ ?b]) simp
qed

end
