(* ===== verification/Api.thy ===== *)
theory Api
  imports Reconciler Validation ClientConf
begin

text \<open>
  What the handlers of package \<open>api\<close> share (handlers.go, types.go, helpers.go): the requests and
  responses, the errors they answer with, the look-ups they start from, the server-side allowed
  addresses of a peer, the configuration file and the client configuration. A handler is a program
  on the world; an error carries the status and the code of the answer (the message is left out),
  and a nil pointer dereference, which ends the handler, is an error of its own. A JSON body is an
  option: \<open>None\<close> when it does not decode.
\<close>

datatype api_err = ApiError nat string | NilDeref

type_synonym ('k, 'f, 'a) handler = "(('k, 'f) world, api_err, 'a) prog"

definition db_error :: "db_err \<Rightarrow> api_err" where
  "db_error _ = ApiError 500 ''db_error''"

definition invalid :: api_err where
  "invalid = ApiError 400 ''validation_error''"

definition db_call :: "(db, db_err, 'a) prog \<Rightarrow> ('k, 'f, 'a) handler" where
  "db_call m = mapErr db_error (on_db m)"

text \<open>A statement for which a missing row is an answer of its own.\<close>

definition db_find :: "(db, db_err, 'a) prog \<Rightarrow> ('k, 'f, 'a) handler" where
  "db_find m = mapErr (\<lambda>e. if e = ErrNoRows then ApiError 404 ''not_found'' else db_error e) (on_db m)"

definition body_of :: "'a option \<Rightarrow> ('k, 'f, 'a) handler" where
  "body_of b = (case b of None \<Rightarrow> fail (ApiError 400 ''invalid_json'') | Some r \<Rightarrow> ret r)"

text \<open>The peer a path names: the text of its id, read as a 64-bit integer.\<close>

definition get_by_id :: "int \<Rightarrow> (db, db_err, peer) prog" where
  "get_by_id i = (if i < 0 then stmt (fail ErrNoRows) else GetPeerByID (nat i))"

definition path_id :: "string \<Rightarrow> ('k, 'f, int) handler" where
  "path_id s = (case parse_int64 s of None \<Rightarrow> fail (ApiError 400 ''invalid_id'') | Some i \<Rightarrow> ret i)"

definition peer_of_path :: "string \<Rightarrow> ('k, 'f, peer) handler" where
  "peer_of_path s = bindE (path_id s) (\<lambda>i. db_find (get_by_id i))"

text \<open>The prefixes of a profile (the CIDR calculator over its lists).\<close>

definition resolve_profile :: "('k, 'f) env \<Rightarrow> string \<Rightarrow> ('k, 'f, string list) handler" where
  "resolve_profile env name =
     bindE (db_find (GetProfile name)) (\<lambda>p.
       case compute_allowed_ips (e_ip_set env) (pf_allowed_ips p) (pf_exclude_ips p) of
         Inl _ \<Rightarrow> fail (ApiError 500 ''cidr_error'')
       | Inr r \<Rightarrow> ret (cr_prefixes r))"

definition has_profile_ref :: "string option \<Rightarrow> bool" where
  "has_profile_ref p \<longleftrightarrow> p \<noteq> None \<and> p \<noteq> Some []"

definition check_endpoint :: "string \<Rightarrow> ('k, 'f, unit) handler" where
  "check_endpoint s = guardE (s = [] \<or> split_host_port s \<noteq> None) invalid"

definition keepalive_ok :: "int option \<Rightarrow> bool" where
  "keepalive_ok k \<longleftrightarrow> (case k of None \<Rightarrow> True | Some v \<Rightarrow> 0 \<le> v \<and> v \<le> 65535)"

definition check_address :: "string \<Rightarrow> string \<Rightarrow> ('k, 'f, unit) handler" where
  "check_address addr exclude =
     thenE (guardE (parse_cidr addr \<noteq> None) invalid)
       (bindE (db_call (IsClientAddressTaken addr exclude)) (\<lambda>taken.
          guardE (\<not> taken) (ApiError 409 ''conflict'')))"

subsection \<open>The addresses a peer may use on the server\<close>

definition with_ipv6 :: "string \<Rightarrow> string \<Rightarrow> string \<Rightarrow> string" where
  "with_ipv6 prefix client_address s =
     (case derive_ipv6 client_address prefix of
        Some v \<Rightarrow> (if v \<noteq> [] then s @ '', '' @ v else s)
      | None \<Rightarrow> s)"

definition serverAllowedIPs :: "string \<Rightarrow> string \<Rightarrow> string" where
  "serverAllowedIPs client_address ipv6_prefix =
     (case parse_cidr client_address of
        None \<Rightarrow> client_address
      | Some (ip, _) \<Rightarrow>
          (let result = ip_string ip @ ''/32'' in
           if ipv6_prefix \<noteq> [] then with_ipv6 ipv6_prefix client_address result else result))"

text \<open>The first network of that text; the handlers dereference it without looking at the error.\<close>

definition first_net :: "string \<Rightarrow> ('k, 'f, ipnet) handler" where
  "first_net s = (case parse_cidr (trim_space (hd (split_n2 CHR '','' s))) of
      None \<Rightarrow> fail NilDeref | Some (_, n) \<Rightarrow> ret n)"

subsection \<open>The configuration file\<close>

definition peer_conf_of :: "('k, 'f) env \<Rightarrow> peer \<Rightarrow> peer_conf" where
  "peer_conf_of env p =
     (let pc = conf_of_peer p in
      if e_ipv6_prefix env \<noteq> [] \<and> pr_client_address p \<noteq> []
      then pc\<lparr>pc_allowed_ips := with_ipv6 (e_ipv6_prefix env) (pr_client_address p) (pc_allowed_ips pc)\<rparr>
      else pc)"

definition buildPeerConfs :: "('k, 'f) env \<Rightarrow> (('k, 'f) world, unit, peer_conf list) prog" where
  "buildPeerConfs env =
     bindE (mapErr (\<lambda>_. ()) (on_db ListPeers)) (\<lambda>ps. ret (map (peer_conf_of env) (filter pr_enabled ps)))"

definition api_rewriteConf :: "('k, 'f) env \<Rightarrow> (('k, 'f) world, unit, unit) prog" where
  "api_rewriteConf env =
     bindE (buildPeerConfs env) (\<lambda>ps.
       mapErr (\<lambda>_. ()) (if e_debounced env then write_direct ps else write_shared ps))"

definition notifyConfChange :: "('k, 'f) env \<Rightarrow> ('k, 'f, unit) handler" where
  "notifyConfChange env = (if e_debounced env then notify_writer else ignoreE (api_rewriteConf env))"

subsection \<open>The client configuration\<close>

definition serverEndpoint :: "('k, 'f) env \<Rightarrow> int \<Rightarrow> string" where
  "serverEndpoint env port =
     (if e_external_endpoint env \<noteq> [] then e_external_endpoint env else ''<server_endpoint>:'' @ itoa port)"

definition buildClientConf :: "('k, 'f) env \<Rightarrow> peer \<Rightarrow> string \<Rightarrow> string \<Rightarrow> int \<Rightarrow> string" where
  "buildClientConf env p private_key server_key server_port =
     (let addr0 = (if pr_client_address p = [] then pr_allowed_ips p else pr_client_address p);
          addr = (if e_ipv6_prefix env \<noteq> [] then with_ipv6 (e_ipv6_prefix env) addr0 addr0 else addr0) in
      Build (NewClientConfBuilder\<lparr>cc_address := addr, cc_server_key := server_key,
        cc_server_endpoint := serverEndpoint env server_port, cc_dns := pr_client_dns p,
        cc_allowed_ips := pr_client_allowed_ips p,
        cc_mtu := (case pr_client_mtu p of None \<Rightarrow> 0 | Some v \<Rightarrow> v),
        cc_pka := (case pr_persistent_keepalive p of None \<Rightarrow> 0 | Some v \<Rightarrow> v),
        cc_preshared_key := pr_preshared_key p, cc_private_key := private_key\<rparr>))"

text \<open>The server's key and port for a client configuration, and the QR code, best effort.\<close>

definition server_identity :: "('k, 'f) env \<Rightarrow> ('k, 'f, string \<times> int) handler" where
  "server_identity env =
     bindE (tryE (get_dev env)) (\<lambda>r.
       case r of Inl _ \<Rightarrow> ret ([], 51820) | Inr dev \<Rightarrow> ret (e_key env (dev_key dev), dev_port dev))"

definition qr_code :: "('k, 'f) env \<Rightarrow> string \<Rightarrow> string" where
  "qr_code env conf = (case e_qr env conf of None \<Rightarrow> [] | Some png \<Rightarrow> b64_encode png)"

subsection \<open>Responses\<close>

record peer_response =
  rs_id :: nat
  rs_public_key :: string
  rs_friendly_name :: string
  rs_allowed_ips :: "string list"
  rs_profile :: "string option"
  rs_enabled :: bool
  rs_auto_discovered :: bool
  rs_created_at :: nat
  rs_notes :: string
  rs_endpoint :: string
  rs_handshake :: "nat option"
  rs_rx :: int
  rs_tx :: int
  rs_configured_endpoint :: string
  rs_keepalive :: "int option"
  rs_client_dns :: string
  rs_client_mtu :: "int option"
  rs_client_address :: string
  rs_last_seen_endpoint :: string
  rs_has_psk :: bool
  rs_client_allowed_ips :: string

definition peerToResponse :: "peer \<Rightarrow> peer_response" where
  "peerToResponse p = \<lparr>rs_id = pr_id p, rs_public_key = pr_public_key p, rs_friendly_name = pr_friendly_name p,
     rs_allowed_ips = (if pr_allowed_ips p \<noteq> [] then split_on CHR '','' (pr_allowed_ips p) else []),
     rs_profile = pr_profile p, rs_enabled = pr_enabled p, rs_auto_discovered = pr_auto_discovered p,
     rs_created_at = pr_created_at p, rs_notes = pr_notes p, rs_endpoint = [], rs_handshake = None,
     rs_rx = 0, rs_tx = 0, rs_configured_endpoint = pr_endpoint p, rs_keepalive = pr_persistent_keepalive p,
     rs_client_dns = pr_client_dns p, rs_client_mtu = pr_client_mtu p, rs_client_address = pr_client_address p,
     rs_last_seen_endpoint = pr_last_seen_endpoint p, rs_has_psk = (pr_preshared_key p \<noteq> []),
     rs_client_allowed_ips = pr_client_allowed_ips p\<rparr>"

text \<open>The live data of the kernel; a zero handshake time is left out.\<close>

definition merge_live :: "wg_peer \<Rightarrow> peer_response \<Rightarrow> peer_response" where
  "merge_live wp r = r\<lparr>
     rs_endpoint := (case wp_endpoint wp of None \<Rightarrow> rs_endpoint r | Some a \<Rightarrow> udp_string a),
     rs_handshake := (if wp_handshake wp \<noteq> 0 then Some (wp_handshake wp) else rs_handshake r),
     rs_rx := wp_rx wp, rs_tx := wp_tx wp\<rparr>"

text \<open>A peer with its live data, from the first peer of the device with its key.\<close>

definition live_response :: "('k, 'f) env \<Rightarrow> peer \<Rightarrow> ('k, 'f, peer_response) handler" where
  "live_response env p =
     bindE (tryE (get_dev env)) (\<lambda>r.
       case r of
         Inl _ \<Rightarrow> ret (peerToResponse p)
       | Inr dev \<Rightarrow>
           (case find (\<lambda>wp. e_key env (wp_key wp) = pr_public_key p) (dev_peers dev) of
              None \<Rightarrow> ret (peerToResponse p)
            | Some wp \<Rightarrow> ret (merge_live wp (peerToResponse p))))"

subsection \<open>What the shared calls keep\<close>

lemma keeps_db_call [keeps_intros]: "keeps db_inv m \<Longrightarrow> keeps db_ok (db_call m)"
  and keeps_db_find [keeps_intros]: "keeps db_inv m \<Longrightarrow> keeps db_ok (db_find m)"
  unfolding db_call_def db_find_def by (intro keeps_mapErr keeps_on_db; assumption)+

lemma get_by_id_inv [keeps_intros]: "keeps db_inv (get_by_id i)"
  unfolding get_by_id_def by (intro keeps_intros)

lemma keeps_shared [keeps_intros]:
  "keeps db_ok (body_of b)" "keeps db_ok (peer_of_path s)" "keeps db_ok (resolve_profile env n)"
  "keeps db_ok (check_endpoint s)" "keeps db_ok (check_address a x)" "keeps db_ok (first_net s)"
  "keeps db_ok (server_identity env)" "keeps db_ok (live_response env p)"
  unfolding body_of_def peer_of_path_def path_id_def resolve_profile_def check_endpoint_def check_address_def
    first_net_def server_identity_def live_response_def
  by (intro keeps_intros; fail)+

lemma keeps_rewrite [keeps_intros]: "keeps db_ok (api_rewriteConf env)" "keeps db_ok (notifyConfChange env)"
  unfolding api_rewriteConf_def notifyConfChange_def buildPeerConfs_def
  by (intro keeps_intros; fail)+

end
