(* ===== verification/Outcome.thy ===== *)
theory Outcome
  imports World
begin

text \<open>
  A calculus for the outcomes of a program with early returns: \<open>outcome P m Q E\<close> says that from a
  state of \<open>P\<close> the program \<open>m\<close> ends normally with \<open>Q\<close> or early with \<open>E\<close>. The rules follow the shape
  of a handler; the calls into the components get their rules here too.
\<close>

named_theorems outcome_intros \<open>rules that decompose a program into its calls\<close>

definition outcome :: "('w \<Rightarrow> bool) \<Rightarrow> ('w, 'e, 'a) prog \<Rightarrow> ('a \<Rightarrow> 'w \<Rightarrow> bool) \<Rightarrow> ('e \<Rightarrow> 'w \<Rightarrow> bool) \<Rightarrow> bool" where
  "outcome P m Q E \<longleftrightarrow> (\<forall>w. P w \<longrightarrow> (\<forall>e. fst (m w) = Inl e \<longrightarrow> E e (snd (m w))) \<and>
     (\<forall>a. fst (m w) = Inr a \<longrightarrow> Q a (snd (m w))))"

lemma outcomeI:
  assumes "\<And>w e. P w \<Longrightarrow> fst (m w) = Inl e \<Longrightarrow> E e (snd (m w))" "\<And>w a. P w \<Longrightarrow> fst (m w) = Inr a \<Longrightarrow> Q a (snd (m w))"
  shows "outcome P m Q E"
  using assms by (simp add: outcome_def)

lemma outcomeD_ok: "outcome P m Q E \<Longrightarrow> P w \<Longrightarrow> m w = (Inr a, w') \<Longrightarrow> Q a w'"
  and outcomeD_err: "outcome P m Q E \<Longrightarrow> P w \<Longrightarrow> m w = (Inl e, w') \<Longrightarrow> E e w'"
  by (auto simp: outcome_def)

lemma outcome_conseq:
  "outcome P m Q E \<Longrightarrow> (\<And>w. P' w \<Longrightarrow> P w) \<Longrightarrow> (\<And>a w. Q a w \<Longrightarrow> Q' a w) \<Longrightarrow> (\<And>e w. E e w \<Longrightarrow> E' e w) \<Longrightarrow> outcome P' m Q' E'"
  by (simp add: outcome_def)

lemma outcome_pre: "outcome P m Q E \<Longrightarrow> (\<And>w. P' w \<Longrightarrow> P w) \<Longrightarrow> outcome P' m Q E"
  by (rule outcome_conseq)

lemma outcome_keeps: "keeps P m \<Longrightarrow> outcome P m (\<lambda>_. P) (\<lambda>_. P)"
  by (rule outcomeI) (simp_all add: keeps_def)

lemma keeps_outcome: "outcome P m (\<lambda>_. P) (\<lambda>_. P) \<Longrightarrow> keeps P m"
  unfolding outcome_def keeps_def by (metis sum.exhaust)

lemma outcome_ret [outcome_intros]: "(\<And>w. P w \<Longrightarrow> Q a w) \<Longrightarrow> outcome P (ret a) Q E"
  and outcome_fail [outcome_intros]: "(\<And>w. P w \<Longrightarrow> E e w) \<Longrightarrow> outcome P (fail e) Q E"
  and outcome_guardE: "(\<And>w. P w \<Longrightarrow> \<not> b \<Longrightarrow> E e w) \<Longrightarrow> outcome P (guardE b e) (\<lambda>_ w. P w \<and> b) E"
  by (simp_all add: outcome_def)

lemma outcome_bindE:
  assumes "outcome P m Q E" "\<And>a. outcome (Q a) (f a) R E"
  shows "outcome P (bindE m f) R E"
proof (rule outcomeI)
  fix w e assume P: "P w" and e: "fst (bindE m f w) = Inl e"
  obtain r w' where m: "m w = (r, w')" by fastforce
  show "E e (snd (bindE m f w))"
    using outcomeD_err[OF assms(1) P] outcomeD_ok[OF assms(1) P] e m assms(2)
    by (cases r) (auto simp: bindE_def outcome_def)
next
  fix w b assume P: "P w" and b: "fst (bindE m f w) = Inr b"
  obtain r w' where m: "m w = (r, w')" by fastforce
  show "R b (snd (bindE m f w))"
    using outcomeD_ok[OF assms(1) P] b m assms(2) by (cases r) (auto simp: bindE_def outcome_def)
qed

lemma outcome_thenE: "outcome P m Q E \<Longrightarrow> (\<And>a. outcome (Q a) n R E) \<Longrightarrow> outcome P (thenE m n) R E"
  unfolding thenE_def by (rule outcome_bindE)

text \<open>A call whose outcome is inspected, and one whose outcome is only logged.\<close>

lemma outcome_tryE:
  "outcome P m Q F \<Longrightarrow> outcome P (tryE m) (\<lambda>r w. case r of Inl e \<Rightarrow> F e w | Inr a \<Rightarrow> Q a w) E"
  by (simp add: outcome_def split: sum.split)

lemma outcome_ignoreE:
  assumes "outcome P m (\<lambda>_. Q) (\<lambda>_. Q)"
  shows "outcome P (ignoreE m) (\<lambda>_. Q) E"
  using assms unfolding outcome_def by (metis ignoreE_run sum.exhaust Inr_not_Inl fst_conv snd_conv)

lemma mapErr_fst: "fst (mapErr g m w) = (case fst (m w) of Inl e \<Rightarrow> Inl (g e) | Inr a \<Rightarrow> Inr a)"
  by (simp add: mapErr_def split: prod.split sum.split)

lemma outcome_mapErr: "outcome P m Q (\<lambda>e. E (g e)) \<Longrightarrow> outcome P (mapErr g m) Q E"
  by (auto simp: outcome_def mapErr_fst split: sum.splits)

lemma outcome_if:
  "(b \<Longrightarrow> outcome P m Q E) \<Longrightarrow> (\<not> b \<Longrightarrow> outcome P n Q E) \<Longrightarrow> outcome P (if b then m else n) Q E"
  by simp

lemma outcome_inspect:
  assumes "outcome P m Q F" "\<And>e. outcome (F e) (f e) R E" "\<And>a. outcome (Q a) (g a) R E"
  shows "outcome P (bindE (tryE m) (\<lambda>r. case r of Inl e \<Rightarrow> f e | Inr a \<Rightarrow> g a)) R E"
proof (rule outcome_bindE[OF outcome_tryE[OF assms(1)]])
  fix r
  show "outcome (\<lambda>w. case r of Inl e \<Rightarrow> F e w | Inr a \<Rightarrow> Q a w) (case r of Inl e \<Rightarrow> f e | Inr a \<Rightarrow> g a) R E"
    using assms(2,3) by (cases r) simp_all
qed

text \<open>A loop with an invariant.\<close>

lemma outcome_forE:
  assumes "\<And>x. x \<in> set xs \<Longrightarrow> outcome I (f x) (\<lambda>_. I) E"
  shows "outcome I (forE xs f) (\<lambda>_. I) E"
  using assms
proof (induction xs)
  case (Cons x xs)
  have "outcome I (f x) (\<lambda>_. I) E" "outcome I (forE xs f) (\<lambda>_. I) E" using Cons by auto
  then show ?case
    unfolding forE.simps by (intro outcome_bindE outcome_ret)
qed (simp add: outcome_def)

subsection \<open>Calls that leave most of the world alone\<close>

text \<open>A read of the database, and the worlds that differ from \<open>w0\<close> at most in the kernel.\<close>

definition reads :: "(db, db_err, 'a) prog \<Rightarrow> bool" where
  "reads m \<longleftrightarrow> (\<forall>d. tables (snd (m d)) = tables d \<and> db_now (snd (m d)) = db_now d \<and>
     (db_faults d = [] \<longrightarrow> db_faults (snd (m d)) = []))"

definition untouched :: "('k, 'f) world \<Rightarrow> ('k, 'f) world \<Rightarrow> bool" where
  "untouched w0 w \<longleftrightarrow> w_log w = w_log w0 \<and> w_fw w = w_fw w0 \<and> w_fs w = w_fs w0 \<and> w_deb w = w_deb w0 \<and>
     tables (w_db w) = tables (w_db w0) \<and> db_now (w_db w) = db_now (w_db w0) \<and>
     (db_faults (w_db w0) = [] \<longrightarrow> db_faults (w_db w) = [])"

lemma untouched_refl [simp]: "untouched w w"
  by (simp add: untouched_def)

lemma reads_stmt: "(\<And>d. snd (m d) = d) \<Longrightarrow> reads (stmt m)"
  by (auto simp: reads_def stmt_def)

lemma reads_pure [simp]: "reads (ret a)" "reads (fail e)"
  by (simp_all add: reads_def)

lemma reads_queries [simp]:
  "reads ListPeers" "reads (GetPeerByID i)" "reads (GetPeerByPubKey k)" "reads CountPeers" "reads (GetProfile n)"
  "reads (IsClientAddressTaken a x)" "reads ListClientAddresses" "reads ListProfiles" "reads CountPeersPerProfile"
proof -
  show "reads ListPeers" "reads CountPeers" "reads ListClientAddresses" "reads ListProfiles" "reads CountPeersPerProfile"
    unfolding ListPeers_def CountPeers_def ListClientAddresses_def ListProfiles_def CountPeersPerProfile_def
    by (rule reads_stmt, simp)+
  show "reads (GetPeerByID i)" "reads (GetPeerByPubKey k)" "reads (GetProfile n)"
    unfolding GetPeerByID_def GetPeerByPubKey_def GetProfile_def
    by (rule reads_stmt, simp split: option.split)+
  show "reads (IsClientAddressTaken a x)"
    unfolding IsClientAddressTaken_def by (cases "a = []") (simp_all add: reads_stmt)
qed

lemma keeps_untouched_db [keeps_intros]: "reads m \<Longrightarrow> keeps (untouched w0) (on_db m)"
  by (simp add: keeps_def reads_def untouched_def)

lemma keeps_untouched_kernel [keeps_intros]:
  "keeps (untouched w0) (get_dev env)" "keeps (untouched w0) (gen_key_pair env)" "keeps (untouched w0) (gen_psk env)"
  by (auto simp: keeps_def untouched_def get_dev_def gen_key_pair_def gen_psk_def split: prod.splits)

text \<open>Programs that do not call the kernel.\<close>

definition kernel_is :: "'k \<Rightarrow> ('k, 'f) world \<Rightarrow> bool" where
  "kernel_is k w \<longleftrightarrow> w_kern w = k"

lemma keeps_kernel_is [keeps_intros]:
  "keeps (kernel_is k) (on_db m)" "keeps (kernel_is k) (fw_apply env p)" "keeps (kernel_is k) (fw_remove env p)"
  "keeps (kernel_is k) (write_shared ps)" "keeps (kernel_is k) (write_direct ps)"
  "keeps (kernel_is k) notify_writer"
  by (simp_all add: keeps_def kernel_is_def notify_writer_def)

lemma keeps_both: "keeps P m \<Longrightarrow> keeps Q m \<Longrightarrow> keeps (\<lambda>w. P w \<and> Q w) m"
  by (simp add: keeps_def)

text \<open>The keys in the kernel, over a client with a contract.\<close>

definition kernel_keys :: "('k \<Rightarrow> wgkey set) \<Rightarrow> ('k \<Rightarrow> bool) \<Rightarrow> wgkey set \<Rightarrow> ('k, 'f) world \<Rightarrow> bool" where
  "kernel_keys keys ok K w \<longleftrightarrow> ok (w_kern w) \<and> keys (w_kern w) = K"

lemma kern_reads:
  "w_kern (snd (get_dev env w)) = snd (get_device (e_wg env) (e_interface env) (w_kern w))"
  "w_kern (snd (gen_key_pair env w)) = snd (generate_key_pair (e_wg env) (w_kern w))"
  "w_kern (snd (gen_psk env w)) = snd (generate_psk (e_wg env) (w_kern w))"
  by (simp_all add: get_dev_def gen_key_pair_def gen_psk_def split: prod.split)

context wg_contract begin

lemma keeps_keys_reads:
  assumes "e_wg env = C"
  shows "keeps (kernel_keys keys ok K) (get_dev env)" "keeps (kernel_keys keys ok K) (gen_key_pair env)"
    "keeps (kernel_keys keys ok K) (gen_psk env)"
  using get_device_ok[OF _ surjective_pairing] key_pair_ok[OF _ surjective_pairing] psk_ok[OF _ surjective_pairing] assms
  by (simp_all add: keeps_def kernel_keys_def kern_reads)

end

lemma keeps_keys_other [keeps_intros]:
  "keeps (kernel_keys keys ok K) (on_db m)" "keeps (kernel_keys keys ok K) (fw_apply env p)"
  "keeps (kernel_keys keys ok K) (fw_remove env p)" "keeps (kernel_keys keys ok K) (write_shared ps)"
  "keeps (kernel_keys keys ok K) (write_direct ps)" "keeps (kernel_keys keys ok K) notify_writer"
  by (simp_all add: keeps_def kernel_keys_def notify_writer_def)

end
