(* ===== verification/PeerCreate.thy ===== *)
theory PeerCreate
  imports Api Outcome
begin

text \<open>
  The handlers that create peers (handlers.go): \<open>CreatePeer\<close> and \<open>BatchCreatePeers\<close>, with their
  validation, the order of their calls to the firewall, the kernel, the database and the
  configuration file, and their rollbacks.
\<close>

subsection \<open>Requests\<close>

record create_request =
  cq_friendly_name :: string
  cq_allowed_ips :: "string list"
  cq_profile :: "string option"
  cq_endpoint :: string
  cq_keepalive :: "int option"
  cq_client_dns :: string
  cq_client_mtu :: "int option"
  cq_address :: string
  cq_psk :: string
  cq_client_ips :: string

text \<open>Exactly one of a profile and a list of addresses.\<close>

definition resolve_request :: "('k, 'f) env \<Rightarrow> create_request \<Rightarrow> ('k, 'f, string list) handler" where
  "resolve_request env req =
     (let has_profile = has_profile_ref (cq_profile req); has_ips = cq_allowed_ips req \<noteq> [] in
      if has_profile \<and> has_ips then fail invalid
      else if \<not> has_profile \<and> \<not> has_ips then fail invalid
      else if has_profile then resolve_profile env (the (cq_profile req))
      else ret (cq_allowed_ips req))"

definition quota :: "('k, 'f) env \<Rightarrow> nat \<Rightarrow> ('k, 'f, unit) handler" where
  "quota env n =
     (if 0 < e_peer_limit env
      then bindE (db_call CountPeers) (\<lambda>count.
             guardE (int (count + n) \<le> e_peer_limit env) (ApiError 429 ''quota_exceeded''))
      else ret ())"

definition check_create :: "('k, 'f) env \<Rightarrow> create_request \<Rightarrow> string list \<Rightarrow> ('k, 'f, unit) handler" where
  "check_create env req ips =
     thenE (guardE (ValidateFriendlyName (e_letters env) (cq_friendly_name req)) invalid)
    (thenE (quota env 1)
    (thenE (guardE (ValidateAllowedIPs ips) invalid)
    (thenE (check_endpoint (cq_endpoint req))
    (thenE (guardE (keepalive_ok (cq_keepalive req)) invalid)
    (thenE (guardE (cq_client_ips req \<noteq> []) invalid)
    (thenE (guardE (cq_address req \<noteq> []) invalid)
           (check_address (cq_address req) [])))))))"

text \<open>The preshared key a request asks for: generated, given, or none; its text and its value.\<close>

definition request_psk :: "('k, 'f) env \<Rightarrow> string \<Rightarrow> ('k, 'f, string \<times> wgkey option) handler" where
  "request_psk env s =
     (if s = ''auto'' then
        bindE (mapErr (\<lambda>_. ApiError 500 ''psk_error'') (gen_psk env)) (\<lambda>k. ret (e_key env k, Some k))
      else if s \<noteq> [] then (case parse_key s of None \<Rightarrow> fail invalid | Some k \<Rightarrow> ret (s, Some k))
      else ret ([], None))"

definition key_pair :: "('k, 'f) env \<Rightarrow> ('k, 'f, wgkey \<times> wgkey) handler" where
  "key_pair env = mapErr (\<lambda>_. ApiError 500 ''keygen_error'') (gen_key_pair env)"

subsection \<open>The records of a new peer\<close>

definition no_peer :: peer where
  "no_peer = \<lparr>pr_id = 0, pr_public_key = [], pr_friendly_name = [], pr_allowed_ips = [], pr_profile = None,
     pr_enabled = False, pr_auto_discovered = False, pr_created_at = 0, pr_notes = [], pr_endpoint = [],
     pr_persistent_keepalive = None, pr_client_dns = [], pr_client_mtu = None, pr_client_address = [],
     pr_last_seen_endpoint = [], pr_preshared_key = [], pr_client_allowed_ips = []\<rparr>"

definition temp_peer :: "string \<Rightarrow> create_request \<Rightarrow> string \<Rightarrow> peer" where
  "temp_peer key req client_ips = no_peer\<lparr>pr_public_key := key, pr_client_address := cq_address req,
     pr_client_allowed_ips := client_ips, pr_enabled := True\<rparr>"

definition client_ips_of :: "create_request \<Rightarrow> bool \<Rightarrow> string list \<Rightarrow> string" where
  "client_ips_of req from_profile ips =
     (if from_profile \<and> cq_client_ips req = [] then join '', '' ips else cq_client_ips req)"

definition new_peer_config :: "('k, 'f) env \<Rightarrow> create_request \<Rightarrow> wgkey \<Rightarrow> ipnet \<Rightarrow> wgkey option \<Rightarrow> wg_peer_config" where
  "new_peer_config env req key net psk =
     \<lparr>wc_key = key, wc_allowed = [net],
      wc_endpoint = (if cq_endpoint req \<noteq> [] then e_resolve env (cq_endpoint req) else None),
      wc_remove = False, wc_replace = False, wc_keepalive = map_option seconds (cq_keepalive req), wc_psk = psk\<rparr>"

definition new_row :: "create_request \<Rightarrow> string \<Rightarrow> string \<Rightarrow> string \<Rightarrow> string \<Rightarrow> peer" where
  "new_row req key server_ip psk_text client_ips = no_peer\<lparr>pr_public_key := key,
     pr_friendly_name := cq_friendly_name req, pr_allowed_ips := server_ip, pr_enabled := True,
     pr_endpoint := cq_endpoint req, pr_persistent_keepalive := cq_keepalive req,
     pr_client_dns := cq_client_dns req, pr_client_mtu := cq_client_mtu req,
     pr_client_address := cq_address req, pr_preshared_key := psk_text, pr_client_allowed_ips := client_ips,
     pr_profile := (if has_profile_ref (cq_profile req) then cq_profile req else None)\<rparr>"

subsection \<open>CreatePeer\<close>

text \<open>The firewall first, then the kernel, the database and the file, each failure undone.\<close>

definition install_peer :: "('k, 'f) env \<Rightarrow> peer \<Rightarrow> wg_peer_config \<Rightarrow> peer \<Rightarrow> ('k, 'f, nat) handler" where
  "install_peer env temp cfg row =
     thenE (fw_apply env temp)
    (bindE (tryE (configure env [cfg])) (\<lambda>r. case r of
       Inl _ \<Rightarrow> thenE (fw_remove env temp) (fail (ApiError 500 ''wireguard_error''))
     | Inr _ \<Rightarrow>
    (bindE (tryE (on_db (CreatePeer row))) (\<lambda>r. case r of
       Inl e \<Rightarrow> thenE (fw_remove env temp) (thenE (ignoreE (remove_key env (wc_key cfg))) (fail (db_error e)))
     | Inr i \<Rightarrow>
    (bindE (tryE (api_rewriteConf env)) (\<lambda>r. case r of
       Inl _ \<Rightarrow> thenE (fw_remove env temp) (thenE (ignoreE (on_db (DeletePeer (pr_public_key row))))
                 (thenE (ignoreE (remove_key env (wc_key cfg))) (fail (ApiError 500 ''conf_write_error''))))
     | Inr _ \<Rightarrow> ret i))))))"

record created =
  cd_response :: peer_response
  cd_private_key :: string
  cd_config :: string
  cd_qr :: string

definition create_response :: "('k, 'f) env \<Rightarrow> create_request \<Rightarrow> wgkey \<Rightarrow> peer \<Rightarrow> nat \<Rightarrow> ('k, 'f, created) handler" where
  "create_response env req priv row i =
     bindE (getE (\<lambda>w. db_now (w_db w))) (\<lambda>now.
     bindE (server_identity env) (\<lambda>(server_key, port).
       let conf = buildClientConf env row (e_key env priv) server_key port in
       ret \<lparr>cd_response = (peerToResponse row)\<lparr>rs_id := i, rs_allowed_ips := [pr_allowed_ips row],
              rs_profile := cq_profile req, rs_created_at := now\<rparr>,
            cd_private_key = e_key env priv, cd_config = conf, cd_qr = qr_code env conf\<rparr>))"

definition api_CreatePeer :: "('k, 'f) env \<Rightarrow> create_request option \<Rightarrow> ('k, 'f, created) handler" where
  "api_CreatePeer env body =
     bindE (body_of body) (\<lambda>req.
     bindE (resolve_request env req) (\<lambda>ips.
     thenE (check_create env req ips) (
     bindE (key_pair env) (\<lambda>(priv, pub).
     bindE (request_psk env (cq_psk req)) (\<lambda>(psk_text, psk).
     let server_ip = serverAllowedIPs (cq_address req) (e_ipv6_prefix env) in
     bindE (first_net server_ip) (\<lambda>net.
     let client_ips = client_ips_of req (has_profile_ref (cq_profile req)) ips;
         row = new_row req (e_key env pub) server_ip psk_text client_ips in
     bindE (install_peer env (temp_peer (e_key env pub) req client_ips) (new_peer_config env req pub net psk) row)
       (create_response env req priv row)))))))"

subsection \<open>BatchCreatePeers\<close>

record resolved_peer =
  rp_priv :: wgkey
  rp_pub :: wgkey
  rp_ips :: "string list"
  rp_psk_text :: string
  rp_psk :: "wgkey option"
  rp_req :: create_request

definition maxBatchSize :: nat where
  "maxBatchSize = 250"

definition check_batch_item :: "('k, 'f) env \<Rightarrow> create_request \<Rightarrow> ('k, 'f, unit) handler" where
  "check_batch_item env p =
     thenE (guardE (cq_allowed_ips p \<noteq> [] \<or> has_profile_ref (cq_profile p)) invalid)
    (thenE (guardE (ValidateFriendlyName (e_letters env) (cq_friendly_name p)) invalid)
    (thenE (guardE (cq_client_ips p \<noteq> []) invalid)
    (thenE (guardE (list_all (\<lambda>ip. parse_cidr (trim_space ip) \<noteq> None) (split_on CHR '','' (cq_client_ips p))) invalid)
           (guardE (cq_address p \<noteq> []) invalid))))"

definition resolve_item :: "('k, 'f) env \<Rightarrow> create_request \<Rightarrow> ('k, 'f, resolved_peer) handler" where
  "resolve_item env p =
     bindE (if has_profile_ref (cq_profile p) then resolve_profile env (the (cq_profile p))
            else thenE (guardE (ValidateAllowedIPs (cq_allowed_ips p)) invalid) (ret (cq_allowed_ips p))) (\<lambda>ips.
     bindE (key_pair env) (\<lambda>(priv, pub).
     bindE (request_psk env (cq_psk p)) (\<lambda>(psk_text, psk).
       ret \<lparr>rp_priv = priv, rp_pub = pub, rp_ips = ips, rp_psk_text = psk_text, rp_psk = psk, rp_req = p\<rparr>)))"

definition item_config :: "('k, 'f) env \<Rightarrow> resolved_peer \<Rightarrow> ('k, 'f, wg_peer_config) handler" where
  "item_config env rp =
     bindE (first_net (serverAllowedIPs (cq_address (rp_req rp)) (e_ipv6_prefix env))) (\<lambda>net.
       ret (new_peer_config env (rp_req rp) (rp_pub rp) net (rp_psk rp)))"

definition item_temp :: "('k, 'f) env \<Rightarrow> resolved_peer \<Rightarrow> peer" where
  "item_temp env rp = temp_peer (e_key env (rp_pub rp)) (rp_req rp) (client_ips_of (rp_req rp) True (rp_ips rp))"

definition item_row :: "('k, 'f) env \<Rightarrow> resolved_peer \<Rightarrow> peer" where
  "item_row env rp = new_row (rp_req rp) (e_key env (rp_pub rp))
     (serverAllowedIPs (cq_address (rp_req rp)) (e_ipv6_prefix env)) (rp_psk_text rp)
     (client_ips_of (rp_req rp) True (rp_ips rp))"

definition undo_firewall :: "('k, 'f) env \<Rightarrow> resolved_peer list \<Rightarrow> ('k, 'f, unit list) handler" where
  "undo_firewall env rps = forE rps (\<lambda>rp. fw_remove env (item_temp env rp))"

definition undo_kernel :: "('k, 'f) env \<Rightarrow> resolved_peer list \<Rightarrow> ('k, 'f, unit list) handler" where
  "undo_kernel env rps = forE rps (\<lambda>rp. ignoreE (remove_key env (rp_pub rp)))"

definition install_batch ::
  "('k, 'f) env \<Rightarrow> resolved_peer list \<Rightarrow> wg_peer_config list \<Rightarrow> ('k, 'f, nat list) handler" where
  "install_batch env rps cfgs =
     thenE (forE rps (\<lambda>rp. fw_apply env (item_temp env rp)))
    (bindE (tryE (configure env cfgs)) (\<lambda>r. case r of
       Inl _ \<Rightarrow> thenE (undo_firewall env rps) (fail (ApiError 500 ''wireguard_error''))
     | Inr _ \<Rightarrow>
    (bindE (tryE (on_db (CreatePeersBatch (map (item_row env) rps)))) (\<lambda>r. case r of
       Inl e \<Rightarrow> thenE (undo_firewall env rps) (thenE (undo_kernel env rps) (fail (db_error e)))
     | Inr ids \<Rightarrow>
    (bindE (tryE (api_rewriteConf env)) (\<lambda>r. case r of
       Inl _ \<Rightarrow>
         thenE (forE rps (\<lambda>rp. ignoreE (on_db (DeletePeer (e_key env (rp_pub rp))))))
        (thenE (undo_firewall env rps) (thenE (undo_kernel env rps) (fail (ApiError 500 ''conf_write_error''))))
     | Inr _ \<Rightarrow> ret ids))))))"

definition batch_response :: "('k, 'f) env \<Rightarrow> nat \<Rightarrow> resolved_peer \<Rightarrow> peer_response" where
  "batch_response env i rp = (peerToResponse no_peer)\<lparr>rs_id := i, rs_public_key := e_key env (rp_pub rp),
     rs_friendly_name := cq_friendly_name (rp_req rp), rs_allowed_ips := rp_ips rp,
     rs_profile := cq_profile (rp_req rp), rs_enabled := True\<rparr>"

definition api_BatchCreatePeers ::
  "('k, 'f) env \<Rightarrow> create_request list option \<Rightarrow> ('k, 'f, peer_response list) handler" where
  "api_BatchCreatePeers env body =
     bindE (body_of body) (\<lambda>reqs.
     thenE (guardE (reqs \<noteq> []) invalid)
    (thenE (guardE (length reqs \<le> maxBatchSize) invalid)
    (thenE (quota env (length reqs))
    (thenE (forE reqs (check_batch_item env))
    (bindE (forE reqs (resolve_item env)) (\<lambda>rps.
     bindE (forE rps (item_config env)) (\<lambda>cfgs.
     bindE (install_batch env rps cfgs) (\<lambda>ids.
       ret (map2 (batch_response env) ids rps)))))))))"

subsection \<open>The database invariant\<close>

lemma keeps_prepare [keeps_intros]:
  "keeps db_ok (resolve_request env req)" "keeps db_ok (quota env n)" "keeps db_ok (request_psk env s)"
  "keeps db_ok (key_pair env)"
  unfolding resolve_request_def quota_def request_psk_def key_pair_def Let_def
  by (intro keeps_intros; fail)+

lemma keeps_create [keeps_intros]:
  "keeps db_ok (check_create env req ips)" "keeps db_ok (install_peer env temp cfg row)"
  "keeps db_ok (create_response env req priv row i)" "keeps db_ok (check_batch_item env req)"
  "keeps db_ok (resolve_item env req)" "keeps db_ok (item_config env rp)" "keeps db_ok (undo_firewall env rps)"
  "keeps db_ok (undo_kernel env rps)"
  unfolding check_create_def install_peer_def create_response_def check_batch_item_def resolve_item_def
    item_config_def undo_firewall_def undo_kernel_def
  by (intro keeps_intros; fail)+

lemma keeps_install_batch [keeps_intros]: "keeps db_ok (install_batch env rps cfgs)"
  unfolding install_batch_def by (intro keeps_intros)

lemma keeps_CreatePeer: "keeps db_ok (api_CreatePeer env body)"
  unfolding api_CreatePeer_def by (intro keeps_intros)

lemma keeps_BatchCreatePeers: "keeps db_ok (api_BatchCreatePeers env bodies)"
  unfolding api_BatchCreatePeers_def by (intro keeps_intros)

subsection \<open>What comes before the first change\<close>

lemma keeps_untouched_api [keeps_intros]:
  "reads m \<Longrightarrow> keeps (untouched w0) (db_call m)" "reads m \<Longrightarrow> keeps (untouched w0) (db_find m)"
  unfolding db_call_def db_find_def by (intro keeps_intros; assumption)+

lemma keeps_kernel_api [keeps_intros]:
  "keeps (kernel_is k) (db_call m)" "keeps (kernel_is k) (db_find m)"
  "keeps (kernel_keys keys ok K) (db_call m)" "keeps (kernel_keys keys ok K) (db_find m)"
  unfolding db_call_def db_find_def by (intro keeps_intros)+

lemma keeps_untouched_prepare:
  "keeps (untouched w0) (body_of b)" "keeps (untouched w0) (resolve_profile env n)"
  "keeps (untouched w0) (resolve_request env req)" "keeps (untouched w0) (quota env m)"
  "keeps (untouched w0) (check_create env req ips)" "keeps (untouched w0) (key_pair env)"
  "keeps (untouched w0) (request_psk env s)" "keeps (untouched w0) (first_net s)"
  "keeps (untouched w0) (check_address a x)"
  unfolding body_of_def resolve_profile_def resolve_request_def quota_def check_create_def key_pair_def
    request_psk_def first_net_def check_address_def check_endpoint_def Let_def
  by (intro keeps_intros reads_queries; fail)+

lemma keeps_kernel_prepare:
  "keeps (kernel_is k) (body_of b)" "keeps (kernel_is k) (resolve_profile env n)"
  "keeps (kernel_is k) (resolve_request env req)" "keeps (kernel_is k) (quota env m)"
  "keeps (kernel_is k) (check_create env req ips)" "keeps (kernel_is k) (first_net s)"
  "keeps (kernel_is k) (check_address a x)"
  unfolding body_of_def resolve_profile_def resolve_request_def quota_def check_create_def
    first_net_def check_address_def check_endpoint_def Let_def
  by (intro keeps_intros; fail)+

lemma keeps_keys_first_net: "keeps (kernel_keys keys ok K) (first_net s)"
  unfolding first_net_def by (intro keeps_intros)

context wg_contract begin

lemma keeps_keys_request:
  assumes "e_wg env = C"
  shows "keeps (kernel_keys keys ok K) (key_pair env)" "keeps (kernel_keys keys ok K) (request_psk env s)"
  unfolding key_pair_def request_psk_def by (intro keeps_intros keeps_keys_reads[OF assms])+

end

subsection \<open>The configuration file at the end of a handler\<close>

definition write_peers :: "('k, 'f) env \<Rightarrow> peer_conf list \<Rightarrow> (('k, 'f) world, conf_error, unit) prog" where
  "write_peers env ps = (if e_debounced env then write_direct ps else write_shared ps)"

lemma write_peers_frame [simp]:
  "w_db (snd (write_peers env ps w)) = w_db w" "w_kern (snd (write_peers env ps w)) = w_kern w"
  "w_fw (snd (write_peers env ps w)) = w_fw w" "w_log (snd (write_peers env ps w)) = w_log w"
  by (simp_all add: write_peers_def)

lemma write_peers_error: "fst (write_peers env ps w) = Inl e \<Longrightarrow> fs_conf (w_fs (snd (write_peers env ps w))) = fs_conf (w_fs w)"
  by (auto simp: write_peers_def write_direct_def write_shared_def DirectWrite_def SharedWriteConf_def
      dest!: write_conf_error_keeps split: prod.splits if_splits)

lemma api_rewriteConf_cases:
  obtains (unread) e where "fst (on_db ListPeers w) = Inl e" "api_rewriteConf env w = (Inl (), snd (on_db ListPeers w))"
  | (written) ps where "fst (api_rewriteConf env w) =
        (case fst (write_peers env ps (snd (on_db ListPeers w))) of Inl _ \<Rightarrow> Inl () | Inr _ \<Rightarrow> Inr ())"
      "snd (api_rewriteConf env w) = snd (write_peers env ps (snd (on_db ListPeers w)))"
proof (cases "on_db ListPeers w")
  case (Pair r w1)
  have def: "api_rewriteConf env = bindE (bindE (mapErr (\<lambda>_. ()) (on_db ListPeers))
      (\<lambda>ps. ret (map (peer_conf_of env) (filter pr_enabled ps)))) (\<lambda>ps. mapErr (\<lambda>_. ()) (write_peers env ps))"
    by (simp add: api_rewriteConf_def buildPeerConfs_def write_peers_def)
  show ?thesis
  proof (cases r)
    case (Inl e)
    with Pair show ?thesis by (intro unread) (simp_all add: def bindE_def mapErr_def)
  next
    case (Inr ps)
    with Pair show ?thesis
      by (intro written[of "map (peer_conf_of env) (filter pr_enabled ps)"])
        (simp_all add: def bindE_def mapErr_def split: prod.split sum.split)
  qed
qed

lemma api_rewriteConf_frame [simp]:
  "w_kern (snd (api_rewriteConf env w)) = w_kern w" "w_fw (snd (api_rewriteConf env w)) = w_fw w"
  "w_log (snd (api_rewriteConf env w)) = w_log w" "tables (w_db (snd (api_rewriteConf env w))) = tables (w_db w)"
  "db_faults (w_db w) = [] \<Longrightarrow> db_faults (w_db (snd (api_rewriteConf env w))) = []"
  using reads_queries(1) by (cases rule: api_rewriteConf_cases[of w env]; simp add: reads_def)+

lemma api_rewriteConf_error:
  "fst (api_rewriteConf env w) = Inl e \<Longrightarrow> fs_conf (w_fs (snd (api_rewriteConf env w))) = fs_conf (w_fs w)"
  by (cases rule: api_rewriteConf_cases[of w env]) (auto dest: write_peers_error split: sum.splits)

lemma tables_peers: "tables d = tables d' \<Longrightarrow> db_peers d = db_peers d'"
  by (simp add: tables_def)

subsection \<open>Installing one peer\<close>

text \<open>A log in which every firewall rule applied was removed again.\<close>

definition undone :: "call list \<Rightarrow> bool" where
  "undone l \<longleftrightarrow> (\<forall>t. FwApply t \<in> set l \<longrightarrow> FwRemove t \<in> set l)"

text \<open>The run of \<open>install_peer\<close>, branch by branch.\<close>

lemma install_peer_run:
  "install_peer env temp cfg row w =
     (let w1 = applied env temp w; w2 = snd (configure env [cfg] w1);
          w3 = snd (on_db (CreatePeer row) w2); w4 = snd (api_rewriteConf env w3) in
      case fst (configure env [cfg] w1) of
        Inl _ \<Rightarrow> (Inl (ApiError 500 ''wireguard_error''), removed env temp w2)
      | Inr _ \<Rightarrow>
          (case fst (on_db (CreatePeer row) w2) of
             Inl e \<Rightarrow> (Inl (db_error e), snd (remove_key env (wc_key cfg) (removed env temp w3)))
           | Inr i \<Rightarrow>
               (case fst (api_rewriteConf env w3) of
                  Inl _ \<Rightarrow> (Inl (ApiError 500 ''conf_write_error''),
                     snd (remove_key env (wc_key cfg) (snd (on_db (DeletePeer (pr_public_key row)) (removed env temp w4)))))
                | Inr _ \<Rightarrow> (Inr i, w4))))"
  unfolding install_peer_def Let_def
  by (simp add: thenE_fw bindE_tryE thenE_ignoreE split: sum.split)

lemma CreatePeer_error: "fst (CreatePeer row d) = Inl e \<Longrightarrow> db_peers (snd (CreatePeer row d)) = db_peers d"
  by (auto simp: CreatePeer_def stmt_def insert_row_def Let_def split: if_splits)

lemma CreatePeer_ok:
  assumes "fst (CreatePeer row d) = Inr i"
  obtains r where "db_peers (snd (CreatePeer row d)) = db_peers d @ [r]" "pr_public_key r = pr_public_key row"
    "r = (inserted row)\<lparr>pr_id := i, pr_created_at := db_now d\<rparr>" "unique_ok (db_peers d @ [r])"
    "db_faults d = [] \<Longrightarrow> db_faults (snd (CreatePeer row d)) = []"
  using assms
  by (auto simp: CreatePeer_def stmt_def insert_row_def Let_def inserted_def split: if_splits)

lemma DeletePeer_new:
  assumes "db_peers d = ps @ [r]" "unique_ok (ps @ [r])" "db_faults d = []"
  shows "db_peers (snd (DeletePeer (pr_public_key r) d)) = ps"
proof -
  have "pr_public_key r \<notin> pr_public_key ` set ps" using assms(2) by (auto simp: unique_ok_def)
  then have "filter (\<lambda>p. pr_public_key p \<noteq> pr_public_key r) ps = ps" by (intro filter_True) (metis image_eqI)
  moreover have "has_peer (pr_public_key r) d" by (simp add: has_peer_def assms(1))
  ultimately show ?thesis using assms by (simp add: DeletePeer_def stmt_def has_peer_def)
qed

context reliable_wg begin

lemma configure_add:
  assumes "e_wg env = C" "ok (w_kern w)" "\<not> wc_remove cfg"
  shows "fst (configure env [cfg] w) = Inr ()" "ok (w_kern (snd (configure env [cfg] w)))"
    "keys (w_kern (snd (configure env [cfg] w))) = insert (wc_key cfg) (keys (w_kern w))"
proof -
  obtain u k' where r: "configure_peers C (e_interface env) [cfg] (w_kern w) = (u, k')" by fastforce
  with configure_reliable[OF assms(2) r] have "configure_peers C (e_interface env) [cfg] (w_kern w) = (Inr (), k')" by simp
  note this configure_additions[OF assms(2) this] configure_ok[OF assms(2) this]
  then show "fst (configure env [cfg] w) = Inr ()" "ok (w_kern (snd (configure env [cfg] w)))"
    "keys (w_kern (snd (configure env [cfg] w))) = insert (wc_key cfg) (keys (w_kern w))"
    using assms(1,3) by (simp_all add: configure_result configure_kern)
qed

lemma remove_key_exact:
  assumes "e_wg env = C" "ok (w_kern w)"
  shows "ok (w_kern (snd (remove_key env x w)))" "keys (w_kern (snd (remove_key env x w))) = keys (w_kern w) - {x}"
  using remove_ok[OF assms(2) surjective_pairing] remove_reliable[OF assms(2) surjective_pairing] assms(1)
  by (simp_all add: remove_key_kern)

text \<open>An error leaves the rows, the file and the kernel as they were, and the firewall rules are removed.\<close>

lemma install_peer_error:
  assumes "e_wg env = C" "ok (w_kern w)" "wc_key cfg \<notin> keys (w_kern w)" "\<not> wc_remove cfg"
    "db_faults (w_db w) = []" "fst (install_peer env temp cfg row w) = Inl e"
  shows "keys (w_kern (snd (install_peer env temp cfg row w))) = keys (w_kern w) \<and>
    db_peers (w_db (snd (install_peer env temp cfg row w))) = db_peers (w_db w) \<and>
    fs_conf (w_fs (snd (install_peer env temp cfg row w))) = fs_conf (w_fs w) \<and>
    undone (drop (length (w_log w)) (w_log (snd (install_peer env temp cfg row w))))"
proof -
  define w1 where "w1 = applied env temp w"
  define w2 where "w2 = snd (configure env [cfg] w1)"
  define w3 where "w3 = snd (on_db (CreatePeer row) w2)"
  define w4 where "w4 = snd (api_rewriteConf env w3)"
  note conf = configure_add[OF assms(1) _ assms(4), of w1]
  have k1: "ok (w_kern w1)" "w_db w1 = w_db w" "keys (w_kern w1) = keys (w_kern w)" using assms(2) by (simp_all add: w1_def)
  have k2: "fst (configure env [cfg] w1) = Inr ()" "ok (w_kern w2)" "keys (w_kern w2) = insert (wc_key cfg) (keys (w_kern w))"
    "w_db w2 = w_db w" using conf[OF k1(1)] k1 by (simp_all add: w2_def)
  have k3: "ok (w_kern w3)" "keys (w_kern w3) = insert (wc_key cfg) (keys (w_kern w))" "w_db w3 = snd (CreatePeer row (w_db w))"
    using k2 by (simp_all add: w3_def)
  have run: "install_peer env temp cfg row w =
      (case fst (CreatePeer row (w_db w)) of
         Inl e \<Rightarrow> (Inl (db_error e), snd (remove_key env (wc_key cfg) (removed env temp w3)))
       | Inr i \<Rightarrow>
          (case fst (api_rewriteConf env w3) of
             Inl _ \<Rightarrow> (Inl (ApiError 500 ''conf_write_error''),
                snd (remove_key env (wc_key cfg) (snd (on_db (DeletePeer (pr_public_key row)) (removed env temp w4)))))
           | Inr _ \<Rightarrow> (Inr i, w4)))"
    unfolding install_peer_run Let_def w1_def[symmetric] w2_def[symmetric] w3_def[symmetric] w4_def[symmetric]
    by (simp add: k2(1,4))
  show ?thesis
  proof (cases "fst (CreatePeer row (w_db w))")
    case (Inl d)
    then show ?thesis
      using CreatePeer_error[OF Inl] k3 assms(3) remove_key_exact[OF assms(1), of "removed env temp w3" "wc_key cfg"]
      by (simp add: run undone_def) (simp add: w3_def w2_def w1_def)
  next
    case (Inr i)
    obtain r where r: "db_peers (w_db w3) = db_peers (w_db w) @ [r]" "pr_public_key r = pr_public_key row"
      "unique_ok (db_peers (w_db w) @ [r])" "db_faults (w_db w3) = []"
      using CreatePeer_ok[OF Inr] k3(3) assms(5) by metis
    obtain u where u: "fst (api_rewriteConf env w3) = Inl u" using assms(6) Inr by (auto simp: run split: sum.splits)
    have w4: "db_peers (w_db w4) = db_peers (w_db w) @ [r]" "db_faults (w_db w4) = []" "ok (w_kern w4)"
      "keys (w_kern w4) = insert (wc_key cfg) (keys (w_kern w))" "fs_conf (w_fs w4) = fs_conf (w_fs w)"
      using r k3 api_rewriteConf_error[OF u] tables_peers[OF api_rewriteConf_frame(4), of env w3]
      by (simp_all add: w4_def) (simp add: w3_def w2_def w1_def)
    have "db_peers (snd (DeletePeer (pr_public_key row) (w_db w4))) = db_peers (w_db w)"
      using DeletePeer_new[OF w4(1) r(3) w4(2)] r(2) by simp
    with w4 show ?thesis
      using Inr u assms(3) remove_key_exact[OF assms(1), of "snd (on_db (DeletePeer (pr_public_key row)) (removed env temp w4))" "wc_key cfg"]
      by (simp add: run undone_def) (simp add: w4_def w3_def w2_def w1_def)
  qed
qed

end

subsection \<open>The whole handler\<close>

lemma outcome_step:
  "keeps P m \<Longrightarrow> (\<And>w. P w \<Longrightarrow> R w) \<Longrightarrow> (\<And>a. outcome P (f a) Q (\<lambda>_. R)) \<Longrightarrow> outcome P (bindE m f) Q (\<lambda>_. R)"
  by (rule outcome_bindE[OF outcome_conseq[OF outcome_keeps]]) assumption+

lemma outcome_stepE:
  "keeps P m \<Longrightarrow> (\<And>w. P w \<Longrightarrow> R w) \<Longrightarrow> outcome P n Q (\<lambda>_. R) \<Longrightarrow> outcome P (thenE m n) Q (\<lambda>_. R)"
  unfolding thenE_def by (rule outcome_step)

text \<open>Nothing is left of a failed request: the kernel, the rows, the file, the firewall.\<close>

definition rolled_back :: "('k \<Rightarrow> wgkey set) \<Rightarrow> ('k, 'f) world \<Rightarrow> ('k, 'f) world \<Rightarrow> bool" where
  "rolled_back keys w0 w \<longleftrightarrow> keys (w_kern w) = keys (w_kern w0) \<and> db_peers (w_db w) = db_peers (w_db w0) \<and>
     fs_conf (w_fs w) = fs_conf (w_fs w0) \<and> undone (drop (length (w_log w0)) (w_log w))"

lemma rolled_backI:
  "untouched w0 w \<Longrightarrow> keys (w_kern w) = keys (w_kern w0) \<Longrightarrow> rolled_back keys w0 w"
  by (simp add: rolled_back_def untouched_def undone_def tables_def)

lemma create_response_total: "fst (create_response env req priv row i w) \<noteq> Inl e"
  by (auto simp: create_response_def server_identity_def bindE_def Let_def split: sum.splits)

text \<open>The generated public key is not in use.\<close>

definition fresh_pair :: "('k, 'f) env \<Rightarrow> ('k \<Rightarrow> wgkey set) \<Rightarrow> 'k \<Rightarrow> bool" where
  "fresh_pair env keys k \<longleftrightarrow>
     (case fst (generate_key_pair (e_wg env) k) of Inl _ \<Rightarrow> True | Inr (_, pub) \<Rightarrow> pub \<notin> keys k)"

context reliable_wg begin

lemma key_pair_outcome:
  assumes "e_wg env = C" "ok (w_kern w0)" "fresh_pair env keys (w_kern w0)"
  shows "outcome (\<lambda>w. untouched w0 w \<and> kernel_is (w_kern w0) w) (key_pair env)
    (\<lambda>(priv, pub) w. (untouched w0 w \<and> kernel_keys keys ok (keys (w_kern w0)) w) \<and> pub \<notin> keys (w_kern w0))
    (\<lambda>_ w. untouched w0 w \<and> kernel_keys keys ok (keys (w_kern w0)) w)"
proof (rule outcomeI)
  fix w e
  assume w: "untouched w0 w \<and> kernel_is (w_kern w0) w"
  then have k: "kernel_keys keys ok (keys (w_kern w0)) w" using assms(2) by (simp add: kernel_is_def kernel_keys_def)
  have "kernel_keys keys ok (keys (w_kern w0)) (snd (key_pair env w))" "untouched w0 (snd (key_pair env w))"
    using keepsD[OF keeps_keys_request(1)[OF assms(1)] k] keepsD[OF keeps_untouched_prepare(6)] w by blast+
  then show "untouched w0 (snd (key_pair env w)) \<and> kernel_keys keys ok (keys (w_kern w0)) (snd (key_pair env w))" by blast
next
  fix w a
  assume w: "untouched w0 w \<and> kernel_is (w_kern w0) w" and a: "fst (key_pair env w) = Inr a"
  then have k: "kernel_keys keys ok (keys (w_kern w0)) w" using assms(2) by (simp add: kernel_is_def kernel_keys_def)
  have "kernel_keys keys ok (keys (w_kern w0)) (snd (key_pair env w))" "untouched w0 (snd (key_pair env w))"
    using keepsD[OF keeps_keys_request(1)[OF assms(1)] k] keepsD[OF keeps_untouched_prepare(6)] w by blast+
  moreover have "fst (generate_key_pair (e_wg env) (w_kern w0)) = Inr a"
    using a w by (auto simp: key_pair_def mapErr_fst gen_key_pair_def kernel_is_def split: prod.splits sum.splits)
  ultimately show "(case a of (priv, pub) \<Rightarrow> \<lambda>w. (untouched w0 w \<and> kernel_keys keys ok (keys (w_kern w0)) w) \<and>
      pub \<notin> keys (w_kern w0)) (snd (key_pair env w))"
    using assms(3) by (cases a) (simp add: fresh_pair_def)
qed

lemma install_outcome:
  assumes "e_wg env = C" "db_faults (w_db w0) = []" "\<not> wc_remove cfg"
  shows "outcome (\<lambda>w. (untouched w0 w \<and> kernel_keys keys ok (keys (w_kern w0)) w) \<and> wc_key cfg \<notin> keys (w_kern w0))
    (bindE (install_peer env temp cfg row) (create_response env req priv row)) (\<lambda>_ _. True) (\<lambda>_. rolled_back keys w0)"
proof (rule outcome_bindE)
  show "outcome (\<lambda>w. (untouched w0 w \<and> kernel_keys keys ok (keys (w_kern w0)) w) \<and> wc_key cfg \<notin> keys (w_kern w0))
    (install_peer env temp cfg row) (\<lambda>_ _. True) (\<lambda>_. rolled_back keys w0)"
  proof (rule outcomeI)
    fix w e
    assume w: "(untouched w0 w \<and> kernel_keys keys ok (keys (w_kern w0)) w) \<and> wc_key cfg \<notin> keys (w_kern w0)"
      and e: "fst (install_peer env temp cfg row w) = Inl e"
    then have "ok (w_kern w)" "wc_key cfg \<notin> keys (w_kern w)" "db_faults (w_db w) = []"
      using assms(2) by (simp_all add: kernel_keys_def untouched_def)
    from install_peer_error[OF assms(1) this(1,2) assms(3) this(3) e] w
    show "rolled_back keys w0 (snd (install_peer env temp cfg row w))"
      by (simp add: rolled_back_def untouched_def kernel_keys_def tables_def)
  qed simp
  show "outcome (\<lambda>_. True) (create_response env req priv row i) (\<lambda>_ _. True) (\<lambda>_. rolled_back keys w0)" for i
    by (rule outcomeI) (simp_all add: create_response_total)
qed

lemma CreatePeer_outcome:
  assumes "e_wg env = C" "ok (w_kern w0)" "db_faults (w_db w0) = []" "fresh_pair env keys (w_kern w0)"
  shows "outcome (\<lambda>w. untouched w0 w \<and> kernel_is (w_kern w0) w) (api_CreatePeer env body) (\<lambda>_ _. True)
    (\<lambda>_. rolled_back keys w0)"
proof -
  have R: "rolled_back keys w0 w" if "untouched w0 w \<and> kernel_is (w_kern w0) w" for w
    using that by (intro rolled_backI) (simp_all add: kernel_is_def)
  have R': "rolled_back keys w0 w"
    if "(untouched w0 w \<and> kernel_keys keys ok (keys (w_kern w0)) w) \<and> pub \<notin> keys (w_kern w0)" for w pub
    using that by (intro rolled_backI) (simp_all add: kernel_keys_def)
  have const: "keeps (\<lambda>w. b) m" for b and m :: "('a, 'b, 'c) handler" by (simp add: keeps_def)
  show ?thesis
    unfolding api_CreatePeer_def Let_def case_prod_beta
    apply (rule outcome_step[OF keeps_both[OF keeps_untouched_prepare(1) keeps_kernel_prepare(1)] R], assumption)
    apply (rule outcome_step[OF keeps_both[OF keeps_untouched_prepare(3) keeps_kernel_prepare(3)] R], assumption)
    apply (rule outcome_stepE[OF keeps_both[OF keeps_untouched_prepare(5) keeps_kernel_prepare(5)] R], assumption)
    apply (rule outcome_bindE[OF outcome_conseq[OF key_pair_outcome[OF assms(1,2,4)]]], assumption, assumption)
     apply (simp add: rolled_backI kernel_keys_def)
    apply (simp only: case_prod_beta)
    apply (rule outcome_step[OF keeps_both[OF keeps_both[OF keeps_untouched_prepare(7) keeps_keys_request(2)[OF assms(1)]] const] R'], assumption)
    apply (rule outcome_step[OF keeps_both[OF keeps_both[OF keeps_untouched_prepare(8) keeps_keys_first_net] const] R'], assumption)
    apply (rule outcome_pre[OF install_outcome[OF assms(1,3)]])
     apply (simp_all add: new_peer_config_def)
    done
qed

end

subsection \<open>A successful request\<close>

lemma quota_ok:
  "fst (quota env n w) = Inr () \<Longrightarrow> e_peer_limit env \<le> 0 \<or> int (length (db_peers (w_db w)) + n) \<le> e_peer_limit env"
  by (auto simp: quota_def db_call_def bindE_def mapErr_def on_db_def CountPeers_def stmt_def
      split: prod.splits sum.splits if_splits)

lemma check_address_ok:
  assumes "fst (check_address a x w) = Inr ()" "a \<noteq> []"
  shows "parse_cidr a \<noteq> None \<and> (\<forall>p \<in> set (db_peers (w_db w)). pr_client_address p = a \<longrightarrow> pr_public_key p = x)"
proof -
  have c: "parse_cidr a \<noteq> None" and r: "fst (bindE (db_call (IsClientAddressTaken a x)) (\<lambda>taken.
      guardE (\<not> taken) (ApiError 409 ''conflict'')) w) = Inr ()"
    using assms(1) by (auto simp: check_address_def thenE_def bindE_def split: if_splits)
  obtain taken w' where t: "db_call (IsClientAddressTaken a x) w = (Inr taken, w')" "\<not> taken"
    using r by (auto simp: bindE_def split: prod.splits sum.splits if_splits)
  then have "fst (IsClientAddressTaken a x (w_db w)) = Inr False"
    by (auto simp: db_call_def mapErr_def on_db_def split: prod.splits sum.splits)
  then have "filter (\<lambda>p. pr_client_address p = a \<and> pr_public_key p \<noteq> x) (db_peers (w_db w)) = []"
    using assms(2) by (auto simp: IsClientAddressTaken_def stmt_def split: if_splits)
  with c show ?thesis by (auto simp: filter_empty_conv)
qed

text \<open>What a request that passed the checks satisfies, on the rows before it.\<close>

definition checked :: "('k, 'f) env \<Rightarrow> create_request \<Rightarrow> peer list \<Rightarrow> bool" where
  "checked env req ps \<longleftrightarrow> ValidateFriendlyName (e_letters env) (cq_friendly_name req) \<and>
     (e_peer_limit env \<le> 0 \<or> int (length ps + 1) \<le> e_peer_limit env) \<and>
     parse_cidr (cq_address req) \<noteq> None \<and> (\<forall>p \<in> set ps. pr_client_address p = cq_address req \<longrightarrow> pr_public_key p = [])"

lemma check_create_ok:
  assumes "fst (check_create env req ips w) = Inr ()"
  shows "checked env req (db_peers (w_db w))"
proof -
  obtain w1 where w1: "quota env 1 w = (Inr (), w1)" and name: "ValidateFriendlyName (e_letters env) (cq_friendly_name req)"
    and a: "cq_address req \<noteq> []" and addr: "fst (check_address (cq_address req) [] w1) = Inr ()"
    using assms by (auto simp: check_create_def thenE_def bindE_def check_endpoint_def split: prod.splits sum.splits if_splits)
  have "untouched w (snd (quota env 1 w))" by (rule keepsD[OF keeps_untouched_prepare(4)]) simp
  then have "db_peers (w_db w1) = db_peers (w_db w)" using w1 by (simp add: untouched_def tables_def)
  with quota_ok[of env 1 w] check_address_ok[OF addr a] name w1 show ?thesis by (simp add: checked_def)
qed

lemma install_peer_ok:
  assumes "fst (install_peer env temp cfg row w) = Inr i"
  shows "\<exists>r. db_peers (w_db (snd (install_peer env temp cfg row w))) = db_peers (w_db w) @ [r] \<and>
      r = (inserted row)\<lparr>pr_id := i, pr_created_at := db_now (w_db w)\<rparr> \<and>
    w_log (snd (install_peer env temp cfg row w)) = w_log w @ [FwApply (pr_public_key temp), KernelConfigure [wc_key cfg]]"
proof -
  define w2 where "w2 = snd (configure env [cfg] (applied env temp w))"
  define w3 where "w3 = snd (on_db (CreatePeer row) w2)"
  have w2: "w_db w2 = w_db w" by (simp add: w2_def)
  have run: "fst (CreatePeer row (w_db w)) = Inr i" "snd (install_peer env temp cfg row w) = snd (api_rewriteConf env w3)"
    using assms w2 unfolding install_peer_run Let_def w2_def[symmetric] w3_def[symmetric]
    by (auto split: sum.splits)
  obtain r where r: "db_peers (snd (CreatePeer row (w_db w))) = db_peers (w_db w) @ [r]"
    "r = (inserted row)\<lparr>pr_id := i, pr_created_at := db_now (w_db w)\<rparr>"
    using CreatePeer_ok[OF run(1)] by metis
  have "db_peers (w_db (snd (api_rewriteConf env w3))) = db_peers (w_db w3)" by (rule tables_peers) simp
  then show ?thesis using r by (intro exI[of _ r]) (simp add: run(2) w3_def w2, simp add: w2_def)
qed

text \<open>The outcome of a request: what a success adds, and that a client error (below 500) changes nothing.\<close>

definition request_failed :: "('k, 'f) world \<Rightarrow> api_err \<Rightarrow> ('k, 'f) world \<Rightarrow> bool" where
  "request_failed w0 e w \<longleftrightarrow> (case e of NilDeref \<Rightarrow> untouched w0 w | ApiError n _ \<Rightarrow> 500 \<le> n \<or> untouched w0 w)"

lemma request_failedI: "untouched w0 w \<Longrightarrow> request_failed w0 e w"
  by (simp add: request_failed_def split: api_err.split)

lemma outcome_failed:
  "keeps (untouched w0) m \<Longrightarrow> (\<And>a. outcome (untouched w0) (f a) Q (request_failed w0)) \<Longrightarrow>
   outcome (untouched w0) (bindE m f) Q (request_failed w0)"
  by (rule outcome_bindE[OF outcome_conseq[OF outcome_keeps]]) (assumption | erule request_failedI | blast)+

lemma outcome_failed_with:
  assumes "keeps (untouched w0) m" "\<And>a. outcome (\<lambda>w. untouched w0 w \<and> b) (f a) Q (request_failed w0)"
  shows "outcome (\<lambda>w. untouched w0 w \<and> b) (bindE m f) Q (request_failed w0)"
proof (rule outcome_bindE[OF _ assms(2)])
  show "outcome (\<lambda>w. untouched w0 w \<and> b) m (\<lambda>_ w. untouched w0 w \<and> b) (request_failed w0)"
    by (rule outcomeI) (auto intro: request_failedI keepsD[OF assms(1)])
qed

lemma bindE_ret [simp]: "bindE (ret a) f = f a"
  by (rule ext) (simp add: bindE_def)

definition peer_created :: "('k, 'f) env \<Rightarrow> create_request \<Rightarrow> ('k, 'f) world \<Rightarrow> ('k, 'f) world \<Rightarrow> bool" where
  "peer_created env req w0 w \<longleftrightarrow> checked env req (db_peers (w_db w0)) \<and>
     (\<exists>row pub. db_peers (w_db w) = db_peers (w_db w0) @ [row] \<and>
        pr_public_key row = e_key env pub \<and> pr_enabled row \<and> pr_client_address row = cq_address req \<and>
        pr_allowed_ips row = serverAllowedIPs (cq_address req) (e_ipv6_prefix env) \<and>
        w_log w = w_log w0 @ [FwApply (e_key env pub), KernelConfigure [pub]])"

lemma keeps_created: "keeps (peer_created env req w0) (create_response env' req' priv row i)"
  unfolding create_response_def server_identity_def Let_def
  by (intro keeps_intros) (simp_all add: keeps_def peer_created_def)

lemma CreatePeer_request:
  "outcome (untouched w0) (api_CreatePeer env (Some req)) (\<lambda>_. peer_created env req w0) (request_failed w0)"
proof -
  have check: "outcome (untouched w0) (check_create env req ips)
      (\<lambda>_ w. untouched w0 w \<and> checked env req (db_peers (w_db w0))) (request_failed w0)" for ips
  proof (rule outcomeI)
    fix w e assume "untouched w0 w"
    then show "request_failed w0 e (snd (check_create env req ips w))"
      by (intro request_failedI keepsD[OF keeps_untouched_prepare(5)])
  next
    fix w a assume w: "untouched w0 w" and "fst (check_create env req ips w) = Inr a"
    then have "checked env req (db_peers (w_db w))" by (intro check_create_ok) simp
    then show "untouched w0 (snd (check_create env req ips w)) \<and> checked env req (db_peers (w_db w0))"
      using w keepsD[OF keeps_untouched_prepare(5) w] by (simp add: untouched_def tables_def)
  qed
  have install: "outcome (\<lambda>w. untouched w0 w \<and> checked env req (db_peers (w_db w0)))
      (bindE (install_peer env (temp_peer (e_key env pub) req caips) (new_peer_config env req pub net psk)
         (new_row req (e_key env pub) (serverAllowedIPs (cq_address req) (e_ipv6_prefix env)) psk_text caips))
         (create_response env req priv (new_row req (e_key env pub) (serverAllowedIPs (cq_address req) (e_ipv6_prefix env)) psk_text caips)))
      (\<lambda>_. peer_created env req w0) (request_failed w0)" for pub caips net psk psk_text priv
  proof (rule outcome_bindE[where Q = "\<lambda>_. peer_created env req w0"], rule outcomeI)
    fix w e
    assume e: "fst (install_peer env (temp_peer (e_key env pub) req caips) (new_peer_config env req pub net psk)
         (new_row req (e_key env pub) (serverAllowedIPs (cq_address req) (e_ipv6_prefix env)) psk_text caips) w) = Inl e"
    then obtain s where "e = ApiError 500 s"
      by (auto simp: install_peer_run Let_def db_error_def split: sum.splits)
    then show "request_failed w0 e (snd (install_peer env (temp_peer (e_key env pub) req caips) (new_peer_config env req pub net psk)
         (new_row req (e_key env pub) (serverAllowedIPs (cq_address req) (e_ipv6_prefix env)) psk_text caips) w))"
      by (simp add: request_failed_def)
  next
    fix w i
    assume w: "untouched w0 w \<and> checked env req (db_peers (w_db w0))"
      and i: "fst (install_peer env (temp_peer (e_key env pub) req caips) (new_peer_config env req pub net psk)
         (new_row req (e_key env pub) (serverAllowedIPs (cq_address req) (e_ipv6_prefix env)) psk_text caips) w) = Inr i"
    from install_peer_ok[OF i] w
    show "peer_created env req w0 (snd (install_peer env (temp_peer (e_key env pub) req caips) (new_peer_config env req pub net psk)
         (new_row req (e_key env pub) (serverAllowedIPs (cq_address req) (e_ipv6_prefix env)) psk_text caips) w))"
      by (auto simp: peer_created_def untouched_def tables_def temp_peer_def new_peer_config_def new_row_def inserted_def)
  next
    fix i
    show "outcome (peer_created env req w0) (create_response env req priv (new_row req (e_key env pub)
        (serverAllowedIPs (cq_address req) (e_ipv6_prefix env)) psk_text caips) i)
      (\<lambda>_. peer_created env req w0) (request_failed w0)"
      by (rule outcomeI) (simp_all add: create_response_total keepsD[OF keeps_created])
  qed
  show ?thesis
    unfolding api_CreatePeer_def Let_def case_prod_beta body_of_def option.case bindE_ret
    by (intro outcome_failed[OF keeps_untouched_prepare(3)] outcome_thenE[OF check]
        outcome_failed_with[OF keeps_untouched_prepare(6)] outcome_failed_with[OF keeps_untouched_prepare(7)]
        outcome_failed_with[OF keeps_untouched_prepare(8)] install)
qed

end
