(* ===== verification/PeerBatch.thy ===== *)
theory PeerBatch
  imports PeerCreate
begin

text \<open>
  The batch handler \<open>BatchCreatePeers\<close> is all or nothing: the run of its installation branch by
  branch, and what a failed batch leaves behind.
\<close>

subsection \<open>Loops of calls that do not fail\<close>

lemma outcome_forE_list:
  assumes "\<And>x. outcome I (f x) (\<lambda>y w. I w \<and> R x y) E"
  shows "outcome I (forE xs f) (\<lambda>ys w. I w \<and> list_all2 R xs ys) E"
proof (induction xs)
  case (Cons x xs)
  have "outcome (\<lambda>w. I w \<and> R x y) (forE xs f) (\<lambda>ys w. I w \<and> list_all2 R (x # xs) (y # ys)) E" for y
    using Cons.IH by (fastforce simp: outcome_def)
  then show ?case unfolding forE.simps by (intro outcome_bindE[OF assms] outcome_bindE outcome_ret)
qed (simp add: outcome_def)

lemma thenE_forE_total:
  "(\<And>x w. fst (f x w) = Inr ()) \<Longrightarrow> thenE (forE xs f) n w = n (foldl (\<lambda>w x. snd (f x w)) w xs)"
  by (rule thenE_Inr[OF forE_total])

lemma apply_all_run:
  "thenE (forE rps (\<lambda>rp. fw_apply env (item_temp env rp))) n w = n (foldl (\<lambda>w rp. applied env (item_temp env rp) w) w rps)"
  by (simp add: thenE_forE_total)

lemma undo_firewall_run: "thenE (undo_firewall env rps) n w = n (foldl (\<lambda>w rp. removed env (item_temp env rp) w) w rps)"
  by (simp add: thenE_forE_total undo_firewall_def)

lemma undo_kernel_run: "thenE (undo_kernel env rps) n w = n (foldl (\<lambda>w rp. snd (remove_key env (rp_pub rp) w)) w rps)"
  by (simp add: thenE_forE_total undo_kernel_def)

lemma delete_all_run:
  "thenE (forE rps (\<lambda>rp. ignoreE (on_db (DeletePeer (e_key env (rp_pub rp)))))) n w =
     n (foldl (\<lambda>w rp. snd (on_db (DeletePeer (e_key env (rp_pub rp))) w)) w rps)"
  by (simp add: thenE_forE_total)

lemma foldl_applied [simp]:
  "w_db (foldl (\<lambda>w rp. applied env (item_temp env rp) w) w rps) = w_db w"
  "w_kern (foldl (\<lambda>w rp. applied env (item_temp env rp) w) w rps) = w_kern w"
  "w_fs (foldl (\<lambda>w rp. applied env (item_temp env rp) w) w rps) = w_fs w"
  "w_log (foldl (\<lambda>w rp. applied env (item_temp env rp) w) w rps) = w_log w @ map (\<lambda>rp. FwApply (e_key env (rp_pub rp))) rps"
  by (induction rps arbitrary: w) (simp_all add: item_temp_def temp_peer_def)

lemma foldl_removed [simp]:
  "w_db (foldl (\<lambda>w rp. removed env (item_temp env rp) w) w rps) = w_db w"
  "w_kern (foldl (\<lambda>w rp. removed env (item_temp env rp) w) w rps) = w_kern w"
  "w_fs (foldl (\<lambda>w rp. removed env (item_temp env rp) w) w rps) = w_fs w"
  "w_log (foldl (\<lambda>w rp. removed env (item_temp env rp) w) w rps) = w_log w @ map (\<lambda>rp. FwRemove (e_key env (rp_pub rp))) rps"
  by (induction rps arbitrary: w) (simp_all add: item_temp_def temp_peer_def)

lemma foldl_remove_key [simp]:
  "w_db (foldl (\<lambda>w rp. snd (remove_key env (rp_pub rp) w)) w rps) = w_db w"
  "w_fs (foldl (\<lambda>w rp. snd (remove_key env (rp_pub rp) w)) w rps) = w_fs w"
  "w_log (foldl (\<lambda>w rp. snd (remove_key env (rp_pub rp) w)) w rps) = w_log w @ map (\<lambda>rp. KernelRemove (rp_pub rp)) rps"
  by (induction rps arbitrary: w) simp_all

lemma foldl_delete [simp]:
  "w_kern (foldl (\<lambda>w rp. snd (on_db (DeletePeer (g rp)) w)) w rps) = w_kern w"
  "w_fs (foldl (\<lambda>w rp. snd (on_db (DeletePeer (g rp)) w)) w rps) = w_fs w"
  "w_log (foldl (\<lambda>w rp. snd (on_db (DeletePeer (g rp)) w)) w rps) = w_log w"
  by (induction rps arbitrary: w) simp_all

subsection \<open>Rows deleted again\<close>

definition no_faults :: "db \<Rightarrow> bool" where
  "no_faults d \<longleftrightarrow> db_faults d = []"

lemma keeps_no_faults_stmt: "keeps no_faults m \<Longrightarrow> keeps no_faults (stmt m)"
  by (auto simp: keeps_def stmt_def no_faults_def)

lemma keeps_no_faults:
  "keeps no_faults (insert_row p)" "keeps no_faults m \<Longrightarrow> keeps no_faults (transaction m)"
proof -
  show "keeps no_faults (insert_row p)" by (simp add: keeps_def insert_row_def no_faults_def Let_def)
  assume m: "keeps no_faults m"
  have "keeps no_faults (thenE (stmt (ret ())) (bindE m (\<lambda>a. thenE (stmt (ret ())) (ret a))))"
    by (intro keeps_intros keeps_no_faults_stmt m)
  then show "keeps no_faults (transaction m)"
    by (auto simp: keeps_def transaction_def restore_def no_faults_def split: prod.splits sum.splits)
qed

lemma batch_no_faults: "db_faults d = [] \<Longrightarrow> db_faults (snd (CreatePeersBatch ps d)) = []"
proof -
  have "keeps no_faults (CreatePeersBatch ps)"
    unfolding CreatePeersBatch_def by (intro keeps_no_faults keeps_no_faults_stmt keeps_forE)
  then show "db_faults d = [] \<Longrightarrow> db_faults (snd (CreatePeersBatch ps d)) = []" by (simp add: keeps_def no_faults_def)
qed

lemma DeletePeer_rows:
  assumes "db_faults d = []"
  shows "db_peers (snd (DeletePeer k d)) = filter (\<lambda>p. pr_public_key p \<noteq> k) (db_peers d)"
    "db_faults (snd (DeletePeer k d)) = []"
proof -
  have "filter (\<lambda>p. pr_public_key p \<noteq> k) (db_peers d) = db_peers d" if "\<not> has_peer k d"
    using that by (intro filter_True) (auto simp: has_peer_def)
  then show "db_peers (snd (DeletePeer k d)) = filter (\<lambda>p. pr_public_key p \<noteq> k) (db_peers d)"
    "db_faults (snd (DeletePeer k d)) = []" using assms by (auto simp: DeletePeer_def stmt_def)
qed

lemma delete_all_rows:
  "db_faults (w_db w) = [] \<Longrightarrow>
   db_peers (w_db (foldl (\<lambda>w rp. snd (on_db (DeletePeer (g rp)) w)) w rps)) =
     filter (\<lambda>p. pr_public_key p \<notin> g ` set rps) (db_peers (w_db w))"
proof (induction rps arbitrary: w)
  case (Cons rp rps)
  have "filter (\<lambda>p. pr_public_key p \<noteq> g rp \<and> pr_public_key p \<notin> g ` set rps) ps =
      filter (\<lambda>p. pr_public_key p \<notin> g ` set (rp # rps)) ps" for ps by (rule filter_cong) auto
  with Cons show ?case by (simp add: DeletePeer_rows conj_commute)
qed simp

lemma numbered_keys: "map pr_public_key (numbered now i ps) = map pr_public_key ps"
  by (induction ps arbitrary: i) (simp_all add: inserted_def)

lemma batch_rows_of:
  assumes "fst (CreatePeersBatch ps d) = Inr ids"
  obtains rs where "db_peers (snd (CreatePeersBatch ps d)) = db_peers d @ rs" "map pr_public_key rs = map pr_public_key ps"
proof -
  obtain d' where r: "transaction (forE ps (\<lambda>p. stmt (insert_row (inserted p)))) d = (Inr ids, d')"
    "d' = snd (CreatePeersBatch ps d)" using assms by (cases "CreatePeersBatch ps d") (simp add: CreatePeersBatch_def)
  obtain d1 d2 where "tables d1 = tables d" "forE ps (\<lambda>p. stmt (insert_row (inserted p))) d1 = (Inr ids, d2)"
    "tables d' = tables d2" using transaction_ok[OF r(1)] by metis
  then have "db_peers d' = db_peers d @ numbered (db_now d1) (db_next_id d1) ps"
    using batch_rows by (auto simp: tables_def)
  then show ?thesis using that numbered_keys r(2) by blast
qed

lemma batch_error: "fst (CreatePeersBatch ps d) = Inl e \<Longrightarrow> db_peers (snd (CreatePeersBatch ps d)) = db_peers d"
  using transaction_err[of "forE ps (\<lambda>p. stmt (insert_row (inserted p)))" d e]
  by (cases "CreatePeersBatch ps d") (auto simp: CreatePeersBatch_def tables_def)

lemma deleted_again:
  assumes "db_inv d" "db_faults d = []" "fst (CreatePeersBatch (map (item_row env) rps) d) = Inr ids"
  shows "filter (\<lambda>p. pr_public_key p \<notin> (\<lambda>rp. e_key env (rp_pub rp)) ` set rps)
      (db_peers (snd (CreatePeersBatch (map (item_row env) rps) d))) = db_peers d"
proof -
  obtain rs where rs: "db_peers (snd (CreatePeersBatch (map (item_row env) rps) d)) = db_peers d @ rs"
    "map pr_public_key rs = map pr_public_key (map (item_row env) rps)" using batch_rows_of[OF assms(3)] by metis
  have keys: "map pr_public_key rs = map (\<lambda>rp. e_key env (rp_pub rp)) rps" by (simp add: rs(2) item_row_def new_row_def comp_def)
  then have set_keys: "pr_public_key ` set rs = (\<lambda>rp. e_key env (rp_pub rp)) ` set rps" by (metis list.set_map)
  have "db_inv (snd (CreatePeersBatch (map (item_row env) rps) d))" by (rule keepsD[OF CreatePeersBatch_inv assms(1)])
  then have "distinct (map pr_public_key (db_peers d) @ map pr_public_key rs)"
    by (simp add: db_inv_def unique_ok_def rs(1))
  then have "filter (\<lambda>p. pr_public_key p \<notin> pr_public_key ` set rs) (db_peers d) = db_peers d"
    by (intro filter_True) auto
  moreover have "filter (\<lambda>p. pr_public_key p \<notin> pr_public_key ` set rs) rs = []" by (auto simp: filter_empty_conv)
  ultimately show ?thesis unfolding rs(1) set_keys by simp
qed

subsection \<open>Installing a batch\<close>

lemma install_batch_run:
  "install_batch env rps cfgs w =
     (let w1 = foldl (\<lambda>w rp. applied env (item_temp env rp) w) w rps; w2 = snd (configure env cfgs w1);
          w3 = snd (on_db (CreatePeersBatch (map (item_row env) rps)) w2); w4 = snd (api_rewriteConf env w3);
          undo_fw = (\<lambda>w. foldl (\<lambda>w rp. removed env (item_temp env rp) w) w rps);
          undo_wg = (\<lambda>w. foldl (\<lambda>w rp. snd (remove_key env (rp_pub rp) w)) w rps) in
      case fst (configure env cfgs w1) of
        Inl _ \<Rightarrow> (Inl (ApiError 500 ''wireguard_error''), undo_fw w2)
      | Inr _ \<Rightarrow>
          (case fst (on_db (CreatePeersBatch (map (item_row env) rps)) w2) of
             Inl e \<Rightarrow> (Inl (db_error e), undo_wg (undo_fw w3))
           | Inr ids \<Rightarrow>
               (case fst (api_rewriteConf env w3) of
                  Inl _ \<Rightarrow> (Inl (ApiError 500 ''conf_write_error''),
                     undo_wg (undo_fw (foldl (\<lambda>w rp. snd (on_db (DeletePeer (e_key env (rp_pub rp))) w)) w4 rps)))
                | Inr _ \<Rightarrow> (Inr ids, w4))))"
  unfolding install_batch_def Let_def
  by (simp add: apply_all_run bindE_tryE undo_firewall_run undo_kernel_run delete_all_run split: sum.split)

definition batch_configs :: "resolved_peer list \<Rightarrow> wg_peer_config list \<Rightarrow> bool" where
  "batch_configs rps cfgs \<longleftrightarrow> list_all2 (\<lambda>rp c. wc_key c = rp_pub rp \<and> \<not> wc_remove c) rps cfgs"

lemma batch_configs_keys: "batch_configs rps cfgs \<Longrightarrow> wc_key ` set cfgs = rp_pub ` set rps \<and> (\<forall>c \<in> set cfgs. \<not> wc_remove c)"
  unfolding batch_configs_def by (induction rule: list_all2_induct) auto

context reliable_wg begin

lemma undo_kernel_exact:
  "e_wg env = C \<Longrightarrow> ok (w_kern w) \<Longrightarrow>
   keys (w_kern (foldl (\<lambda>w rp. snd (remove_key env (rp_pub rp) w)) w rps)) = keys (w_kern w) - rp_pub ` set rps"
  by (induction rps arbitrary: w) (auto simp: remove_key_exact)

lemma install_batch_error:
  assumes "e_wg env = C" "ok (w_kern w)" "batch_configs rps cfgs" "db_inv (w_db w)"
    "db_faults (w_db w) = []" "fst (install_batch env rps cfgs w) = Inl e"
  shows "keys (w_kern (snd (install_batch env rps cfgs w))) \<subseteq> keys (w_kern w) \<and>
    db_peers (w_db (snd (install_batch env rps cfgs w))) = db_peers (w_db w) \<and>
    fs_conf (w_fs (snd (install_batch env rps cfgs w))) = fs_conf (w_fs w) \<and>
    undone (drop (length (w_log w)) (w_log (snd (install_batch env rps cfgs w))))"
proof -
  let ?b = "CreatePeersBatch (map (item_row env) rps)"
  define w1 where "w1 = foldl (\<lambda>w rp. applied env (item_temp env rp) w) w rps"
  define w2 where "w2 = snd (configure env cfgs w1)"
  define w3 where "w3 = snd (on_db ?b w2)"
  define w4 where "w4 = snd (api_rewriteConf env w3)"
  define w5 where "w5 = foldl (\<lambda>w rp. snd (on_db (DeletePeer (e_key env (rp_pub rp))) w)) w4 rps"
  note run = install_batch_run[of env rps cfgs w, unfolded Let_def, folded w1_def, folded w2_def, folded w3_def,
      folded w4_def, folded w5_def]
  obtain u k' where conf: "configure_peers C (e_interface env) cfgs (w_kern w) = (u, k')" by fastforce
  with configure_reliable[OF assms(2)] have conf: "configure_peers C (e_interface env) cfgs (w_kern w) = (Inr (), k')" by auto
  have k: "ok k'" "keys k' = keys (w_kern w) \<union> rp_pub ` set rps"
    using configure_ok[OF assms(2) conf] configure_additions[OF assms(2) conf] batch_configs_keys[OF assms(3)] by auto
  have w1: "w_kern w1 = w_kern w" "w_db w1 = w_db w" "w_fs w1 = w_fs w" by (simp_all add: w1_def)
  have w2: "fst (configure env cfgs w1) = Inr ()" "w_kern w2 = k'" "w_db w2 = w_db w" "w_fs w2 = w_fs w"
    using conf w1 assms(1) by (simp_all add: w2_def configure_result configure_kern)
  have w3: "w_kern w3 = k'" "w_db w3 = snd (?b (w_db w))" "w_fs w3 = w_fs w" using w2 by (simp_all add: w3_def)
  have logs: "w_log w1 = w_log w @ map (\<lambda>rp. FwApply (e_key env (rp_pub rp))) rps"
    "w_log w3 = w_log w1 @ [KernelConfigure (map wc_key cfgs)]" "w_log w4 = w_log w3" "w_log w5 = w_log w4"
    by (simp_all add: w1_def w2_def w3_def w4_def w5_def)
  have undo: "keys (w_kern (foldl (\<lambda>w rp. snd (remove_key env (rp_pub rp) w))
      (foldl (\<lambda>w rp. removed env (item_temp env rp) w) x rps) rps)) \<subseteq> keys (w_kern w)" if "w_kern x = k'" for x
    using undo_kernel_exact[OF assms(1), of "foldl (\<lambda>w rp. removed env (item_temp env rp) w) x rps" rps] k that by auto
  show ?thesis
  proof (cases "fst (?b (w_db w))")
    case (Inl d)
    then show ?thesis using batch_error[OF Inl] undo[OF w3(1)] w3(2,3)
      by (simp add: run w2 logs undone_def) auto
  next
    case (Inr ids)
    then obtain v where v: "fst (api_rewriteConf env w3) = Inl v" using assms(6) by (auto simp: run w2 split: sum.splits)
    have w4: "w_kern w4 = k'" "db_peers (w_db w4) = db_peers (w_db w3)" "fs_conf (w_fs w4) = fs_conf (w_fs w)"
      "db_faults (w_db w4) = []"
      using api_rewriteConf_error[OF v] tables_peers[OF api_rewriteConf_frame(4), of env w3] w3 batch_no_faults[OF assms(5)]
      by (simp_all add: w4_def)
    have "w_kern w5 = k'" "w_fs w5 = w_fs w4" using w4(1) by (simp_all add: w5_def)
    moreover have "db_peers (w_db w5) = db_peers (w_db w)"
      using delete_all_rows[OF w4(4), of "\<lambda>rp. e_key env (rp_pub rp)" rps] deleted_again[OF assms(4,5) Inr] w4(2) w3(2) by (simp add: w5_def)
    ultimately show ?thesis using Inr v undo[of w5] w4(3)
      by (simp add: run w2 logs undone_def) auto
  qed
qed

end

subsection \<open>The whole handler\<close>

lemma keeps_batch_items:
  "keeps (untouched w0) (check_batch_item env p)" "keeps (untouched w0) (resolve_item env p)"
  "keeps (untouched w0) (guardE b e)"
proof -
  show "keeps (untouched w0) (check_batch_item env p)"
    unfolding check_batch_item_def by (intro keeps_thenE keeps_guardE)
  show "keeps (untouched w0) (resolve_item env p)"
    unfolding resolve_item_def
    by (intro keeps_bindE keeps_if keeps_thenE keeps_guardE keeps_ret keeps_case_prod keeps_untouched_prepare)
  show "keeps (untouched w0) (guardE b e)" by (rule keeps_guardE)
qed

text \<open>Nothing of a failed batch is left; a key that was in use before can be lost to the rollback.\<close>

definition batch_rolled_back :: "('k \<Rightarrow> wgkey set) \<Rightarrow> ('k, 'f) world \<Rightarrow> ('k, 'f) world \<Rightarrow> bool" where
  "batch_rolled_back keys w0 w \<longleftrightarrow> keys (w_kern w) \<subseteq> keys (w_kern w0) \<and> db_peers (w_db w) = db_peers (w_db w0) \<and>
     fs_conf (w_fs w) = fs_conf (w_fs w0) \<and> undone (drop (length (w_log w0)) (w_log w))"

lemma db_inv_tables:
  assumes "tables d = tables d'" "db_inv d'"
  shows "db_inv d"
proof -
  have eq: "db_peers d = db_peers d'" "db_profiles d = db_profiles d'" "db_next_id d = db_next_id d'"
    using assms(1) by (simp_all add: tables_def)
  have "profile_ok po d = profile_ok po d'" for po by (rule profile_ok_cong) (rule eq(2))
  with assms(2) show ?thesis by (simp add: db_inv_def eq)
qed

context reliable_wg begin

lemma keeps_keys_items:
  assumes "e_wg env = C"
  shows "keeps (kernel_keys keys ok K) (resolve_item env p)" "keeps (kernel_keys keys ok K) (check_batch_item env p)"
    "keeps (kernel_keys keys ok K) (quota env n)" "keeps (kernel_keys keys ok K) (body_of b)"
  unfolding resolve_item_def resolve_profile_def check_batch_item_def quota_def body_of_def
  by (intro keeps_intros keeps_keys_request[OF assms]; fail)+

lemma install_batch_outcome:
  assumes "e_wg env = C" "db_inv (w_db w0)" "db_faults (w_db w0) = []" "batch_configs rps cfgs"
  shows "outcome (\<lambda>w. untouched w0 w \<and> kernel_keys keys ok (keys (w_kern w0)) w)
    (bindE (install_batch env rps cfgs) (\<lambda>ids. ret (map2 (batch_response env) ids rps))) (\<lambda>_ _. True)
    (\<lambda>_. batch_rolled_back keys w0)"
proof (rule outcome_bindE)
  show "outcome (\<lambda>w. untouched w0 w \<and> kernel_keys keys ok (keys (w_kern w0)) w) (install_batch env rps cfgs)
    (\<lambda>_ _. True) (\<lambda>_. batch_rolled_back keys w0)"
  proof (rule outcomeI)
    fix w e
    assume w: "untouched w0 w \<and> kernel_keys keys ok (keys (w_kern w0)) w" and e: "fst (install_batch env rps cfgs w) = Inl e"
    then have "ok (w_kern w)" "db_inv (w_db w)" "db_faults (w_db w) = []"
      using assms(2,3) db_inv_tables[of "w_db w" "w_db w0"] by (simp_all add: kernel_keys_def untouched_def)
    from install_batch_error[OF assms(1) this(1) assms(4) this(2,3) e] w
    show "batch_rolled_back keys w0 (snd (install_batch env rps cfgs w))"
      by (simp add: batch_rolled_back_def untouched_def kernel_keys_def tables_def)
  qed simp
qed (simp add: outcome_def)

lemma Batch_outcome:
  assumes "e_wg env = C" "ok (w_kern w0)" "db_inv (w_db w0)" "db_faults (w_db w0) = []"
  shows "outcome (\<lambda>w. untouched w0 w \<and> kernel_keys keys ok (keys (w_kern w0)) w) (api_BatchCreatePeers env body)
    (\<lambda>_ _. True) (\<lambda>_. batch_rolled_back keys w0)"
proof -
  have R: "batch_rolled_back keys w0 w" if "untouched w0 w \<and> kernel_keys keys ok (keys (w_kern w0)) w" for w
    using that by (simp add: batch_rolled_back_def untouched_def kernel_keys_def tables_def undone_def)
  have config: "outcome (\<lambda>w. untouched w0 w \<and> kernel_keys keys ok (keys (w_kern w0)) w) (item_config env rp)
      (\<lambda>c w. (untouched w0 w \<and> kernel_keys keys ok (keys (w_kern w0)) w) \<and> wc_key c = rp_pub rp \<and> \<not> wc_remove c)
      (\<lambda>_. batch_rolled_back keys w0)" for rp
    unfolding item_config_def
    by (rule outcome_step[OF keeps_both[OF keeps_untouched_prepare(8) keeps_keys_first_net] R], assumption,
        rule outcome_ret) (simp add: new_peer_config_def)
  have all: "outcome (\<lambda>w. untouched w0 w \<and> kernel_keys keys ok (keys (w_kern w0)) w)
      (bindE (forE rps (item_config env)) (\<lambda>cfgs. bindE (install_batch env rps cfgs) (\<lambda>ids. ret (map2 (batch_response env) ids rps))))
      (\<lambda>_ _. True) (\<lambda>_. batch_rolled_back keys w0)" for rps
  proof (rule outcome_bindE[OF outcome_forE_list[OF config]])
    fix cfgs
    show "outcome (\<lambda>w. (untouched w0 w \<and> kernel_keys keys ok (keys (w_kern w0)) w) \<and>
         list_all2 (\<lambda>rp c. wc_key c = rp_pub rp \<and> \<not> wc_remove c) rps cfgs)
      (bindE (install_batch env rps cfgs) (\<lambda>ids. ret (map2 (batch_response env) ids rps))) (\<lambda>_ _. True)
      (\<lambda>_. batch_rolled_back keys w0)"
    proof (cases "batch_configs rps cfgs")
      case True
      from install_batch_outcome[OF assms(1,3,4) True] show ?thesis by (rule outcome_pre) simp
    next
      case False
      then show ?thesis by (simp add: outcome_def batch_configs_def)
    qed
  qed
  show ?thesis
    unfolding api_BatchCreatePeers_def
    by (intro outcome_step[OF keeps_both[OF keeps_untouched_prepare(1) keeps_keys_items(4)[OF assms(1)]] R]
        outcome_stepE[OF keeps_both[OF keeps_batch_items(3) keeps_guardE] R]
        outcome_stepE[OF keeps_both[OF keeps_untouched_prepare(4) keeps_keys_items(3)[OF assms(1)]] R]
        outcome_stepE[OF keeps_forE[OF keeps_both[OF keeps_batch_items(1) keeps_keys_items(2)[OF assms(1)]]] R]
        outcome_step[OF keeps_forE[OF keeps_both[OF keeps_batch_items(2) keeps_keys_items(1)[OF assms(1)]]] R] all)
qed

end

subsection \<open>Properties\<close>



text \<open>
  C19: A successful CreatePeer adds one enabled row with the requested address, which parses and no
  other peer had, within the peer limit and with a valid name, and calls the firewall before the
  kernel. A client error (below 500) or a nil dereference changes nothing.
\<close>
theorem create_peer_effect:
  "case api_CreatePeer env (Some req) w of
     (Inr _, w') \<Rightarrow> peer_created env req w w'
   | (Inl NilDeref, w') \<Rightarrow> untouched w w'
   | (Inl (ApiError n _), w') \<Rightarrow> 500 \<le> n \<or> untouched w w'"
proof (cases "api_CreatePeer env (Some req) w")
  case (Pair r w')
  have o: "outcome (untouched w) (api_CreatePeer env (Some req)) (\<lambda>_. peer_created env req w) (request_failed w)"
    by (rule CreatePeer_request)
  show ?thesis
    using outcomeD_ok[OF o untouched_refl] outcomeD_err[OF o untouched_refl] Pair
    by (cases r) (auto simp: request_failed_def split: api_err.splits)
qed

subsection \<open>Witnesses\<close>

text \<open>A request against a full server: two peers, a limit of two.\<close>

definition sample_request :: create_request where
  "sample_request = \<lparr>cq_friendly_name = [], cq_allowed_ips = [''10.0.0.4/32''], cq_profile = None, cq_endpoint = [],
     cq_keepalive = Some 25, cq_client_dns = [], cq_client_mtu = None, cq_address = ''10.0.0.4/24'', cq_psk = [],
     cq_client_ips = ''0.0.0.0/0''\<rparr>"

definition full_env :: "(dev_client, unit) env" where
  "full_env = sample_env\<lparr>e_peer_limit := 2\<rparr>"

lemma full_quota: "quota full_env (Suc n) (sample_world ks) = (Inl (ApiError 429 ''quota_exceeded''), sample_world ks)"
  by (simp add: quota_def full_env_def sample_env_def db_call_def bindE_def mapErr_def on_db_def CountPeers_def stmt_def
      sample_world_def)

lemma full_create: "api_CreatePeer full_env (Some sample_request) (sample_world ks) = (Inl (ApiError 429 ''quota_exceeded''), sample_world ks)"
proof -
  have "check_create full_env sample_request ips (sample_world ks) = (Inl (ApiError 429 ''quota_exceeded''), sample_world ks)" for ips
    using full_quota[of 0 ks]
    by (simp add: check_create_def thenE_guardE thenE_Inl sample_request_def ValidateFriendlyName_def)
  then show ?thesis
    by (simp add: api_CreatePeer_def body_of_def resolve_request_def has_profile_ref_def sample_request_def thenE_Inl)
qed

lemma full_batch: "api_BatchCreatePeers full_env (Some [sample_request]) (sample_world ks) = (Inl (ApiError 429 ''quota_exceeded''), sample_world ks)"
  using full_quota[of 0 ks]
  by (simp add: api_BatchCreatePeers_def body_of_def thenE_guardE thenE_Inl maxBatchSize_def)

lemma full_contract: "reliable_wg (e_wg full_env) dev_keys dev_ok" "dev_ok (w_kern (sample_world [sample_key CHR ''A'']))"
  "db_faults (w_db (sample_world ks)) = []"
  "fresh_pair full_env dev_keys (w_kern (sample_world [sample_key CHR ''A'']))"
  using dev_reliable.reliable_wg_axioms sample_facts(5)[of "[sample_key CHR ''A'']"]
  by (simp_all add: full_env_def sample_env_def fresh_pair_def dev_interface_def dev_generate_key_pair_def bindE_def
      dev_random_def sample_world_def sample_dev_def dev_keys_def sample_key_def)



end
