(* ===== verification/PeerUpdate.thy ===== *)
theory PeerUpdate
  imports PeerBatch
begin

text \<open>
  The handlers that change or remove a peer (handlers.go): \<open>UpdatePeer\<close>, \<open>RotateKeys\<close>,
  \<open>ApprovePeer\<close> and \<open>DeletePeer\<close>, every call and every way out in the order of the code.
\<close>

subsection \<open>UpdatePeer\<close>

record update_request =
  uq_friendly_name :: "string option"
  uq_profile :: "string option option"
  uq_enabled :: "bool option"
  uq_notes :: "string option"
  uq_endpoint :: "string option"
  uq_keepalive :: "int option option"
  uq_client_dns :: "string option"
  uq_client_mtu :: "int option option"
  uq_address :: "string option"
  uq_client_ips :: "string option"

text \<open>The client routing a new profile brings; detaching one needs the routing in the request.\<close>

definition update_profile_ips :: "('k, 'f) env \<Rightarrow> update_request \<Rightarrow> ('k, 'f, string) handler" where
  "update_profile_ips env req =
     (case uq_profile req of
        None \<Rightarrow> ret []
      | Some p \<Rightarrow>
          (if has_profile_ref p then bindE (resolve_profile env (the p)) (\<lambda>ips. ret (join '', '' ips))
           else thenE (guardE (uq_client_ips req \<noteq> None) invalid) (ret [])))"

text \<open>Whether the address changes, after its validation.\<close>

definition update_address :: "peer \<Rightarrow> update_request \<Rightarrow> ('k, 'f, bool) handler" where
  "update_address existing req =
     (case uq_address req of
        None \<Rightarrow> ret False
      | Some a \<Rightarrow>
          thenE (if a \<noteq> [] then check_address a (pr_public_key existing) else ret ())
            (ret (a \<noteq> pr_client_address existing)))"

definition effective_address :: "peer \<Rightarrow> update_request \<Rightarrow> string" where
  "effective_address existing req = (case uq_address req of None \<Rightarrow> pr_client_address existing | Some a \<Rightarrow> a)"

definition stored_key :: "string \<Rightarrow> ('k, 'f, wgkey) handler" where
  "stored_key text = (case parse_key text of None \<Rightarrow> fail (ApiError 500 ''key_parse_error'') | Some k \<Rightarrow> ret k)"

definition plain_config :: "wgkey \<Rightarrow> ipnet list \<Rightarrow> wgkey option \<Rightarrow> wg_peer_config" where
  "plain_config key nets psk = \<lparr>wc_key = key, wc_allowed = nets, wc_endpoint = None, wc_remove = False,
     wc_replace = False, wc_keepalive = None, wc_psk = psk\<rparr>"

definition kernel_add :: "('k, 'f) env \<Rightarrow> wg_peer_config \<Rightarrow> ('k, 'f, unit) handler" where
  "kernel_add env cfg = mapErr (\<lambda>_. ApiError 500 ''wireguard_error'') (configure env [cfg])"

text \<open>The kernel learns the new address before the rest of the request is validated.\<close>

definition move_peer :: "('k, 'f) env \<Rightarrow> peer \<Rightarrow> update_request \<Rightarrow> ('k, 'f, unit) handler" where
  "move_peer env existing req =
     bindE (stored_key (pr_public_key existing)) (\<lambda>key.
     bindE (first_net (serverAllowedIPs (effective_address existing req) (e_ipv6_prefix env))) (\<lambda>net.
       kernel_add env ((plain_config key [net] None)\<lparr>wc_replace := True\<rparr>)))"

definition update_columns :: "('k, 'f) env \<Rightarrow> peer \<Rightarrow> update_request \<Rightarrow> bool \<Rightarrow> string \<Rightarrow> peer_update" where
  "update_columns env existing req moved new_ips = no_update\<lparr>
     up_friendly_name := uq_friendly_name req,
     up_allowed_ips := (if moved then Some (serverAllowedIPs (effective_address existing req) (e_ipv6_prefix env)) else None),
     up_profile := uq_profile req,
     up_enabled := uq_enabled req,
     up_notes := uq_notes req,
     up_endpoint := uq_endpoint req,
     up_persistent_keepalive := uq_keepalive req,
     up_client_dns := uq_client_dns req,
     up_client_mtu := uq_client_mtu req,
     up_client_address := uq_address req,
     up_client_allowed_ips := (case uq_client_ips req of
        Some s \<Rightarrow> Some s | None \<Rightarrow> if new_ips \<noteq> [] then Some new_ips else None)\<rparr>"

definition check_network_fields :: "update_request \<Rightarrow> ('k, 'f, unit) handler" where
  "check_network_fields req =
     thenE (case uq_endpoint req of None \<Rightarrow> ret () | Some s \<Rightarrow> check_endpoint s)
       (case uq_keepalive req of None \<Rightarrow> ret () | Some k \<Rightarrow> guardE (keepalive_ok k) invalid)"

text \<open>Endpoint and keepalive in the kernel, best effort; the answer says whether the file must change.\<close>

definition reconfigure :: "('k, 'f) env \<Rightarrow> peer \<Rightarrow> update_request \<Rightarrow> ('k, 'f, bool) handler" where
  "reconfigure env existing req =
     (if uq_endpoint req \<noteq> None \<or> uq_keepalive req \<noteq> None then
        bindE (stored_key (pr_public_key existing)) (\<lambda>key.
          let endpoint = (case uq_endpoint req of
                Some s \<Rightarrow> if s \<noteq> [] then e_resolve env s else None | None \<Rightarrow> None);
              keepalive = (case uq_keepalive req of Some (Some v) \<Rightarrow> Some (seconds v) | _ \<Rightarrow> None) in
          thenE (if endpoint \<noteq> None \<or> keepalive \<noteq> None
                 then ignoreE (configure env [(plain_config key [] None)\<lparr>wc_endpoint := endpoint, wc_keepalive := keepalive\<rparr>])
                 else ret ())
            (ret True))
      else ret False)"

definition refresh_firewall :: "('k, 'f) env \<Rightarrow> int \<Rightarrow> peer \<Rightarrow> update_request \<Rightarrow> ('k, 'f, unit) handler" where
  "refresh_firewall env i existing req =
     (if uq_client_ips req \<noteq> None \<or> uq_address req \<noteq> None \<or> uq_enabled req \<noteq> None \<or> uq_profile req \<noteq> None then
        thenE (if uq_address req \<noteq> None \<and> uq_address req \<noteq> Some (pr_client_address existing)
               then fw_remove env existing else ret ())
          (bindE (tryE (on_db (get_by_id i))) (\<lambda>r. case r of Inl _ \<Rightarrow> ret () | Inr p \<Rightarrow> fw_apply env p))
      else ret ())"

definition api_UpdatePeer :: "('k, 'f) env \<Rightarrow> string \<Rightarrow> update_request option \<Rightarrow> ('k, 'f, peer_response) handler" where
  "api_UpdatePeer env id_text body =
     bindE (path_id id_text) (\<lambda>i.
     bindE (db_find (get_by_id i)) (\<lambda>existing.
     bindE (body_of body) (\<lambda>req.
     thenE (case uq_friendly_name req of
              None \<Rightarrow> ret () | Some s \<Rightarrow> guardE (ValidateFriendlyName (e_letters env) s) invalid) (
     bindE (update_profile_ips env req) (\<lambda>new_ips.
     bindE (update_address existing req) (\<lambda>moved.
     thenE (if moved then move_peer env existing req else ret ()) (
     thenE (check_network_fields req) (
     bindE (reconfigure env existing req) (\<lambda>changed.
     thenE (db_call (UpdatePeer (pr_public_key existing) (update_columns env existing req moved new_ips))) (
     thenE (refresh_firewall env i existing req) (
     thenE (if moved \<or> changed then notifyConfChange env else ret ()) (
     bindE (db_call (get_by_id i)) (live_response env)))))))))))))"

subsection \<open>RotateKeys\<close>

text \<open>The old peer back in the kernel in place of the new one, best effort.\<close>

definition re_add :: "('k, 'f) env \<Rightarrow> wg_peer_config \<Rightarrow> ('k, 'f, unit) handler" where
  "re_add env old = ignoreE (configure env [old])"

definition swap_back :: "('k, 'f) env \<Rightarrow> wg_peer_config \<Rightarrow> wg_peer_config \<Rightarrow> ('k, 'f, unit) handler" where
  "swap_back env old new = thenE (ignoreE (remove_key env (wc_key new))) (re_add env old)"

definition psk_update :: "string \<Rightarrow> peer_update" where
  "psk_update s = no_update\<lparr>up_preshared_key := Some s\<rparr>"

definition rotate_commit ::
  "('k, 'f) env \<Rightarrow> peer \<Rightarrow> wg_peer_config \<Rightarrow> wg_peer_config \<Rightarrow> string \<Rightarrow> ('k, 'f, unit) handler" where
  "rotate_commit env p old new psk_text =
     (let old_text = pr_public_key p; new_text = e_key env (wc_key new) in
      thenE (fw_remove env p)
     (thenE (ignoreE (remove_key env (wc_key old)))
     (bindE (tryE (configure env [new])) (\<lambda>r. case r of
        Inl _ \<Rightarrow> thenE (re_add env old) (fail (ApiError 500 ''wireguard_error''))
      | Inr _ \<Rightarrow>
     (bindE (tryE (on_db (UpdatePeerPublicKey old_text new_text))) (\<lambda>r. case r of
        Inl e \<Rightarrow> thenE (swap_back env old new) (fail (db_error e))
      | Inr _ \<Rightarrow>
     (bindE (tryE (if psk_text \<noteq> [] then on_db (UpdatePeer new_text (psk_update psk_text)) else ret ())) (\<lambda>r. case r of
        Inl e \<Rightarrow> thenE (ignoreE (on_db (UpdatePeerPublicKey new_text old_text)))
                 (thenE (swap_back env old new) (fail (db_error e)))
      | Inr _ \<Rightarrow>
     (bindE (tryE (api_rewriteConf env)) (\<lambda>r. case r of
        Inl _ \<Rightarrow> thenE (ignoreE (on_db (UpdatePeerPublicKey new_text old_text)))
                 (thenE (ignoreE (on_db (UpdatePeer old_text (psk_update (pr_preshared_key p)))))
                 (thenE (swap_back env old new) (fail (ApiError 500 ''conf_write_error''))))
      | Inr _ \<Rightarrow> fw_apply env (p\<lparr>pr_public_key := new_text\<rparr>)))))))))))"

record rotated =
  ro_public_key :: string
  ro_config :: string
  ro_qr :: string

definition rotate_response :: "('k, 'f) env \<Rightarrow> peer \<Rightarrow> wgkey \<Rightarrow> string \<Rightarrow> string \<Rightarrow> ('k, 'f, rotated) handler" where
  "rotate_response env p priv new_text psk_text =
     bindE (server_identity env) (\<lambda>(server_key, port).
     thenE (guardE (pr_allowed_ips p \<noteq> []) (ApiError 500 ''config_error''))
       (let conf = buildClientConf env (p\<lparr>pr_public_key := new_text, pr_preshared_key := psk_text\<rparr>)
                     (e_key env priv) server_key port in
        ret \<lparr>ro_public_key = new_text, ro_config = conf, ro_qr = qr_code env conf\<rparr>))"

definition rotated_psk :: "('k, 'f) env \<Rightarrow> string \<Rightarrow> ('k, 'f, string \<times> wgkey option) handler" where
  "rotated_psk env old =
     (if old \<noteq> [] then
        bindE (mapErr (\<lambda>_. ApiError 500 ''psk_error'') (gen_psk env)) (\<lambda>k. ret (e_key env k, Some k))
      else ret ([], None))"

definition api_RotateKeys :: "('k, 'f) env \<Rightarrow> string \<Rightarrow> ('k, 'f, rotated) handler" where
  "api_RotateKeys env id_text =
     bindE (peer_of_path id_text) (\<lambda>p.
     bindE (stored_key (pr_public_key p)) (\<lambda>old_key.
     let old_psk = (if pr_preshared_key p \<noteq> [] then parse_key (pr_preshared_key p) else None);
         nets = parse_nets (pr_allowed_ips p) in
     bindE (key_pair env) (\<lambda>(priv, pub).
     bindE (rotated_psk env (pr_preshared_key p)) (\<lambda>(psk_text, psk).
     thenE (rotate_commit env p (plain_config old_key nets old_psk) (plain_config pub nets psk) psk_text)
       (rotate_response env p priv (e_key env pub) psk_text)))))"

subsection \<open>ApprovePeer\<close>

record approve_request =
  aq_friendly_name :: string
  aq_profile :: "string option"
  aq_address :: string
  aq_client_ips :: string
  aq_endpoint :: string
  aq_client_dns :: string
  aq_client_mtu :: "int option"
  aq_keepalive :: "int option"

definition check_approve :: "('k, 'f) env \<Rightarrow> peer \<Rightarrow> approve_request \<Rightarrow> ('k, 'f, string) handler" where
  "check_approve env p req =
     thenE (guardE (aq_address req \<noteq> []) invalid)
    (thenE (guardE (aq_client_ips req \<noteq> []) invalid)
    (thenE (check_address (aq_address req) (pr_public_key p))
    (bindE (if has_profile_ref (aq_profile req)
            then bindE (resolve_profile env (the (aq_profile req))) (\<lambda>ips. ret (join '', '' ips))
            else ret (aq_client_ips req)) (\<lambda>client_ips.
     thenE (guardE (aq_friendly_name req = [] \<or> ValidateFriendlyName (e_letters env) (aq_friendly_name req)) invalid)
    (thenE (check_endpoint (aq_endpoint req))
    (thenE (guardE (keepalive_ok (aq_keepalive req)) invalid) (ret client_ips)))))))"

definition approve_columns :: "peer \<Rightarrow> approve_request \<Rightarrow> string \<Rightarrow> string \<Rightarrow> peer_update" where
  "approve_columns p req server_ip client_ips = no_update\<lparr>
     up_friendly_name := Some (if aq_friendly_name req \<noteq> [] then aq_friendly_name req else pr_friendly_name p),
     up_allowed_ips := Some server_ip,
     up_client_address := Some (aq_address req),
     up_enabled := Some True,
     up_profile := (if has_profile_ref (aq_profile req) then Some (aq_profile req) else None),
     up_endpoint := (if aq_endpoint req \<noteq> [] then Some (aq_endpoint req) else None),
     up_client_dns := (if aq_client_dns req \<noteq> [] then Some (aq_client_dns req) else None),
     up_client_mtu := map_option Some (aq_client_mtu req),
     up_persistent_keepalive := map_option Some (aq_keepalive req),
     up_client_allowed_ips := (if client_ips \<noteq> [] then Some client_ips else None)\<rparr>"

definition approve_config :: "('k, 'f) env \<Rightarrow> approve_request \<Rightarrow> wgkey \<Rightarrow> ipnet \<Rightarrow> wg_peer_config" where
  "approve_config env req key net = (plain_config key [net] None)\<lparr>wc_replace := True,
     wc_endpoint := (if aq_endpoint req \<noteq> [] then e_resolve env (aq_endpoint req) else None),
     wc_keepalive := map_option seconds (aq_keepalive req)\<rparr>"

definition api_ApprovePeer :: "('k, 'f) env \<Rightarrow> string \<Rightarrow> approve_request option \<Rightarrow> ('k, 'f, peer_response) handler" where
  "api_ApprovePeer env id_text body =
     bindE (path_id id_text) (\<lambda>i.
     bindE (db_find (get_by_id i)) (\<lambda>p.
     thenE (guardE (pr_auto_discovered p) invalid)
    (thenE (guardE (\<not> pr_enabled p) invalid)
    (bindE (body_of body) (\<lambda>req.
     bindE (check_approve env p req) (\<lambda>client_ips.
     let server_ip = serverAllowedIPs (aq_address req) (e_ipv6_prefix env) in
     thenE (db_call (UpdatePeer (pr_public_key p) (approve_columns p req server_ip client_ips)))
    (thenE (db_call (ApprovePeer (pr_public_key p)))
    (bindE (stored_key (pr_public_key p)) (\<lambda>key.
     bindE (first_net server_ip) (\<lambda>net.
     thenE (ignoreE (configure env [approve_config env req key net]))
    (thenE (notifyConfChange env)
    (bindE (db_call (get_by_id i)) (\<lambda>updated.
     thenE (fw_apply env updated) (live_response env updated))))))))))))))"

subsection \<open>DeletePeer\<close>

definition api_DeletePeer :: "('k, 'f) env \<Rightarrow> string \<Rightarrow> ('k, 'f, unit) handler" where
  "api_DeletePeer env id_text =
     bindE (peer_of_path id_text) (\<lambda>p.
     bindE (stored_key (pr_public_key p)) (\<lambda>key.
     thenE (ignoreE (remove_key env key))
    (thenE (db_call (DeletePeer (pr_public_key p)))
    (thenE (fw_remove env p)
           (notifyConfChange env)))))"

subsection \<open>The database invariant\<close>

lemma keeps_update_parts [keeps_intros]:
  "keeps db_ok (path_id s)" "keeps db_ok (update_profile_ips env req)" "keeps db_ok (update_address p req)"
  "keeps db_ok (stored_key s)" "keeps db_ok (kernel_add env cfg)"
  unfolding path_id_def update_profile_ips_def update_address_def stored_key_def kernel_add_def
  by (intro keeps_intros; fail)+

lemma keeps_update_steps [keeps_intros]:
  "keeps db_ok (move_peer env p req)" "keeps db_ok (check_network_fields req)" "keeps db_ok (reconfigure env p req)"
  "keeps db_ok (refresh_firewall env i p req)" "keeps db_ok (re_add env cfg)" "keeps db_ok (swap_back env old new)"
  "keeps db_ok (rotated_psk env s)" "keeps db_ok (rotate_response env p priv t psk)" "keeps db_ok (check_approve env p areq)"
  unfolding move_peer_def check_network_fields_def reconfigure_def refresh_firewall_def re_add_def swap_back_def
    rotated_psk_def rotate_response_def check_approve_def Let_def
  by (intro keeps_intros; fail)+

lemma keeps_rotate_commit [keeps_intros]: "keeps db_ok (rotate_commit env p old new psk)"
  unfolding rotate_commit_def Let_def by (intro keeps_intros)

lemma keeps_UpdatePeer: "keeps db_ok (api_UpdatePeer env s ubody)"
  unfolding api_UpdatePeer_def by (intro keeps_intros)

lemma keeps_RotateKeys: "keeps db_ok (api_RotateKeys env s)"
  unfolding api_RotateKeys_def Let_def by (intro keeps_intros)

lemma keeps_ApprovePeer: "keeps db_ok (api_ApprovePeer env s abody)"
  unfolding api_ApprovePeer_def Let_def by (intro keeps_intros)

lemma keeps_DeletePeer: "keeps db_ok (api_DeletePeer env s)"
  unfolding api_DeletePeer_def by (intro keeps_intros)

subsection \<open>Deleting\<close>

lemma keeps_untouched_find:
  "keeps (untouched w0) (path_id s)" "keeps (untouched w0) (db_find (get_by_id i))" "keeps (untouched w0) (stored_key t)"
  "keeps (kernel_is k) (path_id s)" "keeps (kernel_is k) (db_find (get_by_id i))" "keeps (kernel_is k) (stored_key t)"
  unfolding path_id_def stored_key_def
  by (intro keeps_intros; fail | (intro keeps_untouched_api, simp add: get_by_id_def reads_stmt))+

lemma get_by_id_ok: "fst (get_by_id i d) = Inr p \<Longrightarrow> p \<in> set (db_peers d) \<and> int (pr_id p) = i"
  by (auto simp: get_by_id_def GetPeerByID_def stmt_def split: if_splits option.splits dest!: find_SomeD)

lemma db_find_ok: "db_find m w = (Inr a, w') \<Longrightarrow> fst (m (w_db w)) = Inr a"
  by (auto simp: db_find_def mapErr_def on_db_def split: prod.splits sum.splits)

text \<open>The start of a handler that names a peer: the peer is a row, and nothing has changed.\<close>

lemma peer_of_path_ok:
  assumes "peer_of_path s w = (Inr p, w')"
  shows "p \<in> set (db_peers (w_db w)) \<and> parse_int64 s = Some (int (pr_id p)) \<and> untouched w w' \<and> w_kern w' = w_kern w"
proof -
  obtain i where i: "parse_int64 s = Some i" and f: "db_find (get_by_id i) w = (Inr p, w')"
    using assms by (auto simp: peer_of_path_def path_id_def dest!: bindE_InrD split: option.splits)
  have "untouched w w'" "kernel_is (w_kern w) w'"
    using keepsD'[OF keeps_untouched_find(2) untouched_refl f] keepsD'[OF keeps_untouched_find(5) _ f]
    by (simp_all add: kernel_is_def)
  with i get_by_id_ok[OF db_find_ok[OF f]] show ?thesis by (simp add: kernel_is_def)
qed

lemma notify_frame [simp]:
  "w_kern (snd (notifyConfChange env w)) = w_kern w" "w_fw (snd (notifyConfChange env w)) = w_fw w"
  "w_log (snd (notifyConfChange env w)) = w_log w" "tables (w_db (snd (notifyConfChange env w))) = tables (w_db w)"
  "fst (notifyConfChange env w) = Inr ()"
  by (simp_all add: notifyConfChange_def notify_writer_def)

lemma stored_key_ok: "stored_key t w = (Inr k, w') \<Longrightarrow> parse_key t = Some k \<and> w' = w"
  by (simp add: stored_key_def split: option.splits)

lemma db_call_DeletePeer:
  assumes "db_call (DeletePeer key) w = (Inr u, w')"
  shows "db_peers (w_db w') = filter (\<lambda>p. pr_public_key p \<noteq> key) (db_peers (w_db w)) \<and>
    w_kern w' = w_kern w \<and> w_log w' = w_log w"
  using assms by (auto simp: db_call_def mapErr_def on_db_def DeletePeer_def stmt_def split: prod.splits sum.splits if_splits)


lemma sample_find: "db_find (get_by_id 1) (sample_world ks) = (Inr (sample_row 1 (b64_encode (sample_key CHR ''A'')) True ''10.0.0.2/32''), sample_world ks)"
  by (simp add: db_find_def get_by_id_def GetPeerByID_def stmt_def mapErr_def on_db_def sample_world_def sample_row_def)

lemma db_call_DeletePeer_total:
  assumes "key \<in> pr_public_key ` set (db_peers (w_db w))" "db_faults (w_db w) = []"
  shows "db_call (DeletePeer key) w = (Inr (), w\<lparr>w_db := (w_db w)\<lparr>db_peers := filter (\<lambda>p. pr_public_key p \<noteq> key) (db_peers (w_db w))\<rparr>\<rparr>)"
  using assms by (auto simp: db_call_def DeletePeer_def stmt_def mapErr_def on_db_def has_peer_def)


subsection \<open>Rotating\<close>

text \<open>The state of a rotation: the keys in the kernel, the rows (when no statement fails), the calls made.\<close>

definition rotating ::
  "('k \<Rightarrow> wgkey set) \<Rightarrow> ('k \<Rightarrow> bool) \<Rightarrow> ('k, 'f) world \<Rightarrow> wgkey set \<Rightarrow> peer list \<Rightarrow> call list \<Rightarrow> ('k, 'f) world \<Rightarrow> bool" where
  "rotating keys ok w0 K rows l w \<longleftrightarrow> kernel_keys keys ok K w \<and> w_log w = w_log w0 @ l \<and>
     (db_faults (w_db w0) = [] \<longrightarrow> db_faults (w_db w) = [] \<and> db_peers (w_db w) = rows)"

definition rekeyed :: "string \<Rightarrow> string \<Rightarrow> peer list \<Rightarrow> peer list" where
  "rekeyed old new = update_rows old (\<lambda>p. p\<lparr>pr_public_key := new\<rparr>)"

definition with_psk :: "string \<Rightarrow> string \<Rightarrow> peer list \<Rightarrow> peer list" where
  "with_psk key s = update_rows key (\<lambda>p. p\<lparr>pr_preshared_key := s\<rparr>)"

lemma psk_update_apply: "apply_update (psk_update s) = (\<lambda>p. p\<lparr>pr_preshared_key := s\<rparr>)"
  by (rule ext) (simp add: apply_update_def psk_update_def no_update_def upd_def)

lemma psk_update_some [simp]: "psk_update s \<noteq> no_update" "up_profile (psk_update s) = None"
  by (simp_all add: psk_update_def no_update_def)

lemma map_keys_psk: "map pr_public_key (with_psk key s ps) = map pr_public_key ps"
  "map pr_client_address (with_psk key s ps) = map pr_client_address ps"
  by (simp_all add: with_psk_def update_rows_map)

lemma psk_statement:
  assumes "db_faults d = []" "key \<in> pr_public_key ` set (db_peers d)" "unique_ok (db_peers d)"
  shows "UpdatePeer key (psk_update s) d = (Inr (), d\<lparr>db_peers := with_psk key s (db_peers d)\<rparr>)"
proof -
  have "unique_ok (with_psk key s (db_peers d))" using assms(3) by (simp add: unique_ok_def map_keys_psk)
  with assms(1,2) show ?thesis
    by (auto simp: UpdatePeer_def stmt_def update_key_def has_peer_def psk_update_apply upd_def profile_ok_def with_psk_def)
qed

lemma rekey_statement:
  assumes "db_faults d = []"
  shows "case UpdatePeerPublicKey old new d of
      (Inl e, d') \<Rightarrow> d' = d
    | (Inr u, d') \<Rightarrow> d' = d\<lparr>db_peers := rekeyed old new (db_peers d)\<rparr> \<and> unique_ok (rekeyed old new (db_peers d)) \<and>
        old \<in> pr_public_key ` set (db_peers d)"
  using assms by (auto simp: UpdatePeerPublicKey_def stmt_def update_key_def has_peer_def rekeyed_def)

text \<open>A unique new key is the key of no other row, so that the old key can be put back.\<close>

lemma rekeyed_fresh:
  assumes "unique_ok (rekeyed old new ps)" "old \<in> pr_public_key ` set ps" "q \<in> set ps" "pr_public_key q = new"
  shows "new = old"
proof (rule ccontr)
  assume n: "new \<noteq> old"
  let ?f = "\<lambda>p. if pr_public_key p = old then new else pr_public_key p"
  have "map pr_public_key (rekeyed old new ps) = map ?f ps" by (auto simp: rekeyed_def update_rows_map)
  then have inj: "inj_on ?f (set ps)" using assms(1) by (simp add: unique_ok_def distinct_map)
  obtain p where p: "p \<in> set ps" "pr_public_key p = old" using assms(2) by auto
  have "p = q" by (rule inj_onD[OF inj]) (use p assms(3,4) in simp_all)
  with p assms(4) n show False by simp
qed

lemma rekeyed_psk:
  assumes "unique_ok (rekeyed old new ps)" "old \<in> pr_public_key ` set ps"
  shows "rekeyed new old (with_psk new s (rekeyed old new ps)) = with_psk old s ps" "rekeyed new old (rekeyed old new ps) = ps"
proof -
  have "pr_public_key q \<noteq> new" if "q \<in> set ps" "pr_public_key q \<noteq> old" for q
    using rekeyed_fresh[OF assms that(1)] that(2) by auto
  then show "rekeyed new old (with_psk new s (rekeyed old new ps)) = with_psk old s ps" "rekeyed new old (rekeyed old new ps) = ps"
    by (auto simp: rekeyed_def with_psk_def update_rows_map intro!: map_idI)
qed

lemma rekeyed_has:
  assumes "old \<in> pr_public_key ` set ps"
  shows "new \<in> pr_public_key ` set (rekeyed old new ps)"
proof -
  obtain p where "p \<in> set ps" "pr_public_key p = old" using assms by auto
  then have "p\<lparr>pr_public_key := new\<rparr> \<in> set (rekeyed old new ps)" by (auto simp: rekeyed_def update_rows_map)
  then show ?thesis by (metis peer.select_convs(2) peer.surjective peer.update_convs(2) image_eqI)
qed

lemma with_psk_keys: "pr_public_key ` set (with_psk key s ps) = pr_public_key ` set ps"
  using arg_cong[OF map_keys_psk(1)[of key s ps], of set] by simp

lemma with_psk_twice: "with_psk key s (with_psk key t ps) = with_psk key s ps"
  by (simp add: with_psk_def update_rows_map)

lemma with_psk_same: "(\<And>q. q \<in> set ps \<Longrightarrow> pr_public_key q = key \<Longrightarrow> pr_preshared_key q = s) \<Longrightarrow> with_psk key s ps = ps"
  by (auto simp: with_psk_def update_rows_map intro!: map_idI)

text \<open>The rows after a rotation, and their way back.\<close>

definition rotated_rows :: "string \<Rightarrow> string \<Rightarrow> string \<Rightarrow> peer list \<Rightarrow> peer list" where
  "rotated_rows old new psk ps = (if psk \<noteq> [] then with_psk new psk (rekeyed old new ps) else rekeyed old new ps)"

lemma rotated_rows_back:
  assumes "unique_ok (rekeyed old new ps)" "old \<in> pr_public_key ` set ps" "unique_ok ps"
    "\<And>q. q \<in> set ps \<Longrightarrow> pr_public_key q = old \<Longrightarrow> pr_preshared_key q = s"
    "db_faults d = []" "db_peers d = rotated_rows old new psk ps"
  shows "snd (UpdatePeer old (psk_update s) (snd (UpdatePeerPublicKey new old d))) = d\<lparr>db_peers := ps\<rparr>"
proof -
  have undone_rows: "rekeyed new old (db_peers d) = (if psk \<noteq> [] then with_psk old psk ps else ps)"
    using assms(6) rekeyed_psk[OF assms(1,2)] by (simp add: rotated_rows_def)
  have uniq: "unique_ok (with_psk old psk ps)" using assms(3) by (simp add: unique_ok_def map_keys_psk)
  have "new \<in> pr_public_key ` set (db_peers d)"
    using rekeyed_has[OF assms(2)] assms(6) by (simp add: rotated_rows_def with_psk_keys)
  then have one: "UpdatePeerPublicKey new old d = (Inr (), d\<lparr>db_peers := if psk \<noteq> [] then with_psk old psk ps else ps\<rparr>)"
    using undone_rows assms(3,5) uniq by (simp add: UpdatePeerPublicKey_def stmt_def update_key_def has_peer_def rekeyed_def)
  have "UpdatePeer old (psk_update s) (d\<lparr>db_peers := if psk \<noteq> [] then with_psk old psk ps else ps\<rparr>) =
    (Inr (), d\<lparr>db_peers := with_psk old s (if psk \<noteq> [] then with_psk old psk ps else ps)\<rparr>)"
    using assms(2,3,5) uniq by (subst psk_statement) (simp_all add: with_psk_keys)
  with one show ?thesis by (simp add: with_psk_twice with_psk_same[OF assms(4)])
qed

lemma rotating_fw:
  "outcome (rotating keys ok w0 K rows l) (fw_remove env p) (\<lambda>_. rotating keys ok w0 K rows (l @ [FwRemove (pr_public_key p)])) E"
  "outcome (rotating keys ok w0 K rows l) (fw_apply env p) (\<lambda>_. rotating keys ok w0 K rows (l @ [FwApply (pr_public_key p)])) E"
  by (simp_all add: outcome_def rotating_def kernel_keys_def)

lemma rotating_conf:
  "outcome (rotating keys ok w0 K rows l) (api_rewriteConf env) (\<lambda>_. rotating keys ok w0 K rows l) (\<lambda>_. rotating keys ok w0 K rows l)"
  by (auto simp: outcome_def rotating_def kernel_keys_def tables_def
      intro: trans[OF tables_peers[OF api_rewriteConf_frame(4)]])

lemma rotating_db:
  assumes "\<And>d. db_faults (w_db w0) = [] \<Longrightarrow> db_faults d = [] \<Longrightarrow> db_peers d = rows \<Longrightarrow>
    case m d of (Inl e, d') \<Rightarrow> d' = d \<and> allowed | (Inr u, d') \<Rightarrow> d' = d\<lparr>db_peers := rows'\<rparr> \<and> cond"
  shows "outcome (rotating keys ok w0 K rows l) (on_db m)
    (\<lambda>_ w. rotating keys ok w0 K rows' l w \<and> (db_faults (w_db w0) = [] \<longrightarrow> cond))
    (\<lambda>_ w. rotating keys ok w0 K rows l w \<and> (db_faults (w_db w0) = [] \<longrightarrow> allowed))"
proof (rule outcomeI)
  fix w e
  assume "rotating keys ok w0 K rows l w" "fst (on_db m w) = Inl e"
  with assms[of "w_db w"]
  show "rotating keys ok w0 K rows l (snd (on_db m w)) \<and> (db_faults (w_db w0) = [] \<longrightarrow> allowed)"
    by (auto simp: rotating_def kernel_keys_def split: prod.splits)
next
  fix w a
  assume "rotating keys ok w0 K rows l w" "fst (on_db m w) = Inr a"
  with assms[of "w_db w"]
  show "rotating keys ok w0 K rows' l (snd (on_db m w)) \<and> (db_faults (w_db w0) = [] \<longrightarrow> cond)"
    by (auto simp: rotating_def kernel_keys_def split: prod.splits)
qed

context reliable_wg begin

lemma rotating_remove:
  assumes "e_wg env = C"
  shows "outcome (rotating keys ok w0 K rows l) (ignoreE (remove_key env x))
    (\<lambda>_. rotating keys ok w0 (K - {x}) rows (l @ [KernelRemove x])) E"
  using remove_key_exact[OF assms]
  by (intro outcome_ignoreE outcomeI) (simp_all add: rotating_def kernel_keys_def)

lemma rotating_add:
  assumes "e_wg env = C" "\<not> wc_remove c"
  shows "outcome (rotating keys ok w0 K rows l) (configure env [c])
    (\<lambda>_. rotating keys ok w0 (insert (wc_key c) K) rows (l @ [KernelConfigure [wc_key c]])) (\<lambda>_ _. False)"
  using configure_add[OF assms(1) _ assms(2)]
  by (intro outcomeI) (auto simp: rotating_def kernel_keys_def)

lemma rotating_swap_back:
  assumes "e_wg env = C" "\<not> wc_remove old"
  shows "outcome (rotating keys ok w0 K rows l) (swap_back env old new)
    (\<lambda>_. rotating keys ok w0 (insert (wc_key old) (K - {wc_key new})) rows
      (l @ [KernelRemove (wc_key new), KernelConfigure [wc_key old]])) E"
  unfolding swap_back_def re_add_def
  by (rule outcome_thenE[OF rotating_remove[OF assms(1)]], rule outcome_ignoreE,
      rule outcome_conseq[OF rotating_add[OF assms]]) (simp_all only: append_assoc append.simps, simp)

lemma rotating_failed:
  assumes "e_wg env = C" "\<not> wc_remove old" "\<And>w. P w \<Longrightarrow> rotating keys ok w0 K rows l w"
  shows "outcome P (thenE (swap_back env old new) (fail e))
    Q (\<lambda>_. rotating keys ok w0 (insert (wc_key old) (K - {wc_key new})) rows
      (l @ [KernelRemove (wc_key new), KernelConfigure [wc_key old]]))"
  by (rule outcome_thenE[OF outcome_pre[OF rotating_swap_back[OF assms(1,2)] assms(3)]], assumption)
    (rule outcome_fail)

end

lemma outcome_ignored:
  "(\<And>w. P w \<Longrightarrow> P' (snd (m w))) \<Longrightarrow> outcome P' n Q E \<Longrightarrow> outcome P (thenE (ignoreE m) n) Q E"
  by (simp add: outcome_def thenE_ignoreE)

lemma outcome_ignored_both:
  "(\<And>w. P w \<Longrightarrow> P' (snd (m' (snd (m w))))) \<Longrightarrow> outcome P' n Q E \<Longrightarrow> outcome P (thenE (ignoreE m) (thenE (ignoreE m') n)) Q E"
  by (simp add: outcome_def thenE_ignoreE)

lemma outcome_pure: "(b \<Longrightarrow> outcome P m Q E) \<Longrightarrow> outcome (\<lambda>w. P w \<and> b) m Q E"
  by (simp add: outcome_def)

lemma rekey_rotating:
  "outcome (rotating keys ok w0 K rows l) (on_db (UpdatePeerPublicKey old new))
    (\<lambda>_ w. rotating keys ok w0 K (rekeyed old new rows) l w \<and>
      (db_faults (w_db w0) = [] \<longrightarrow> unique_ok (rekeyed old new rows) \<and> old \<in> pr_public_key ` set rows))
    (\<lambda>_. rotating keys ok w0 K rows l)"
proof (rule outcome_conseq[OF rotating_db[where allowed = True and rows' = "rekeyed old new rows"]])
  fix d :: db assume "db_faults d = []" "db_peers d = rows"
  then show "case UpdatePeerPublicKey old new d of (Inl e, d') \<Rightarrow> d' = d \<and> True
    | (Inr u, d') \<Rightarrow> d' = d\<lparr>db_peers := rekeyed old new rows\<rparr> \<and>
        (unique_ok (rekeyed old new rows) \<and> old \<in> pr_public_key ` set rows)"
    using rekey_statement[of d old new] by (auto split: prod.splits sum.splits)
qed auto

lemma psk_rotating:
  assumes "psk \<noteq> [] \<Longrightarrow> db_faults (w_db w0) = [] \<Longrightarrow> unique_ok rows \<and> key \<in> pr_public_key ` set rows"
  shows "outcome (rotating keys ok w0 K rows l)
    (if psk \<noteq> [] then on_db (UpdatePeer key (psk_update psk)) else ret ())
    (\<lambda>_. rotating keys ok w0 K (if psk \<noteq> [] then with_psk key psk rows else rows) l)
    (\<lambda>_ w. rotating keys ok w0 K rows l w \<and> (db_faults (w_db w0) = [] \<longrightarrow> False))"
proof (cases "psk = []")
  case False
  have "outcome (rotating keys ok w0 K rows l) (on_db (UpdatePeer key (psk_update psk)))
    (\<lambda>_ w. rotating keys ok w0 K (with_psk key psk rows) l w \<and> (db_faults (w_db w0) = [] \<longrightarrow> True))
    (\<lambda>_ w. rotating keys ok w0 K rows l w \<and> (db_faults (w_db w0) = [] \<longrightarrow> False))"
    by (rule rotating_db) (use assms[OF False] in \<open>simp add: psk_statement\<close>)
  with False show ?thesis by simp
qed (simp add: outcome_def)

text \<open>What a rotation that fails has done: the keys and the rows are as before, the firewall rules are gone.\<close>

definition rotation_calls :: "string \<Rightarrow> wgkey \<Rightarrow> wgkey \<Rightarrow> call list" where
  "rotation_calls old_text old new = [FwRemove old_text, KernelRemove old, KernelConfigure [new]]"

context reliable_wg begin

lemma rotate_commit_outcome:
  assumes C: "e_wg env = C" and cfg: "\<not> wc_remove old" "\<not> wc_remove new" and inv: "unique_ok rows" and p: "p \<in> set rows"
  shows "outcome (rotating keys ok w0 K rows []) (rotate_commit env p old new psk)
    (\<lambda>_. rotating keys ok w0 (insert (wc_key new) (K - {wc_key old}))
       (rotated_rows (pr_public_key p) (e_key env (wc_key new)) psk rows)
       (rotation_calls (pr_public_key p) (wc_key old) (wc_key new) @ [FwApply (e_key env (wc_key new))]))
    (\<lambda>_. rotating keys ok w0 (insert (wc_key old) (insert (wc_key new) (K - {wc_key old}) - {wc_key new})) rows
       (rotation_calls (pr_public_key p) (wc_key old) (wc_key new) @ [KernelRemove (wc_key new), KernelConfigure [wc_key old]]))"
proof -
  let ?t = "pr_public_key p" and ?n = "e_key env (wc_key new)"
  let ?K = "insert (wc_key new) (K - {wc_key old})" and ?l = "rotation_calls ?t (wc_key old) (wc_key new)"
  let ?c = "unique_ok (rekeyed ?t ?n rows) \<and> ?t \<in> pr_public_key ` set rows"
  have psk_p: "pr_preshared_key q = pr_preshared_key p" if "q \<in> set rows" "pr_public_key q = ?t" for q
    using that p inv by (auto simp: unique_ok_def distinct_map dest: inj_onD)
  have l: "(([] @ [FwRemove ?t]) @ [KernelRemove (wc_key old)]) @ [KernelConfigure [wc_key new]] = ?l"
    by (simp add: rotation_calls_def)
  have lost: "rotating keys ok w0 ?K rows ?l (snd (on_db m w))"
    if "rotating keys ok w0 ?K rows' ?l w \<and> (db_faults (w_db w0) = [] \<longrightarrow> False)"
    for rows' w and m :: "(db, db_err, unit) prog"
    using that by (simp add: rotating_def kernel_keys_def)
  have undone: "rotating keys ok w0 ?K rows ?l (snd (on_db (UpdatePeer ?t (psk_update (pr_preshared_key p)))
      (snd (on_db (UpdatePeerPublicKey ?n ?t) w))))"
    if "rotating keys ok w0 ?K (if psk \<noteq> [] then with_psk ?n psk (rekeyed ?t ?n rows) else rekeyed ?t ?n rows) ?l w"
      and c: "db_faults (w_db w0) = [] \<longrightarrow> ?c" for w
    using that rotated_rows_back[OF _ _ inv psk_p, where d = "w_db w" and new = ?n and psk = psk and old = ?t]
    by (auto simp: rotating_def kernel_keys_def rotated_rows_def)
  note failed = rotating_failed[OF C cfg(1), where new = new]
  show ?thesis
    unfolding rotate_commit_def Let_def
    apply (rule outcome_thenE[OF rotating_fw(1)], rule outcome_thenE[OF rotating_remove[OF C]],
        rule outcome_inspect[OF rotating_add[OF C cfg(2)]])
     apply (simp add: outcome_def)
    apply (unfold l)
    apply (rule outcome_inspect[OF rekey_rotating])
     apply (rule failed, assumption)
    apply (rule outcome_pure)
    apply (rule outcome_inspect[OF psk_rotating])
      apply (simp add: rekeyed_has)
     apply (rule outcome_ignored[where P' = "rotating keys ok w0 ?K rows ?l"], erule lost)
     apply (rule failed, assumption)
    apply (rule outcome_inspect[OF rotating_conf])
     apply (rule outcome_ignored_both[where P' = "rotating keys ok w0 ?K rows ?l"], erule undone, assumption)
     apply (rule failed, assumption)
    apply (rule outcome_conseq[OF rotating_fw(2)])
      apply (simp_all add: rotated_rows_def)
    done
qed

end

subsection \<open>RotateKeys as a whole\<close>

lemma plain_config_simps [simp]: "wc_key (plain_config k n s) = k" "\<not> wc_remove (plain_config k n s)"
  by (simp_all add: plain_config_def)

lemma keeps_rotate_response [keeps_intros]:
  "keeps (untouched w0) (rotate_response env p priv t psk)" "keeps (untouched w0) (rotated_psk env old)"
  unfolding rotate_response_def server_identity_def rotated_psk_def Let_def by (intro keeps_intros)+

lemma outcome_err: "outcome P m Q E \<Longrightarrow> (\<And>e w. E e w \<Longrightarrow> E' e w) \<Longrightarrow> outcome P m Q E'"
  by (simp add: outcome_def)

lemma rotation_keys: "new \<notin> K \<Longrightarrow> insert old (insert new (K - {old}) - {new}) = insert old K"
  by auto

lemma keeps_peer_of_path: "keeps (untouched w0) (peer_of_path s)" "keeps (kernel_is k) (peer_of_path s)"
  unfolding peer_of_path_def by (intro keeps_intros keeps_untouched_find)+

text \<open>The error that is left once the rotation is committed needs a peer without allowed addresses.\<close>

lemma rotate_response_error:
  "fst (rotate_response env p priv t psk w) = Inl e \<Longrightarrow> pr_allowed_ips p = []"
  by (auto simp: rotate_response_def server_identity_def bindE_def thenE_def Let_def split: prod.splits sum.splits if_splits)

context reliable_wg begin

lemma keeps_keys_rotate:
  assumes "e_wg env = C"
  shows "keeps (kernel_keys keys ok K) (rotated_psk env old)" "keeps (kernel_keys keys ok K) (rotate_response env p priv t psk)"
  unfolding rotated_psk_def rotate_response_def server_identity_def Let_def
  by (intro keeps_intros keeps_keys_reads[OF assms])+

lemma keeps_rotating_response:
  assumes "e_wg env = C"
  shows "keeps (rotating keys ok w0 K rows l) (rotate_response env p priv t psk)"
proof -
  have "keeps (rotating keys ok w0 K rows l) (get_dev env)"
    using keepsD[OF keeps_keys_reads(1)[OF assms]] by (simp add: keeps_def rotating_def)
  then show ?thesis
    unfolding rotate_response_def server_identity_def Let_def by (intro keeps_intros)
qed

lemma RotateKeys_outcome:
  assumes C: "e_wg env = C" and ok: "ok (w_kern w0)" and inv: "db_inv (w_db w0)" and fresh: "fresh_pair env keys (w_kern w0)"
    and addresses: "\<forall>p \<in> set (db_peers (w_db w0)). pr_allowed_ips p \<noteq> []"
  shows "outcome (\<lambda>w. untouched w0 w \<and> kernel_is (w_kern w0) w) (api_RotateKeys env s)
    (\<lambda>_ w. \<exists>p old new psk. p \<in> set (db_peers (w_db w0)) \<and> parse_key (pr_public_key p) = Some old \<and>
       rotating keys ok w0 (insert new (keys (w_kern w0) - {old}))
         (rotated_rows (pr_public_key p) (e_key env new) psk (db_peers (w_db w0)))
         (rotation_calls (pr_public_key p) old new @ [FwApply (e_key env new)]) w)
    (\<lambda>_ w. (untouched w0 w \<and> kernel_keys keys ok (keys (w_kern w0)) w) \<or>
      (\<exists>p old new. p \<in> set (db_peers (w_db w0)) \<and> parse_key (pr_public_key p) = Some old \<and>
       rotating keys ok w0 (insert old (keys (w_kern w0))) (db_peers (w_db w0))
         (rotation_calls (pr_public_key p) old new @ [KernelRemove new, KernelConfigure [old]]) w))"
    (is "outcome ?P _ ?Q ?E")
proof -
  have peer: "outcome ?P (peer_of_path s) (\<lambda>p w. ?P w \<and> p \<in> set (db_peers (w_db w0))) ?E"
  proof (rule outcomeI)
    fix w e assume "?P w"
    then have "?P (snd (peer_of_path s w))"
      by (intro keepsD[OF keeps_both[OF keeps_peer_of_path]])
    with ok show "?E e (snd (peer_of_path s w))" by (simp add: kernel_is_def kernel_keys_def)
  next
    fix w p assume w: "?P w" and p: "fst (peer_of_path s w) = Inr p"
    then have "?P (snd (peer_of_path s w))"
      by (intro keepsD[OF keeps_both[OF keeps_peer_of_path]])
    moreover have "p \<in> set (db_peers (w_db w))" using peer_of_path_ok[of s w p] p by (simp add: prod_eq_iff)
    ultimately show "?P (snd (peer_of_path s w)) \<and> p \<in> set (db_peers (w_db w0))"
      using w by (simp add: untouched_def tables_def)
  qed
  have key: "outcome (\<lambda>w. ?P w \<and> b) (stored_key t) (\<lambda>k w. ?P w \<and> (b \<and> parse_key t = Some k)) ?E" for b t
    using ok by (auto simp: outcome_def stored_key_def kernel_is_def kernel_keys_def split: option.split)
  have pair: "outcome (\<lambda>w. ?P w \<and> b) (key_pair env) (\<lambda>kp w. (untouched w0 w \<and> kernel_keys keys ok (keys (w_kern w0)) w) \<and>
      (b \<and> snd kp \<notin> keys (w_kern w0))) ?E" for b
    using key_pair_outcome[OF C ok fresh] by (auto simp: outcome_def case_prod_beta)
  let ?S = "\<lambda>w. untouched w0 w \<and> kernel_keys keys ok (keys (w_kern w0)) w"
  have psk: "outcome ?S (rotated_psk env t) (\<lambda>_. ?S) ?E" for t
    by (rule outcome_conseq[OF outcome_keeps[OF keeps_both[OF keeps_rotate_response(2) keeps_keys_rotate(1)[OF C]]]]) blast+
  have start: "rotating keys ok w0 (keys (w_kern w0)) (db_peers (w_db w0)) [] w" if "?S w" for w
    using that by (simp add: rotating_def untouched_def tables_def)
  have rows: "unique_ok (db_peers (w_db w0))" using inv by (simp add: db_inv_def)
  note commit = rotate_commit_outcome[OF C, where ?w0.0 = w0 and K = "keys (w_kern w0)" and rows = "db_peers (w_db w0)", OF _ _ rows]
  have response: "outcome (rotating keys ok w0 K rows l) (rotate_response env p priv t psk)
      (\<lambda>_. rotating keys ok w0 K rows l) E" if "p \<in> set (db_peers (w_db w0))" for p K rows l priv t psk E
    using that addresses by (intro outcomeI) (auto dest: rotate_response_error keepsD[OF keeps_rotating_response[OF C]])
  show ?thesis
    unfolding api_RotateKeys_def Let_def case_prod_beta
    apply (rule outcome_bindE[OF peer])
    apply (rule outcome_bindE[OF key])
    apply (rule outcome_bindE[OF pair])
    apply (rule outcome_pure)
    apply (rule outcome_bindE[OF psk])
    apply (rule outcome_thenE[OF outcome_err[OF outcome_pre[OF commit start]]])
         apply (simp_all only: plain_config_simps simp_thms)
     apply (elim conjE, simp only: rotation_keys simp_thms, rule disjI2, intro exI conjI, assumption+)
    apply (elim conjE, rule outcome_conseq[OF response], assumption, assumption)
     apply (intro exI conjI, assumption, assumption, assumption)
    apply assumption
    done
qed

end



subsection \<open>Rotations of the sample peer\<close>

lemma write_conf_total: "fs_faults s = [] \<Longrightarrow> fst (write_conf peers s) = Inr ()"
  by (cases "fs_conf s") (simp_all add: write_conf_def parse_conf_def fs_call_def thenE_def bindE_def Let_def)

lemma api_rewriteConf_total:
  assumes "db_faults (w_db w) = []" "fs_faults (w_fs w) = []"
  shows "fst (api_rewriteConf env w) = Inr ()"
proof -
  have "fst (on_db ListPeers w) \<noteq> Inl e" for e using assms(1) by (simp add: ListPeers_def stmt_def)
  moreover have "fst (write_peers env ps (snd (on_db ListPeers w))) = Inr ()" for ps
    using write_conf_total[of "w_fs w" ps] assms(2)
    by (auto simp: write_peers_def write_shared_def write_direct_def SharedWriteConf_def DirectWrite_def split: prod.splits)
  ultimately show ?thesis by (cases rule: api_rewriteConf_cases[of w env]) simp_all
qed

abbreviation sample_peer :: peer where
  "sample_peer \<equiv> sample_row 1 (b64_encode (sample_key CHR ''A'')) True ''10.0.0.2/32''"

text \<open>The request up to its commit; the statements that are left may fail.\<close>

definition used_random :: "(dev_client, unit) world \<Rightarrow> (dev_client, unit) world" where
  "used_random w = w\<lparr>w_kern := (w_kern w)\<lparr>dc_random := []\<rparr>\<rparr>"

definition with_faults :: "bool list \<Rightarrow> (dev_client, unit) world" where
  "with_faults fs = (sample_world [sample_key CHR ''A''])\<lparr>w_db := (w_db (sample_world []))\<lparr>db_faults := fs\<rparr>\<rparr>"

lemma sample_rotate:
  assumes "\<not> next_fault fs"
  shows "api_RotateKeys sample_env ''1'' (with_faults fs) =
     thenE (rotate_commit sample_env sample_peer
         (plain_config (sample_key CHR ''A'') (parse_nets ''10.0.0.2/32'') None)
         (plain_config (sample_key CHR ''r'') (parse_nets ''10.0.0.2/32'') None) [])
       (rotate_response sample_env sample_peer (sample_key CHR ''r'') (b64_encode (sample_key CHR ''r'')) [])
       (used_random (with_faults (tl fs)))"
proof -
  let ?w = "with_faults (tl fs)"
  have id: "parse_int64 ''1'' = Some 1" by code_simp
  have p: "peer_of_path ''1'' (with_faults fs) = (Inr sample_peer, ?w)"
    using assms by (simp add: peer_of_path_def path_id_def id db_find_def get_by_id_def GetPeerByID_def stmt_def mapErr_def on_db_def
        with_faults_def sample_world_def sample_row_def)
  have k: "stored_key (pr_public_key sample_peer) ?w = (Inr (sample_key CHR ''A''), ?w)"
    by (simp add: stored_key_def sample_row_def parse_key_b64 sample_facts(4))
  have g: "key_pair sample_env ?w = (Inr (sample_key CHR ''r'', sample_key CHR ''r''), used_random ?w)"
    by (simp add: key_pair_def gen_key_pair_def sample_env_def dev_interface_def dev_generate_key_pair_def dev_random_def
        bindE_def mapErr_def used_random_def with_faults_def sample_world_def sample_dev_def)
  show ?thesis
    unfolding api_RotateKeys_def Let_def bindE_Inr[where m = "peer_of_path ''1''", OF p]
      bindE_Inr[where m = "stored_key (pr_public_key sample_peer)", OF k] bindE_Inr[where m = "key_pair sample_env", OF g]
    by (simp add: rotated_psk_def sample_row_def sample_env_def)
qed

lemma sample_configure: "fst (configure sample_env cs w) = Inr ()"
  by (simp add: configure_def sample_env_def dev_interface_def dev_configure_peers_def)

lemma sample_new_text: "b64_encode (sample_key CHR ''r'') \<noteq> b64_encode (sample_key CHR ''A'')"
    "b64_encode (sample_key CHR ''r'') \<noteq> b64_encode (sample_key CHR ''B'')"
proof -
  have "sample_key a = sample_key b" if "b64_encode (sample_key a) = b64_encode (sample_key b)" for a b
    by (rule key_text_inj[OF key_text_b64 sample_facts(4) sample_facts(4) that])
  then show "b64_encode (sample_key CHR ''r'') \<noteq> b64_encode (sample_key CHR ''A'')"
    "b64_encode (sample_key CHR ''r'') \<noteq> b64_encode (sample_key CHR ''B'')"
    by (fastforce simp: sample_key_def)+
qed

text \<open>The fresh key is put in the row; a driver error at that statement fails the rotation.\<close>

lemma sample_rekey:
  "UpdatePeerPublicKey (pr_public_key sample_peer) (b64_encode (sample_key CHR ''r'')) (w_db (with_faults [])) =
     (Inr (), (w_db (with_faults []))\<lparr>db_peers := rekeyed (b64_encode (sample_key CHR ''A'')) (b64_encode (sample_key CHR ''r'')) (db_peers (w_db (with_faults [])))\<rparr>)"
  "UpdatePeerPublicKey t n (w_db (with_faults [True])) = (Inl ErrDriver, w_db (with_faults []))"
  using sample_texts sample_new_text
  by (simp_all add: UpdatePeerPublicKey_def stmt_def with_faults_def sample_world_def update_key_def has_peer_def
      update_rows_def unique_ok_def rekeyed_def sample_row_def)

lemma used_random_simps [simp]: "w_db (used_random w) = w_db w" "w_fs (used_random w) = w_fs w"
  by (simp_all add: used_random_def)

lemma thenE_fst_Inr: "fst (m w) = Inr a \<Longrightarrow> thenE m n w = n (snd (m w))"
  and thenE_fst_Inl: "fst (m w) = Inl e \<Longrightarrow> thenE m n w = (Inl e, snd (m w))"
  by (auto simp: thenE_def bindE_def split: prod.splits)

lemma swap_back_failed: "fst (thenE (swap_back env old new) (fail e) w) = Inl e"
  by (simp add: swap_back_def re_add_def thenE_def bindE_def)

lemma sample_commit:
  "fst (rotate_commit sample_env sample_peer (plain_config a n None) (plain_config (sample_key CHR ''r'') n None) []
     (used_random (with_faults []))) = Inr ()"
  "fst (rotate_commit sample_env sample_peer (plain_config a n None) (plain_config (sample_key CHR ''r'') n None) []
     (used_random (with_faults [True]))) = Inl (ApiError 500 ''db_error'')"
proof -
  have k: "e_key sample_env = b64_encode" by (simp add: sample_env_def)
  have f: "fs_faults (w_fs (with_faults fs)) = []" for fs by (simp add: with_faults_def sample_world_def)
  have d: "db_faults (w_db (with_faults [])) = []" by (simp add: with_faults_def)
  show "fst (rotate_commit sample_env sample_peer (plain_config a n None) (plain_config (sample_key CHR ''r'') n None) []
     (used_random (with_faults []))) = Inr ()"
    by (simp add: rotate_commit_def Let_def thenE_fw thenE_ignoreE bindE_tryE sample_configure k sample_rekey(1)[unfolded One_nat_def]
        api_rewriteConf_total f d)
  show "fst (rotate_commit sample_env sample_peer (plain_config a n None) (plain_config (sample_key CHR ''r'') n None) []
     (used_random (with_faults [True]))) = Inl (ApiError 500 ''db_error'')"
    by (simp add: rotate_commit_def Let_def thenE_fw thenE_ignoreE bindE_tryE sample_configure k sample_rekey(2)
        swap_back_failed db_error_def)
qed

lemma sample_rotation:
  "reliable_wg (e_wg sample_env) dev_keys dev_ok" "dev_ok (w_kern (with_faults fs))" "db_inv (w_db (with_faults fs))"
  "fresh_pair sample_env dev_keys (w_kern (with_faults fs))"
  "\<forall>p \<in> set (db_peers (w_db (with_faults fs))). pr_allowed_ips p \<noteq> []"
proof -
  show "reliable_wg (e_wg sample_env) dev_keys dev_ok"
    using dev_reliable.reliable_wg_axioms by (simp add: sample_facts(3))
  show "dev_ok (w_kern (with_faults fs))" using sample_facts(5)[of "[sample_key CHR ''A'']"] by (simp add: with_faults_def)
  show "db_inv (w_db (with_faults fs))" using sample_db[of "[]"] by (simp add: with_faults_def)
  show "fresh_pair sample_env dev_keys (w_kern (with_faults fs))"
    by (simp add: fresh_pair_def sample_env_def dev_interface_def dev_generate_key_pair_def dev_random_def bindE_def
        with_faults_def sample_world_def sample_dev_def dev_keys_def) (simp add: sample_key_def)
  show "\<forall>p \<in> set (db_peers (w_db (with_faults fs))). pr_allowed_ips p \<noteq> []"
    by (simp add: with_faults_def sample_world_def sample_row_def)
qed

lemmas commit_run =
  thenE_fst_Inr[where m = "rotate_commit sample_env sample_peer (plain_config a n None) (plain_config (sample_key CHR ''r'') n None) []"
    for a n, OF sample_commit(1)]
  thenE_fst_Inl[where m = "rotate_commit sample_env sample_peer (plain_config a n None) (plain_config (sample_key CHR ''r'') n None) []"
    for a n, OF sample_commit(2)]

lemma sample_response: "fst (rotate_response sample_env sample_peer a t s w) \<noteq> Inl e"
  by (auto dest: rotate_response_error simp: sample_row_def)



end
