(* ===== verification/PeerChange.thy ===== *)
theory PeerChange
  imports PeerUpdate
begin

text \<open>
  What \<open>UpdatePeer\<close> and \<open>ApprovePeer\<close> (PeerUpdate.thy) do to the tables and in which order they
  call the kernel and the firewall, and the database invariant over every peer handler.
\<close>

subsection \<open>The tables and the calls so far\<close>

definition so_far :: "('k, 'f) world \<Rightarrow> peer list \<Rightarrow> call list \<Rightarrow> ('k, 'f) world \<Rightarrow> bool" where
  "so_far w0 rows l w \<longleftrightarrow> db_peers (w_db w) = rows \<and> w_log w = w_log w0 @ l"

definition rows_are :: "peer list \<Rightarrow> ('k, 'f) world \<Rightarrow> bool" where
  "rows_are rows w \<longleftrightarrow> db_peers (w_db w) = rows"

lemma reads_by_id [simp]: "reads (get_by_id i)"
  by (simp add: get_by_id_def reads_stmt)

text \<open>
  A property of the world that reading the tables or the device does not change, nor the
  configuration file and its flags: the shared calls of the handlers keep it.
\<close>

locale read_frame =
  fixes env :: "('k, 'f) env" and I :: "('k, 'f) world \<Rightarrow> bool"
  assumes db_read: "I w \<Longrightarrow> tables d = tables (w_db w) \<Longrightarrow> I (w\<lparr>w_db := d\<rparr>)"
    and dev_read: "I w \<Longrightarrow> I (snd (get_dev env w))"
    and conf_free: "I w \<Longrightarrow> I (w\<lparr>w_fs := fs, w_deb := b\<rparr>)"
begin

lemma keeps_read [keeps_intros]: "reads m \<Longrightarrow> keeps I (on_db m)"
  using db_read by (auto simp: keeps_def reads_def on_db_def split: prod.split) (metis snd_conv)

lemma keeps_dev [keeps_intros]: "keeps I (get_dev env)"
  using dev_read by (simp add: keeps_def)

lemma keeps_conf_calls [keeps_intros]:
  "keeps I notify_writer" "keeps I (write_direct ps)" "keeps I (write_shared ps)"
proof -
  have deb: "I (w\<lparr>w_deb := b\<rparr>)" if "I w" for w b
    using conf_free[OF that, where fs = "w_fs w" and b = b] by simp
  have fs: "I (w\<lparr>w_fs := f\<rparr>)" if "I w" for w f
    using conf_free[OF that, where fs = f and b = "w_deb w"] by (cases w) simp
  have both: "I (w\<lparr>w_deb := b, w_fs := f\<rparr>)" if "I w" for w f b
    using conf_free[OF that, where fs = f and b = b] by (cases w) simp
  show "keeps I notify_writer" "keeps I (write_direct ps)" "keeps I (write_shared ps)"
    using deb fs both
    by (auto simp: keeps_def notify_writer_def write_direct_def write_shared_def split: prod.splits)
qed

lemma keeps_calls [keeps_intros]:
  "reads m \<Longrightarrow> keeps I (db_call m)" "reads m \<Longrightarrow> keeps I (db_find m)"
  "keeps I (path_id s)" "keeps I (body_of b)" "keeps I (check_endpoint s)" "keeps I (stored_key s)" "keeps I (first_net s)"
  "keeps I (live_response env p)"
  unfolding db_call_def db_find_def path_id_def body_of_def check_endpoint_def stored_key_def first_net_def live_response_def
  by (intro keeps_intros; simp)+

lemma keeps_conf [keeps_intros]: "keeps I (api_rewriteConf env)" "keeps I (notifyConfChange env)"
  unfolding notifyConfChange_def api_rewriteConf_def buildPeerConfs_def by (intro keeps_intros; simp)+

lemma keeps_checks [keeps_intros]: "keeps I (resolve_profile env n)" "keeps I (check_address a x)"
  unfolding resolve_profile_def check_address_def by (intro keeps_intros; simp)+

end

text \<open>The look-up by id: a row with that id.\<close>

context read_frame begin

lemma find_row:
  assumes "\<And>w. I w \<Longrightarrow> db_peers (w_db w) = rs"
  shows "outcome I (db_find (get_by_id i)) (\<lambda>p w. I w \<and> (p \<in> set rs \<and> int (pr_id p) = i)) (\<lambda>_ _. True)"
proof (rule outcomeI)
  fix w a assume w: "I w" and a: "fst (db_find (get_by_id i) w) = Inr a"
  then have "fst (get_by_id i (w_db w)) = Inr a" by (auto simp: db_find_def mapErr_fst split: sum.splits if_splits)
  with get_by_id_ok[OF this] assms[OF w] keepsD[OF keeps_calls(2)[OF reads_by_id] w]
  show "I (snd (db_find (get_by_id i) w)) \<and> (a \<in> set rs \<and> int (pr_id a) = i)" by simp
qed simp

lemma call_row:
  assumes "\<And>w. I w \<Longrightarrow> db_peers (w_db w) = rs"
  shows "outcome I (db_call (get_by_id i)) (\<lambda>p w. I w \<and> (p \<in> set rs \<and> int (pr_id p) = i)) (\<lambda>_ _. True)"
proof (rule outcomeI)
  fix w a assume w: "I w" and a: "fst (db_call (get_by_id i) w) = Inr a"
  then have "fst (get_by_id i (w_db w)) = Inr a" by (auto simp: db_call_def mapErr_fst split: sum.splits if_splits)
  with get_by_id_ok[OF this] assms[OF w] keepsD[OF keeps_calls(1)[OF reads_by_id] w]
  show "I (snd (db_call (get_by_id i) w)) \<and> (a \<in> set rs \<and> int (pr_id a) = i)" by simp
qed simp

end

interpretation so_far: read_frame env "so_far w0 rows l" for env w0 rows l
  by unfold_locales (simp_all add: so_far_def tables_def)

interpretation rows: read_frame env "rows_are rs" for env rs
  by unfold_locales (simp_all add: rows_are_def tables_def)

text \<open>A success of a program that only reads: the state is kept.\<close>

lemma outcome_read:
  "keeps P m \<Longrightarrow> (\<And>a. outcome P (f a) Q (\<lambda>_ _. True)) \<Longrightarrow> outcome P (bindE m f) Q (\<lambda>_ _. True)"
  by (rule outcome_step) auto

lemma outcome_readE:
  "keeps P m \<Longrightarrow> outcome P n Q (\<lambda>_ _. True) \<Longrightarrow> outcome P (thenE m n) Q (\<lambda>_ _. True)"
  by (rule outcome_stepE) auto

lemma apply_no_update: "apply_update no_update p = p"
  by (simp add: apply_update_def no_update_def upd_def)

lemma UpdatePeer_rows:
  "fst (UpdatePeer key u d) = Inr a \<Longrightarrow> db_peers (snd (UpdatePeer key u d)) = update_rows key (apply_update u) (db_peers d)"
  by (auto simp: UpdatePeer_def stmt_def update_key_def apply_no_update update_rows_map map_idI split: if_splits)

lemma db_call_Inr: "fst (db_call m w) = Inr a \<Longrightarrow> fst (m (w_db w)) = Inr a"
  by (auto simp: db_call_def mapErr_fst split: sum.splits)

lemma UpdatePeer_so_far:
  "outcome (so_far w0 rows l) (db_call (UpdatePeer key u))
    (\<lambda>_. so_far w0 (update_rows key (apply_update u) rows) l) (\<lambda>_ _. True)"
  by (rule outcomeI) (auto simp: so_far_def db_call_def dest!: db_call_Inr[unfolded db_call_def] UpdatePeer_rows)

lemma so_far_fw:
  "outcome (so_far w0 rows l) (fw_apply env p) (\<lambda>_. so_far w0 rows (l @ [FwApply (pr_public_key p)])) E"
  "outcome (so_far w0 rows l) (fw_remove env p) (\<lambda>_. so_far w0 rows (l @ [FwRemove (pr_public_key p)])) E"
  by (simp_all add: outcome_def so_far_def)

lemma so_far_configure:
  "outcome (so_far w0 rows l) (configure env cs) (\<lambda>_. so_far w0 rows (l @ [KernelConfigure (map wc_key cs)]))
    (\<lambda>_. so_far w0 rows (l @ [KernelConfigure (map wc_key cs)]))"
  by (rule outcomeI) (simp_all add: so_far_def)

lemma path_id_ok: "outcome P (path_id s) (\<lambda>i w. P w \<and> parse_int64 s = Some i) (\<lambda>_ _. True)"
  by (simp add: outcome_def path_id_def split: option.split)

subsection \<open>UpdatePeer: the columns\<close>

lemma rows_areD: "rows_are rs w \<Longrightarrow> db_peers (w_db w) = rs"
  and so_farD: "so_far w0 rs l w \<Longrightarrow> db_peers (w_db w) = rs"
  by (simp_all add: rows_are_def so_far_def)

text \<open>Every kernel or firewall call keeps the rows.\<close>

lemma keeps_rows [keeps_intros]:
  "keeps (rows_are rs) (configure env cs)" "keeps (rows_are rs) (remove_key env x)"
  "keeps (rows_are rs) (fw_apply env p)" "keeps (rows_are rs) (fw_remove env p)"
  by (simp_all add: keeps_def rows_are_def)

lemma keeps_rows_update [keeps_intros]:
  "keeps (rows_are rs) (update_profile_ips env req)" "keeps (rows_are rs) (move_peer env p req)"
  "keeps (rows_are rs) (check_network_fields req)" "keeps (rows_are rs) (reconfigure env p req)"
  "keeps (rows_are rs) (refresh_firewall env i p req)"
  unfolding update_profile_ips_def move_peer_def kernel_add_def check_network_fields_def reconfigure_def
    refresh_firewall_def Let_def
  by (intro keeps_intros reads_by_id)+

text \<open>Whether the address moves, as the handler decides it.\<close>

definition moves :: "peer \<Rightarrow> update_request \<Rightarrow> bool" where
  "moves p req = (case uq_address req of None \<Rightarrow> False | Some a \<Rightarrow> a \<noteq> pr_client_address p)"

lemma update_address_moves:
  "outcome (rows_are rs) (update_address p req) (\<lambda>m w. rows_are rs w \<and> m = moves p req) (\<lambda>_ _. True)"
proof (cases "uq_address req")
  case (Some a)
  have "keeps (rows_are rs) (if a \<noteq> [] then check_address a (pr_public_key p) else ret ())" by (intro keeps_intros)
  then show ?thesis
    unfolding update_address_def Some option.case by (rule outcome_readE) (simp add: outcome_def moves_def Some)
qed (simp add: update_address_def moves_def outcome_def)

lemma UpdatePeer_rows_are:
  "outcome (rows_are rs) (db_call (UpdatePeer key u)) (\<lambda>_. rows_are (update_rows key (apply_update u) rs)) (\<lambda>_ _. True)"
  by (rule outcomeI) (auto simp: rows_are_def db_call_def dest!: db_call_Inr[unfolded db_call_def] UpdatePeer_rows)

lemma UpdatePeer_outcome:
  "outcome (rows_are rs) (api_UpdatePeer env s (Some req))
    (\<lambda>_ w. \<exists>p ips. p \<in> set rs \<and> parse_int64 s = Some (int (pr_id p)) \<and>
       rows_are (update_rows (pr_public_key p) (apply_update (update_columns env p req (moves p req) ips)) rs) w) (\<lambda>_ _. True)"
proof -
  have keep: "keeps (\<lambda>w. rows_are rs w \<and> b) m" if "keeps (rows_are rs) m" for b and m :: "('a, 'b, 'c) handler"
    using that by (simp add: keeps_def)
  show ?thesis
    unfolding api_UpdatePeer_def body_of_def option.case bindE_ret
    apply (rule outcome_bindE[OF path_id_ok], rule outcome_pure)
    apply (rule outcome_bindE[OF rows.find_row], erule rows_areD, rule outcome_pure)
    apply (rule outcome_readE, (intro keeps_intros; fail))
    apply (rule outcome_read, (intro keeps_intros; fail))
    apply (rule outcome_bindE[OF update_address_moves], rule outcome_pure)
    apply (rule outcome_readE, (intro keeps_intros; fail))
    apply (rule outcome_readE, (intro keeps_intros; fail))
    apply (rule outcome_read, (intro keeps_intros; fail))
    apply (rule outcome_thenE[OF UpdatePeer_rows_are])
    apply (rule outcome_readE, (intro keeps_intros; fail))
    apply (rule outcome_readE, (intro keeps_intros; fail))
    apply (rule outcome_read, (intro keeps_intros reads_by_id; fail))
    apply (rule outcome_conseq[OF outcome_keeps[OF rows.keeps_calls(8)]], assumption)
     apply blast
    apply simp
    done
qed


subsection \<open>UpdatePeer: enabling and disabling\<close>

definition only_enabled :: "bool \<Rightarrow> update_request" where
  "only_enabled b = \<lparr>uq_friendly_name = None, uq_profile = None, uq_enabled = Some b, uq_notes = None, uq_endpoint = None,
     uq_keepalive = None, uq_client_dns = None, uq_client_mtu = None, uq_address = None, uq_client_ips = None\<rparr>"

lemma only_enabled_fields:
  "uq_friendly_name (only_enabled b) = None" "uq_profile (only_enabled b) = None" "uq_enabled (only_enabled b) = Some b"
  "uq_endpoint (only_enabled b) = None" "uq_keepalive (only_enabled b) = None" "uq_address (only_enabled b) = None"
  "uq_client_ips (only_enabled b) = None"
  by (simp_all add: only_enabled_def)

lemma thenE_ret: "thenE (ret a) n = n"
  by (simp add: thenE_def)

lemma only_enabled_columns: "update_columns env p (only_enabled b) False [] = no_update\<lparr>up_enabled := Some b\<rparr>"
  by (simp add: update_columns_def only_enabled_def no_update_def)

definition set_enabled :: "string \<Rightarrow> bool \<Rightarrow> peer list \<Rightarrow> peer list" where
  "set_enabled key b = update_rows key (\<lambda>p. p\<lparr>pr_enabled := b\<rparr>)"

lemma apply_enabled: "apply_update (no_update\<lparr>up_enabled := Some b\<rparr>) = (\<lambda>p. p\<lparr>pr_enabled := b\<rparr>)"
  by (rule ext) (simp add: apply_update_def no_update_def upd_def)

lemma only_enabled_run:
  "api_UpdatePeer env s (Some (only_enabled b)) =
     bindE (path_id s) (\<lambda>i. bindE (db_find (get_by_id i)) (\<lambda>p.
       thenE (db_call (UpdatePeer (pr_public_key p) (no_update\<lparr>up_enabled := Some b\<rparr>)))
      (thenE (bindE (tryE (on_db (get_by_id i))) (\<lambda>r. case r of Inl _ \<Rightarrow> ret () | Inr q \<Rightarrow> fw_apply env q))
      (bindE (db_call (get_by_id i)) (live_response env)))))"
  unfolding api_UpdatePeer_def body_of_def option.case bindE_ret
  by (simp only: update_profile_ips_def update_address_def check_network_fields_def reconfigure_def refresh_firewall_def
      only_enabled_fields option.case bindE_ret thenE_ret if_False if_True simp_thms option.distinct only_enabled_columns)

text \<open>The read before the firewall may fail in the driver; then nothing is applied.\<close>

lemma reapply_outcome:
  "outcome (so_far w0 rs l) (bindE (tryE (on_db (get_by_id i))) (\<lambda>r. case r of Inl _ \<Rightarrow> ret () | Inr q \<Rightarrow> fw_apply env q))
    (\<lambda>_ w. \<exists>l'. so_far w0 rs (l @ l') w \<and> (l' = [] \<or> (\<exists>t. l' = [FwApply t]))) E"
  by (rule outcome_inspect[OF outcome_keeps[OF so_far.keeps_read[OF reads_by_id]]]; simp add: outcome_def so_far_def)

lemma live_so_far:
  "outcome (\<lambda>w. \<exists>l. so_far w0 rs l w \<and> b l) (bindE (db_call (get_by_id i)) (live_response env))
    (\<lambda>_ w. \<exists>l. so_far w0 rs l w \<and> b l) (\<lambda>_ _. True)"
proof -
  have "keeps (so_far w0 rs l) (bindE (db_call (get_by_id i)) (live_response env))" for l
    by (intro keeps_intros reads_by_id)
  then show ?thesis unfolding outcome_def keeps_def by blast
qed

lemma only_enabled_outcome:
  "outcome (so_far w0 rs []) (api_UpdatePeer env s (Some (only_enabled b)))
    (\<lambda>_ w. \<exists>p. p \<in> set rs \<and> parse_int64 s = Some (int (pr_id p)) \<and>
       (\<exists>l. so_far w0 (set_enabled (pr_public_key p) b rs) l w \<and> (l = [] \<or> (\<exists>t. l = [FwApply t])))) (\<lambda>_ _. True)"
  unfolding only_enabled_run
  apply (rule outcome_bindE[OF path_id_ok], rule outcome_pure)
  apply (rule outcome_bindE[OF so_far.find_row], erule so_farD, rule outcome_pure)
  apply (rule outcome_thenE[OF UpdatePeer_so_far])
  apply (rule outcome_thenE[OF reapply_outcome])
  apply (rule outcome_conseq[OF live_so_far[where b = "\<lambda>l. l = [] \<or> (\<exists>t. l = [FwApply t])"]])
    apply (simp only: append.simps)
   apply (auto simp: apply_enabled set_enabled_def)
  done

text \<open>
  Disabling a peer by UpdatePeer changes its row and applies its firewall rules anew, but makes
  no call to the kernel: the key stays configured there until the reconciler removes it.
\<close>
theorem disable_keeps_kernel:
  assumes "api_UpdatePeer env s (Some (only_enabled False)) w = (Inr r, w')"
  shows "\<exists>p l. p \<in> set (db_peers (w_db w)) \<and> parse_int64 s = Some (int (pr_id p)) \<and>
    db_peers (w_db w') = set_enabled (pr_public_key p) False (db_peers (w_db w)) \<and>
    w_log w' = w_log w @ l \<and> (l = [] \<or> (\<exists>t. l = [FwApply t]))"
  using outcomeD_ok[OF only_enabled_outcome _ assms, of w "db_peers (w_db w)"] by (auto simp: so_far_def)

lemma live_response_total: "fst (live_response env p w) \<noteq> Inl e"
  by (auto simp: live_response_def bindE_def split: sum.split option.split)

definition disabled_world :: "(dev_client, unit) world" where
  "disabled_world = (sample_world [sample_key CHR ''A''])\<lparr>w_db := (w_db (sample_world []))\<lparr>db_peers :=
     set_enabled (b64_encode (sample_key CHR ''A'')) False (db_peers (w_db (sample_world [])))\<rparr>\<rparr>"

lemma sample_disable:
  "db_call (UpdatePeer (pr_public_key sample_peer) (no_update\<lparr>up_enabled := Some False\<rparr>)) (sample_world [sample_key CHR ''A'']) =
     (Inr (), disabled_world)"
proof -
  have u: "no_update\<lparr>up_enabled := Some False\<rparr> \<noteq> no_update" "up_profile (no_update\<lparr>up_enabled := Some False\<rparr>) = None"
    by (simp_all add: no_update_def)
  show ?thesis
    using sample_texts
    by (simp add: db_call_def mapErr_def on_db_def UpdatePeer_def u apply_enabled stmt_def update_key_def has_peer_def
        upd_def profile_ok_def disabled_world_def sample_world_def set_enabled_def update_rows_def unique_ok_def
        sample_row_def sample_dev_def)
qed

lemma sample_disabled:
  obtains r w' where "api_UpdatePeer sample_env ''1'' (Some (only_enabled False)) (sample_world [sample_key CHR ''A'']) = (Inr r, w')"
proof -
  let ?w = "sample_world [sample_key CHR ''A'']"
  have id: "path_id ''1'' ?w = (Inr 1, ?w)" by (simp add: path_id_def) code_simp
  obtain q where q: "get_by_id 1 (w_db disabled_world) = (Inr q, w_db disabled_world)"
    by (simp add: get_by_id_def GetPeerByID_def stmt_def disabled_world_def sample_world_def set_enabled_def update_rows_def sample_row_def)
  then have on: "on_db (get_by_id 1) w = (Inr q, w)" if "w_db w = w_db disabled_world" for w :: "(dev_client, unit) world"
    using that by (simp add: on_db_def)
  have call: "db_call (get_by_id 1) w = (Inr q, w)" if "w_db w = w_db disabled_world" for w :: "(dev_client, unit) world"
    using on[OF that] by (simp add: db_call_def mapErr_def)
  have "fst (api_UpdatePeer sample_env ''1'' (Some (only_enabled False)) ?w) \<noteq> Inl e" for e
    unfolding only_enabled_run bindE_Inr[where m = "path_id ''1''", OF id]
      bindE_Inr[where m = "db_find (get_by_id 1)", OF sample_find]
      thenE_Inr[where m = "db_call (UpdatePeer (pr_public_key sample_peer) (no_update\<lparr>up_enabled := Some False\<rparr>))", OF sample_disable]
    by (simp add: thenE_def bindE_def q on call live_response_total)
  then show ?thesis using that by (metis prod.collapse sum.exhaust)
qed


theorem disable_keeps_kernel_witness:
  "\<exists>r w'. api_UpdatePeer sample_env ''1'' (Some (only_enabled False)) (sample_world [sample_key CHR ''A'']) = (Inr r, w') \<and>
     (\<forall>k. KernelRemove k \<notin> set (w_log w'))"
proof -
  obtain r w' where r: "api_UpdatePeer sample_env ''1'' (Some (only_enabled False)) (sample_world [sample_key CHR ''A'']) = (Inr r, w')"
    by (rule sample_disabled)
  have "w_log (sample_world [sample_key CHR ''A'']) = []" by (simp add: sample_world_def)
  with disable_keeps_kernel[OF r] r show ?thesis by fastforce
qed

subsection \<open>ApprovePeer\<close>

text \<open>The checks and the resolution of the profile only read.\<close>

lemma keeps_check_approve [keeps_intros]: "keeps (so_far w0 rs l) (check_approve env p req)"
  unfolding check_approve_def by (intro keeps_intros)

definition approved :: "peer \<Rightarrow> peer" where
  "approved p = p\<lparr>pr_enabled := True, pr_auto_discovered := False\<rparr>"

lemma ApprovePeer_so_far:
  "outcome (so_far w0 rows l) (db_call (ApprovePeer key)) (\<lambda>_. so_far w0 (update_rows key approved rows) l) (\<lambda>_ _. True)"
  by (rule outcomeI)
    (auto simp: so_far_def db_call_def ApprovePeer_def stmt_def update_key_def approved_def[abs_def]
      dest!: db_call_Inr[unfolded db_call_def] split: if_splits)

text \<open>The address checks, as facts about the request.\<close>

lemma check_approve_ok:
  "fst (check_approve env p req w) = Inr ips \<Longrightarrow> parse_cidr (aq_address req) \<noteq> None \<and> aq_client_ips req \<noteq> []"
  by (auto simp: check_approve_def check_address_def thenE_def bindE_def split: if_splits prod.splits sum.splits)

lemma check_approve_outcome:
  "outcome (so_far w0 rs l) (check_approve env p req)
    (\<lambda>_ w. so_far w0 rs l w \<and> parse_cidr (aq_address req) \<noteq> None) (\<lambda>_ _. True)"
  by (rule outcomeI) (auto dest: check_approve_ok keepsD[OF keeps_check_approve])

lemma stored_key_outcome:
  "outcome P (stored_key t) (\<lambda>k w. P w \<and> parse_key t = Some k) (\<lambda>_ _. True)"
  by (simp add: outcome_def stored_key_def split: option.split)

lemma ApprovePeer_outcome:
  "outcome (so_far w0 rs []) (api_ApprovePeer env s (Some req))
    (\<lambda>_ w. \<exists>p key t ips. p \<in> set rs \<and> parse_int64 s = Some (int (pr_id p)) \<and> pr_auto_discovered p \<and> \<not> pr_enabled p \<and>
       parse_cidr (aq_address req) \<noteq> None \<and> parse_key (pr_public_key p) = Some key \<and>
       so_far w0 (update_rows (pr_public_key p) approved (update_rows (pr_public_key p) (apply_update
         (approve_columns p req (serverAllowedIPs (aq_address req) (e_ipv6_prefix env)) ips)) rs))
         [KernelConfigure [key], FwApply t] w) (\<lambda>_ _. True)"
  unfolding api_ApprovePeer_def body_of_def option.case bindE_ret Let_def
  apply (rule outcome_bindE[OF path_id_ok], rule outcome_pure)
  apply (rule outcome_bindE[OF so_far.find_row], erule so_farD, rule outcome_pure)
  apply (rule outcome_thenE[OF outcome_guardE], simp, rule outcome_pure)
  apply (rule outcome_thenE[OF outcome_guardE], simp, rule outcome_pure)
  apply (rule outcome_bindE[OF check_approve_outcome], rule outcome_pure)
  apply (rule outcome_thenE[OF UpdatePeer_so_far])
  apply (rule outcome_thenE[OF ApprovePeer_so_far])
  apply (rule outcome_bindE[OF stored_key_outcome], rule outcome_pure)
  apply (rule outcome_read, (intro keeps_intros; fail))
  apply (rule outcome_thenE[OF outcome_ignoreE[OF so_far_configure]])
  apply (rule outcome_readE, (intro keeps_intros; fail))
  apply (rule outcome_read, (intro keeps_intros reads_by_id; fail))
  apply (rule outcome_thenE[OF so_far_fw(1)])
  apply (rule outcome_conseq[OF outcome_keeps[OF so_far.keeps_calls(8)]], assumption)
   apply (simp add: approve_config_def plain_config_def)
   apply blast
  apply simp
  done


text \<open>A peer that waits for approval, and the run of its approval.\<close>

definition waiting_row :: peer where
  "waiting_row = (sample_row 2 (b64_encode (sample_key CHR ''B'')) False [])\<lparr>pr_auto_discovered := True\<rparr>"

definition waiting_world :: "(dev_client, unit) world" where
  "waiting_world = (sample_world [])\<lparr>w_db := (w_db (sample_world []))\<lparr>db_peers := [sample_peer, waiting_row]\<rparr>\<rparr>"

definition approval :: approve_request where
  "approval = \<lparr>aq_friendly_name = [], aq_profile = None, aq_address = ''10.0.0.9/32'', aq_client_ips = ''0.0.0.0/0'',
     aq_endpoint = [], aq_client_dns = [], aq_client_mtu = None, aq_keepalive = None\<rparr>"

lemma approval_net: "parse_cidr ''10.0.0.9/32'' = Some (ip_of_v4 0x0A000009, Net4 (mask4 32 0x0A000009) 32)"
proof -
  have "dotted 0x0A000009 = ''10.0.0.9''" "dec 32 = ''32''"
    by (simp_all add: dotted_def unat_low_octet unat_drop_bit dec.simps)
  with parse_cidr_dotted[of 32 "0x0A000009"] show ?thesis by simp
qed

lemma approval_server: "serverAllowedIPs ''10.0.0.9/32'' [] = ''10.0.0.9/32''"
proof -
  have "dotted 0x0A000009 = ''10.0.0.9''" by (simp add: dotted_def unat_low_octet unat_drop_bit dec.simps)
  then show ?thesis by (simp add: serverAllowedIPs_def approval_net)
qed

lemma approval_first_net: "first_net ''10.0.0.9/32'' = ret (Net4 (mask4 32 0x0A000009) 32)"
proof -
  have "trim_space (hd (split_n2 CHR '','' ''10.0.0.9/32'')) = ''10.0.0.9/32''" by code_simp
  then show ?thesis unfolding first_net_def by (simp only: approval_net option.case prod.case)
qed

lemma waiting_checked: "check_approve sample_env waiting_row approval waiting_world = (Inr ''0.0.0.0/0'', waiting_world)"
proof -
  have net: "parse_cidr ''10.0.0.9/32'' \<noteq> None" using approval_net by simp
  have "check_address ''10.0.0.9/32'' (pr_public_key waiting_row) waiting_world = (Inr (), waiting_world)"
    using net
    by (simp add: check_address_def thenE_guardE bindE_def db_call_def mapErr_def on_db_def IsClientAddressTaken_def stmt_def
        waiting_world_def waiting_row_def sample_world_def sample_row_def)
  then show ?thesis
    by (simp add: check_approve_def approval_def thenE_guardE has_profile_ref_def check_endpoint_def keepalive_ok_def
        thenE_Inr[where m = "check_address ''10.0.0.9/32'' (pr_public_key waiting_row)"])
qed

definition approval_columns :: peer_update where
  "approval_columns = approve_columns waiting_row approval (serverAllowedIPs ''10.0.0.9/32'' []) ''0.0.0.0/0''"

definition approved_world :: "(dev_client, unit) world" where
  "approved_world = waiting_world\<lparr>w_db := (w_db waiting_world)\<lparr>db_peers :=
     [sample_peer, approved (apply_update approval_columns waiting_row)]\<rparr>\<rparr>"

lemma approval_fields:
  "approval_columns \<noteq> no_update" "up_profile approval_columns = None" "pr_public_key (apply_update u p) = pr_public_key p"
  "pr_client_address (apply_update approval_columns p) = ''10.0.0.9/32''" "pr_id (apply_update u p) = pr_id p"
  by (simp_all add: approval_columns_def approve_columns_def approval_def no_update_def apply_update_def upd_def has_profile_ref_def)

lemma waiting_updated:
  "thenE (db_call (UpdatePeer (pr_public_key waiting_row) approval_columns))
     (thenE (db_call (ApprovePeer (pr_public_key waiting_row))) n) waiting_world = n approved_world"
proof -
  have "db_call (UpdatePeer (pr_public_key waiting_row) approval_columns) waiting_world =
    (Inr (), waiting_world\<lparr>w_db := (w_db waiting_world)\<lparr>db_peers := [sample_peer, apply_update approval_columns waiting_row]\<rparr>\<rparr>)"
    using sample_texts
    by (simp add: db_call_def mapErr_def on_db_def UpdatePeer_def stmt_def update_key_def has_peer_def update_rows_def
        profile_ok_def upd_def approval_fields unique_ok_def waiting_world_def sample_world_def)
      (simp add: waiting_row_def sample_row_def)
  moreover have "db_call (ApprovePeer (pr_public_key waiting_row))
      (waiting_world\<lparr>w_db := (w_db waiting_world)\<lparr>db_peers := [sample_peer, apply_update approval_columns waiting_row]\<rparr>\<rparr>) =
    (Inr (), approved_world)"
    using sample_texts
    by (simp add: db_call_def mapErr_def on_db_def ApprovePeer_def stmt_def update_key_def has_peer_def update_rows_def
        approval_fields unique_ok_def waiting_world_def approved_world_def sample_world_def approved_def)
      (simp add: waiting_row_def sample_row_def)
  ultimately show ?thesis by (simp add: thenE_Inr)
qed

lemma sample_approve:
  obtains r w' where "api_ApprovePeer sample_env ''2'' (Some approval) waiting_world = (Inr r, w')"
proof -
  have id: "path_id ''2'' waiting_world = (Inr 2, waiting_world)" by (simp add: path_id_def) code_simp
  have find: "db_find (get_by_id 2) waiting_world = (Inr waiting_row, waiting_world)"
    by (simp add: db_find_def get_by_id_def GetPeerByID_def stmt_def mapErr_def on_db_def waiting_world_def sample_world_def
        waiting_row_def sample_row_def)
  have waiting: "pr_auto_discovered waiting_row" "\<not> pr_enabled waiting_row" by (simp_all add: waiting_row_def sample_row_def)
  have fields: "aq_address approval = ''10.0.0.9/32''" "e_ipv6_prefix sample_env = []" "e_debounced sample_env"
    by (simp_all add: approval_def sample_env_def)
  have key: "stored_key (pr_public_key waiting_row) approved_world = (Inr (sample_key CHR ''B''), approved_world)"
    by (simp add: stored_key_def waiting_row_def sample_row_def parse_key_b64 sample_facts(4))
  obtain q where q: "db_call (get_by_id 2) w = (Inr q, w)" if "w_db w = w_db approved_world" for w :: "(dev_client, unit) world"
  proof
    fix w :: "(dev_client, unit) world" assume "w_db w = w_db approved_world"
    then show "db_call (get_by_id 2) w = (Inr (approved (apply_update approval_columns waiting_row)), w)"
      by (simp add: db_call_def mapErr_def on_db_def get_by_id_def GetPeerByID_def stmt_def approved_world_def
          waiting_world_def sample_world_def approved_def approval_fields) (simp add: waiting_row_def sample_row_def)
  qed
  have "fst (api_ApprovePeer sample_env ''2'' (Some approval) waiting_world) \<noteq> Inl e" for e
    unfolding api_ApprovePeer_def body_of_def option.case bindE_ret Let_def fields approval_server approval_first_net
      bindE_Inr[where m = "path_id ''2''", OF id] bindE_Inr[where m = "db_find (get_by_id 2)", OF find]
      thenE_guardE if_P[OF waiting(1)] if_P[OF waiting(2)]
      bindE_Inr[where m = "check_approve sample_env waiting_row approval", OF waiting_checked]
      approval_columns_def[symmetric, unfolded approval_server] waiting_updated
      bindE_Inr[where m = "stored_key (pr_public_key waiting_row)", OF key] thenE_ignoreE
    by (simp add: notifyConfChange_def fields notify_writer_def thenE_def bindE_def q live_response_total)
  then show ?thesis using that by (metis prod.collapse sum.exhaust)
qed


subsection \<open>UpdatePeer: a refused request\<close>

definition late_request :: update_request where
  "late_request = \<lparr>uq_friendly_name = None, uq_profile = None, uq_enabled = None, uq_notes = None, uq_endpoint = None,
     uq_keepalive = Some (Some 70000), uq_client_dns = None, uq_client_mtu = None, uq_address = Some ''10.0.0.9/32'',
     uq_client_ips = None\<rparr>"

lemma late_fields:
  "uq_friendly_name late_request = None" "uq_profile late_request = None" "uq_endpoint late_request = None"
  "uq_keepalive late_request = Some (Some 70000)" "uq_address late_request = Some ''10.0.0.9/32''"
  "\<not> keepalive_ok (Some 70000)"
  by (simp_all add: late_request_def keepalive_ok_def)

text \<open>
  UpdatePeer configures a moved address in the kernel before it validates the keepalive and the
  endpoint: a request it refuses with status 400 has changed the kernel, while the row is as before.
\<close>
theorem update_refused_late:
  "fst (api_UpdatePeer sample_env ''1'' (Some late_request) (sample_world [sample_key CHR ''A''])) = Inl (ApiError 400 ''validation_error'') \<and>
   w_log (snd (api_UpdatePeer sample_env ''1'' (Some late_request) (sample_world [sample_key CHR ''A'']))) = [KernelConfigure [sample_key CHR ''A'']] \<and>
   w_db (snd (api_UpdatePeer sample_env ''1'' (Some late_request) (sample_world [sample_key CHR ''A'']))) = w_db (sample_world [])"
proof -
  let ?w = "sample_world [sample_key CHR ''A'']"
  have id: "path_id ''1'' ?w = (Inr 1, ?w)" by (simp add: path_id_def) code_simp
  have address: "update_address sample_peer late_request ?w = (Inr True, ?w)"
  proof -
    have "check_address ''10.0.0.9/32'' (pr_public_key sample_peer) ?w = (Inr (), ?w)"
      by (simp add: check_address_def approval_net thenE_guardE bindE_def db_call_def mapErr_def on_db_def
          IsClientAddressTaken_def stmt_def sample_world_def sample_row_def)
    then show ?thesis
      by (simp add: update_address_def late_fields sample_row_def thenE_def bindE_def)
  qed
  have key: "stored_key (pr_public_key sample_peer) ?w = (Inr (sample_key CHR ''A''), ?w)"
    by (simp add: stored_key_def sample_row_def parse_key_b64 sample_facts(4))
  define w1 where "w1 = snd (configure sample_env [(plain_config (sample_key CHR ''A'') [Net4 (mask4 32 0x0A000009) 32] None)\<lparr>wc_replace := True\<rparr>] ?w)"
  have env: "e_ipv6_prefix sample_env = []" by (simp add: sample_env_def)
  have move: "move_peer sample_env sample_peer late_request ?w = (Inr (), w1)"
    unfolding move_peer_def effective_address_def late_fields option.case env approval_server approval_first_net bindE_ret
      bindE_Inr[where m = "stored_key (pr_public_key sample_peer)", OF key] kernel_add_def
    by (simp add: prod_eq_iff mapErr_fst sample_configure w1_def)
  have run: "api_UpdatePeer sample_env ''1'' (Some late_request) ?w = (Inl (ApiError 400 ''validation_error''), w1)"
    unfolding api_UpdatePeer_def body_of_def option.case bindE_ret update_profile_ips_def late_fields thenE_ret
      bindE_Inr[where m = "path_id ''1''", OF id] bindE_Inr[where m = "db_find (get_by_id 1)", OF sample_find]
      bindE_Inr[where m = "update_address sample_peer late_request", OF address] if_True
      thenE_Inr[where m = "move_peer sample_env sample_peer late_request", OF move]
    by (simp add: check_network_fields_def late_fields thenE_ret thenE_Inl invalid_def)
  show ?thesis unfolding run by (simp add: w1_def) (simp add: sample_world_def)
qed

subsection \<open>The database invariant\<close>

text \<open>
  No request to a peer handler, whatever its outcome, breaks the database: ids, keys and the
  client addresses in use stay unique and every profile a peer names exists.
\<close>
theorem handlers_keep_database:
  assumes "db_inv (w_db w)"
  shows "db_inv (w_db (snd (api_CreatePeer env cbody w))) \<and> db_inv (w_db (snd (api_BatchCreatePeers env bbody w))) \<and>
    db_inv (w_db (snd (api_UpdatePeer env s ubody w))) \<and> db_inv (w_db (snd (api_RotateKeys env s w))) \<and>
    db_inv (w_db (snd (api_ApprovePeer env s abody w))) \<and> db_inv (w_db (snd (api_DeletePeer env s w)))"
  by (intro conjI keepsD[where I = db_ok, unfolded db_ok_def] keeps_CreatePeer[unfolded db_ok_def]
      keeps_BatchCreatePeers[unfolded db_ok_def] keeps_UpdatePeer[unfolded db_ok_def] keeps_RotateKeys[unfolded db_ok_def]
      keeps_ApprovePeer[unfolded db_ok_def] keeps_DeletePeer[unfolded db_ok_def] assms)

theorem handlers_keep_database_witness:
  "db_inv (w_db (snd (api_DeletePeer sample_env ''1'' (sample_world [sample_key CHR ''A'']))))"
  using handlers_keep_database[OF sample_db[of "[sample_key CHR ''A'']"]] by blast

end
