(* ===== verification/PeerQuery.thy ===== *)
theory PeerQuery
  imports PeerChange
begin

text \<open>
  The handlers that only read (handlers.go): \<open>ListPeers\<close>, \<open>GetPeer\<close>, \<open>Health\<close>, \<open>Stats\<close> and
  \<open>NextAddress\<close>. What they ask the operating system (the addresses of the interface, whether the
  directory of the configuration file is writable, the time) are arguments.
\<close>

subsection \<open>Peers\<close>

text \<open>The Go map of live peers: of two peers with one key the later one stays.\<close>

definition live_map :: "('k, 'f) env \<Rightarrow> wg_device \<Rightarrow> string \<rightharpoonup> wg_peer" where
  "live_map env dev = map_of (rev (map (\<lambda>p. (e_key env (wp_key p), p)) (dev_peers dev)))"

definition list_entry :: "(string \<rightharpoonup> wg_peer) \<Rightarrow> peer \<Rightarrow> peer_response" where
  "list_entry live p = (case live (pr_public_key p) of
     None \<Rightarrow> peerToResponse p | Some wp \<Rightarrow> merge_live wp (peerToResponse p))"

definition api_ListPeers :: "('k, 'f) env \<Rightarrow> ('k, 'f, peer_response list) handler" where
  "api_ListPeers env =
     bindE (db_call ListPeers) (\<lambda>ps.
     bindE (tryE (get_dev env)) (\<lambda>r.
       ret (map (list_entry (case r of Inl _ \<Rightarrow> Map.empty | Inr dev \<Rightarrow> live_map env dev)) ps)))"

definition api_GetPeer :: "('k, 'f) env \<Rightarrow> string \<Rightarrow> ('k, 'f, peer_response) handler" where
  "api_GetPeer env id_text = bindE (peer_of_path id_text) (live_response env)"

subsection \<open>Health and statistics\<close>

record health_response =
  hs_ok :: bool
  hs_wireguard :: bool
  hs_sqlite :: bool
  hs_conf_writable :: bool

text \<open>The status is 200 when \<open>hs_ok\<close> holds and 503 otherwise.\<close>

definition api_Health :: "('k, 'f) env \<Rightarrow> bool \<Rightarrow> ('k, 'f, health_response) handler" where
  "api_Health env conf_writable =
     bindE (tryE (get_dev env)) (\<lambda>wg.
     bindE (tryE (on_db (stmt (ret ())))) (\<lambda>db.
       ret \<lparr>hs_ok = (\<not> isl wg \<and> \<not> isl db \<and> conf_writable),
            hs_wireguard = (\<not> isl wg), hs_sqlite = (\<not> isl db), hs_conf_writable = conf_writable\<rparr>))"

record stats_response =
  st_total_peers :: nat
  st_online_peers :: nat
  st_rx :: int
  st_tx :: int

text \<open>Counters are 64-bit and wrap; times are in nanoseconds.\<close>

definition wrap64 :: "int \<Rightarrow> int" where
  "wrap64 x = (x + 2 ^ 63) mod 2 ^ 64 - 2 ^ 63"

definition online_threshold :: int where
  "online_threshold = 180 * 1000000000"

definition is_online :: "int \<Rightarrow> wg_peer \<Rightarrow> bool" where
  "is_online now p \<longleftrightarrow> wp_handshake p \<noteq> 0 \<and> now - int (wp_handshake p) < online_threshold"

definition stats_of :: "int \<Rightarrow> wg_peer list \<Rightarrow> stats_response" where
  "stats_of now ps = foldl (\<lambda>r p. r\<lparr>
       st_online_peers := st_online_peers r + (if is_online now p then 1 else 0),
       st_rx := wrap64 (st_rx r + wp_rx p), st_tx := wrap64 (st_tx r + wp_tx p)\<rparr>)
     \<lparr>st_total_peers = length ps, st_online_peers = 0, st_rx = 0, st_tx = 0\<rparr> ps"

definition api_Stats :: "('k, 'f) env \<Rightarrow> int \<Rightarrow> ('k, 'f, stats_response) handler" where
  "api_Stats env now =
     bindE (mapErr (\<lambda>_. ApiError 503 ''wireguard_error'') (get_dev env)) (\<lambda>dev. ret (stats_of now (dev_peers dev)))"

subsection \<open>The next free address\<close>

definition address_ip4 :: "string \<Rightarrow> ipv4 option" where
  "address_ip4 a = (case parse_cidr a of None \<Rightarrow> None | Some (ip, _) \<Rightarrow> ip_to4 ip)"

text \<open>The first address of the interface that is an IPv4 address, with its network.\<close>

fun interface_subnet :: "string list \<Rightarrow> (ipv4 \<times> ipnet) option" where
  "interface_subnet [] = None"
| "interface_subnet (a # as) =
     (case parse_cidr a of
        None \<Rightarrow> interface_subnet as
      | Some (ip, n) \<Rightarrow> (case ip_to4 ip of None \<Rightarrow> interface_subnet as | Some w \<Rightarrow> Some (w, n)))"

definition total_hosts :: "nat \<Rightarrow> int" where
  "total_hosts ones = 2 ^ (32 - ones) - 2"

definition next_scan_limit :: "nat \<Rightarrow> nat" where
  "next_scan_limit ones = nat (min (total_hosts ones) 65535)"

definition first_free :: "ipv4 list \<Rightarrow> ipv4 \<Rightarrow> nat \<Rightarrow> nat option" where
  "first_free occupied base ones =
     find (\<lambda>i. base + of_nat i \<notin> set occupied) [1..<Suc (next_scan_limit ones)]"

text \<open>\<open>addrs\<close> is \<open>None\<close> when there is no such interface, and empty when its addresses cannot be read.\<close>

definition api_NextAddress :: "string list option \<Rightarrow> ('k, 'f, string) handler" where
  "api_NextAddress addrs =
     (case addrs of
        None \<Rightarrow> fail (ApiError 404 ''interface_not_found'')
      | Some as \<Rightarrow>
          if as = [] then fail (ApiError 404 ''no_address'')
          else (case interface_subnet as of
            None \<Rightarrow> fail (ApiError 404 ''no_ipv4'')
          | Some (w, net) \<Rightarrow>
              bindE (db_call ListClientAddresses) (\<lambda>peers.
                case net of
                  Net6 _ _ \<Rightarrow> fail (ApiError 501 ''ipv6_not_supported'')
                | Net4 base ones \<Rightarrow>
                    if total_hosts ones \<le> 0 then fail (ApiError 409 ''subnet_full'')
                    else (case first_free (w # List.map_filter address_ip4 peers) base ones of
                      None \<Rightarrow> fail (ApiError 409 ''subnet_full'')
                    | Some i \<Rightarrow> ret (dotted (base + of_nat i) @ CHR ''/'' # dec ones)))))"

subsection \<open>The list agrees with the single look-ups\<close>

lemma map_of_rev_find:
  "distinct (map fst xs) \<Longrightarrow> map_of (rev xs) k = map_option snd (find (\<lambda>x. fst x = k) xs)"
  by (induction xs) (auto simp: map_add_def find_None_iff split: option.split dest!: find_SomeD)

lemma live_map_find:
  assumes "distinct (map (\<lambda>p. e_key env (wp_key p)) (dev_peers dev))"
  shows "live_map env dev t = find (\<lambda>p. e_key env (wp_key p) = t) (dev_peers dev)"
proof -
  have "map_option snd (find (\<lambda>x. fst x = t) (map (\<lambda>p. (e_key env (wp_key p), p)) ps)) =
    find (\<lambda>p. e_key env (wp_key p) = t) ps" for ps
    by (induction ps) auto
  with assms show ?thesis
    by (simp add: live_map_def map_of_rev_find comp_def)
qed


subsection \<open>The next address is free\<close>

lemma mask4_offset:
  assumes "n \<le> 32" "i < 2 ^ (32 - n)"
  shows "mask4 n (mask4 n w + of_nat i) = mask4 n w"
proof -
  have low: "take_bit (32 - n) (of_nat i :: ipv4) = of_nat i"
    using assms(2) by (simp add: take_bit_of_nat take_bit_nat_eq_self)
  have "mask4 n w AND of_nat i = 0"
    unfolding mask4_def by (subst low[symmetric], rule bit_word_eqI) (auto simp: bit_simps)
  then have "mask4 n w + of_nat i = mask4 n w OR of_nat i" by (rule disjunctive_add_eq_or)
  also have "\<dots> = mask4 n w OR take_bit (32 - n) (of_nat i)" by (simp only: low)
  finally have sum: "mask4 n w + of_nat i = mask4 n w OR take_bit (32 - n) (of_nat i)" .
  show ?thesis
    unfolding sum unfolding mask4_def by (rule bit_word_eqI) (auto simp: bit_simps)
qed

lemma interface_subnet_net:
  "interface_subnet as = Some (own, Net4 base ones) \<Longrightarrow> ones \<le> 32 \<and> mask4 ones base = base"
  by (induction as rule: interface_subnet.induct)
    (auto simp: parse_cidr_def split: option.splits if_splits addr.splits prod.splits)

lemma find_upt:
  "find P [m..<n] = Some i \<Longrightarrow> m \<le> i \<and> i < n \<and> P i \<and> (\<forall>j. m \<le> j \<and> j < i \<longrightarrow> \<not> P j)"
  "find P [m..<n] = None \<Longrightarrow> m \<le> j \<Longrightarrow> j < n \<Longrightarrow> \<not> P j"
proof -
  show "find P [m..<n] = Some i \<Longrightarrow> m \<le> i \<and> i < n \<and> P i \<and> (\<forall>j. m \<le> j \<and> j < i \<longrightarrow> \<not> P j)"
  proof -
    assume "find P [m..<n] = Some i"
    then obtain k where k: "k < n - m" "P (m + k)" "i = m + k" "\<forall>j<k. \<not> P (m + j)"
      by (auto simp: find_Some_iff)
    show ?thesis
    proof (intro conjI allI impI)
      fix j assume "m \<le> j \<and> j < i"
      then show "\<not> P j" using k(3) k(4)[rule_format, of "j - m"] by (cases "j - m < k") auto
    qed (use k in auto)
  qed
  show "find P [m..<n] = None \<Longrightarrow> m \<le> j \<Longrightarrow> j < n \<Longrightarrow> \<not> P j" by (auto simp: find_None_iff)
qed

text \<open>An address is in use: it is the interface's own or the client address of a peer.\<close>

definition in_use :: "ipv4 \<Rightarrow> peer list \<Rightarrow> ipv4 \<Rightarrow> bool" where
  "in_use own ps x \<longleftrightarrow> x = own \<or> (\<exists>p \<in> set ps. address_ip4 (pr_client_address p) = Some x)"

lemma address_empty [simp]: "address_ip4 [] = None"
  by (simp add: address_ip4_def parse_cidr_def split_first_def)

lemma set_map_filter: "set (List.map_filter f xs) = {y. \<exists>x \<in> set xs. f x = Some y}"
  by (induction xs) (auto simp: map_filter_simps split: option.splits)

lemma occupied_in_use:
  "x \<in> set (own # List.map_filter address_ip4 (filter (\<lambda>a. a \<noteq> []) (map pr_client_address ps))) \<longleftrightarrow> in_use own ps x"
  by (fastforce simp: in_use_def set_map_filter)

lemma NextAddress_run:
  assumes "interface_subnet as = Some (own, net)" "db_call ListClientAddresses w = (Inr peers, w1)"
  shows "api_NextAddress (Some as) w = (case net of
      Net6 _ _ \<Rightarrow> fail (ApiError 501 ''ipv6_not_supported'')
    | Net4 base ones \<Rightarrow>
        if total_hosts ones \<le> 0 then fail (ApiError 409 ''subnet_full'')
        else (case first_free (own # List.map_filter address_ip4 peers) base ones of
            None \<Rightarrow> fail (ApiError 409 ''subnet_full'')
          | Some i \<Rightarrow> ret (dotted (base + of_nat i) @ CHR ''/'' # dec ones))) w1"
proof -
  have "as \<noteq> []" using assms(1) by auto
  then show ?thesis by (simp add: api_NextAddress_def assms(1) bindE_Inr[where m = "db_call ListClientAddresses", OF assms(2)])
qed

lemma ListClientAddresses_ok:
  "db_call ListClientAddresses w = (Inr peers, w1) \<Longrightarrow> peers = filter (\<lambda>a. a \<noteq> []) (map pr_client_address (db_peers (w_db w)))"
  by (auto simp: db_call_def mapErr_def on_db_def ListClientAddresses_def stmt_def split: prod.splits sum.splits if_splits)

text \<open>
  C33: The address NextAddress suggests is a host address of the subnet of the interface, neither the
  interface's own nor the address of any peer, however it is written in the database, and the lowest
  such address; its text reads back as that address with the prefix of the subnet.
\<close>
theorem next_address_free:
  assumes "api_NextAddress (Some as) w = (Inr a, w')"
  shows "\<exists>own base ones i. interface_subnet as = Some (own, Net4 base ones) \<and>
    0 < i \<and> int i \<le> total_hosts ones \<and> parse_cidr a = Some (ip_of_v4 (base + of_nat i), Net4 base ones) \<and>
    \<not> in_use own (db_peers (w_db w)) (base + of_nat i) \<and>
    (\<forall>j. 0 < j \<and> j < i \<longrightarrow> in_use own (db_peers (w_db w)) (base + of_nat j))"
proof -
  obtain own net where n: "interface_subnet as = Some (own, net)"
    using assms by (auto simp: api_NextAddress_def split: if_splits option.splits)
  obtain peers w1 where l: "db_call ListClientAddresses w = (Inr peers, w1)"
    using assms n by (auto simp: api_NextAddress_def dest!: bindE_InrD split: if_splits)
  obtain base ones where net: "net = Net4 base ones" "0 < total_hosts ones"
    using assms unfolding NextAddress_run[OF n l] by (auto split: ipnet.splits if_splits)
  obtain i where i: "first_free (own # List.map_filter address_ip4 peers) base ones = Some i"
    "a = dotted (base + of_nat i) @ CHR ''/'' # dec ones"
    using assms net unfolding NextAddress_run[OF n l] by (auto split: option.splits)
  note peers = ListClientAddresses_ok[OF l]
  note ones = interface_subnet_net[OF n[unfolded net(1)]]
  have scan: "1 \<le> i \<and> i < Suc (next_scan_limit ones) \<and> \<not> in_use own (db_peers (w_db w)) (base + of_nat i) \<and>
      (\<forall>j. 1 \<le> j \<and> j < i \<longrightarrow> in_use own (db_peers (w_db w)) (base + of_nat j))"
    using find_upt(1)[OF i(1)[unfolded first_free_def]] by (simp add: peers flip: occupied_in_use)
  then have hosts: "int i \<le> total_hosts ones" using net(2) by (auto simp: next_scan_limit_def)
  then have "int i < int (2 ^ (32 - ones))" unfolding total_hosts_def of_nat_power of_nat_numeral by linarith
  then have "i < 2 ^ (32 - ones)" by (simp only: of_nat_less_iff)
  then have "mask4 ones (base + of_nat i) = base" using mask4_offset[of ones i base] ones by simp
  then have "parse_cidr a = Some (ip_of_v4 (base + of_nat i), Net4 base ones)"
    using parse_cidr_dotted[of ones "base + of_nat i"] ones i(2) by simp
  with n net scan hosts show ?thesis by (intro exI[of _ own] exI[of _ base] exI[of _ ones] exI[of _ i]) auto
qed

text \<open>
  NextAddress reports a full subnet only when it has no host addresses at all or when each of its
  first 65535 host addresses is in use.
\<close>
theorem next_address_full:
  assumes "api_NextAddress (Some as) w = (Inl (ApiError 409 c), w')" "interface_subnet as = Some (own, Net4 base ones)"
    "0 < j" "int j \<le> total_hosts ones" "j \<le> 65535"
  shows "in_use own (db_peers (w_db w)) (base + of_nat j)"
proof -
  obtain peers w1 where l: "db_call ListClientAddresses w = (Inr peers, w1)"
  proof (cases "db_call ListClientAddresses w")
    case (Pair r w1)
    have "as \<noteq> []" using assms(2) by auto
    then have "r \<noteq> Inl e" for e
      using assms(1,2) Pair
      by (auto simp: api_NextAddress_def bindE_def db_call_def mapErr_def db_error_def split: prod.splits sum.splits)
    then show ?thesis using Pair that by (cases r) auto
  qed
  note peers = ListClientAddresses_ok[OF l]
  have "0 < total_hosts ones" using assms(3,4) by simp
  then have "first_free (own # List.map_filter address_ip4 peers) base ones = None"
    using assms(1) unfolding NextAddress_run[OF assms(2) l] by (auto split: option.splits)
  moreover have "j < Suc (next_scan_limit ones)" using assms(4,5) by (auto simp: next_scan_limit_def)
  ultimately have "\<not> (base + of_nat j \<notin> set (own # List.map_filter address_ip4 peers))"
    using find_upt(2)[where P = "\<lambda>i. base + of_nat i \<notin> set (own # List.map_filter address_ip4 peers)", of 1 "Suc (next_scan_limit ones)" j]
      assms(3) unfolding first_free_def by linarith
  then have "base + of_nat j \<in> set (own # List.map_filter address_ip4 peers)" by (rule notnotD)
  then show ?thesis unfolding peers occupied_in_use .
qed

subsection \<open>Samples\<close>

lemma sample_subnet:
  "interface_subnet [''10.0.0.1/24''] = Some (0x0A000001, Net4 0x0A000000 24)"
  "interface_subnet [''10.0.0.1/30''] = Some (0x0A000001, Net4 0x0A000000 30)"
  "address_ip4 ''10.0.0.2/32'' = Some 0x0A000002" "address_ip4 ''10.0.0.3/32'' = Some 0x0A000003"
proof -
  have d: "dotted 0x0A000001 = ''10.0.0.1''" "dotted 0x0A000002 = ''10.0.0.2''" "dotted 0x0A000003 = ''10.0.0.3''"
    "dec 24 = ''24''" "dec 30 = ''30''" "dec 32 = ''32''"
    by (simp_all add: dotted_def unat_low_octet unat_drop_bit dec.simps)
  show "interface_subnet [''10.0.0.1/24''] = Some (0x0A000001, Net4 0x0A000000 24)"
    "interface_subnet [''10.0.0.1/30''] = Some (0x0A000001, Net4 0x0A000000 30)"
    "address_ip4 ''10.0.0.2/32'' = Some 0x0A000002" "address_ip4 ''10.0.0.3/32'' = Some 0x0A000003"
    using parse_cidr_dotted[of 24 "0x0A000001"] parse_cidr_dotted[of 30 "0x0A000001"]
      parse_cidr_dotted[of 32 "0x0A000002"] parse_cidr_dotted[of 32 "0x0A000003"]
    by (simp_all add: d mask4_def address_ip4_def)
qed

lemma sample_addresses:
  "db_call ListClientAddresses (sample_world ks) = (Inr [''10.0.0.2/32'', ''10.0.0.3/32''], sample_world ks)"
  by (simp add: db_call_def mapErr_def on_db_def ListClientAddresses_def stmt_def sample_world_def sample_row_def)

lemma sample_next:
  "api_NextAddress (Some [''10.0.0.1/24'']) (sample_world ks) = (Inr (dotted (0x0A000000 + of_nat 4) @ CHR ''/'' # dec 24), sample_world ks)"
  "api_NextAddress (Some [''10.0.0.1/30'']) (sample_world []) = (Inl (ApiError 409 ''subnet_full''), sample_world [])"
proof -
  have occ: "List.map_filter address_ip4 [''10.0.0.2/32'', ''10.0.0.3/32''] = [0x0A000002, 0x0A000003]"
    by (simp add: map_filter_simps sample_subnet)
  have "next_scan_limit 24 = 254" "next_scan_limit 30 = 2" by (simp_all add: next_scan_limit_def total_hosts_def)
  then have "first_free [0x0A000001, 0x0A000002, 0x0A000003] 0x0A000000 24 = Some 4"
    "first_free [0x0A000001, 0x0A000002, 0x0A000003] 0x0A000000 30 = None"
    by (simp_all add: first_free_def upt_conv_Cons)
  with occ show "api_NextAddress (Some [''10.0.0.1/24'']) (sample_world ks) = (Inr (dotted (0x0A000000 + of_nat 4) @ CHR ''/'' # dec 24), sample_world ks)"
    "api_NextAddress (Some [''10.0.0.1/30'']) (sample_world []) = (Inl (ApiError 409 ''subnet_full''), sample_world [])"
    unfolding NextAddress_run[OF sample_subnet(1) sample_addresses] NextAddress_run[OF sample_subnet(2) sample_addresses]
    by (simp_all add: total_hosts_def)
qed

theorem next_address_free_witness:
  "\<exists>a i. fst (api_NextAddress (Some [''10.0.0.1/24'']) (sample_world [])) = Inr a \<and>
     parse_cidr a = Some (ip_of_v4 (0x0A000000 + of_nat i), Net4 0x0A000000 24) \<and> 0 < i"
  using next_address_free[OF sample_next(1)[of "[]"]] unfolding sample_subnet(1) sample_next(1) by auto

theorem next_address_full_witness:
  "in_use 0x0A000001 (db_peers (w_db (sample_world []))) (0x0A000000 + of_nat 2)"
  by (rule next_address_full[OF sample_next(2) sample_subnet(2)]) (simp_all add: total_hosts_def)


end
