(* ===== verification/ProfileApi.thy ===== *)
theory ProfileApi
  imports PeerQuery
begin

text \<open>
  The handlers of profiles (handlers_profiles.go): reading, creating, updating and deleting a
  profile, and the response with the prefixes the CIDR calculator resolves. The invariant is that
  every stored profile resolves, so that no peer request that names one fails in the calculator.
\<close>

subsection \<open>Requests and responses\<close>

record create_profile_request =
  cp_name :: string
  cp_allowed_ips :: "string list"
  cp_exclude_ips :: "string list"
  cp_description :: string
  cp_keepalive :: "int option"
  cp_client_dns :: string
  cp_client_mtu :: "int option"
  cp_use_psk :: bool

record update_profile_request =
  upq_allowed_ips :: "string list option"
  upq_exclude_ips :: "string list option"
  upq_description :: "string option"
  upq_keepalive :: "int option option"
  upq_client_dns :: "string option"
  upq_client_mtu :: "int option option"
  upq_use_psk :: "bool option"

record profile_response =
  pp_name :: string
  pp_allowed_ips :: "string list"
  pp_exclude_ips :: "string list"
  pp_resolved :: "string list"
  pp_description :: string
  pp_is_default :: bool
  pp_route_count :: nat
  pp_route_warning :: string
  pp_peer_count :: nat
  pp_keepalive :: "int option"
  pp_client_dns :: string
  pp_client_mtu :: "int option"
  pp_use_psk :: bool

text \<open>The pattern of a name: lowercase letters, digits and inner hyphens, two characters at least.\<close>

definition name_edge :: "char \<Rightarrow> bool" where
  "name_edge c \<longleftrightarrow> is_digit c \<or> (CHR ''a'' \<le> c \<and> c \<le> CHR ''z'')"

definition profileNameRe :: "string \<Rightarrow> bool" where
  "profileNameRe s \<longleftrightarrow> 2 \<le> length s \<and> name_edge (hd s) \<and> name_edge (last s) \<and>
     list_all (\<lambda>c. name_edge c \<or> c = CHR ''-'') s"

definition resolved :: "('k, 'f) env \<Rightarrow> string list \<Rightarrow> string list \<Rightarrow> string + cidr_result" where
  "resolved env allowed excluded = compute_allowed_ips (e_ip_set env) allowed excluded"

definition profileToResponse :: "('k, 'f) env \<Rightarrow> profile \<Rightarrow> profile_response" where
  "profileToResponse env p =
     (let r = (case resolved env (pf_allowed_ips p) (pf_exclude_ips p) of
          Inl _ \<Rightarrow> \<lparr>cr_prefixes = pf_allowed_ips p, cr_route_count = length (pf_allowed_ips p), cr_warning = []\<rparr>
        | Inr r \<Rightarrow> r) in
      \<lparr>pp_name = pf_name p, pp_allowed_ips = pf_allowed_ips p, pp_exclude_ips = pf_exclude_ips p,
       pp_resolved = cr_prefixes r, pp_description = pf_description p, pp_is_default = pf_is_default p,
       pp_route_count = cr_route_count r, pp_route_warning = cr_warning r, pp_peer_count = 0,
       pp_keepalive = pf_persistent_keepalive p, pp_client_dns = pf_client_dns p, pp_client_mtu = pf_client_mtu p,
       pp_use_psk = pf_use_preshared_key p\<rparr>)"

text \<open>The number of peers of a profile, when it can be counted.\<close>

definition counted :: "(db_err + (string \<rightharpoonup> nat)) \<Rightarrow> profile_response \<Rightarrow> profile_response" where
  "counted counts r = (case counts of Inl _ \<Rightarrow> r
     | Inr f \<Rightarrow> r\<lparr>pp_peer_count := (case f (pp_name r) of None \<Rightarrow> 0 | Some n \<Rightarrow> n)\<rparr>)"

subsection \<open>The handlers\<close>

definition api_GetProfile :: "('k, 'f) env \<Rightarrow> string \<Rightarrow> ('k, 'f, profile_response) handler" where
  "api_GetProfile env name =
     bindE (db_find (GetProfile name)) (\<lambda>p.
     bindE (tryE (on_db CountPeersPerProfile)) (\<lambda>counts. ret (counted counts (profileToResponse env p))))"

definition api_ListProfiles :: "('k, 'f) env \<Rightarrow> ('k, 'f, profile_response list) handler" where
  "api_ListProfiles env =
     bindE (db_call ListProfiles) (\<lambda>ps.
     bindE (tryE (on_db CountPeersPerProfile)) (\<lambda>counts. ret (map (\<lambda>p. counted counts (profileToResponse env p)) ps)))"

definition check_cidrs :: "('k, 'f) env \<Rightarrow> string list \<Rightarrow> string list \<Rightarrow> ('k, 'f, unit) handler" where
  "check_cidrs env allowed excluded = guardE (\<not> isl (resolved env allowed excluded)) invalid"

definition new_profile :: "create_profile_request \<Rightarrow> profile" where
  "new_profile req = \<lparr>pf_name = cp_name req, pf_allowed_ips = cp_allowed_ips req, pf_exclude_ips = cp_exclude_ips req,
     pf_description = cp_description req, pf_is_default = False, pf_created_at = 0,
     pf_persistent_keepalive = cp_keepalive req, pf_client_dns = cp_client_dns req, pf_client_mtu = cp_client_mtu req,
     pf_use_preshared_key = cp_use_psk req\<rparr>"

definition api_CreateProfile :: "('k, 'f) env \<Rightarrow> create_profile_request option \<Rightarrow> ('k, 'f, profile_response) handler" where
  "api_CreateProfile env body =
     bindE (body_of body) (\<lambda>req.
     thenE (guardE (cp_name req \<noteq> []) invalid)
    (thenE (guardE (2 \<le> length (cp_name req) \<and> length (cp_name req) \<le> 64) invalid)
    (thenE (guardE (profileNameRe (cp_name req)) invalid)
    (thenE (guardE (cp_allowed_ips req \<noteq> []) invalid)
    (thenE (check_cidrs env (cp_allowed_ips req) (cp_exclude_ips req))
    (thenE (mapErr (\<lambda>e. if IsConflict e then ApiError 409 ''conflict'' else db_error e)
              (on_db (CreateProfile (new_profile req))))
    (bindE (db_call (GetProfile (cp_name req))) (\<lambda>p. ret (profileToResponse env p)))))))))"

definition merged_profile :: "profile \<Rightarrow> update_profile_request \<Rightarrow> profile" where
  "merged_profile p req = p\<lparr>
     pf_allowed_ips := upd (upq_allowed_ips req) (pf_allowed_ips p),
     pf_exclude_ips := upd (upq_exclude_ips req) (pf_exclude_ips p),
     pf_description := upd (upq_description req) (pf_description p),
     pf_persistent_keepalive := upd (upq_keepalive req) (pf_persistent_keepalive p),
     pf_client_dns := upd (upq_client_dns req) (pf_client_dns p),
     pf_client_mtu := upd (upq_client_mtu req) (pf_client_mtu p),
     pf_use_preshared_key := upd (upq_use_psk req) (pf_use_preshared_key p)\<rparr>"

definition api_UpdateProfile ::
  "('k, 'f) env \<Rightarrow> string \<Rightarrow> update_profile_request option \<Rightarrow> ('k, 'f, profile_response) handler" where
  "api_UpdateProfile env name body =
     bindE (db_find (GetProfile name)) (\<lambda>p.
     bindE (body_of body) (\<lambda>req.
     let u = merged_profile p req in
     thenE (check_cidrs env (pf_allowed_ips u) (pf_exclude_ips u))
    (thenE (db_call (UpdateProfile name u))
    (bindE (db_call (GetProfile name)) (\<lambda>q. ret (profileToResponse env q))))))"

definition api_DeleteProfile :: "string \<Rightarrow> ('k, 'f, unit) handler" where
  "api_DeleteProfile name =
     mapErr (\<lambda>e. if e = ErrNoRows then ApiError 404 ''not_found'' else ApiError 409 ''conflict'') (on_db (DeleteProfile name))"

subsection \<open>The database invariant\<close>

lemma keeps_profile_handlers:
  "keeps db_ok (api_GetProfile env n)" "keeps db_ok (api_ListProfiles env)" "keeps db_ok (api_CreateProfile env cbody)"
  "keeps db_ok (api_UpdateProfile env n ubody)" "keeps db_ok (api_DeleteProfile n)"
  unfolding api_GetProfile_def api_ListProfiles_def api_CreateProfile_def api_UpdateProfile_def api_DeleteProfile_def
    check_cidrs_def Let_def
  by (intro keeps_intros; fail)+

subsection \<open>Every stored profile resolves\<close>

definition resolvable :: "('k, 'f) env \<Rightarrow> ('k, 'f) world \<Rightarrow> bool" where
  "resolvable env w \<longleftrightarrow> (\<forall>p \<in> set (db_profiles (w_db w)). \<not> isl (resolved env (pf_allowed_ips p) (pf_exclude_ips p)))"

interpretation resolvable: read_frame env' "resolvable env" for env' env
  by unfold_locales (simp_all add: resolvable_def tables_def)

lemma check_cidrs_outcome:
  "outcome P (check_cidrs env a x) (\<lambda>_ w. P w \<and> \<not> isl (resolved env a x)) (\<lambda>_. P)"
  by (simp add: outcome_def check_cidrs_def)

lemma outcome_conj_keeps: "keeps P m \<Longrightarrow> outcome (\<lambda>w. P w \<and> b) m (\<lambda>_ w. P w \<and> b) (\<lambda>_. P)"
  by (simp add: outcome_def keeps_def)

lemma CreateProfile_resolvable:
  "\<not> isl (resolved env (pf_allowed_ips p) (pf_exclude_ips p)) \<Longrightarrow> keeps (resolvable env) (on_db (CreateProfile p))"
  by (auto simp: keeps_def resolvable_def CreateProfile_def stmt_def insert_profile_def)

lemma UpdateProfile_resolvable:
  "\<not> isl (resolved env (pf_allowed_ips u) (pf_exclude_ips u)) \<Longrightarrow> keeps (resolvable env) (on_db (UpdateProfile n u))"
  by (auto simp: keeps_def resolvable_def UpdateProfile_def stmt_def profile_columns_def)

lemma DeleteProfile_resolvable: "keeps (resolvable env) (on_db (DeleteProfile n))"
  by (auto simp: keeps_def resolvable_def DeleteProfile_def stmt_def)

lemma keeps_resolvable:
  "keeps (resolvable env) (api_CreateProfile env cbody)" "keeps (resolvable env) (api_UpdateProfile env n ubody)"
  "keeps (resolvable env) (api_DeleteProfile n)"
proof -
  let ?I = "resolvable env"
  have start: "outcome ?I (bindE m f) (\<lambda>_. ?I) (\<lambda>_. ?I)"
    if "keeps ?I m" "\<And>a. outcome ?I (f a) (\<lambda>_. ?I) (\<lambda>_. ?I)" for m f
    using that by (intro outcome_bindE[OF outcome_keeps])
  have steps: "outcome ?I (thenE m n) (\<lambda>_. ?I) (\<lambda>_. ?I)"
    if "keeps ?I m" "outcome ?I n (\<lambda>_. ?I) (\<lambda>_. ?I)" for m n
    using that by (intro outcome_thenE[OF outcome_keeps])
  have checked: "outcome ?I (thenE (check_cidrs env a x) n) (\<lambda>_. ?I) (\<lambda>_. ?I)"
    if "\<not> isl (resolved env a x) \<Longrightarrow> keeps ?I n" for a x n
    by (rule outcome_thenE[OF check_cidrs_outcome], rule outcome_pure, rule outcome_keeps[OF that])
  show "keeps ?I (api_CreateProfile env cbody)"
    unfolding api_CreateProfile_def
    by (rule keeps_outcome, rule start, (intro keeps_intros; fail), rule steps, (intro keeps_intros; fail),
        rule steps, (intro keeps_intros; fail), rule steps, (intro keeps_intros; fail), rule steps, (intro keeps_intros; fail),
        rule checked, rule keeps_thenE, rule keeps_mapErr, rule CreateProfile_resolvable, simp add: new_profile_def,
        intro keeps_intros reads_queries)
  show "keeps ?I (api_UpdateProfile env n ubody)"
    unfolding api_UpdateProfile_def Let_def
    by (rule keeps_outcome, rule start, (intro keeps_intros reads_queries; fail), rule start, (intro keeps_intros; fail),
        rule checked, rule keeps_thenE, unfold db_call_def, rule keeps_mapErr, erule UpdateProfile_resolvable,
        intro keeps_intros reads_queries)
  show "keeps ?I (api_DeleteProfile n)"
    unfolding api_DeleteProfile_def by (intro keeps_mapErr DeleteProfile_resolvable)
qed

lemma resolve_profile_resolvable:
  assumes "resolvable env w"
  shows "fst (resolve_profile env n w) \<noteq> Inl (ApiError 500 ''cidr_error'')"
proof -
  have "p \<in> set (db_profiles d)" if "fst (GetProfile n d) = Inr p" for p d
    using that by (auto simp: GetProfile_def stmt_def split: if_splits option.splits dest!: find_SomeD)
  then have "\<not> isl (resolved env (pf_allowed_ips p) (pf_exclude_ips p))" if "fst (GetProfile n (w_db w)) = Inr p" for p
    using assms that by (auto simp: resolvable_def)
  then show ?thesis
    by (auto simp: resolve_profile_def bindE_def db_find_def mapErr_def on_db_def db_error_def resolved_def isl_def
        split: prod.splits sum.splits if_splits)
qed

text \<open>
  Every stored profile resolves in the CIDR calculator, and stays so through every request that
  creates, updates or deletes a profile; a peer request that names a profile then never fails there.
\<close>
theorem profiles_stay_resolvable:
  assumes "resolvable env w" "w' \<in> {snd (api_CreateProfile env cbody w), snd (api_UpdateProfile env n ubody w), snd (api_DeleteProfile n w)}"
  shows "resolvable env w' \<and> fst (resolve_profile env m w') \<noteq> Inl (ApiError 500 ''cidr_error'')"
proof -
  have "resolvable env w'" using assms(2) keepsD[OF keeps_resolvable(1) assms(1)] keepsD[OF keeps_resolvable(2) assms(1)]
    keepsD[OF keeps_resolvable(3) assms(1)] by blast
  then show ?thesis using resolve_profile_resolvable by blast
qed

theorem profiles_stay_resolvable_witness:
  "fst (resolve_profile sample_env ''lan'' (snd (api_DeleteProfile ''lan'' (sample_world [])))) \<noteq> Inl (ApiError 500 ''cidr_error'')"
proof -
  have "resolvable sample_env (sample_world [])" by (simp add: resolvable_def sample_world_def)
  from profiles_stay_resolvable[OF this, of "snd (api_DeleteProfile ''lan'' (sample_world []))"] show ?thesis by blast
qed

subsection \<open>Creating a profile\<close>

lemma CreateProfile_ok:
  "fst (CreateProfile p d) = Inr u \<Longrightarrow>
   db_profiles (snd (CreateProfile p d)) = db_profiles d @ [p\<lparr>pf_created_at := db_now d\<rparr>] \<and>
   db_peers (snd (CreateProfile p d)) = db_peers d \<and> \<not> has_profile (pf_name p) d"
  by (auto simp: CreateProfile_def stmt_def insert_profile_def has_profile_def split: if_splits)

text \<open>
  A successful CreateProfile appends the requested profile under a new, well-formed name that
  no profile had, with prefixes that resolve, not marked as a default, and leaves the peers alone.
\<close>
theorem create_profile_effect:
  assumes "api_CreateProfile env (Some req) w = (Inr r, w')"
  shows "db_profiles (w_db w') = db_profiles (w_db w) @ [(new_profile req)\<lparr>pf_created_at := db_now (w_db w)\<rparr>] \<and>
    db_peers (w_db w') = db_peers (w_db w) \<and> \<not> has_profile (cp_name req) (w_db w) \<and>
    profileNameRe (cp_name req) \<and> length (cp_name req) \<le> 64 \<and> cp_allowed_ips req \<noteq> [] \<and>
    \<not> isl (resolved env (cp_allowed_ips req) (cp_exclude_ips req)) \<and> pp_name r = cp_name req"
proof -
  have checks: "profileNameRe (cp_name req)" "length (cp_name req) \<le> 64" "cp_allowed_ips req \<noteq> []"
    "\<not> isl (resolved env (cp_allowed_ips req) (cp_exclude_ips req))"
    and run: "thenE (mapErr (\<lambda>e. if IsConflict e then ApiError 409 ''conflict'' else db_error e)
              (on_db (CreateProfile (new_profile req))))
      (bindE (db_call (GetProfile (cp_name req))) (\<lambda>p. ret (profileToResponse env p))) w = (Inr r, w')"
    using assms by (simp_all add: api_CreateProfile_def body_of_def check_cidrs_def thenE_guardE split: if_splits)
  obtain w1 where c: "CreateProfile (new_profile req) (w_db w) = (Inr (), w_db w1)" "w1 = snd (on_db (CreateProfile (new_profile req)) w)"
    and g: "bindE (db_call (GetProfile (cp_name req))) (\<lambda>p. ret (profileToResponse env p)) w1 = (Inr r, w')"
    using thenE_InrD[OF run] by (auto simp: mapErr_Inr on_db_def split: prod.splits)
  obtain p where p: "db_call (GetProfile (cp_name req)) w1 = (Inr p, w')" "r = profileToResponse env p"
    using bindE_InrD[OF g] by auto
  have "w' = snd (on_db (GetProfile (cp_name req)) w1)"
    using p(1) by (simp add: db_call_def mapErr_Inr)
  then have keep: "tables (w_db w') = tables (w_db w1)"
    using reads_queries(5)[of "cp_name req"] by (simp add: reads_def)
  have "pf_name p = cp_name req"
    using p(1) by (auto simp: db_call_def mapErr_Inr on_db_def GetProfile_def stmt_def split: prod.splits if_splits option.splits dest!: find_SomeD)
  moreover have "db_profiles (w_db w1) = db_profiles (w_db w) @ [(new_profile req)\<lparr>pf_created_at := db_now (w_db w)\<rparr>]"
    "db_peers (w_db w1) = db_peers (w_db w)" "\<not> has_profile (cp_name req) (w_db w)"
    using CreateProfile_ok[of "new_profile req" "w_db w"] c(1) by (simp_all add: new_profile_def)
  ultimately show ?thesis using checks keep p(2) by (simp add: tables_def profileToResponse_def Let_def)
qed

definition sample_profile_request :: create_profile_request where
  "sample_profile_request = \<lparr>cp_name = ''lan'', cp_allowed_ips = [''10.0.0.0/8''], cp_exclude_ips = [], cp_description = [],
     cp_keepalive = None, cp_client_dns = [], cp_client_mtu = None, cp_use_psk = False\<rparr>"

theorem create_profile_effect_witness:
  "\<exists>r w'. api_CreateProfile sample_env (Some sample_profile_request) (sample_world []) = (Inr r, w') \<and>
     length (db_profiles (w_db w')) = 1"
proof -
  have d: "dotted 0x0A000000 = ''10.0.0.0''" "dec 8 = ''8''"
    by (simp_all add: dotted_def unat_low_octet unat_drop_bit dec.simps)
  have "parse_prefix ''10.0.0.0/8'' = Some (Addr4 0x0A000000, 8)"
    using parse_prefix_dotted[of 8 "0x0A000000"] by (simp add: d)
  then have cidr: "\<not> isl (resolved sample_env [''10.0.0.0/8''] [])" by (simp add: resolved_def compute_allowed_ips_def)
  have name: "profileNameRe ''lan''" by code_simp
  have "fst (api_CreateProfile sample_env (Some sample_profile_request) (sample_world [])) \<noteq> Inl e" for e
    using cidr name
    by (simp add: api_CreateProfile_def body_of_def check_cidrs_def thenE_guardE sample_profile_request_def thenE_def bindE_def
        mapErr_def on_db_def CreateProfile_def stmt_def insert_profile_def has_profile_def new_profile_def sample_world_def
        db_call_def GetProfile_def)
  then obtain r w' where r: "api_CreateProfile sample_env (Some sample_profile_request) (sample_world []) = (Inr r, w')"
    by (metis prod.collapse sum.exhaust)
  have "db_profiles (w_db (sample_world [])) = []" by (simp add: sample_world_def)
  with create_profile_effect[OF r] r show ?thesis by simp
qed

end
