(* ===== verification/Sessions.thy ===== *)
theory Sessions
  imports Wireguard
begin

text \<open>
  Sessions of the web interface (auth/session.go) and the limit on failed logins
  (auth/login_rate.go). Each method is one critical section, so a run of concurrent requests is a
  sequence of operations; the times \<open>nowFunc\<close> returns are arguments, in nanoseconds.
\<close>

subsection \<open>The session store\<close>

record session =
  ss_username :: string
  ss_token :: string
  ss_created :: int
  ss_activity :: int

text \<open>The Go map of sessions by token, as an association list.\<close>

record session_store =
  st_ttl :: int
  st_max :: int
  st_sessions :: "(string \<times> session) list"

definition NewSessionStore :: "int \<Rightarrow> int \<Rightarrow> session_store" where
  "NewSessionStore ttl maximum = \<lparr>st_ttl = ttl, st_max = maximum, st_sessions = []\<rparr>"

text \<open>\<open>base64.RawURLEncoding\<close>: the URL alphabet, without padding.\<close>

definition raw_url_encode :: "string \<Rightarrow> string" where
  "raw_url_encode s = map (\<lambda>c. if c = CHR ''+'' then CHR ''-'' else if c = CHR ''/'' then CHR ''_'' else c)
     (filter (\<lambda>c. c \<noteq> CHR ''='') (b64_encode s))"

text \<open>The oldest of the entries in the order the map is iterated; the first one wins a tie.\<close>

definition oldest :: "(string \<times> session) list \<Rightarrow> (string \<times> session) option" where
  "oldest = foldl (\<lambda>best e. case best of
       None \<Rightarrow> Some e
     | Some b \<Rightarrow> if ss_created (snd e) < ss_created (snd b) then Some e else best) None"

definition evictOldestLocked :: "((string \<times> session) list \<Rightarrow> (string \<times> session) list) \<Rightarrow> session_store \<Rightarrow> session_store" where
  "evictOldestLocked order s =
     (case oldest (order (st_sessions s)) of
        None \<Rightarrow> s
      | Some (t, _) \<Rightarrow> if t \<noteq> [] then s\<lparr>st_sessions := AList.delete t (st_sessions s)\<rparr> else s)"

text \<open>
  \<open>random\<close> is what \<open>rand.Read\<close> gives, \<open>now\<close> and \<open>now'\<close> the two readings of the clock, \<open>order\<close> the
  order in which the map would be iterated.
\<close>

definition Create ::
  "((string \<times> session) list \<Rightarrow> (string \<times> session) list) \<Rightarrow> string option \<Rightarrow> int \<Rightarrow> int \<Rightarrow> string \<Rightarrow> session_store \<Rightarrow>
   string option \<times> session_store" where
  "Create order random now now' user s =
     (case random of
        None \<Rightarrow> (None, s)
      | Some bytes \<Rightarrow>
          let token = raw_url_encode bytes;
              s1 = (if int (length (st_sessions s)) \<ge> st_max s then evictOldestLocked order s else s) in
          (Some token, s1\<lparr>st_sessions := AList.update token
             \<lparr>ss_username = user, ss_token = token, ss_created = now, ss_activity = now'\<rparr> (st_sessions s1)\<rparr>))"

definition expired :: "session_store \<Rightarrow> int \<Rightarrow> session \<Rightarrow> bool" where
  "expired s now x \<longleftrightarrow> now - ss_activity x > st_ttl s"

definition Get :: "string \<Rightarrow> int \<Rightarrow> session_store \<Rightarrow> session option \<times> session_store" where
  "Get token now s =
     (case map_of (st_sessions s) token of
        None \<Rightarrow> (None, s)
      | Some x \<Rightarrow> if expired s now x then (None, s\<lparr>st_sessions := AList.delete token (st_sessions s)\<rparr>) else (Some x, s))"

definition Touch :: "string \<Rightarrow> int \<Rightarrow> session_store \<Rightarrow> session_store" where
  "Touch token now s =
     (case map_of (st_sessions s) token of
        None \<Rightarrow> s
      | Some x \<Rightarrow> s\<lparr>st_sessions := AList.update token (x\<lparr>ss_activity := now\<rparr>) (st_sessions s)\<rparr>)"

definition Delete :: "string \<Rightarrow> session_store \<Rightarrow> session_store" where
  "Delete token s = s\<lparr>st_sessions := AList.delete token (st_sessions s)\<rparr>"

definition DeleteByUsername :: "string \<Rightarrow> session_store \<Rightarrow> session_store" where
  "DeleteByUsername user s = s\<lparr>st_sessions := filter (\<lambda>(_, x). ss_username x \<noteq> user) (st_sessions s)\<rparr>"

definition ExpiresAt :: "session_store \<Rightarrow> session \<Rightarrow> int" where
  "ExpiresAt s x = ss_activity x + st_ttl s"

definition TTLSeconds :: "session_store \<Rightarrow> int" where
  "TTLSeconds s = (if 0 \<le> st_ttl s then st_ttl s div 1000000000 else - (- st_ttl s div 1000000000))"

text \<open>One tick of the clean-up goroutine.\<close>

definition cleanup_sessions :: "int \<Rightarrow> session_store \<Rightarrow> session_store" where
  "cleanup_sessions now s = s\<lparr>st_sessions := filter (\<lambda>(_, x). \<not> expired s now x) (st_sessions s)\<rparr>"

subsection \<open>Runs\<close>

datatype store_op =
    OpCreate "(string \<times> session) list \<Rightarrow> (string \<times> session) list" "string option" int int string
  | OpGet string int | OpTouch string int | OpDelete string | OpDeleteUser string | OpCleanup int

fun store_step :: "store_op \<Rightarrow> session_store \<Rightarrow> session_store" where
  "store_step (OpCreate order random now now' user) s = snd (Create order random now now' user s)"
| "store_step (OpGet t now) s = snd (Get t now s)"
| "store_step (OpTouch t now) s = Touch t now s"
| "store_step (OpDelete t) s = Delete t s"
| "store_step (OpDeleteUser u) s = DeleteByUsername u s"
| "store_step (OpCleanup now) s = cleanup_sessions now s"

definition run_store :: "store_op list \<Rightarrow> session_store \<Rightarrow> session_store" where
  "run_store ops s = foldl (\<lambda>s op. store_step op s) s ops"

text \<open>An order of iteration lists exactly the entries.\<close>

definition order_ok :: "((string \<times> session) list \<Rightarrow> (string \<times> session) list) \<Rightarrow> bool" where
  "order_ok order \<longleftrightarrow> (\<forall>xs. set (order xs) = set xs)"

fun op_ok :: "store_op \<Rightarrow> bool" where
  "op_ok (OpCreate order random now now' user) \<longleftrightarrow> order_ok order \<and> (\<forall>b. random = Some b \<longrightarrow> length b = 32)"
| "op_ok _ \<longleftrightarrow> True"

text \<open>The invariant: one entry per token, filed under it, no empty token, and the bound.\<close>

definition store_ok :: "session_store \<Rightarrow> bool" where
  "store_ok s \<longleftrightarrow> distinct (map fst (st_sessions s)) \<and> (\<forall>(t, x) \<in> set (st_sessions s). ss_token x = t \<and> t \<noteq> []) \<and>
     int (length (st_sessions s)) \<le> max 1 (st_max s)"

subsection \<open>The invariant\<close>

lemma b64_char_not_pad: "n < 64 \<Longrightarrow> b64_char n \<noteq> CHR ''=''"
proof
  assume "n < 64" "b64_char n = CHR ''=''"
  then have "b64_val (CHR ''='') = Some n" using b64_val_char[of n] by simp
  then show False by (simp add: b64_val_def)
qed

lemma raw_url_encode_nonempty: "b \<noteq> [] \<Longrightarrow> raw_url_encode b \<noteq> []"
proof -
  assume "b \<noteq> []"
  then obtain r a where "b64_encode b = b64_char (of_char (hd b) div 4) # r" by (cases b rule: b64_encode.cases) auto
  moreover have "(of_char (hd b) :: nat) div 4 < 64" by (rule byte_bounds0(1)) simp
  ultimately show ?thesis using b64_char_not_pad by (simp add: raw_url_encode_def)
qed

lemma foldl_pick_in:
  assumes "\<And>b e. f b e = Some e \<or> f b e = b"
  shows "foldl f b xs = b \<or> (\<exists>e \<in> set xs. foldl f b xs = Some e)"
proof (induction xs arbitrary: b)
  case (Cons x xs)
  then show ?case using assms[of b x] by (metis foldl_Cons list.set_intros)
qed simp

lemma oldest_in: "oldest xs = Some e \<Longrightarrow> e \<in> set xs"
  using foldl_pick_in[of "\<lambda>best e. case best of None \<Rightarrow> Some e
    | Some b \<Rightarrow> if ss_created (snd e) < ss_created (snd b) then Some e else best" None xs]
  by (auto simp: oldest_def split: option.split)

lemma oldest_some: "xs \<noteq> [] \<Longrightarrow> oldest xs \<noteq> None"
proof -
  have "foldl (\<lambda>best e. case best of None \<Rightarrow> Some e
    | Some b \<Rightarrow> if ss_created (snd e) < ss_created (snd b) then Some e else best) (Some a) ys \<noteq> None" for a ys
    by (induction ys arbitrary: a) auto
  then show "xs \<noteq> [] \<Longrightarrow> oldest xs \<noteq> None" by (cases xs) (simp_all add: oldest_def)
qed

lemma length_delete_in:
  assumes "distinct (map fst xs)" "t \<in> fst ` set xs"
  shows "Suc (length (AList.delete t xs)) = length xs"
  using assms by (induction xs) (auto simp: delete_idem)

lemma evict_ok:
  assumes "store_ok s" "order_ok order" "st_sessions s \<noteq> []"
  shows "store_ok (evictOldestLocked order s)" "length (st_sessions (evictOldestLocked order s)) < length (st_sessions s)"
    "st_max (evictOldestLocked order s) = st_max s"
proof -
  have "order (st_sessions s) \<noteq> []" using assms(2,3) by (metis order_ok_def set_empty)
  then obtain t x where o': "oldest (order (st_sessions s)) = Some (t, x)" using oldest_some by fastforce
  then have m: "(t, x) \<in> set (st_sessions s)" using oldest_in[OF o'] assms(2) by (simp add: order_ok_def)
  then have t: "t \<noteq> []" "t \<in> fst ` set (st_sessions s)" using assms(1) by (auto simp: store_ok_def intro: rev_image_eqI)
  have "Suc (length (AList.delete t (st_sessions s))) = length (st_sessions s)"
    using length_delete_in[OF _ t(2)] assms(1) by (simp add: store_ok_def)
  moreover have "set (AList.delete t (st_sessions s)) \<subseteq> set (st_sessions s)" by (auto simp: AList.delete_eq)
  ultimately show "store_ok (evictOldestLocked order s)" "length (st_sessions (evictOldestLocked order s)) < length (st_sessions s)"
    "st_max (evictOldestLocked order s) = st_max s"
    using assms(1) t(1) distinct_delete[of "st_sessions s" t] by (auto simp: evictOldestLocked_def o' store_ok_def)
qed

lemma order_fst: "order_ok order \<Longrightarrow> set (order xs) = set xs"
  by (simp add: order_ok_def)

lemma length_update: "length (AList.update k v xs) \<le> Suc (length xs)"
  by (induction xs) auto

lemma set_update_sub: "set (AList.update k v xs) \<subseteq> insert (k, v) (set xs)"
  by (induction xs) auto

lemma Create_max: "st_max (snd (Create order random now now' user s)) = st_max s"
  by (auto simp: Create_def evictOldestLocked_def Let_def split: option.split)

lemma Create_ok:
  assumes "store_ok s" "order_ok order" "\<forall>b. random = Some b \<longrightarrow> length b = 32"
  shows "store_ok (snd (Create order random now now' user s))"
proof (cases random)
  case (Some b)
  define s1 where "s1 = (if int (length (st_sessions s)) \<ge> st_max s then evictOldestLocked order s else s)"
  have s1: "store_ok s1" "int (length (st_sessions s1)) < max 1 (st_max s)" "st_max s1 = st_max s"
  proof (atomize (full), cases "int (length (st_sessions s)) \<ge> st_max s \<and> st_sessions s \<noteq> []")
    case True
    then show "store_ok s1 \<and> int (length (st_sessions s1)) < max 1 (st_max s) \<and> st_max s1 = st_max s"
      using evict_ok[OF assms(1,2)] assms(1) by (auto simp: s1_def store_ok_def)
  next
    case False
    then have "st_sessions s1 = st_sessions s" "st_max s1 = st_max s"
      using assms(2) by (auto simp: s1_def evictOldestLocked_def oldest_def order_ok_def split: option.splits)
    then show "store_ok s1 \<and> int (length (st_sessions s1)) < max 1 (st_max s) \<and> st_max s1 = st_max s"
      using False assms(1) by (auto simp: store_ok_def)
  qed
  have t: "raw_url_encode b \<noteq> []" using assms(3) Some by (intro raw_url_encode_nonempty) auto
  let ?x = "\<lparr>ss_username = user, ss_token = raw_url_encode b, ss_created = now, ss_activity = now'\<rparr>"
  have run: "snd (Create order random now now' user s) = s1\<lparr>st_sessions := AList.update (raw_url_encode b) ?x (st_sessions s1)\<rparr>"
    by (simp add: Create_def Some s1_def Let_def)
  have "length (AList.update (raw_url_encode b) ?x (st_sessions s1)) \<le> Suc (length (st_sessions s1))" by (rule length_update)
  then show ?thesis
    unfolding run using s1 t set_update_sub[of "raw_url_encode b" ?x "st_sessions s1"]
      distinct_update[of "st_sessions s1" "raw_url_encode b" ?x]
    by (auto simp: store_ok_def)
qed (simp add: Create_def assms(1))

lemma filter_ok: "store_ok s \<Longrightarrow> store_ok (s\<lparr>st_sessions := filter P (st_sessions s)\<rparr>)"
proof -
  assume s: "store_ok s"
  have "int (length (filter P (st_sessions s))) \<le> int (length (st_sessions s))" by simp
  also have "\<dots> \<le> max 1 (st_max s)" using s by (simp only: store_ok_def)
  finally show ?thesis using s by (simp add: store_ok_def distinct_map_filter)
qed

lemma delete_ok: "store_ok s \<Longrightarrow> store_ok (s\<lparr>st_sessions := AList.delete t (st_sessions s)\<rparr>)"
  unfolding AList.delete_eq by (rule filter_ok)

lemma length_update_in: "k \<in> fst ` set xs \<Longrightarrow> length (AList.update k v xs) = length xs"
  by (induction xs) auto

lemma Touch_ok: "store_ok s \<Longrightarrow> store_ok (Touch t now s)"
proof (cases "map_of (st_sessions s) t")
  case (Some x)
  assume s: "store_ok s"
  let ?y = "x\<lparr>ss_activity := now\<rparr>"
  have m: "(t, x) \<in> set (st_sessions s)" using Some by (rule map_of_SomeD)
  then have k: "t \<in> fst ` set (st_sessions s)" by (rule image_eqI[rotated]) simp
  have x: "ss_token ?y = t" "t \<noteq> []" using s m by (auto simp: store_ok_def)
  have "\<forall>(t, x) \<in> set (AList.update t ?y (st_sessions s)). ss_token x = t \<and> t \<noteq> []"
    using set_update_sub[of t ?y "st_sessions s"] s x by (fastforce simp: store_ok_def)
  then show ?thesis
    using s length_update_in[OF k, of ?y] distinct_update[of "st_sessions s" t ?y]
    by (simp add: Touch_def Some store_ok_def)
qed (simp add: Touch_def)

lemma step_ok: "store_ok s \<Longrightarrow> op_ok op \<Longrightarrow> store_ok (store_step op s)"
  by (cases op)
    (auto simp: Get_def Delete_def DeleteByUsername_def cleanup_sessions_def filter_ok delete_ok Touch_ok Create_ok split: option.split)

text \<open>
  However many sessions are created and in whichever order the map is iterated, the store never
  holds more than its maximum (and at least one): every entry is filed under its own token.
\<close>
theorem sessions_bounded:
  assumes "\<forall>op \<in> set ops. op_ok op"
  shows "store_ok (run_store ops (NewSessionStore ttl maximum)) \<and>
    int (length (st_sessions (run_store ops (NewSessionStore ttl maximum)))) \<le> max 1 maximum"
proof -
  have keep: "store_ok (run_store ops s) \<and> st_max (run_store ops s) = st_max s" if "store_ok s" "\<forall>op \<in> set ops. op_ok op" for s
    using that
  proof (induction ops arbitrary: s)
    case (Cons op ops)
    have "st_max (store_step op s) = st_max s"
      by (cases op) (auto simp: Create_max Get_def Touch_def Delete_def DeleteByUsername_def cleanup_sessions_def split: option.split)
    with Cons show ?case using step_ok[of s op] by (simp add: run_store_def)
  qed (simp add: run_store_def)
  have "store_ok (NewSessionStore ttl maximum)" by (simp add: store_ok_def NewSessionStore_def)
  from keep[OF this assms] have "store_ok (run_store ops (NewSessionStore ttl maximum))"
    "st_max (run_store ops (NewSessionStore ttl maximum)) = maximum" by (simp_all add: NewSessionStore_def)
  then show ?thesis by (metis store_ok_def)
qed

subsection \<open>A session that ended stays ended\<close>

definition sample_bytes :: string where
  "sample_bytes = replicate 32 CHR ''s''"

theorem sessions_bounded_witness:
  "int (length (st_sessions (run_store [OpCreate id (Some sample_bytes) 1 1 ''admin'', OpGet ''x'' 5] (NewSessionStore 900 10)))) \<le> 10"
  using sessions_bounded[of "[OpCreate id (Some sample_bytes) 1 1 ''admin'', OpGet ''x'' 5]" 900 10]
  by (simp add: order_ok_def sample_bytes_def)

text \<open>An operation that could file a session under a token, and one that could renew it.\<close>

fun creates :: "string \<Rightarrow> store_op \<Rightarrow> bool" where
  "creates t (OpCreate order random now now' user) \<longleftrightarrow> (\<exists>b. random = Some b \<and> raw_url_encode b = t)"
| "creates t _ \<longleftrightarrow> False"

fun touches :: "string \<Rightarrow> store_op \<Rightarrow> bool" where
  "touches t (OpTouch t' now) \<longleftrightarrow> t' = t"
| "touches t _ \<longleftrightarrow> False"

lemma map_of_filter_sub: "distinct (map fst xs) \<Longrightarrow> map_of (filter P xs) t \<in> {None, map_of xs t}"
  by (induction xs) (auto simp: map_of_eq_None_iff[THEN iffD2] image_iff)

lemma delete_lookup: "map_of (AList.delete k xs) t = (if t = k then None else map_of xs t)"
  by (simp add: delete_conv)

lemma update_lookup: "map_of (AList.update k v xs) t = (if t = k then Some v else map_of xs t)"
  by (simp add: update_conv)

text \<open>A step neither creates nor renews a session by itself.\<close>

lemma step_lookup:
  assumes "store_ok s" "op_ok op" "\<not> creates t op" "\<not> touches t op"
  shows "map_of (st_sessions (store_step op s)) t \<in> {None, map_of (st_sessions s) t}"
proof -
  have f: "map_of (filter P (st_sessions s)) t \<in> {None, map_of (st_sessions s) t}" for P
    using assms(1) by (intro map_of_filter_sub) (simp add: store_ok_def)
  show ?thesis
  proof (cases op)
    case (OpCreate order random now now' user)
    show ?thesis
    proof (cases random)
      case (Some b)
      then have "t \<noteq> raw_url_encode b" using assms(3) OpCreate by auto
      then show ?thesis
        by (auto simp: OpCreate Some Create_def Let_def evictOldestLocked_def update_lookup delete_lookup split: option.split)
    qed (simp add: OpCreate Create_def)
  next
    case (OpTouch t' now)
    then show ?thesis using assms(4) by (auto simp: Touch_def update_lookup split: option.split)
  next
    case (OpDeleteUser u)
    then show ?thesis using f by (simp add: DeleteByUsername_def)
  next
    case (OpCleanup now)
    then show ?thesis using f by (simp add: cleanup_sessions_def)
  qed (auto simp: Get_def Delete_def delete_lookup split: option.split)
qed

definition run_ok :: "store_op list \<Rightarrow> bool" where
  "run_ok ops \<longleftrightarrow> (\<forall>op \<in> set ops. op_ok op)"

lemma run_lookup:
  assumes "store_ok s" "run_ok ops" "\<forall>op \<in> set ops. \<not> creates t op \<and> \<not> touches t op"
  shows "map_of (st_sessions (run_store ops s)) t \<in> {None, map_of (st_sessions s) t} \<and> store_ok (run_store ops s) \<and>
    st_ttl (run_store ops s) = st_ttl s"
  using assms
proof (induction ops arbitrary: s)
  case (Cons op ops)
  have ttl: "st_ttl (store_step op s) = st_ttl s"
    by (cases op) (auto simp: Create_def evictOldestLocked_def Let_def Get_def Touch_def Delete_def DeleteByUsername_def
      cleanup_sessions_def split: option.split)
  have "store_ok (store_step op s)" "map_of (st_sessions (store_step op s)) t \<in> {None, map_of (st_sessions s) t}"
    using Cons.prems step_ok[of s op] step_lookup[of s op t] by (auto simp: run_ok_def)
  with Cons.IH[of "store_step op s"] Cons.prems show ?case
    by (auto simp: run_store_def run_ok_def ttl)
qed (simp add: run_store_def)

lemma touch_absent: "map_of (st_sessions s) t = None \<Longrightarrow> touches t op \<Longrightarrow> map_of (st_sessions (store_step op s)) t = None"
  by (cases op) (auto simp: Touch_def)

text \<open>
  A session that was logged out, revoked with its user, expired or cleaned up never comes back:
  once a token is not in the store, no run of operations, renewals of that token included, makes Get
  return a session for it, unless the same random token is drawn again.
\<close>
theorem ended_session_stays_ended:
  assumes "store_ok s" "map_of (st_sessions s) t = None" "run_ok ops" "\<forall>op \<in> set ops. \<not> creates t op"
  shows "fst (Get t now (run_store ops s)) = None"
proof -
  have "map_of (st_sessions (run_store ops s)) t = None"
    using assms
  proof (induction ops arbitrary: s)
    case (Cons op ops)
    have "map_of (st_sessions (store_step op s)) t = None"
      using Cons.prems step_lookup[of s op t] touch_absent[of s t op] by (cases "touches t op") (auto simp: run_ok_def)
    moreover have "store_ok (store_step op s)" using Cons.prems step_ok by (simp add: run_ok_def)
    ultimately show ?case using Cons by (simp add: run_store_def run_ok_def)
  qed (simp add: run_store_def)
  then show ?thesis by (simp add: Get_def)
qed

definition sample_store :: session_store where
  "sample_store = \<lparr>st_ttl = 900, st_max = 10, st_sessions = [(''tok'',
     \<lparr>ss_username = ''admin'', ss_token = ''tok'', ss_created = 1, ss_activity = 1\<rparr>)]\<rparr>"

lemma sample_store_ok: "store_ok sample_store"
  by (simp add: store_ok_def sample_store_def)

theorem ended_session_stays_ended_witness:
  "fst (Get ''tok'' 6 (run_store [OpTouch ''tok'' 5] (Delete ''tok'' sample_store))) = None"
proof (rule ended_session_stays_ended)
  show "store_ok (Delete ''tok'' sample_store)" using delete_ok[OF sample_store_ok] by (simp add: Delete_def)
  show "map_of (st_sessions (Delete ''tok'' sample_store)) ''tok'' = None" by (simp add: Delete_def sample_store_def)
qed (simp_all add: run_ok_def)

text \<open>
  A session that is not renewed expires: after any run without a renewal, Get returns nothing for
  its token once more than the time to live has passed since its last activity.
\<close>
theorem idle_session_expires:
  assumes "store_ok s" "map_of (st_sessions s) t = Some x" "run_ok ops"
    "\<forall>op \<in> set ops. \<not> creates t op \<and> \<not> touches t op" "st_ttl s < now - ss_activity x"
  shows "fst (Get t now (run_store ops s)) = None"
  using run_lookup[OF assms(1,3,4)] assms(2,5) by (auto simp: Get_def expired_def)

theorem idle_session_expires_witness:
  "fst (Get ''tok'' 902 (run_store [OpGet ''tok'' 900, OpGet ''tok'' 901] sample_store)) = None"
  by (rule idle_session_expires[OF sample_store_ok,
        where x = "\<lparr>ss_username = ''admin'', ss_token = ''tok'', ss_created = 1, ss_activity = 1\<rparr>"])
    (simp_all add: sample_store_def run_ok_def)

subsection \<open>The limit on failed logins (login_rate.go)\<close>

record login_limiter =
  ll_max :: int
  ll_window :: int
  ll_attempts :: "(string \<times> int list) list"

definition NewLoginRateLimiter :: "int \<Rightarrow> int \<Rightarrow> login_limiter" where
  "NewLoginRateLimiter maximum window = \<lparr>ll_max = maximum, ll_window = window, ll_attempts = []\<rparr>"

definition recent :: "login_limiter \<Rightarrow> int \<Rightarrow> int list \<Rightarrow> int list" where
  "recent l now ts = filter (\<lambda>t. now - ll_window l < t) ts"

definition Check :: "string \<Rightarrow> int \<Rightarrow> login_limiter \<Rightarrow> bool" where
  "Check ip now l = (case map_of (ll_attempts l) ip of
     None \<Rightarrow> True | Some ts \<Rightarrow> int (length (recent l now ts)) < ll_max l)"

definition RecordFailure :: "string \<Rightarrow> int \<Rightarrow> login_limiter \<Rightarrow> login_limiter" where
  "RecordFailure ip now l =
     (let ts = (case map_of (ll_attempts l) ip of None \<Rightarrow> [] | Some ts \<Rightarrow> ts) in
      l\<lparr>ll_attempts := AList.update ip (recent l now (ts @ [now])) (ll_attempts l)\<rparr>)"

definition Reset :: "string \<Rightarrow> login_limiter \<Rightarrow> login_limiter" where
  "Reset ip l = l\<lparr>ll_attempts := AList.delete ip (ll_attempts l)\<rparr>"

definition cleanup_attempts :: "int \<Rightarrow> login_limiter \<Rightarrow> login_limiter" where
  "cleanup_attempts now l = l\<lparr>ll_attempts := filter (\<lambda>(_, ts). recent l now ts \<noteq> []) (ll_attempts l)\<rparr>"

text \<open>A run, and the plain account of it: the failures of an address since its last success.\<close>

datatype login_op = Failure string int | Success string | CleanUp int

fun login_step :: "login_op \<Rightarrow> login_limiter \<Rightarrow> login_limiter" where
  "login_step (Failure ip now) l = RecordFailure ip now l"
| "login_step (Success ip) l = Reset ip l"
| "login_step (CleanUp now) l = cleanup_attempts now l"

definition run_logins :: "login_op list \<Rightarrow> login_limiter \<Rightarrow> login_limiter" where
  "run_logins ops l = foldl (\<lambda>l op. login_step op l) l ops"

fun failures :: "string \<Rightarrow> login_op list \<Rightarrow> int list" where
  "failures ip [] = []"
| "failures ip (Failure ip' now # ops) =
     (if ip' = ip \<and> (\<forall>op \<in> set ops. op \<noteq> Success ip) then now # failures ip ops else failures ip ops)"
| "failures ip (_ # ops) = failures ip ops"

fun op_time :: "login_op \<Rightarrow> int option" where
  "op_time (Failure ip now) = Some now"
| "op_time (Success ip) = None"
| "op_time (CleanUp now) = Some now"

text \<open>The clock does not go backwards.\<close>

definition clocked :: "login_op list \<Rightarrow> int \<Rightarrow> bool" where
  "clocked ops now \<longleftrightarrow> sorted (List.map_filter op_time ops @ [now])"

lemma set_map_filter': "set (List.map_filter f xs) = {y. \<exists>x \<in> set xs. f x = Some y}"
  by (induction xs) (auto simp: map_filter_simps split: option.splits)

lemma failures_snoc:
  "failures ip (ops @ [Failure ip' n]) = failures ip ops @ (if ip' = ip then [n] else [])"
  "failures ip (ops @ [Success ip']) = (if ip' = ip then [] else failures ip ops)"
  "failures ip (ops @ [CleanUp n]) = failures ip ops"
  by (induction ip ops rule: failures.induct) auto

lemma filter_absorb: "n \<le> T \<Longrightarrow> filter (\<lambda>t. n - w < t \<and> T - w < t) xs = filter (\<lambda>t. T - w < t) (xs :: int list)"
  by (auto intro!: filter_cong)

definition stored :: "string \<Rightarrow> login_limiter \<Rightarrow> int list" where
  "stored ip l = (case map_of (ll_attempts l) ip of None \<Rightarrow> [] | Some ts \<Rightarrow> ts)"

lemma map_of_filter_entry:
  assumes "distinct (map fst table)"
  shows "map_of (filter keep table) key =
    Option.bind (map_of table key) (\<lambda>entry. if keep (key, entry) then Some entry else None)"
  using assms by (induction table) (auto simp: map_of_eq_None_iff[THEN iffD2] image_iff split: Option.bind_split)

definition faithful :: "login_limiter \<Rightarrow> login_op list \<Rightarrow> bool" where
  "faithful l ops \<longleftrightarrow> distinct (map fst (ll_attempts l)) \<and>
     (\<forall>ip T. (\<forall>op \<in> set ops. \<forall>t. op_time op = Some t \<longrightarrow> t \<le> T) \<longrightarrow>
        filter (\<lambda>t. T - ll_window l < t) (stored ip l) = filter (\<lambda>t. T - ll_window l < t) (failures ip ops))"

lemma faithful_step:
  assumes "faithful l ops"
  shows "faithful (login_step op l) (ops @ [op])"
proof -
  have d: "distinct (map fst (ll_attempts l))" using assms by (simp add: faithful_def)
  have past: "filter (\<lambda>t. T - ll_window l < t) (stored ip l) = filter (\<lambda>t. T - ll_window l < t) (failures ip ops)"
    if "\<forall>o' \<in> set (ops @ [op]). \<forall>t. op_time o' = Some t \<longrightarrow> t \<le> T" for ip T
    using assms that by (simp add: faithful_def)
  show ?thesis
  proof (cases op)
    case (Failure ip' n)
    have "stored ip (RecordFailure ip' n l) = (if ip = ip' then recent l n (stored ip l @ [n]) else stored ip l)" for ip
      by (auto simp: stored_def RecordFailure_def Let_def update_lookup split: option.split)
    moreover have "ll_window (RecordFailure ip' n l) = ll_window l" by (simp add: RecordFailure_def Let_def)
    moreover have "distinct (map fst (ll_attempts (RecordFailure ip' n l)))"
      using distinct_update[OF d] by (simp add: RecordFailure_def Let_def)
    ultimately show ?thesis
      using past by (auto simp: faithful_def Failure failures_snoc recent_def filter_absorb)
  next
    case (Success ip')
    have "stored ip (Reset ip' l) = (if ip = ip' then [] else stored ip l)" for ip
      by (auto simp: stored_def Reset_def delete_lookup)
    then show ?thesis
      using past distinct_delete[OF d] by (auto simp: faithful_def Success failures_snoc) (simp_all add: Reset_def)
  next
    case (CleanUp n)
    have "stored ip (cleanup_attempts n l) = (if recent l n (stored ip l) = [] then [] else stored ip l)" for ip
      by (auto simp: stored_def cleanup_attempts_def map_of_filter_entry[OF d] recent_def split: option.split Option.bind_split)
    moreover have "filter (\<lambda>t. T - ll_window l < t) (stored ip l) = []" if "recent l n (stored ip l) = []" "n \<le> T" for ip T
      using that by (auto simp: recent_def filter_empty_conv)
    moreover have "ll_window (cleanup_attempts n l) = ll_window l" by (simp add: cleanup_attempts_def)
    moreover have "distinct (map fst (ll_attempts (cleanup_attempts n l)))"
      using distinct_map_filter[OF d] by (simp add: cleanup_attempts_def)
    ultimately show ?thesis using past by (fastforce simp: faithful_def CleanUp failures_snoc)
  qed
qed

lemma faithful_run:
  "faithful (run_logins ops (NewLoginRateLimiter m w)) ops \<and> ll_max (run_logins ops (NewLoginRateLimiter m w)) = m \<and>
   ll_window (run_logins ops (NewLoginRateLimiter m w)) = w"
proof (induction ops rule: rev_induct)
  case (snoc op ops)
  have "ll_max (login_step op l) = ll_max l \<and> ll_window (login_step op l) = ll_window l" for l
    by (cases op) (simp_all add: RecordFailure_def Reset_def cleanup_attempts_def Let_def)
  with snoc faithful_step show ?case by (simp add: run_logins_def)
qed (simp add: run_logins_def faithful_def NewLoginRateLimiter_def stored_def)

lemma check_exact:
  assumes "\<forall>op \<in> set ops. \<forall>t. op_time op = Some t \<longrightarrow> t \<le> now" "0 < m"
  shows "Check ip now (run_logins ops (NewLoginRateLimiter m w)) \<longleftrightarrow>
    int (length (filter (\<lambda>t. now - w < t) (failures ip ops))) < m"
proof -
  let ?l = "run_logins ops (NewLoginRateLimiter m w)"
  have "filter (\<lambda>t. now - w < t) (stored ip ?l) = filter (\<lambda>t. now - w < t) (failures ip ops)"
    using faithful_run[of ops m w] assms(1) by (auto simp: faithful_def)
  then show ?thesis
    using faithful_run[of ops m w] assms(2) by (auto simp: Check_def stored_def recent_def split: option.splits)
qed

text \<open>
  The limiter counts exactly: an address may try again if and only if the number of its failures
  since its last success, within the window before now, is below the maximum. Trimming the lists and
  the periodic clean-up change no answer, as long as the clock does not go backwards.
\<close>
theorem login_limit_exact:
  assumes "clocked ops now" "0 < m"
  shows "Check ip now (run_logins ops (NewLoginRateLimiter m w)) \<longleftrightarrow>
    int (length (filter (\<lambda>t. now - w < t) (failures ip ops))) < m"
proof (rule check_exact[OF _ assms(2)])
  show "\<forall>op \<in> set ops. \<forall>t. op_time op = Some t \<longrightarrow> t \<le> now"
    using assms(1) by (auto simp: clocked_def sorted_append set_map_filter')
qed

theorem login_limit_exact_witness:
  "\<not> Check ''10.0.0.9'' 20 (run_logins (map (Failure ''10.0.0.9'') [1, 2, 3, 4, 5]) (NewLoginRateLimiter 5 60))"
proof -
  have "clocked (map (Failure ''10.0.0.9'') [1, 2, 3, 4, 5]) 20" by (simp add: clocked_def map_filter_simps)
  from login_limit_exact[OF this, of 5 "''10.0.0.9''" 60] show ?thesis by simp
qed

end
