(* ===== verification/Auth.thy ===== *)
theory Auth
  imports Sessions
begin

text \<open>
  Authentication of requests (auth/middleware.go, auth/token.go, auth/basic.go): the bearer token,
  the password check and the middleware that decides whether a request is served. The parts of an
  HTTP request the code reads are a record; bcrypt is an argument.
\<close>

subsection \<open>Requests\<close>

text \<open>\<open>rq_cookie\<close> is the value of the session cookie; an absent header is the empty string.\<close>

record request =
  rq_unix :: bool
  rq_conn :: int
  rq_method :: string
  rq_path :: string
  rq_cookie :: "string option"
  rq_authorization :: string
  rq_accept :: string
  rq_tls :: bool
  rq_forwarded_proto :: string

text \<open>\<open>strings.Contains\<close>.\<close>

fun contains :: "string \<Rightarrow> string \<Rightarrow> bool" where
  "contains p [] \<longleftrightarrow> p = []"
| "contains p (c # s) \<longleftrightarrow> has_prefix p (c # s) \<or> contains p s"

subsection \<open>Credentials\<close>

definition token_authenticate :: "string \<Rightarrow> request \<Rightarrow> string option" where
  "token_authenticate token r =
     (if rq_authorization r = [] then None
      else if \<not> has_prefix ''Bearer '' (rq_authorization r) then None
      else if trim_prefix ''Bearer '' (rq_authorization r) = token then Some ''api-token''
      else None)"

text \<open>\<open>matches hash password\<close> stands for \<open>bcrypt.CompareHashAndPassword\<close>.\<close>

record basic_verifier =
  bv_username :: string
  bv_hash :: string

definition NewBasicAuthVerifier :: "string \<Rightarrow> string \<Rightarrow> basic_verifier" where
  "NewBasicAuthVerifier user hash = \<lparr>bv_username = user, bv_hash = hash\<rparr>"

definition Verify :: "(string \<Rightarrow> string \<Rightarrow> bool) \<Rightarrow> basic_verifier \<Rightarrow> string \<Rightarrow> string \<Rightarrow> bool" where
  "Verify matches v user password = (if user \<noteq> bv_username v then False else matches (bv_hash v) password)"

subsection \<open>The middleware\<close>

record auth_middleware =
  am_token :: "string option"
  am_skip_unix :: bool
  am_secure :: string

record cookie =
  ck_value :: string
  ck_secure :: bool
  ck_expires :: int

text \<open>What becomes of a request: served, with the user it is served for and a refreshed cookie, or not.\<close>

datatype verdict = Served "string option" "cookie option" | RedirectLogin | Unauthorized

definition backgroundPollPaths :: "string list" where
  "backgroundPollPaths = [''/api/stats'', ''/api/health'', ''/api/auth/session'']"

definition isBackgroundPoll :: "request \<Rightarrow> bool" where
  "isBackgroundPoll r \<longleftrightarrow> rq_method r = ''GET'' \<and> List.member backgroundPollPaths (rq_path r)"

definition cookie_secure :: "string \<Rightarrow> request \<Rightarrow> bool" where
  "cookie_secure mode r =
     (if mode = ''true'' then True
      else if mode = ''false'' then False
      else if rq_unix r then rq_forwarded_proto r = ''https''
      else rq_tls r)"

definition makeSessionCookie :: "auth_middleware \<Rightarrow> string \<Rightarrow> int \<Rightarrow> request \<Rightarrow> cookie" where
  "makeSessionCookie m token expires r = \<lparr>ck_value = token, ck_secure = cookie_secure (am_secure m) r, ck_expires = expires\<rparr>"

text \<open>The checks after the session cookie: bearer token, health endpoint, rejection.\<close>

definition without_session :: "auth_middleware \<Rightarrow> request \<Rightarrow> verdict" where
  "without_session m r =
     (case (case am_token m of None \<Rightarrow> None | Some t \<Rightarrow> token_authenticate t r) of
        Some user \<Rightarrow> Served (Some user) None
      | None \<Rightarrow>
          if rq_path r = ''/api/health'' then Served None None
          else if contains ''text/html'' (rq_accept r) then RedirectLogin
          else Unauthorized)"

text \<open>
  \<open>now\<close> and \<open>now'\<close> are the readings of the clock in Get and in Touch; the session the middleware
  holds is the one in the store, so its expiry is counted from the renewal.
\<close>

definition Wrap :: "auth_middleware \<Rightarrow> int \<Rightarrow> int \<Rightarrow> request \<Rightarrow> session_store \<Rightarrow> verdict \<times> session_store" where
  "Wrap m now now' r s =
     (if am_skip_unix m \<and> rq_unix r then (Served None None, s)
      else (case rq_cookie r of
        None \<Rightarrow> (without_session m r, s)
      | Some v \<Rightarrow>
          if v = [] then (without_session m r, s)
          else (case Get v now s of
              (None, s1) \<Rightarrow> (without_session m r, s1)
            | (Some x, s1) \<Rightarrow>
                if isBackgroundPoll r then (Served (Some (ss_username x)) None, s1)
                else (Served (Some (ss_username x))
                        (Some (makeSessionCookie m (ss_token x) (ExpiresAt s1 (x\<lparr>ss_activity := now'\<rparr>)) r)),
                      Touch v now' s1))))"

subsection \<open>Who is served\<close>

text \<open>The session a request names, if it is still alive.\<close>

definition live_session :: "request \<Rightarrow> int \<Rightarrow> session_store \<Rightarrow> session option" where
  "live_session r now s = (case rq_cookie r of None \<Rightarrow> None
     | Some v \<Rightarrow> if v = [] then None else (case map_of (st_sessions s) v of None \<Rightarrow> None
         | Some x \<Rightarrow> if expired s now x then None else Some x))"

definition bearer :: "auth_middleware \<Rightarrow> request \<Rightarrow> bool" where
  "bearer m r \<longleftrightarrow> (\<exists>t. am_token m = Some t \<and> rq_authorization r = ''Bearer '' @ t)"

lemma token_authenticate_iff:
  "token_authenticate t r = (if rq_authorization r = ''Bearer '' @ t then Some ''api-token'' else None)"
  by (auto simp: token_authenticate_def trim_prefix_def has_prefix_iff)

lemma without_session_served:
  "without_session m r = Served u c \<longleftrightarrow>
     c = None \<and> (if bearer m r then u = Some ''api-token'' else rq_path r = ''/api/health'' \<and> u = None)"
  by (auto simp: without_session_def bearer_def token_authenticate_iff split: option.splits if_splits)

lemma Get_live: "rq_cookie r = Some v \<Longrightarrow> v \<noteq> [] \<Longrightarrow> fst (Get v now s) = live_session r now s"
  by (auto simp: Get_def live_session_def split: option.split)

text \<open>
  C10: A request is served in exactly four cases: over the Unix socket when that is exempt, with the
  cookie of a live session, for its user, with the configured bearer token, or for the health endpoint;
  in every other case it is redirected to the login page or refused.
\<close>
theorem authentication_exact:
  "(\<exists>c. fst (Wrap m now now' r s) = Served u c) \<longleftrightarrow>
     (if am_skip_unix m \<and> rq_unix r then u = None
      else case live_session r now s of
        Some x \<Rightarrow> u = Some (ss_username x)
      | None \<Rightarrow> if bearer m r then u = Some ''api-token'' else rq_path r = ''/api/health'' \<and> u = None)"
proof (cases "am_skip_unix m \<and> rq_unix r")
  case False
  show ?thesis
  proof (cases "\<exists>v. rq_cookie r = Some v \<and> v \<noteq> []")
    case True
    then obtain v where v: "rq_cookie r = Some v" "v \<noteq> []" by blast
    obtain g s1 where g: "Get v now s = (g, s1)" by fastforce
    then have "live_session r now s = g" using Get_live[OF v, of now s] by simp
    then show ?thesis using False v g
      by (cases g) (auto simp: Wrap_def without_session_served)
  next
    case no_cookie: False
    then have "live_session r now s = None" "fst (Wrap m now now' r s) = without_session m r"
      using False by (auto simp: live_session_def Wrap_def split: option.split)
    then show ?thesis using False by (auto simp: without_session_served)
  qed
qed (auto simp: Wrap_def)

subsection \<open>The sliding window\<close>

text \<open>What a request does to the store: a look-up, and a renewal unless it is a background poll.\<close>

definition request_ops :: "auth_middleware \<Rightarrow> int \<Rightarrow> int \<Rightarrow> request \<Rightarrow> store_op list" where
  "request_ops m now now' r =
     (if am_skip_unix m \<and> rq_unix r then []
      else case rq_cookie r of None \<Rightarrow> [] | Some v \<Rightarrow>
        if v = [] then [] else OpGet v now # (if isBackgroundPoll r then [] else [OpTouch v now']))"

lemma Get_gone: "fst (Get v now s) = None \<Longrightarrow> map_of (st_sessions (snd (Get v now s))) v = None"
  by (auto simp: Get_def delete_lookup split: option.splits if_splits)

lemma Wrap_ops: "snd (Wrap m now now' r s) = run_store (request_ops m now now' r) s"
proof (cases "\<exists>v. rq_cookie r = Some v \<and> v \<noteq> []")
  case True
  then obtain v where v: "rq_cookie r = Some v" "v \<noteq> []" by blast
  obtain g s1 where g: "Get v now s = (g, s1)" by fastforce
  have "g = None \<Longrightarrow> Touch v now' s1 = s1" using Get_gone[of v now s] g by (simp add: Touch_def)
  with v g show ?thesis by (cases g) (auto simp: Wrap_def request_ops_def run_store_def)
qed (auto simp: Wrap_def request_ops_def run_store_def split: option.split)

text \<open>A run of requests and other operations on the store (logins, logouts, clean-ups).\<close>

datatype auth_event = Request int int request | Store store_op

fun event_ops :: "auth_middleware \<Rightarrow> auth_event \<Rightarrow> store_op list" where
  "event_ops m (Request now now' r) = request_ops m now now' r"
| "event_ops m (Store op) = [op]"

fun event_step :: "auth_middleware \<Rightarrow> auth_event \<Rightarrow> session_store \<Rightarrow> session_store" where
  "event_step m (Request now now' r) s = snd (Wrap m now now' r s)"
| "event_step m (Store op) s = store_step op s"

definition run_events :: "auth_middleware \<Rightarrow> auth_event list \<Rightarrow> session_store \<Rightarrow> session_store" where
  "run_events m es s = foldl (\<lambda>s e. event_step m e s) s es"

text \<open>An event that leaves a token idle: only background polls name it, nobody files it anew.\<close>

fun idle_event :: "string \<Rightarrow> auth_event \<Rightarrow> bool" where
  "idle_event v (Request now now' r) \<longleftrightarrow> (rq_cookie r = Some v \<longrightarrow> isBackgroundPoll r)"
| "idle_event v (Store op) \<longleftrightarrow> op_ok op \<and> \<not> creates v op \<and> \<not> touches v op"

lemma run_events_ops: "run_events m es s = run_store (concat (map (event_ops m) es)) s"
proof (induction es arbitrary: s)
  case (Cons e es)
  have "event_step m e s = run_store (event_ops m e) s"
    by (cases e) (simp_all add: Wrap_ops run_store_def)
  with Cons show ?case by (simp add: run_events_def run_store_def)
qed (simp add: run_events_def run_store_def)

lemma idle_ops:
  assumes "idle_event v e" "op \<in> set (event_ops m e)"
  shows "op_ok op \<and> \<not> creates v op \<and> \<not> touches v op"
  using assms by (cases e) (auto simp: request_ops_def split: if_splits option.splits)

text \<open>
  An idle browser tab does not keep its session alive: when nothing but background polls uses the
  cookie of a session, whatever else happens, a request with that cookie later than the time to live
  after the last real activity is treated as a request without a session.
\<close>
theorem polling_does_not_renew:
  assumes "store_ok s" "map_of (st_sessions s) v = Some x" "\<forall>e \<in> set es. idle_event v e"
    "st_ttl s < now - ss_activity x" "rq_cookie r = Some v" "\<not> (am_skip_unix m \<and> rq_unix r)"
  shows "fst (Wrap m now now' r (run_events m es s)) = without_session m r"
proof -
  let ?ops = "concat (map (event_ops m) es)"
  have ops: "op_ok op \<and> \<not> creates v op \<and> \<not> touches v op" if "op \<in> set ?ops" for op
    using that idle_ops assms(3) by auto
  then have "fst (Get v now (run_store ?ops s)) = None"
    using run_lookup[OF assms(1), of ?ops v] assms(2,4) by (auto simp: Get_def expired_def run_ok_def)
  then show ?thesis
    using assms(5,6) by (cases "Get v now (run_store ?ops s)") (auto simp: Wrap_def run_events_ops)
qed

definition sample_poll :: request where
  "sample_poll = \<lparr>rq_unix = False, rq_conn = 1, rq_method = ''GET'', rq_path = ''/api/stats'', rq_cookie = Some ''tok'',
     rq_authorization = [], rq_accept = ''application/json'', rq_tls = True, rq_forwarded_proto = []\<rparr>"

definition sample_middleware :: auth_middleware where
  "sample_middleware = \<lparr>am_token = None, am_skip_unix = True, am_secure = ''auto''\<rparr>"

theorem polling_does_not_renew_witness:
  "fst (Wrap sample_middleware 902 902 sample_poll
     (run_events sample_middleware [Request 500 500 sample_poll, Request 900 900 sample_poll] sample_store)) =
   Unauthorized"
proof -
  have poll: "isBackgroundPoll sample_poll" by (simp add: isBackgroundPoll_def sample_poll_def backgroundPollPaths_def)
  have "fst (Wrap sample_middleware 902 902 sample_poll
     (run_events sample_middleware [Request 500 500 sample_poll, Request 900 900 sample_poll] sample_store)) =
     without_session sample_middleware sample_poll"
    by (rule polling_does_not_renew[OF sample_store_ok,
          where v = "''tok''" and x = "\<lparr>ss_username = ''admin'', ss_token = ''tok'', ss_created = 1, ss_activity = 1\<rparr>"])
      (simp_all add: poll, simp_all add: sample_store_def sample_poll_def sample_middleware_def)
  also have "\<dots> = Unauthorized" by code_simp
  finally show ?thesis .
qed

text \<open>
  A request a user makes with a live session renews it: the refreshed cookie expires the time to
  live after the renewal, and until then the store answers the token with the same user.
\<close>
theorem user_request_renews:
  assumes "live_session r now s = Some x" "store_ok s" "\<not> isBackgroundPoll r" "\<not> (am_skip_unix m \<and> rq_unix r)"
    "now'' \<le> now' + st_ttl s"
  shows "\<exists>c s'. Wrap m now now' r s = (Served (Some (ss_username x)) (Some c), s') \<and> ck_value c = the (rq_cookie r) \<and>
    ck_expires c = now' + st_ttl s \<and> fst (Get (the (rq_cookie r)) now'' s') = Some (x\<lparr>ss_activity := now'\<rparr>)"
proof -
  obtain v where v: "rq_cookie r = Some v" "v \<noteq> []" "map_of (st_sessions s) v = Some x" "\<not> expired s now x"
    using assms(1) by (auto simp: live_session_def split: option.splits if_splits)
  then have g: "Get v now s = (Some x, s)" by (simp add: Get_def)
  have "ss_token x = v" using assms(2) map_of_SomeD[OF v(3)] by (auto simp: store_ok_def)
  then show ?thesis
    using v g assms(3,4,5)
    by (auto simp: Wrap_def makeSessionCookie_def ExpiresAt_def Touch_def Get_def update_lookup expired_def)
qed

theorem user_request_renews_witness:
  "\<exists>c s'. Wrap sample_middleware 10 10 (sample_poll\<lparr>rq_path := ''/api/peers''\<rparr>) sample_store = (Served (Some ''admin'') (Some c), s') \<and>
     ck_expires c = 910"
proof -
  have live: "live_session (sample_poll\<lparr>rq_path := ''/api/peers''\<rparr>) 10 sample_store =
      Some \<lparr>ss_username = ''admin'', ss_token = ''tok'', ss_created = 1, ss_activity = 1\<rparr>" by code_simp
  have poll: "\<not> isBackgroundPoll (sample_poll\<lparr>rq_path := ''/api/peers''\<rparr>)" by code_simp
  have unix: "\<not> (am_skip_unix sample_middleware \<and> rq_unix (sample_poll\<lparr>rq_path := ''/api/peers''\<rparr>))" by code_simp
  have ttl: "st_ttl sample_store = 900" by (simp add: sample_store_def)
  from user_request_renews[OF live sample_store_ok poll unix, where now' = 10 and now'' = 10]
  show ?thesis by (auto simp: ttl)
qed

end
