(* ===== verification/Gate.thy ===== *)
theory Gate
  imports Auth Complex_Main
begin

text \<open>
  What stands between a request and the router (middleware/ratelimit.go, maxbody.go, readonly.go,
  api/router.go): the token bucket of a connection, the limit on bodies and the read-only guard,
  with the disk check behind it (health/diskcheck.go), and the socket file the agent listens on
  (sockmon/monitor.go). Tokens are rational numbers; the rounding of the \<open>float64\<close> is not modelled.
\<close>

subsection \<open>The token bucket\<close>

record bucket =
  bk_tokens :: rat
  bk_last :: int

record rate_limiter =
  rl_rate :: rat
  rl_burst :: int
  rl_buckets :: "(int \<times> bucket) list"

definition NewRateLimiter :: "rat \<Rightarrow> int \<Rightarrow> rate_limiter" where
  "NewRateLimiter rate burst = \<lparr>rl_rate = rate, rl_burst = burst, rl_buckets = []\<rparr>"

definition elapsed_seconds :: "int \<Rightarrow> int \<Rightarrow> rat" where
  "elapsed_seconds now before = of_int (now - before) / 1000000000"

text \<open>The tokens of a bucket at a time, capped at the burst.\<close>

definition refilled :: "rate_limiter \<Rightarrow> int \<Rightarrow> bucket \<Rightarrow> rat" where
  "refilled rl now b =
     (let t = bk_tokens b + elapsed_seconds now (bk_last b) * rl_rate rl in
      if of_int (rl_burst rl) < t then of_int (rl_burst rl) else t)"

definition allow :: "int \<Rightarrow> int \<Rightarrow> rate_limiter \<Rightarrow> bool \<times> rate_limiter" where
  "allow conn now rl =
     (let b = (case map_of (rl_buckets rl) conn of
            None \<Rightarrow> \<lparr>bk_tokens = of_int (rl_burst rl), bk_last = now\<rparr> | Some b \<Rightarrow> b);
          t = refilled rl now b in
      if 1 \<le> t
      then (True, rl\<lparr>rl_buckets := AList.update conn \<lparr>bk_tokens = t - 1, bk_last = now\<rparr> (rl_buckets rl)\<rparr>)
      else (False, rl\<lparr>rl_buckets := AList.update conn \<lparr>bk_tokens = t, bk_last = now\<rparr> (rl_buckets rl)\<rparr>))"

text \<open>One tick of the clean-up: buckets not used for five minutes are dropped.\<close>

definition stale_after :: int where
  "stale_after = 300 * 1000000000"

definition cleanup_buckets :: "int \<Rightarrow> rate_limiter \<Rightarrow> rate_limiter" where
  "cleanup_buckets now rl = rl\<lparr>rl_buckets := filter (\<lambda>(_, b). \<not> now - bk_last b > stale_after) (rl_buckets rl)\<rparr>"

subsection \<open>The guards and their order\<close>

definition MaxBodySize :: int where
  "MaxBodySize = 2 ^ 20"

definition read_method :: "request \<Rightarrow> bool" where
  "read_method r \<longleftrightarrow> rq_method r = ''GET'' \<or> rq_method r = ''HEAD'' \<or> rq_method r = ''OPTIONS''"

definition health_path :: "request \<Rightarrow> bool" where
  "health_path r \<longleftrightarrow> rq_path r = ''/api/health''"

text \<open>A request is refused (429 or 503) or reaches the router, its body limited or not.\<close>

datatype gate_verdict = TooManyRequests | StorageUnavailable | Routed "int option"

definition ReadOnlyGuard :: "bool \<Rightarrow> request \<Rightarrow> int option \<Rightarrow> gate_verdict" where
  "ReadOnlyGuard read_only r limit =
     (if read_method r then Routed limit
      else if health_path r then Routed limit
      else if read_only then StorageUnavailable
      else Routed limit)"

definition MaxBodyReader :: "int \<Rightarrow> request \<Rightarrow> (int option \<Rightarrow> gate_verdict) \<Rightarrow> gate_verdict" where
  "MaxBodyReader limit r inner =
     (if read_method r then inner None else if health_path r then inner None else inner (Some limit))"

definition rate_wrap :: "rate_limiter \<Rightarrow> int \<Rightarrow> request \<Rightarrow> gate_verdict \<Rightarrow> gate_verdict \<times> rate_limiter" where
  "rate_wrap rl now r inner =
     (if health_path r then (inner, rl)
      else (case allow (rq_conn r) now rl of
          (False, rl') \<Rightarrow> (TooManyRequests, rl')
        | (True, rl') \<Rightarrow> (inner, rl')))"

definition NewRateLimitedRouter ::
  "rate_limiter option \<Rightarrow> bool option \<Rightarrow> int \<Rightarrow> request \<Rightarrow> gate_verdict \<times> rate_limiter option" where
  "NewRateLimitedRouter rl ro now r =
     (let inner = MaxBodyReader MaxBodySize r (\<lambda>limit.
            case ro of None \<Rightarrow> Routed limit | Some read_only \<Rightarrow> ReadOnlyGuard read_only r limit) in
      case rl of None \<Rightarrow> (inner, None)
      | Some l \<Rightarrow> (case rate_wrap l now r inner of (v, l') \<Rightarrow> (v, Some l')))"

subsection \<open>Disk space\<close>

record disk_checker =
  dc_threshold :: "64 word"
  dc_read_only :: bool

definition NewDiskChecker :: "64 word \<Rightarrow> disk_checker" where
  "NewDiskChecker threshold =
     \<lparr>dc_threshold = (if threshold = 0 then 10 * 1024 * 1024 else threshold), dc_read_only = False\<rparr>"

text \<open>The free space as statfs reports it, in blocks and their size; the product wraps.\<close>

definition defaultStatfs :: "(64 word \<times> int) option \<Rightarrow> 64 word option" where
  "defaultStatfs st = (case st of None \<Rightarrow> None
     | Some (blocks, bsize) \<Rightarrow> if bsize \<le> 0 then None else Some (blocks * word_of_int bsize))"

definition disk_check :: "64 word option \<Rightarrow> disk_checker \<Rightarrow> disk_checker" where
  "disk_check available dc = (case available of None \<Rightarrow> dc
     | Some a \<Rightarrow> dc\<lparr>dc_read_only := (a < dc_threshold dc)\<rparr>)"

subsection \<open>The socket file\<close>

text \<open>
  What is at the path of the socket, whether the current server accepts on it, and a script of
  failures of the calls that are made (stat, remove, listen).
\<close>

datatype sock_file = Absent | SocketFile nat | OtherFile nat

record sock_monitor =
  sm_file :: sock_file
  sm_serving :: bool
  sm_faults :: "bool list"

definition sock_fault :: "sock_monitor \<Rightarrow> bool \<times> sock_monitor" where
  "sock_fault m = (next_fault (sm_faults m), m\<lparr>sm_faults := tl (sm_faults m)\<rparr>)"

text \<open>\<open>net.Listen\<close> under the umask 0117 makes a socket of mode 0660, unless something is there.\<close>

definition createSocket :: "sock_monitor \<Rightarrow> bool \<times> sock_monitor" where
  "createSocket m = (case sock_fault m of (failed, m1) \<Rightarrow>
     if failed \<or> sm_file m1 \<noteq> Absent then (False, m1) else (True, m1\<lparr>sm_file := SocketFile 432\<rparr>))"

definition sock_start :: "sock_monitor \<Rightarrow> bool \<times> sock_monitor" where
  "sock_start m = (case createSocket m of (ok, m1) \<Rightarrow> if ok then (True, m1\<lparr>sm_serving := True\<rparr>) else (False, m1))"

text \<open>The old server is closed, the file removed (an error is ignored), a new socket made.\<close>

definition recreate :: "sock_monitor \<Rightarrow> sock_monitor" where
  "recreate m =
     (let m1 = m\<lparr>sm_serving := False\<rparr>;
          (failed, m2) = sock_fault m1;
          m3 = (if failed then m2 else m2\<lparr>sm_file := Absent\<rparr>) in
      case createSocket m3 of (ok, m4) \<Rightarrow> if ok then m4\<lparr>sm_serving := True\<rparr> else m4)"

definition sock_check :: "sock_monitor \<Rightarrow> sock_monitor" where
  "sock_check m =
     (case sock_fault m of (failed, m1) \<Rightarrow>
        if failed then m1
        else (case sm_file m1 of
            Absent \<Rightarrow> recreate m1
          | OtherFile _ \<Rightarrow> recreate m1
          | SocketFile _ \<Rightarrow> m1))"

subsection \<open>The rate of a connection is bounded\<close>

datatype rate_op = Allow int int | DropStale int

fun rate_step :: "rate_op \<Rightarrow> rate_limiter \<Rightarrow> rate_limiter" where
  "rate_step (Allow conn now) rl = snd (allow conn now rl)"
| "rate_step (DropStale now) rl = cleanup_buckets now rl"

fun rate_time :: "rate_op \<Rightarrow> int" where
  "rate_time (Allow conn now) = now"
| "rate_time (DropStale now) = now"

text \<open>The requests of a connection that are let through in a run.\<close>

fun granted :: "int \<Rightarrow> rate_op list \<Rightarrow> rate_limiter \<Rightarrow> nat" where
  "granted conn [] rl = 0"
| "granted conn (op # ops) rl =
     (case op of Allow c now \<Rightarrow> if c = conn \<and> fst (allow c now rl) then 1 else 0 | DropStale _ \<Rightarrow> 0) +
     granted conn ops (rate_step op rl)"

text \<open>The tokens a connection could use at a time, and the limiters a run reaches.\<close>

definition avail :: "int \<Rightarrow> int \<Rightarrow> rate_limiter \<Rightarrow> rat" where
  "avail conn now rl = (case map_of (rl_buckets rl) conn of None \<Rightarrow> of_int (rl_burst rl) | Some b \<Rightarrow> refilled rl now b)"

definition limiter_ok :: "int \<Rightarrow> rate_limiter \<Rightarrow> bool" where
  "limiter_ok now rl \<longleftrightarrow> distinct (map fst (rl_buckets rl)) \<and> 0 \<le> rl_rate rl \<and> 0 \<le> rl_burst rl \<and>
     of_int (rl_burst rl) \<le> 300 * rl_rate rl \<and>
     (\<forall>(c, b) \<in> set (rl_buckets rl). 0 \<le> bk_tokens b \<and> bk_last b \<le> now)"

lemma refilled_nonneg: "0 \<le> rl_rate rl \<Longrightarrow> 0 \<le> rl_burst rl \<Longrightarrow> 0 \<le> bk_tokens b \<Longrightarrow> bk_last b \<le> now \<Longrightarrow> 0 \<le> refilled rl now b"
  by (simp add: refilled_def Let_def elapsed_seconds_def)

lemma refilled_buckets [simp]: "refilled (rl\<lparr>rl_buckets := x\<rparr>) now b = refilled rl now b"
  by (simp add: refilled_def Let_def)

lemma refilled_le: "refilled rl now b \<le> of_int (rl_burst rl)"
  by (simp add: refilled_def Let_def)

lemma refilled_mono:
  assumes "0 \<le> rl_rate rl" "now \<le> now'"
  shows "refilled rl now' b \<le> refilled rl now b + elapsed_seconds now' now * rl_rate rl"
proof -
  have "elapsed_seconds now' (bk_last b) = elapsed_seconds now (bk_last b) + elapsed_seconds now' now"
    by (simp add: elapsed_seconds_def field_simps)
  then have "elapsed_seconds now' (bk_last b) * rl_rate rl = elapsed_seconds now (bk_last b) * rl_rate rl + elapsed_seconds now' now * rl_rate rl"
    by (simp add: distrib_right)
  moreover have "0 \<le> elapsed_seconds now' now * rl_rate rl" using assms by (simp add: elapsed_seconds_def)
  ultimately show ?thesis by (simp add: refilled_def Let_def)
qed

lemma avail_mono:
  "limiter_ok now rl \<Longrightarrow> now \<le> now' \<Longrightarrow> avail conn now' rl \<le> avail conn now rl + elapsed_seconds now' now * rl_rate rl"
  using refilled_mono[of rl now now'] by (auto simp: avail_def limiter_ok_def elapsed_seconds_def split: option.split)

lemma limiter_later: "limiter_ok now rl \<Longrightarrow> now \<le> now' \<Longrightarrow> limiter_ok now' rl"
  by (fastforce simp: limiter_ok_def)

lemma avail_nonneg: "limiter_ok now rl \<Longrightarrow> 0 \<le> avail conn now rl"
  by (auto simp: avail_def limiter_ok_def refilled_nonneg split: option.split dest!: map_of_SomeD)

lemma allow_run:
  "allow conn now rl = (1 \<le> avail conn now rl, rl\<lparr>rl_buckets := AList.update conn
     \<lparr>bk_tokens = avail conn now rl - (if 1 \<le> avail conn now rl then 1 else 0), bk_last = now\<rparr> (rl_buckets rl)\<rparr>)"
proof -
  have "refilled rl now \<lparr>bk_tokens = of_int (rl_burst rl), bk_last = now\<rparr> = of_int (rl_burst rl)"
    by (simp add: refilled_def elapsed_seconds_def)
  then show ?thesis by (auto simp: allow_def avail_def Let_def split: option.split)
qed

lemma avail_update:
  "avail conn now (rl\<lparr>rl_buckets := AList.update c b (rl_buckets rl)\<rparr>) = (if conn = c then refilled rl now b else avail conn now rl)"
  by (simp add: avail_def update_lookup split: option.split)

text \<open>Letting a request through costs its connection one token, and nobody else any.\<close>

lemma allow_avail:
  assumes "limiter_ok now rl"
  shows "avail conn now (snd (allow c now rl)) =
    avail conn now rl - (if c = conn \<and> fst (allow c now rl) then 1 else 0)" "limiter_ok now (snd (allow c now rl))"
proof -
  let ?b = "\<lparr>bk_tokens = avail c now rl - (if 1 \<le> avail c now rl then 1 else 0), bk_last = now\<rparr>"
  have le: "avail c now rl \<le> of_int (rl_burst rl)" by (auto simp: avail_def refilled_le split: option.split)
  then have "refilled rl now ?b = bk_tokens ?b"
    by (simp add: refilled_def elapsed_seconds_def)
  then show "avail conn now (snd (allow c now rl)) = avail conn now rl - (if c = conn \<and> fst (allow c now rl) then 1 else 0)"
    by (simp add: allow_run avail_update)
  have "set (AList.update c ?b (rl_buckets rl)) \<subseteq> insert (c, ?b) (set (rl_buckets rl))" by (rule set_update_sub)
  moreover have "0 \<le> bk_tokens ?b" using avail_nonneg[OF assms, of c] by simp
  ultimately show "limiter_ok now (snd (allow c now rl))"
    using assms distinct_update[of "rl_buckets rl" c ?b] by (fastforce simp: limiter_ok_def allow_run)
qed

text \<open>Dropping a stale bucket changes nothing: it would be full again.\<close>

lemma cleanup_avail:
  assumes "limiter_ok now rl"
  shows "avail conn now (cleanup_buckets now rl) = avail conn now rl" "limiter_ok now (cleanup_buckets now rl)"
proof -
  have d: "distinct (map fst (rl_buckets rl))" using assms by (simp add: limiter_ok_def)
  have full: "refilled rl now b = of_int (rl_burst rl)"
    if "map_of (rl_buckets rl) conn = Some b" "stale_after < now - bk_last b" for b
  proof -
    have b: "0 \<le> bk_tokens b" "0 \<le> rl_rate rl" "of_int (rl_burst rl) \<le> 300 * rl_rate rl"
      using assms map_of_SomeD[OF that(1)] by (auto simp: limiter_ok_def)
    have "300 \<le> elapsed_seconds now (bk_last b)"
    proof -
      have "(of_int 300000000000 :: rat) \<le> of_int (now - bk_last b)"
        using that(2) unfolding stale_after_def by (subst of_int_le_iff) simp
      then show ?thesis by (simp add: elapsed_seconds_def)
    qed
    then have "300 * rl_rate rl \<le> elapsed_seconds now (bk_last b) * rl_rate rl" using b(2) by (rule mult_right_mono)
    with b show ?thesis by (simp add: refilled_def Let_def)
  qed
  show "avail conn now (cleanup_buckets now rl) = avail conn now rl"
    by (auto simp: full cleanup_buckets_def avail_def map_of_filter_entry[OF d] split: option.split Option.bind_split)
  show "limiter_ok now (cleanup_buckets now rl)"
    using assms by (auto simp: limiter_ok_def cleanup_buckets_def distinct_map_filter)
qed

lemma rate_allow: "rl_rate (snd (allow c now rl)) = rl_rate rl"
  by (simp add: allow_run)

lemma granted_bound:
  assumes "limiter_ok t0 rl" "sorted (t0 # map rate_time ops @ [t1])"
  shows "of_nat (granted conn ops rl) \<le> avail conn t0 rl + elapsed_seconds t1 t0 * rl_rate rl"
  using assms
proof (induction ops arbitrary: rl t0)
  case Nil
  then show ?case using avail_nonneg[of t0 rl conn] by (simp add: limiter_ok_def elapsed_seconds_def)
next
  case (Cons op ops)
  let ?t = "rate_time op" and ?rl = "rate_step op rl"
  let ?g = "case op of Allow c now \<Rightarrow> if c = conn \<and> fst (allow c now rl) then 1 else 0 | DropStale _ \<Rightarrow> (0 :: nat)"
  have t: "t0 \<le> ?t" "sorted (?t # map rate_time ops @ [t1])" using Cons.prems(2) by auto
  have now: "limiter_ok ?t rl" using limiter_later[OF Cons.prems(1) t(1)] .
  have step: "limiter_ok ?t ?rl" "avail conn ?t ?rl = avail conn ?t rl - of_nat ?g" "rl_rate ?rl = rl_rate rl"
  proof (atomize (full), cases op)
    case (Allow c n)
    then show "limiter_ok ?t ?rl \<and> avail conn ?t ?rl = avail conn ?t rl - of_nat ?g \<and> rl_rate ?rl = rl_rate rl"
      using allow_avail(1)[of n rl conn c] allow_avail(2)[of n rl c] now by (auto simp: rate_allow)
  next
    case (DropStale n)
    then show "limiter_ok ?t ?rl \<and> avail conn ?t ?rl = avail conn ?t rl - of_nat ?g \<and> rl_rate ?rl = rl_rate rl"
      using cleanup_avail[of n rl] now by (simp add: cleanup_buckets_def)
  qed
  have "of_nat (granted conn ops ?rl) \<le> avail conn ?t ?rl + elapsed_seconds t1 ?t * rl_rate rl"
    using Cons.IH[OF step(1) t(2)] by (simp add: step(3))
  also have "\<dots> \<le> (avail conn t0 rl + elapsed_seconds ?t t0 * rl_rate rl - of_nat ?g) + elapsed_seconds t1 ?t * rl_rate rl"
    using avail_mono[OF Cons.prems(1) t(1)] by (simp add: step(2))
  also have "\<dots> = avail conn t0 rl + elapsed_seconds t1 t0 * rl_rate rl - of_nat ?g"
    by (simp add: elapsed_seconds_def field_simps)
  finally show ?case by simp
qed



subsection \<open>What the guards let through\<close>

text \<open>
  Behind the gate the read-only mode is real and the health endpoint always answers: a write that
  reaches the router found the disk writable and carries a limited body, a request is refused with 429
  only by its own bucket, and the health endpoint is never refused and uses no token.
\<close>
theorem gate_spec:
  "case NewRateLimitedRouter rl ro now r of
     (Routed limit, rl') \<Rightarrow> (if read_method r \<or> health_path r then limit = None
        else ro \<noteq> Some True \<and> limit = Some MaxBodySize) \<and> (health_path r \<longrightarrow> rl' = rl)
   | (StorageUnavailable, rl') \<Rightarrow> ro = Some True \<and> \<not> read_method r \<and> \<not> health_path r
   | (TooManyRequests, rl') \<Rightarrow> \<not> health_path r \<and> (\<exists>l. rl = Some l \<and> avail (rq_conn r) now l < 1)"
  by (auto simp: NewRateLimitedRouter_def MaxBodyReader_def ReadOnlyGuard_def rate_wrap_def allow_run Let_def
      split: option.split gate_verdict.split bool.split)

theorem gate_spec_witness:
  "snd (NewRateLimitedRouter (Some (NewRateLimiter 1 1)) None 0 (sample_poll\<lparr>rq_path := ''/api/health''\<rparr>)) =
     Some (NewRateLimiter 1 1)"
proof -
  let ?r = "sample_poll\<lparr>rq_path := ''/api/health''\<rparr>"
  have h: "health_path ?r" by (simp add: health_path_def)
  then obtain l where run: "NewRateLimitedRouter (Some (NewRateLimiter 1 1)) None 0 ?r = (Routed None, l)"
    by (auto simp: NewRateLimitedRouter_def MaxBodyReader_def rate_wrap_def)
  have "l = Some (NewRateLimiter 1 1)"
    using gate_spec[where rl = "Some (NewRateLimiter 1 1)" and ro = None and now = 0 and r = ?r] h by (simp add: run)
  then show ?thesis by (simp add: run)
qed

subsection \<open>The socket heals\<close>

text \<open>
  When the socket file is gone or replaced by another kind of file and the calls succeed, one check
  has the agent listen on a new socket of mode 0660; a socket that is there is left alone.
\<close>
theorem socket_heals:
  assumes "sm_faults m = []"
  shows "sock_check m = (case sm_file m of
      SocketFile _ \<Rightarrow> m
    | _ \<Rightarrow> m\<lparr>sm_file := SocketFile 432, sm_serving := True\<rparr>)"
  using assms by (cases m) (simp add: sock_check_def recreate_def createSocket_def sock_fault_def Let_def split: sock_file.split)

theorem socket_heals_witness:
  "sock_check \<lparr>sm_file = Absent, sm_serving = True, sm_faults = []\<rparr> =
     \<lparr>sm_file = SocketFile 432, sm_serving = True, sm_faults = []\<rparr>"
  using socket_heals[of "\<lparr>sm_file = Absent, sm_serving = True, sm_faults = []\<rparr>"] by simp

end
