(* ===== verification/Config.thy ===== *)
theory Config
  imports Firewall Wireguard
begin

text \<open>
  The configuration (config/config.go) and the order in which the agent puts it together
  (cmd/wg-sockd/main.go, steps 1 to 5b): defaults, command line, file, environment, validation.
  Durations are in nanoseconds. The YAML decoder is an argument, as is the host name of an origin
  (\<open>url.Parse\<close> and \<open>Hostname\<close>).
\<close>

subsection \<open>strconv.ParseBool, time.ParseDuration\<close>

definition parse_bool :: "string \<Rightarrow> bool option" where
  "parse_bool s =
     (if s \<in> {''1'', ''t'', ''T'', ''TRUE'', ''true'', ''True''} then Some True
      else if s \<in> {''0'', ''f'', ''F'', ''FALSE'', ''false'', ''False''} then Some False
      else None)"

definition unit_map :: "(string \<times> nat) list" where
  "unit_map = [(''ns'', 1), (''us'', 1000), ([CHR 0xC2, CHR 0xB5, CHR ''s''], 1000),
     ([CHR 0xCE, CHR 0xBC, CHR ''s''], 1000), (''ms'', 1000000), (''s'', 1000000000),
     (''m'', 60 * 1000000000), (''h'', 3600 * 1000000000)]"

text \<open>
  The digits of a fraction: their value and the power of ten below it, the digits after an
  overflow dropped. The product with the unit is truncated (the code rounds it through
  \<open>float64\<close> first).
\<close>

definition fraction_digit :: "nat \<times> nat \<times> bool \<Rightarrow> char \<Rightarrow> nat \<times> nat \<times> bool" where
  "fraction_digit st c = (case st of (f, scale, overflow) \<Rightarrow>
     if overflow then st
     else if f > (2 ^ 63 - 1) div 10 then (f, scale, True)
     else let g = f * 10 + digit_val c in
       if g > 2 ^ 63 then (f, scale, True) else (g, scale * 10, False))"

definition leading_fraction :: "string \<Rightarrow> nat \<times> nat" where
  "leading_fraction ds = (case foldl fraction_digit (0, 1, False) ds of (f, scale, _) \<Rightarrow> (f, scale))"

text \<open>The terms of a duration, each a number and a unit, added up.\<close>

function duration_terms :: "nat \<Rightarrow> string \<Rightarrow> nat option" where
  "duration_terms d s =
     (if s = [] then Some d
      else
        let ds = takeWhile is_digit s; s1 = dropWhile is_digit s;
            dot = (s1 \<noteq> [] \<and> hd s1 = CHR ''.'');
            s2 = (if dot then tl s1 else s1);
            fs = (if dot then takeWhile is_digit s2 else []); s3 = drop (length fs) s2;
            u = takeWhile (\<lambda>c. \<not> (c = CHR ''.'' \<or> is_digit c)) s3; rest = drop (length u) s3;
            v = dec_val ds in
        if v > 2 ^ 63 \<or> ds = [] \<and> fs = [] \<or> u = [] then None
        else (case map_of unit_map u of
            None \<Rightarrow> None
          | Some unit \<Rightarrow>
              if v > 2 ^ 63 div unit then None
              else (case leading_fraction fs of (f, scale) \<Rightarrow>
                let w = v * unit + (if 0 < f then f * unit div scale else 0) in
                if w > 2 ^ 63 \<or> d + w > 2 ^ 63 then None else duration_terms (d + w) rest)))"
  by pat_completeness auto
termination
proof (relation "measure (\<lambda>(d, s). length s)", goal_cases)
  case (2 d s ds s1 dot s2 fs s3 u rest v unit f scale w)
  have "length s3 \<le> length s2" "length s2 \<le> length s1" "length s1 \<le> length s"
    unfolding 2(7) 2(5) 2(3) by (simp_all add: length_dropWhile_le)
  moreover have "length u \<le> length s3" "0 < length u" using 2(8,11) by (simp_all add: length_takeWhile_le)
  moreover have "length rest = length s3 - length u" by (simp add: 2(9))
  ultimately have "length rest < length s" by linarith
  then show ?case by simp
qed simp

declare duration_terms.simps [simp del]

definition parse_duration :: "string \<Rightarrow> int option" where
  "parse_duration s =
     (let (neg, t) = (case s of [] \<Rightarrow> (False, [])
            | c # r \<Rightarrow> if c = CHR ''-'' then (True, r) else if c = CHR ''+'' then (False, r) else (False, s)) in
      if t = ''0'' then Some 0
      else if t = [] then None
      else (case duration_terms 0 t of
          None \<Rightarrow> None
        | Some d \<Rightarrow> if neg then Some (- int d) else if d > 2 ^ 63 - 1 then None else Some (int d)))"

subsection \<open>The configuration\<close>

record basic_auth_config =
  ba_enabled :: bool
  ba_username :: string
  ba_password_hash :: string

record token_auth_config =
  ta_enabled :: bool
  ta_token :: string
  ta_allow_weak :: bool

record webauthn_config =
  wa_enabled :: bool
  wa_display_name :: string
  wa_origin :: string

record auth_config =
  ac_basic :: basic_auth_config
  ac_token :: token_auth_config
  ac_webauthn :: webauthn_config
  ac_session_ttl :: int
  ac_skip_unix :: bool
  ac_secure_cookies :: string
  ac_max_sessions :: int

record config =
  cf_interface :: string
  cf_socket_path :: string
  cf_db_path :: string
  cf_conf_path :: string
  cf_listen_addr :: string
  cf_management_listen :: string
  cf_external_endpoint :: string
  cf_peer_limit :: int
  cf_reconcile_interval :: int
  cf_peer_profiles :: "profile_seed list"
  cf_rate_limit :: int
  cf_serve_ui :: bool
  cf_ui_listen :: string
  cf_auth :: auth_config
  cf_firewall :: fw_config
  cf_ipv6_prefix :: string

definition AnyEnabled :: "auth_config \<Rightarrow> bool" where
  "AnyEnabled a \<longleftrightarrow> ba_enabled (ac_basic a) \<or> ta_enabled (ac_token a) \<or> wa_enabled (ac_webauthn a)"

definition minute :: int where "minute = 60 * 1000000000"

definition Defaults :: config where
  "Defaults = \<lparr>cf_interface = ''wg0'', cf_socket_path = ''/run/wg-sockd/wg-sockd.sock'',
     cf_db_path = ''/var/lib/wg-sockd/wg-sockd.db'', cf_conf_path = ''/etc/wireguard/wg0.conf'',
     cf_listen_addr = [], cf_management_listen = '':8090'', cf_external_endpoint = [],
     cf_peer_limit = 250, cf_reconcile_interval = 30 * 1000000000, cf_peer_profiles = [],
     cf_rate_limit = 10, cf_serve_ui = False, cf_ui_listen = ''127.0.0.1:8080'',
     cf_auth = \<lparr>ac_basic = \<lparr>ba_enabled = False, ba_username = [], ba_password_hash = []\<rparr>,
       ac_token = \<lparr>ta_enabled = False, ta_token = [], ta_allow_weak = False\<rparr>,
       ac_webauthn = \<lparr>wa_enabled = False, wa_display_name = [], wa_origin = []\<rparr>,
       ac_session_ttl = 15 * minute, ac_skip_unix = True, ac_secure_cookies = ''auto'', ac_max_sessions = 100\<rparr>,
     cf_firewall = \<lparr>fc_enabled = True, fc_driver = ''iptables'', fc_managed_chain = ''WG_SOCKD_FORWARD'',
       fc_wg_interface = []\<rparr>,
     cf_ipv6_prefix = []\<rparr>"

text \<open>A file that is missing gives the defaults, one that cannot be read or parsed an error.\<close>

datatype file_read = Missing | Unreadable | Contents string

datatype config_error = ReadError | ParseError | EnvError string | FlagError string
  | NoEndpoint | PrefixSuffix | PrefixInvalid
  | BadTTL | NoPasswordHash | NoToken | NoOrigin | WebAuthnAlone | WeakToken

definition LoadConfig :: "(string \<Rightarrow> config \<Rightarrow> config option) \<Rightarrow> file_read \<Rightarrow> config_error + config" where
  "LoadConfig unmarshal file = (case file of
       Missing \<Rightarrow> Inr Defaults
     | Unreadable \<Rightarrow> Inl ReadError
     | Contents data \<Rightarrow> (case unmarshal data Defaults of None \<Rightarrow> Inl ParseError | Some c \<Rightarrow> Inr c))"

subsection \<open>Command line and environment\<close>

text \<open>A named text and what reading it does to the configuration.\<close>

type_synonym setter = "string \<Rightarrow> config \<Rightarrow> config option"

definition text_setter :: "((string \<Rightarrow> string) \<Rightarrow> config \<Rightarrow> config) \<Rightarrow> setter" where
  "text_setter field v c = Some (field (\<lambda>_. v) c)"

definition int_setter :: "((int \<Rightarrow> int) \<Rightarrow> config \<Rightarrow> config) \<Rightarrow> setter" where
  "int_setter field v c = map_option (\<lambda>n. field (\<lambda>_. n) c) (parse_int64 v)"

definition bool_setter :: "((bool \<Rightarrow> bool) \<Rightarrow> config \<Rightarrow> config) \<Rightarrow> setter" where
  "bool_setter field v c = map_option (\<lambda>b. field (\<lambda>_. b) c) (parse_bool v)"

definition duration_setter :: "((int \<Rightarrow> int) \<Rightarrow> config \<Rightarrow> config) \<Rightarrow> setter" where
  "duration_setter field v c = map_option (\<lambda>d. field (\<lambda>_. d) c) (parse_duration v)"

definition basic_field :: "(basic_auth_config \<Rightarrow> basic_auth_config) \<Rightarrow> config \<Rightarrow> config" where
  "basic_field f = cf_auth_update (ac_basic_update f)"

definition token_field :: "(token_auth_config \<Rightarrow> token_auth_config) \<Rightarrow> config \<Rightarrow> config" where
  "token_field f = cf_auth_update (ac_token_update f)"

definition webauthn_field :: "(webauthn_config \<Rightarrow> webauthn_config) \<Rightarrow> config \<Rightarrow> config" where
  "webauthn_field f = cf_auth_update (ac_webauthn_update f)"

definition env_mappings :: "(string \<times> setter) list" where
  "env_mappings =
     [(''WG_SOCKD_INTERFACE'', text_setter cf_interface_update),
      (''WG_SOCKD_SOCKET_PATH'', text_setter cf_socket_path_update),
      (''WG_SOCKD_DB_PATH'', text_setter cf_db_path_update),
      (''WG_SOCKD_CONF_PATH'', text_setter cf_conf_path_update),
      (''WG_SOCKD_LISTEN_ADDR'', text_setter cf_listen_addr_update),
      (''WG_SOCKD_MANAGEMENT_LISTEN'', text_setter cf_management_listen_update),
      (''WG_SOCKD_PEER_LIMIT'', int_setter cf_peer_limit_update),
      (''WG_SOCKD_RATE_LIMIT'', int_setter cf_rate_limit_update),
      (''WG_SOCKD_SERVE_UI'', bool_setter cf_serve_ui_update),
      (''WG_SOCKD_UI_LISTEN'', text_setter cf_ui_listen_update),
      (''WG_SOCKD_AUTH_BASIC_ENABLED'', bool_setter (\<lambda>f. basic_field (ba_enabled_update f))),
      (''WG_SOCKD_AUTH_BASIC_USERNAME'', text_setter (\<lambda>f. basic_field (ba_username_update f))),
      (''WG_SOCKD_AUTH_BASIC_PASSWORD_HASH'', text_setter (\<lambda>f. basic_field (ba_password_hash_update f))),
      (''WG_SOCKD_AUTH_TOKEN_ENABLED'', bool_setter (\<lambda>f. token_field (ta_enabled_update f))),
      (''WG_SOCKD_AUTH_TOKEN'', text_setter (\<lambda>f. token_field (ta_token_update f))),
      (''WG_SOCKD_AUTH_SESSION_TTL'', duration_setter (\<lambda>f. cf_auth_update (ac_session_ttl_update f))),
      (''WG_SOCKD_AUTH_SKIP_UNIX_SOCKET'', bool_setter (\<lambda>f. cf_auth_update (ac_skip_unix_update f))),
      (''WG_SOCKD_AUTH_SECURE_COOKIES'', text_setter (\<lambda>f. cf_auth_update (ac_secure_cookies_update f))),
      (''WG_SOCKD_AUTH_MAX_SESSIONS'', int_setter (\<lambda>f. cf_auth_update (ac_max_sessions_update f))),
      (''WG_SOCKD_AUTH_WEBAUTHN_ENABLED'', bool_setter (\<lambda>f. webauthn_field (wa_enabled_update f))),
      (''WG_SOCKD_AUTH_WEBAUTHN_ORIGIN'', text_setter (\<lambda>f. webauthn_field (wa_origin_update f))),
      (''WG_SOCKD_EXTERNAL_ENDPOINT'', text_setter cf_external_endpoint_update),
      (''WG_SOCKD_IPV6_PREFIX'', text_setter cf_ipv6_prefix_update)]"

text \<open>
  The loop over the mappings: the name whose value is refused, the overrides applied and the
  configuration reached. The configuration is changed in place, also when a later value is refused.
\<close>

fun apply_mappings :: "(string \<times> setter) list \<Rightarrow> (string \<Rightarrow> string option) \<Rightarrow> (string \<times> string) list \<Rightarrow> config \<Rightarrow>
    string option \<times> (string \<times> string) list \<times> config" where
  "apply_mappings [] env applied c = (None, applied, c)"
| "apply_mappings ((name, assign) # ms) env applied c =
     (case env name of
        None \<Rightarrow> apply_mappings ms env applied c
      | Some v \<Rightarrow> (case assign v c of
            None \<Rightarrow> (Some name, applied, c)
          | Some c' \<Rightarrow> apply_mappings ms env (applied @ [(name, v)]) c'))"

definition ApplyEnv :: "(string \<Rightarrow> string option) \<Rightarrow> config \<Rightarrow> string option \<times> (string \<times> string) list \<times> config" where
  "ApplyEnv env c = apply_mappings env_mappings env [] c"

definition flag_setters :: "(string \<times> setter) list" where
  "flag_setters =
     [(''interface'', text_setter cf_interface_update), (''socket-path'', text_setter cf_socket_path_update),
      (''db-path'', text_setter cf_db_path_update), (''conf-path'', text_setter cf_conf_path_update),
      (''listen-addr'', text_setter cf_listen_addr_update), (''serve-ui'', bool_setter cf_serve_ui_update),
      (''ui-listen'', text_setter cf_ui_listen_update),
      (''management-listen'', text_setter cf_management_listen_update)]"

text \<open>
  \<open>flag.Parse\<close> over the flags ApplyFlags registers and those of \<open>main\<close>, which are not part of the
  configuration, on the flags of the command line in order.
\<close>

definition main_flags :: "string list" where
  "main_flags = [''version'', ''dry-run'', ''config'', ''serve-ui-dir'']"

fun ApplyFlags :: "(string \<times> string) list \<Rightarrow> config \<Rightarrow> config_error + config" where
  "ApplyFlags [] c = Inr c"
| "ApplyFlags ((name, v) # fs) c =
     (case map_of flag_setters name of
        None \<Rightarrow> if List.member main_flags name then ApplyFlags fs c else Inl (FlagError name)
      | Some assign \<Rightarrow> (case assign v c of None \<Rightarrow> Inl (FlagError name) | Some c' \<Rightarrow> ApplyFlags fs c'))"

text \<open>Step 3 of \<open>main\<close>: the flags that were set on the command line win over the file.\<close>

definition merge_file :: "(string \<Rightarrow> bool) \<Rightarrow> config \<Rightarrow> config \<Rightarrow> config" where
  "merge_file explicit file cfg = cfg\<lparr>
     cf_interface := if explicit ''interface'' then cf_interface cfg else cf_interface file,
     cf_socket_path := if explicit ''socket-path'' then cf_socket_path cfg else cf_socket_path file,
     cf_db_path := if explicit ''db-path'' then cf_db_path cfg else cf_db_path file,
     cf_conf_path := if explicit ''conf-path'' then cf_conf_path cfg else cf_conf_path file,
     cf_listen_addr := if explicit ''listen-addr'' then cf_listen_addr cfg else cf_listen_addr file,
     cf_management_listen := if explicit ''management-listen'' then cf_management_listen cfg else cf_management_listen file,
     cf_peer_limit := cf_peer_limit file,
     cf_reconcile_interval := cf_reconcile_interval file,
     cf_peer_profiles := cf_peer_profiles file,
     cf_external_endpoint := cf_external_endpoint file,
     cf_rate_limit := cf_rate_limit file,
     cf_auth := (cf_auth file)\<lparr>
       ac_session_ttl := if ac_session_ttl (cf_auth file) = 0 then ac_session_ttl (cf_auth Defaults)
         else ac_session_ttl (cf_auth file),
       ac_max_sessions := if ac_max_sessions (cf_auth file) = 0 then ac_max_sessions (cf_auth Defaults)
         else ac_max_sessions (cf_auth file),
       ac_secure_cookies := if ac_secure_cookies (cf_auth file) = [] then ac_secure_cookies (cf_auth Defaults)
         else ac_secure_cookies (cf_auth file)\<rparr>,
     cf_firewall := cf_firewall file,
     cf_ipv6_prefix := cf_ipv6_prefix file,
     cf_serve_ui := if explicit ''serve-ui'' then cf_serve_ui cfg else cf_serve_ui file,
     cf_ui_listen := if explicit ''ui-listen'' then cf_ui_listen cfg else cf_ui_listen file\<rparr>"

subsection \<open>Validation\<close>

definition trim_right_slash :: "string \<Rightarrow> string" where
  "trim_right_slash s = rev (dropWhile (\<lambda>c. c = CHR ''/'') (rev s))"

text \<open>\<open>url_host origin\<close> is the host name in an origin, \<open>None\<close> when it does not parse or has no host.\<close>

definition normalise_webauthn :: "(string \<Rightarrow> string option) \<Rightarrow> webauthn_config \<Rightarrow> webauthn_config" where
  "normalise_webauthn url_host w =
     (if wa_enabled w \<and> wa_origin w \<noteq> [] then
        let origin = trim_right_slash (wa_origin w) in
        w\<lparr>wa_origin := origin,
          wa_display_name := if wa_display_name w = []
            then (case url_host origin of None \<Rightarrow> [] | Some host \<Rightarrow> host) else wa_display_name w\<rparr>
      else w)"

definition ValidateAuth :: "(string \<Rightarrow> string option) \<Rightarrow> config \<Rightarrow> config_error + config" where
  "ValidateAuth url_host c =
     (let a = cf_auth c; c' = webauthn_field (normalise_webauthn url_host) c in
      if ac_session_ttl a < 5 * minute \<or> ac_session_ttl a > 720 * 60 * minute then Inl BadTTL
      else if ba_enabled (ac_basic a) \<and> ba_password_hash (ac_basic a) = [] then Inl NoPasswordHash
      else if ta_enabled (ac_token a) \<and> ta_token (ac_token a) = [] then Inl NoToken
      else if wa_enabled (ac_webauthn a) \<and> wa_origin (ac_webauthn a) = [] then Inl NoOrigin
      else if wa_enabled (ac_webauthn a) \<and> \<not> ba_enabled (ac_basic a) then Inl WebAuthnAlone
      else if ta_enabled (ac_token a) \<and> length (ta_token (ac_token a)) < 32 \<and> \<not> ta_allow_weak (ac_token a)
        then Inl WeakToken
      else Inr c')"

definition Validate :: "config \<Rightarrow> config_error + unit" where
  "Validate c =
     (if cf_external_endpoint c = [] then Inl NoEndpoint
      else if cf_ipv6_prefix c \<noteq> [] \<and> \<not> has_suffix ''::'' (cf_ipv6_prefix c) then Inl PrefixSuffix
      else if cf_ipv6_prefix c \<noteq> [] \<and> parse_prefix (cf_ipv6_prefix c @ ''0/64'') = None then Inl PrefixInvalid
      else Inr ())"

definition config_path :: "(string \<times> string) list \<Rightarrow> string" where
  "config_path flags = (case map_of (rev flags) ''config'' of None \<Rightarrow> ''/etc/wg-sockd/config.yaml'' | Some p \<Rightarrow> p)"

text \<open>Steps 1 to 5b of \<open>main\<close>; an error ends the program.\<close>

definition configure_agent ::
  "(string \<Rightarrow> config \<Rightarrow> config option) \<Rightarrow> (string \<Rightarrow> string option) \<Rightarrow> (string \<times> string) list \<Rightarrow> (string \<Rightarrow> file_read) \<Rightarrow>
   (string \<Rightarrow> string option) \<Rightarrow> config_error + config" where
  "configure_agent unmarshal url_host flags files env =
     (case ApplyFlags flags Defaults of
        Inl e \<Rightarrow> Inl e
      | Inr cfg \<Rightarrow> (case LoadConfig unmarshal (files (config_path flags)) of
          Inl e \<Rightarrow> Inl e
        | Inr file \<Rightarrow> (case ApplyEnv env (merge_file (\<lambda>n. n \<in> fst ` set flags) file cfg) of
            (Some name, _, _) \<Rightarrow> Inl (EnvError name)
          | (None, _, c) \<Rightarrow> (case Validate c of
              Inl e \<Rightarrow> Inl e
            | Inr _ \<Rightarrow> ValidateAuth url_host c))))"

subsection \<open>Precedence\<close>

text \<open>A table of setters in which one name alone decides a field, by a reading of its text.\<close>

definition setter_reads :: "(config \<Rightarrow> 'a) \<Rightarrow> (string \<Rightarrow> 'a option) \<Rightarrow> setter \<Rightarrow> bool" where
  "setter_reads field read s \<longleftrightarrow> (\<forall>v c c'. s v c = Some c' \<longrightarrow> read v = Some (field c'))"

definition setter_keeps :: "(config \<Rightarrow> 'a) \<Rightarrow> setter \<Rightarrow> bool" where
  "setter_keeps field s \<longleftrightarrow> (\<forall>v c c'. s v c = Some c' \<longrightarrow> field c' = field c)"

definition owns :: "(string \<times> setter) list \<Rightarrow> string \<Rightarrow> (config \<Rightarrow> 'a) \<Rightarrow> (string \<Rightarrow> 'a option) \<Rightarrow> bool" where
  "owns table name field read \<longleftrightarrow>
     list_all (\<lambda>(n, s). if n = name then setter_reads field read s else setter_keeps field s) table \<and>
     name \<in> fst ` set table"

definition decided :: "(string \<Rightarrow> 'a option) \<Rightarrow> string option \<Rightarrow> 'a \<Rightarrow> 'a \<Rightarrow> bool" where
  "decided read text old new \<longleftrightarrow> (case text of None \<Rightarrow> new = old | Some v \<Rightarrow> read v = Some new)"

lemma apply_mappings_field:
  assumes "apply_mappings ms env applied c = (None, applied', c')"
    and "list_all (\<lambda>(n, s). if n = name then setter_reads field read s else setter_keeps field s) ms"
  shows "decided read (if name \<in> fst ` set ms then env name else None) (field c) (field c')"
  using assms
proof (induction ms env applied c rule: apply_mappings.induct)
  case (2 n s ms env applied c)
  show ?case
  proof (cases "env n")
    case None
    with 2 show ?thesis by (auto split: if_splits)
  next
    case (Some v)
    then obtain c1 where s: "s v c = Some c1" using "2.prems"(1) by (auto split: option.splits)
    then have "decided read (if name \<in> fst ` set ms then env name else None) (field c1) (field c')"
      using "2.IH"(2)[OF Some s] "2.prems" Some by simp
    moreover have "if n = name then read v = Some (field c1) else field c1 = field c"
      using "2.prems"(2) s by (auto simp: setter_reads_def setter_keeps_def split: if_splits)
    ultimately show ?thesis using Some by (cases "n = name") (auto simp: decided_def split: if_splits option.splits)
  qed
qed (simp add: decided_def)

lemma ApplyFlags_field:
  assumes "ApplyFlags fs c = Inr c'" "owns flag_setters name field read"
  shows "decided read (map_of (rev fs) name) (field c) (field c')"
  using assms
proof (induction fs c rule: ApplyFlags.induct)
  case (2 n v fs c)
  show ?case
  proof (cases "map_of flag_setters n")
    case None
    then have "n \<noteq> name" using "2.prems"(2) by (auto simp: owns_def map_of_eq_None_iff)
    with 2 None show ?thesis by (auto simp: decided_def map_add_def split: option.splits if_splits)
  next
    case (Some s)
    then obtain c1 where s: "s v c = Some c1" "ApplyFlags fs c1 = Inr c'" using "2.prems"(1) by (auto split: option.splits)
    have "decided read (map_of (rev fs) name) (field c1) (field c')"
      using "2.IH"(2)[OF Some s(1,2)] "2.prems"(2) by blast
    moreover have "if n = name then read v = Some (field c1) else field c1 = field c"
      using "2.prems"(2) s(1) map_of_SomeD[OF Some]
      by (auto simp: owns_def list_all_iff setter_reads_def setter_keeps_def split: if_splits)
    ultimately show ?thesis by (cases "n = name") (auto simp: decided_def map_add_def split: option.splits)
  qed
qed (simp add: decided_def)

text \<open>What a text gives for a field with an environment variable and a flag, over the file's value.\<close>

definition chosen :: "(string \<Rightarrow> string option) \<Rightarrow> string \<Rightarrow> (string \<times> string) list \<Rightarrow> string \<Rightarrow> string option" where
  "chosen env var flags flag = (case env var of Some v \<Rightarrow> Some v | None \<Rightarrow> map_of (rev flags) flag)"

lemmas setter_defs = text_setter_def int_setter_def bool_setter_def duration_setter_def basic_field_def
  token_field_def webauthn_field_def

lemma merged_field:
  assumes "ApplyFlags flags Defaults = Inr cfg" "ApplyEnv env (merge_file (\<lambda>n. n \<in> fst ` set flags) file cfg) = (None, ap, c)"
    and "owns env_mappings var field read" "owns flag_setters flag field read"
    and "\<And>ex. field (merge_file ex file cfg) = (if ex flag then field cfg else field file)"
  shows "decided read (chosen env var flags flag) (field file) (field c)"
proof -
  have "decided read (env var) (field (merge_file (\<lambda>n. n \<in> fst ` set flags) file cfg)) (field c)"
    using apply_mappings_field[OF assms(2)[unfolded ApplyEnv_def], of var field read] assms(3) by (simp add: owns_def)
  moreover have "decided read (map_of (rev flags) flag) (field Defaults) (field cfg)"
    by (rule ApplyFlags_field[OF assms(1,4)])
  moreover have "flag \<in> fst ` set flags \<longleftrightarrow> map_of (rev flags) flag \<noteq> None"
    by (simp add: map_of_eq_None_iff[of "rev flags"])
  ultimately show ?thesis using assms(5) by (auto simp: decided_def chosen_def split: option.splits if_splits)
qed

lemma setter_laws:
  "(\<And>v c. field (updt (\<lambda>_. v) c) = v) \<Longrightarrow> setter_reads field Some (text_setter updt)"
  "(\<And>b c. switch (updb (\<lambda>_. b) c) = b) \<Longrightarrow> setter_reads switch parse_bool (bool_setter updb)"
  "(\<And>v c. g (updt (\<lambda>_. v) c) = g c) \<Longrightarrow> setter_keeps g (text_setter updt)"
  "(\<And>b c. g (updb (\<lambda>_. b) c) = g c) \<Longrightarrow> setter_keeps g (bool_setter updb)"
  "(\<And>n c. g (updi (\<lambda>_. n) c) = g c) \<Longrightarrow> setter_keeps g (int_setter updi)"
  "(\<And>n c. g (updi (\<lambda>_. n) c) = g c) \<Longrightarrow> setter_keeps g (duration_setter updi)"
  by (auto simp: setter_reads_def setter_keeps_def setter_defs)

lemmas owns_simps = owns_def env_mappings_def flag_setters_def setter_laws basic_field_def
  token_field_def webauthn_field_def

lemma owned_fields:
  "owns env_mappings ''WG_SOCKD_INTERFACE'' cf_interface Some" "owns flag_setters ''interface'' cf_interface Some"
  "owns env_mappings ''WG_SOCKD_SOCKET_PATH'' cf_socket_path Some" "owns flag_setters ''socket-path'' cf_socket_path Some"
  "owns env_mappings ''WG_SOCKD_DB_PATH'' cf_db_path Some" "owns flag_setters ''db-path'' cf_db_path Some"
  "owns env_mappings ''WG_SOCKD_CONF_PATH'' cf_conf_path Some" "owns flag_setters ''conf-path'' cf_conf_path Some"
  "owns env_mappings ''WG_SOCKD_UI_LISTEN'' cf_ui_listen Some" "owns flag_setters ''ui-listen'' cf_ui_listen Some"
  "owns env_mappings ''WG_SOCKD_SERVE_UI'' cf_serve_ui parse_bool" "owns flag_setters ''serve-ui'' cf_serve_ui parse_bool"
  by (simp_all add: owns_simps)



subsection \<open>Validation is stable\<close>

lemma trim_right_slash_idem: "trim_right_slash (trim_right_slash s) = trim_right_slash s"
  by (simp add: trim_right_slash_def)

text \<open>
  What ValidateAuth accepts it accepts again unchanged, except an origin that consists of slashes
  only: such an origin passes the test for a missing origin and is then trimmed to nothing.
\<close>
theorem validate_auth_stable:
  assumes "ValidateAuth url_host c = Inr c'"
  shows "ValidateAuth url_host c' =
      (if wa_enabled (ac_webauthn (cf_auth c)) \<and> trim_right_slash (wa_origin (ac_webauthn (cf_auth c))) = []
       then Inl NoOrigin else Inr c')"
proof -
  let ?w = "ac_webauthn (cf_auth c)"
  have c': "c' = webauthn_field (normalise_webauthn url_host) c" and ok: "wa_enabled ?w \<longrightarrow> wa_origin ?w \<noteq> []"
    using assms by (auto simp: ValidateAuth_def Let_def split: if_splits)
  have again: "webauthn_field (normalise_webauthn url_host) c' = c'"
    unfolding c' webauthn_field_def
    by (cases c; cases "cf_auth c"; cases ?w) (auto simp: normalise_webauthn_def Let_def trim_right_slash_idem split: option.split)
  have w': "ac_webauthn (cf_auth c') = normalise_webauthn url_host ?w" and
    rest: "ac_basic (cf_auth c') = ac_basic (cf_auth c)" "ac_token (cf_auth c') = ac_token (cf_auth c)"
      "ac_session_ttl (cf_auth c') = ac_session_ttl (cf_auth c)"
    by (simp_all add: c' webauthn_field_def)
  have n: "wa_enabled (normalise_webauthn url_host ?w) = wa_enabled ?w"
    "wa_enabled ?w \<Longrightarrow> wa_origin (normalise_webauthn url_host ?w) = trim_right_slash (wa_origin ?w)"
    using ok by (simp_all add: normalise_webauthn_def Let_def)
  show ?thesis
    using assms unfolding ValidateAuth_def Let_def again w' rest n(1) by (auto simp: n(2) split: if_splits)
qed

definition sample_auth_config :: "string \<Rightarrow> config" where
  "sample_auth_config origin = Defaults\<lparr>cf_external_endpoint := ''vpn:51820'',
     cf_auth := (cf_auth Defaults)\<lparr>ac_basic := \<lparr>ba_enabled = True, ba_username = ''admin'', ba_password_hash = ''h''\<rparr>,
       ac_webauthn := \<lparr>wa_enabled = True, wa_display_name = [], wa_origin = origin\<rparr>\<rparr>\<rparr>"

theorem validate_auth_stable_witness:
  "\<exists>c. ValidateAuth (\<lambda>_. None) (sample_auth_config ''//'') = Inr c \<and> ValidateAuth (\<lambda>_. None) c = Inl NoOrigin"
proof -
  have "\<not> isl (ValidateAuth (\<lambda>_. None) (sample_auth_config ''//''))" by code_simp
  then obtain c where c: "ValidateAuth (\<lambda>_. None) (sample_auth_config ''//'') = Inr c"
    by (cases "ValidateAuth (\<lambda>_. None) (sample_auth_config ''//'')") auto
  with validate_auth_stable[OF c] show ?thesis by (simp add: sample_auth_config_def trim_right_slash_def)
qed

subsection \<open>The IPv6 addresses under a validated prefix\<close>

lemma colon_not_hex [simp]: "\<not> is_hex (CHR '':'')"
  by (simp add: is_hex_def hex_digit_def)

lemma take_hex_colon [simp]:
  "takeWhile is_hex (q @ CHR '':'' # s) = takeWhile is_hex q"
  "dropWhile is_hex (q @ CHR '':'' # s) = dropWhile is_hex q @ CHR '':'' # s"
  by (induction q) auto

lemma colon_no_octets: "CHR '':'' \<in> set s \<Longrightarrow> parse_ipv4_fields s = None"
proof -
  assume "CHR '':'' \<in> set s"
  then have "\<exists>f \<in> set (split_on (CHR ''.'') s). CHR '':'' \<in> set f"
    by (induction s) (auto split: list.splits)
  then obtain f where f: "f \<in> set (split_on (CHR ''.'') s)" "CHR '':'' \<in> set f" by blast
  have "\<not> is_digit (CHR '':'')" by (simp add: is_digit_def)
  then have "octet f = None" using f(2) by (auto simp: octet_def list_all_iff)
  with f(1) show ?thesis by (auto simp: parse_ipv4_fields_def split: list.splits option.splits)
qed

definition hex_text :: "string \<Rightarrow> bool" where
  "hex_text d \<longleftrightarrow> d \<noteq> [] \<and> list_all is_hex d"

lemma hex_text_span: "hex_text d \<Longrightarrow> takeWhile is_hex d = d \<and> dropWhile is_hex d = []"
  by (auto simp: hex_text_def list_all_iff takeWhile_eq_all_conv dropWhile_eq_Nil_conv)

text \<open>A last group is read the same way whatever its digits are, as long as there are at most four.\<close>

definition last_group :: "(string \<Rightarrow> (nat list \<times> nat option) option) \<Rightarrow> bool" where
  "last_group f \<longleftrightarrow> (\<exists>r. \<forall>d. hex_text d \<longrightarrow>
     f d = (if length d \<le> 4 then map_option (\<lambda>(gs, e). (gs @ [hex_val d], e)) r else None))"

lemma last_groupI: "(\<And>d. hex_text d \<Longrightarrow> f d = (if length d \<le> 4 then map_option (\<lambda>(gs, e). (gs @ [hex_val d], e)) r else None)) \<Longrightarrow> last_group f"
  by (auto simp: last_group_def)

lemma last_group_none: "(\<And>d. hex_text d \<Longrightarrow> f d = None) \<Longrightarrow> last_group f"
  by (rule last_groupI[where r = None]) simp

lemma last_group_cong: "last_group g \<Longrightarrow> (\<And>d. hex_text d \<Longrightarrow> f d = g d) \<Longrightarrow> last_group f"
  by (simp add: last_group_def)

lemma last_group_end: "last_group (\<lambda>d. ip6_groups acc ell d)"
proof (cases "8 \<le> length acc")
  case True
  then show ?thesis by (intro last_group_none) (auto simp: ip6_groups.simps[of acc] hex_text_def)
next
  case False
  then show ?thesis
    by (intro last_groupI[where r = "Some (acc, ell)"])
      (auto simp: ip6_groups.simps[of acc] hex_text_span hex_text_def Let_def)
qed

lemma group_step:
  assumes "\<not> 8 \<le> length acc" "takeWhile is_hex s = h" "h \<noteq> []" "length h \<le> 4" "dropWhile is_hex s = CHR '':'' # s1"
  shows "ip6_groups acc ell s = (case s1 of [] \<Rightarrow> None
    | c1 # s2 \<Rightarrow> if c1 = CHR '':'' then
        (if ell \<noteq> None then None
         else if s2 = [] then Some (acc @ [hex_val h], Some (length (acc @ [hex_val h])))
         else ip6_groups (acc @ [hex_val h]) (Some (length (acc @ [hex_val h]))) s2)
      else ip6_groups (acc @ [hex_val h]) ell s1)"
  by (subst ip6_groups.simps) (use assms in \<open>simp add: Let_def\<close>)

lemma group_stop:
  assumes "takeWhile is_hex s = [] \<or> 4 < length (takeWhile is_hex s) \<or> 8 \<le> length acc \<or>
      (\<exists>c s1. dropWhile is_hex s = c # s1 \<and> c \<noteq> CHR '':'')" "s \<noteq> []" "parse_ipv4_fields s = None"
  shows "ip6_groups acc ell s = None"
  by (subst ip6_groups.simps) (use assms in \<open>auto simp: Let_def\<close>)

lemma last_group_if:
  "(\<not> b \<Longrightarrow> last_group f) \<Longrightarrow> (\<And>d. hex_text d \<Longrightarrow> g d = (if b then None else f d)) \<Longrightarrow> last_group g"
  by (cases b) (auto intro: last_group_none elim: last_group_cong)

lemma last_group_groups: "last_group (\<lambda>d. ip6_groups acc ell (q @ CHR '':'' # CHR '':'' # d))"
proof (induction "length q" arbitrary: acc ell q rule: less_induct)
  case less
  let ?s = "\<lambda>d. q @ CHR '':'' # CHR '':'' # d" and ?h = "takeWhile is_hex q"
  let ?acc = "acc @ [hex_val ?h]"
  have stop: "last_group (\<lambda>d. ip6_groups acc ell (?s d))"
    if "?h = [] \<or> 4 < length ?h \<or> 8 \<le> length acc \<or> (\<exists>c q1. dropWhile is_hex q = c # q1 \<and> c \<noteq> CHR '':'')"
    using that by (intro last_group_none group_stop colon_no_octets) auto
  show ?case
  proof (cases "?h = [] \<or> 4 < length ?h \<or> 8 \<le> length acc \<or> (\<exists>c q1. dropWhile is_hex q = c # q1 \<and> c \<noteq> CHR '':'')")
    case False
    then have h: "\<not> 8 \<le> length acc" "?h \<noteq> []" "length ?h \<le> 4" by auto
    note step = group_step[OF h(1) take_hex_colon(1) h(2,3)]
    show ?thesis
    proof (cases "dropWhile is_hex q")
      case Nil
      have drop: "dropWhile is_hex (?s d) = CHR '':'' # CHR '':'' # d" for d by (simp only: take_hex_colon Nil append.simps)
      show ?thesis
        using last_group_end[of ?acc "Some (length ?acc)"]
        by (rule last_group_if[where b = "ell \<noteq> None"]) (simp add: step[OF drop] hex_text_def)
    next
      case (Cons c q1)
      then have c: "c = CHR '':''" using False by auto
      have drop: "dropWhile is_hex (?s d) = CHR '':'' # q1 @ CHR '':'' # CHR '':'' # d" for d
        by (simp only: take_hex_colon Cons c append.simps)
      have shorter: "length q1 < length q"
        using length_dropWhile_le[of is_hex q] by (simp add: Cons)
      show ?thesis
      proof (cases q1)
        case Nil
        have "last_group (\<lambda>d. ip6_groups ?acc (Some (length ?acc)) (CHR '':'' # d))"
          by (intro last_group_none group_stop colon_no_octets) auto
        then show ?thesis
          by (rule last_group_if[where b = "ell \<noteq> None"]) (simp add: step[OF drop] Nil)
      next
        case (Cons c1 q2)
        have later: "last_group (\<lambda>d. ip6_groups ?acc (Some (length ?acc)) (q2 @ CHR '':'' # CHR '':'' # d))"
          "last_group (\<lambda>d. ip6_groups ?acc ell (q1 @ CHR '':'' # CHR '':'' # d))"
          by (rule less, use shorter Cons in simp)+
        show ?thesis
        proof (cases "c1 = CHR '':''")
          case True
          show ?thesis
            using later(1) by (rule last_group_if[where b = "ell \<noteq> None"]) (simp add: step[OF drop] Cons True)
        next
          case False
          show ?thesis
            using later(2) by (rule last_group_if[where b = False]) (simp add: step[OF drop] Cons False)
        qed
      qed
    qed
  qed (rule stop)
qed

definition ip6_text :: "string \<Rightarrow> (nat list \<times> nat option) option" where
  "ip6_text s = (if has_prefix ''::'' s then ip6_groups [] (Some 0) (drop 2 s) else ip6_groups [] None s)"

lemma last_group_text: "last_group (\<lambda>d. ip6_text (q @ CHR '':'' # CHR '':'' # d))"
proof (cases q rule: remdups_adj.cases)
  case 1
  then show ?thesis using last_group_end[of "[]" "Some 0"] by (simp add: ip6_text_def)
next
  case (2 c)
  have "last_group (\<lambda>d. ip6_groups [] (Some 0) (CHR '':'' # d))"
    by (intro last_group_none group_stop colon_no_octets) auto
  then show ?thesis using 2 last_group_groups[of "[]" None "[c]"] by (cases "c = CHR '':''") (simp_all add: ip6_text_def)
next
  case (3 c c' q')
  then show ?thesis
    using last_group_groups[of "[]" "Some 0" q'] last_group_groups[of "[]" None q]
    by (cases "c = CHR '':'' \<and> c' = CHR '':''") (auto simp: ip6_text_def)
qed

lemma expand_ellipsis_length:
  "length gs = length gs' \<Longrightarrow> expand_ellipsis (gs, e) = None \<longleftrightarrow> expand_ellipsis (gs', e) = None"
  by (simp add: expand_ellipsis_def split: option.split)

lemma find_in_front: "\<exists>x \<in> set p. P x \<Longrightarrow> find P (p @ s) = find P p"
  by (induction p) auto

lemma hex_text_chars: "hex_text d \<Longrightarrow> c \<in> set d \<Longrightarrow> c \<noteq> CHR ''%'' \<and> c \<noteq> CHR ''/''"
  by (auto simp: hex_text_def list_all_iff is_hex_def hex_digit_def)

lemma parse_ipv6_plain:
  assumes "CHR ''%'' \<notin> set s" "2 < length s"
  shows "parse_ipv6 s = (case ip6_text s of None \<Rightarrow> None
    | Some r \<Rightarrow> map_option (\<lambda>gs. Addr6 (ip6_of_groups gs) []) (expand_ellipsis r))"
proof -
  have all: "takeWhile (\<lambda>c. c \<noteq> CHR ''%'') s = s" "dropWhile (\<lambda>c. c \<noteq> CHR ''%'') s = []"
    using assms(1) by (auto simp: takeWhile_eq_all_conv dropWhile_eq_Nil_conv)
  have "s \<noteq> ''::''" using assms(2) by auto
  then show ?thesis unfolding parse_ipv6_def all ip6_text_def Let_def list.sel(2) using assms(1) by simp
qed

text \<open>Under a prefix that is an address with the group 0, exactly the groups of at most four digits are.\<close>

lemma parse_addr_group:
  assumes "parse_addr (q @ CHR '':'' # CHR '':'' # ''0'') = Some (Addr6 w [])" "hex_text d"
  shows "(\<exists>w. parse_addr (q @ CHR '':'' # CHR '':'' # d) = Some (Addr6 w [])) \<longleftrightarrow> length d \<le> 4"
    and "4 < length d \<Longrightarrow> parse_addr (q @ CHR '':'' # CHR '':'' # d) = None"
proof -
  let ?s = "\<lambda>d. q @ CHR '':'' # CHR '':'' # d"
  let ?P = "\<lambda>c. c = CHR ''.'' \<or> c = CHR '':'' \<or> c = CHR ''%''"
  have front: "find ?P (?s x) = find ?P (q @ [CHR '':''])" for x
    using find_in_front[of "q @ [CHR '':'']" ?P "CHR '':'' # x"] by simp
  have colon: "parse_ipv4 (?s x) = None" for x by (simp add: parse_ipv4_def colon_no_octets)
  have zero: "find ?P (q @ [CHR '':'']) = Some (CHR '':'')" "parse_ipv6 (?s ''0'') = Some (Addr6 w [])"
    using assms(1) colon[of "''0''"] unfolding parse_addr_def front by (auto split: option.splits if_splits)
  have plain: "CHR ''%'' \<notin> set q"
    using zero(2) by (auto simp: parse_ipv6_def Let_def split: if_splits option.splits)
  have addr: "parse_addr (?s x) = (case ip6_text (?s x) of None \<Rightarrow> None
      | Some r \<Rightarrow> map_option (\<lambda>gs. Addr6 (ip6_of_groups gs) []) (expand_ellipsis r))" if "hex_text x" for x
    unfolding parse_addr_def front zero(1) using plain hex_text_chars[OF that] that
    by (simp add: parse_ipv6_plain hex_text_def) (subst parse_ipv6_plain; auto simp: hex_text_def)
  obtain r where r: "\<And>x. hex_text x \<Longrightarrow> ip6_text (?s x) =
      (if length x \<le> 4 then map_option (\<lambda>(gs, e). (gs @ [hex_val x], e)) r else None)"
    using last_group_text[of q] by (auto simp: last_group_def)
  have h0: "hex_text ''0''" by (simp add: hex_text_def is_hex_def hex_digit_def)
  obtain gs e where ge: "r = Some (gs, e)" "expand_ellipsis (gs @ [hex_val ''0''], e) \<noteq> None"
    using assms(1) unfolding addr[OF h0] r[OF h0] by (auto split: option.splits)
  then have "expand_ellipsis (gs @ [hex_val d], e) \<noteq> None"
    using expand_ellipsis_length[of "gs @ [hex_val ''0'']" "gs @ [hex_val d]" e] by simp
  then show "(\<exists>w. parse_addr (?s d) = Some (Addr6 w [])) \<longleftrightarrow> length d \<le> 4" "4 < length d \<Longrightarrow> parse_addr (?s d) = None"
    unfolding addr[OF assms(2)] r[OF assms(2)] ge(1) by auto
qed

lemma digit_is_hex: "is_digit c \<Longrightarrow> is_hex c"
  by (auto simp: is_digit_def is_hex_def hex_digit_def Let_def)

lemma hex_text_dec: "hex_text (dec n)"
  by (auto simp: hex_text_def list_all_iff intro: digit_is_hex dec_digits)

lemma length_dec: "length (dec n) = (if n < 10 then 1 else Suc (length (dec (n div 10))))"
  by (simp add: dec.simps[of n])

lemma length_dec_le_4: "length (dec n) \<le> 4 \<longleftrightarrow> n < 10000"
proof -
  have "length (dec n) \<le> 4 \<longleftrightarrow> n < 10 \<or> n div 10 < 10 \<or> n div 10 div 10 < 10 \<or> n div 10 div 10 div 10 < 10"
    using length_dec[of n] length_dec[of "n div 10"] length_dec[of "n div 10 div 10"]
      length_dec[of "n div 10 div 10 div 10"] by (simp split: if_splits)
  then show ?thesis by linarith
qed

lemma parse_prefix_128: "parse_prefix (a @ ''/128'') \<noteq> None \<longleftrightarrow> (\<exists>w. parse_addr a = Some (Addr6 w []))"
proof -
  have s: "split_last (CHR ''/'') (a @ CHR ''/'' # ''128'') = Some (a, ''128'')" by (rule split_last_sep) simp
  have n: "parse_int64 ''128'' = Some 128" by code_simp
  have d: "is_digit (CHR ''1'')" by (simp add: is_digit_def)
  show ?thesis by (auto simp: parse_prefix_def s n d split: option.split addr.split)
qed

text \<open>
  Under a validated IPv6 prefix the address derived from an IPv4 address is well formed exactly
  when the host number has at most four decimal digits: it is written in decimal into one group.
\<close>
theorem derived_ipv6_valid:
  assumes "Validate c = Inr ()" "cf_ipv6_prefix c \<noteq> []" "n < 32"
  shows "\<exists>a. derive_ipv6 (dotted w @ CHR ''/'' # dec n) (cf_ipv6_prefix c) = Some a \<and>
    (parse_prefix a \<noteq> None \<longleftrightarrow> unat w mod 2 ^ (32 - n) < 10000)"
proof -
  let ?h = "dec (unat w mod 2 ^ (32 - n))"
  obtain q where q: "cf_ipv6_prefix c = q @ ''::''" and zero: "parse_prefix ((q @ CHR '':'' # CHR '':'' # ''0'') @ CHR ''/'' # ''64'') \<noteq> None"
    using assms(1,2) by (auto simp: Validate_def has_suffix_iff split: if_splits)
  have "split_last (CHR ''/'') ((q @ CHR '':'' # CHR '':'' # ''0'') @ CHR ''/'' # ''64'') =
      Some (q @ CHR '':'' # CHR '':'' # ''0'', ''64'')" by (rule split_last_sep) simp
  then obtain ip where ip: "parse_addr (q @ CHR '':'' # CHR '':'' # ''0'') = Some ip"
      "\<not> (case ip of Addr6 _ z \<Rightarrow> z \<noteq> [] | Addr4 _ \<Rightarrow> False)" "64 \<le> prefix_len ip"
    using zero by (auto simp: parse_prefix_def parse_int64_def dec_val_def digit_val_def Let_def split: option.splits if_splits)
  then obtain v where "parse_addr (q @ CHR '':'' # CHR '':'' # ''0'') = Some (Addr6 v [])"
    by (cases ip) auto
  from parse_addr_group(1)[OF this hex_text_dec]
  have "parse_prefix ((q @ CHR '':'' # CHR '':'' # ?h) @ ''/128'') \<noteq> None \<longleftrightarrow> unat w mod 2 ^ (32 - n) < 10000"
    unfolding parse_prefix_128 by (simp add: length_dec_le_4)
  moreover have "derive_ipv6 (dotted w @ CHR ''/'' # dec n) (cf_ipv6_prefix c) = Some ((q @ CHR '':'' # CHR '':'' # ?h) @ ''/128'')"
    using derive_ipv6_v4[OF assms(3,2)] by (simp add: q)
  ultimately show ?thesis by blast
qed

definition sample_ipv6_config :: config where
  "sample_ipv6_config = Defaults\<lparr>cf_external_endpoint := ''vpn:51820'', cf_ipv6_prefix := ''fd00:1::''\<rparr>"

lemma sample_prefix_groups: "ip6_text ''fd00:1::0'' = Some ([64768, 1, 0], Some 2)"
  by (simp add: ip6_text_def ip6_groups.simps is_hex_def hex_digit_def hex_val_def)

lemma sample_prefix_valid: "Validate sample_ipv6_config = Inr ()"
proof -
  have "parse_int64 ''64'' = Some 64" by code_simp
  then have "parse_prefix ''fd00:1::0/64'' \<noteq> None"
    by (simp add: parse_prefix_def split_last_def parse_addr_def parse_ipv6_plain sample_prefix_groups expand_ellipsis_def
        is_digit_def)
  then show ?thesis by (simp add: Validate_def sample_ipv6_config_def has_suffix_def)
qed

theorem derived_ipv6_valid_witness:
  "\<exists>a. derive_ipv6 (dotted 0x0A012711 @ CHR ''/'' # dec 16) ''fd00:1::'' = Some a \<and> parse_prefix a = None"
  using derived_ipv6_valid[OF sample_prefix_valid, of 16 "0x0A012711"] by (auto simp: sample_ipv6_config_def simp del: not_None_eq)

end
