(* ===== verification/Webauthn.thy ===== *)
theory Webauthn
  imports Sessions Storage Validation "HOL-Library.While_Combinator"
begin

text \<open>
  Passkeys: the store of pending challenges and the user the library sees (auth/webauthn.go), and
  the table of credentials (storage/webauthn.go). What a challenge carries (\<open>webauthn.SessionData\<close>) is
  a type parameter; the methods of \<open>protocol.AuthenticatorFlags\<close>, the characters \<open>strconv.Quote\<close> takes
  for printable beyond ASCII and the host name of an origin are arguments.
\<close>

subsection \<open>The challenge store\<close>

definition challengeTTL :: int where
  "challengeTTL = 60 * 1000000000"

definition challengeMaxCap :: nat where
  "challengeMaxCap = 100"

record 'd challenge_store =
  ch_entries :: "(string \<times> 'd \<times> int) list"
  ch_order :: "string list"

definition NewChallengeStore :: "'d challenge_store" where
  "NewChallengeStore = \<lparr>ch_entries = [], ch_order = []\<rparr>"

text \<open>The loop that evicts, as it is written, and by recursion on the tokens.\<close>

definition eviction_loop ::
  "(string \<times> 'd \<times> int) list \<times> string list \<Rightarrow> ((string \<times> 'd \<times> int) list \<times> string list) option" where
  "eviction_loop = while_option (\<lambda>(es, order). challengeMaxCap \<le> length es \<and> 0 < length order)
     (\<lambda>(es, order). (AList.delete (hd order) es, tl order))"

fun evict_challenges :: "(string \<times> 'd \<times> int) list \<Rightarrow> string list \<Rightarrow> (string \<times> 'd \<times> int) list \<times> string list" where
  "evict_challenges es [] = (es, [])"
| "evict_challenges es (t # ts) =
     (if challengeMaxCap \<le> length es then evict_challenges (AList.delete t es) ts else (es, t # ts))"

text \<open>\<open>bytes\<close> is what the buffer holds after \<open>rand.Read\<close>, zeros when it failed.\<close>

definition StoreChallenge :: "string \<Rightarrow> int \<Rightarrow> 'd \<Rightarrow> 'd challenge_store \<Rightarrow> string \<times> 'd challenge_store" where
  "StoreChallenge bytes now d cs =
     (let token = raw_url_encode bytes; (es, order) = evict_challenges (ch_entries cs) (ch_order cs) in
      (token, \<lparr>ch_entries = AList.update token (d, now) es, ch_order = order @ [token]\<rparr>))"

definition GetChallenge :: "string \<Rightarrow> int \<Rightarrow> 'd challenge_store \<Rightarrow> 'd option \<times> 'd challenge_store" where
  "GetChallenge token now cs =
     (let entry = map_of (ch_entries cs) token; cs' = cs\<lparr>ch_entries := AList.delete token (ch_entries cs)\<rparr> in
      case entry of
        None \<Rightarrow> (None, cs')
      | Some (d, created) \<Rightarrow> if now - created > challengeTTL then (None, cs') else (Some d, cs'))"

text \<open>One tick of the clean-up, over the tokens in order of insertion.\<close>

fun cleanup_challenges :: "int \<Rightarrow> string list \<Rightarrow> (string \<times> 'd \<times> int) list \<Rightarrow> string list \<Rightarrow> 'd challenge_store" where
  "cleanup_challenges now [] es kept = \<lparr>ch_entries = es, ch_order = kept\<rparr>"
| "cleanup_challenges now (t # ts) es kept =
     (case map_of es t of
        None \<Rightarrow> cleanup_challenges now ts es kept
      | Some (d, created) \<Rightarrow>
          if now - created > challengeTTL then cleanup_challenges now ts (AList.delete t es) kept
          else cleanup_challenges now ts es (kept @ [t]))"

datatype 'd challenge_op = OpStore string int 'd | OpRedeem string int | OpSweep int

fun challenge_step :: "'d challenge_op \<Rightarrow> 'd challenge_store \<Rightarrow> 'd challenge_store" where
  "challenge_step (OpStore bytes now d) cs = snd (StoreChallenge bytes now d cs)"
| "challenge_step (OpRedeem t now) cs = snd (GetChallenge t now cs)"
| "challenge_step (OpSweep now) cs = cleanup_challenges now (ch_order cs) (ch_entries cs) []"

definition run_challenges :: "'d challenge_op list \<Rightarrow> 'd challenge_store \<Rightarrow> 'd challenge_store" where
  "run_challenges ops cs = foldl (\<lambda>cs op. challenge_step op cs) cs ops"

fun stores :: "string \<Rightarrow> 'd challenge_op \<Rightarrow> bool" where
  "stores t (OpStore bytes now d) \<longleftrightarrow> raw_url_encode bytes = t"
| "stores t _ \<longleftrightarrow> False"

definition ch_ok :: "'d challenge_store \<Rightarrow> bool" where
  "ch_ok cs \<longleftrightarrow> distinct (map fst (ch_entries cs)) \<and> fst ` set (ch_entries cs) \<subseteq> set (ch_order cs) \<and>
     length (ch_entries cs) \<le> challengeMaxCap"

subsection \<open>The loop ends and keeps the bound\<close>

lemma evict_challenges_keys:
  "distinct (map fst es) \<Longrightarrow> fst ` set es \<subseteq> set order \<Longrightarrow> evict_challenges es order = (es', order') \<Longrightarrow>
     distinct (map fst es') \<and> set es' \<subseteq> set es \<and> fst ` set es' \<subseteq> set order' \<and> length es' < challengeMaxCap"
proof (induction es order rule: evict_challenges.induct)
  case (1 es)
  then show ?case by (simp add: challengeMaxCap_def)
next
  case (2 es t ts)
  show ?case
  proof (cases "challengeMaxCap \<le> length es")
    case True
    have "distinct (map fst (AList.delete t es))" using 2 by (simp add: distinct_delete)
    moreover have "fst ` set (AList.delete t es) \<subseteq> set ts" using 2 by (auto simp: AList.delete_eq)
    moreover have "set (AList.delete t es) \<subseteq> set es" by (auto simp: AList.delete_eq)
    ultimately show ?thesis using 2 True by simp blast
  qed (use 2 in auto)
qed

text \<open>
  C40: The eviction loop of Store ends from every state of the store, also when tokens in the order
  list were redeemed long ago, and leaves room for the new challenge.
\<close>
theorem challenge_eviction_terminates:
  assumes "ch_ok cs"
  shows "\<exists>es order. eviction_loop (ch_entries cs, ch_order cs) = Some (es, order) \<and>
    evict_challenges (ch_entries cs) (ch_order cs) = (es, order) \<and> length es < challengeMaxCap"
proof -
  have loop: "eviction_loop (es, order) = Some (evict_challenges es order)" for es :: "(string \<times> 'a \<times> int) list" and order
    by (induction es order rule: evict_challenges.induct) (simp_all add: eviction_loop_def while_option_unfold)
  obtain es order where run: "evict_challenges (ch_entries cs) (ch_order cs) = (es, order)" by fastforce
  have "distinct (map fst (ch_entries cs))" "fst ` set (ch_entries cs) \<subseteq> set (ch_order cs)" using assms by (simp_all add: ch_ok_def)
  from evict_challenges_keys[OF this run] show ?thesis by (simp add: loop run)
qed

subsection \<open>The invariant of the store of challenges\<close>

lemma cleanup_ok:
  "distinct (map fst es) \<Longrightarrow> fst ` set es \<subseteq> set order \<union> set kept \<Longrightarrow> length es \<le> challengeMaxCap \<Longrightarrow>
     ch_ok (cleanup_challenges now order es kept)"
proof (induction now order es kept rule: cleanup_challenges.induct)
  case (1 now es kept)
  then show ?case by (simp add: ch_ok_def)
next
  case (2 now t ts es kept)
  have sub: "length (AList.delete t es) \<le> length es" "fst ` set (AList.delete t es) \<subseteq> fst ` set es - {t}"
    by (auto simp: AList.delete_eq)
  show ?case
  proof (cases "map_of es t")
    case None
    then have "t \<notin> fst ` set es" by (simp add: map_of_eq_None_iff)
    with 2 None show ?thesis by auto
  next
    case (Some p)
    obtain d created where p: "p = (d, created)" by fastforce
    have d: "distinct (map fst (AList.delete t es))" using "2.prems"(1) by (rule distinct_delete)
    have "ch_ok (cleanup_challenges now ts (AList.delete t es) kept)" if "challengeTTL < now - created"
      by (rule "2.IH"(2)[OF Some p[symmetric] that d]) (use sub "2.prems" in auto)
    moreover have "ch_ok (cleanup_challenges now ts es (kept @ [t]))" if "\<not> challengeTTL < now - created"
      by (rule "2.IH"(3)[OF Some p[symmetric] that]) (use "2.prems" in auto)
    ultimately show ?thesis using Some p by simp
  qed
qed

lemma challenge_step_ok:
  assumes "ch_ok cs"
  shows "ch_ok (challenge_step op cs)"
proof (cases op)
  case (OpStore bytes now d)
  let ?t = "raw_url_encode bytes"
  obtain es order where run: "evict_challenges (ch_entries cs) (ch_order cs) = (es, order)" by fastforce
  have es: "distinct (map fst es)" "fst ` set es \<subseteq> set order" "length es < challengeMaxCap"
    using evict_challenges_keys[OF _ _ run] assms by (simp_all add: ch_ok_def)
  have "fst ` set (AList.update ?t (d, now) es) = insert ?t (fst ` set es)" by (simp add: dom_update)
  then show ?thesis
    using es length_update[of ?t "(d, now)" es] distinct_update[OF es(1), of ?t "(d, now)"]
    by (auto simp: OpStore StoreChallenge_def run ch_ok_def Let_def)
next
  case (OpRedeem t now)
  have "length (AList.delete t (ch_entries cs)) \<le> length (ch_entries cs)" by (simp add: AList.delete_eq)
  moreover have "fst ` set (AList.delete t (ch_entries cs)) \<subseteq> fst ` set (ch_entries cs)" by (auto simp: AList.delete_eq)
  ultimately show ?thesis
    using assms distinct_delete[of "ch_entries cs" t]
    by (auto simp: OpRedeem GetChallenge_def Let_def ch_ok_def split: option.split)
next
  case (OpSweep now)
  have "distinct (map fst (ch_entries cs))" "fst ` set (ch_entries cs) \<subseteq> set (ch_order cs) \<union> set []"
    "length (ch_entries cs) \<le> challengeMaxCap" using assms by (simp_all add: ch_ok_def)
  from cleanup_ok[OF this] show ?thesis by (simp add: OpSweep)
qed

subsection \<open>A challenge is redeemed once and in time\<close>

lemma evict_lookup: "map_of (fst (evict_challenges es order)) t \<in> {None, map_of es t}"
proof (induction es order rule: evict_challenges.induct)
  case (2 es u us)
  then show ?case by (cases "t = u") (auto simp: delete_lookup)
qed simp

lemma cleanup_lookup: "map_of (ch_entries (cleanup_challenges now order es kept)) t \<in> {None, map_of es t}"
proof (induction now order es kept rule: cleanup_challenges.induct)
  case (2 now u us es kept)
  then show ?case by (cases "t = u") (auto simp: delete_lookup split: option.split)
qed simp

lemma challenge_lookup:
  "map_of (ch_entries (challenge_step op cs)) t =
     (case op of OpStore bytes now d \<Rightarrow> if raw_url_encode bytes = t then Some (d, now)
          else map_of (fst (evict_challenges (ch_entries cs) (ch_order cs))) t
      | OpRedeem u now \<Rightarrow> if u = t then None else map_of (ch_entries cs) t
      | OpSweep now \<Rightarrow> map_of (ch_entries (cleanup_challenges now (ch_order cs) (ch_entries cs) [])) t)"
  by (cases op) (auto simp: StoreChallenge_def GetChallenge_def Let_def update_lookup delete_lookup split: prod.split option.split)

lemma challenge_step_lookup:
  "\<not> stores t op \<Longrightarrow> map_of (ch_entries (challenge_step op cs)) t \<in> {None, map_of (ch_entries cs) t}"
  using evict_lookup[of "ch_entries cs" "ch_order cs" t] cleanup_lookup[of _ "ch_order cs" "ch_entries cs" "[]" t]
  unfolding challenge_lookup by (cases op) auto

lemma run_challenges_snoc: "run_challenges (ops @ [op]) cs = challenge_step op (run_challenges ops cs)"
  by (simp add: run_challenges_def)

lemma entry_stored:
  assumes "map_of (ch_entries (run_challenges ops NewChallengeStore)) t = Some (d, created)"
  shows "\<exists>pre bytes post. ops = pre @ OpStore bytes created d # post \<and> raw_url_encode bytes = t \<and>
    (\<forall>op \<in> set post. \<not> stores t op \<and> (\<forall>n. op \<noteq> OpRedeem t n))"
  using assms
proof (induction ops rule: rev_induct)
  case Nil
  then show ?case by (simp add: run_challenges_def NewChallengeStore_def)
next
  case (snoc op ops)
  let ?cs = "run_challenges ops NewChallengeStore"
  show ?case
  proof (cases "stores t op")
    case True
    then obtain bytes now d' where op: "op = OpStore bytes now d'" "raw_url_encode bytes = t" by (cases op) auto
    have "map_of (ch_entries (challenge_step op ?cs)) t = Some (d', now)"
      unfolding challenge_lookup by (simp add: op)
    then have "ops @ [op] = ops @ OpStore bytes created d # []"
      using snoc.prems by (simp add: run_challenges_snoc op(1))
    then show ?thesis using op(2) by (intro exI[of _ ops] exI[of _ bytes] exI[of _ "[]"]) simp
  next
    case False
    then have old: "map_of (ch_entries ?cs) t = Some (d, created)"
      using challenge_step_lookup[OF False, of ?cs] snoc.prems by (simp add: run_challenges_snoc)
    have "op \<noteq> OpRedeem t n" for n using snoc.prems by (auto simp: run_challenges_snoc challenge_lookup)
    moreover obtain pre bytes post where "ops = pre @ OpStore bytes created d # post" "raw_url_encode bytes = t"
      "\<forall>op \<in> set post. \<not> stores t op \<and> (\<forall>n. op \<noteq> OpRedeem t n)" using snoc.IH[OF old] by blast
    ultimately show ?thesis using False
      by (intro exI[of _ pre] exI[of _ bytes] exI[of _ "post @ [op]"]) auto
  qed
qed

text \<open>
  C31: A challenge is good for one ceremony: what Get returns for a token is the data stored last under
  that token, at most sixty seconds ago, and no Get has asked for the token since.
\<close>
theorem challenge_redeemed_once:
  assumes "fst (GetChallenge t now (run_challenges ops NewChallengeStore)) = Some d"
  shows "\<exists>pre bytes created post. ops = pre @ OpStore bytes created d # post \<and> raw_url_encode bytes = t \<and>
    now - created \<le> challengeTTL \<and> (\<forall>op \<in> set post. \<not> stores t op \<and> (\<forall>n. op \<noteq> OpRedeem t n))"
proof -
  obtain created where "map_of (ch_entries (run_challenges ops NewChallengeStore)) t = Some (d, created)" "now - created \<le> challengeTTL"
    using assms by (auto simp: GetChallenge_def Let_def split: option.splits if_splits)
  with entry_stored[OF this(1)] show ?thesis by blast
qed

theorem challenge_redeemed_once_witness:
  "\<exists>pre bytes created post. [OpStore ''abc'' 5 True, OpSweep 7] = pre @ OpStore bytes created True # post \<and>
     raw_url_encode bytes = ''YWJj'' \<and> 60 - created \<le> challengeTTL"
proof -
  have "fst (GetChallenge ''YWJj'' 60 (run_challenges [OpStore ''abc'' 5 True, OpSweep 7] NewChallengeStore)) = Some True"
    by code_simp
  from challenge_redeemed_once[OF this] show ?thesis by blast
qed

theorem challenge_eviction_terminates_witness:
  "\<exists>es order. eviction_loop ([(''a'', True, 5)], [''gone'', ''a'']) = Some (es, order) \<and> length es < challengeMaxCap"
proof -
  have "ch_ok \<lparr>ch_entries = [(''a'', True, 5)], ch_order = [''gone'', ''a'']\<rparr>" by (simp add: ch_ok_def challengeMaxCap_def)
  from challenge_eviction_terminates[OF this] show ?thesis by auto
qed

subsection \<open>The table of credentials\<close>

record credential =
  cd_id :: string
  cd_public_key :: string
  cd_attestation :: string
  cd_aaguid :: string
  cd_transport :: string
  cd_flags :: "8 word"
  cd_sign_count :: "32 word"
  cd_created :: nat
  cd_last_used :: "int option"
  cd_friendly_name :: string

record cred_db =
  ct_rows :: "credential list"
  ct_now :: nat
  ct_faults :: "bool list"

text \<open>One statement: it may fail in the driver.\<close>

definition cred_stmt :: "(cred_db, db_err, 'a) prog \<Rightarrow> (cred_db, db_err, 'a) prog" where
  "cred_stmt m = (\<lambda>d. let d' = d\<lparr>ct_faults := tl (ct_faults d)\<rparr> in
     if next_fault (ct_faults d) then (Inl ErrDriver, d') else m d')"

text \<open>The row is given with the columns of the INSERT; the others get their defaults.\<close>

definition InsertCredential :: "credential \<Rightarrow> (cred_db, db_err, unit) prog" where
  "InsertCredential c = cred_stmt (\<lambda>d.
     if cd_id c \<in> cd_id ` set (ct_rows d) then (Inl ErrUnique, d)
     else (Inr (), d\<lparr>ct_rows := ct_rows d @ [c\<lparr>cd_created := ct_now d, cd_last_used := None\<rparr>]\<rparr>))"

definition ListCredentials :: "(cred_db, db_err, credential list) prog" where
  "ListCredentials = cred_stmt (\<lambda>d. (Inr (rev (sort_key cd_created (ct_rows d))), d))"

definition GetCredentialByID :: "string \<Rightarrow> (cred_db, db_err, credential) prog" where
  "GetCredentialByID i = cred_stmt (\<lambda>d.
     case find (\<lambda>c. cd_id c = i) (ct_rows d) of None \<Rightarrow> (Inl ErrNoRows, d) | Some c \<Rightarrow> (Inr c, d))"

definition DeleteCredential :: "string \<Rightarrow> (cred_db, db_err, unit) prog" where
  "DeleteCredential i = cred_stmt (\<lambda>d.
     if i \<in> cd_id ` set (ct_rows d) then (Inr (), d\<lparr>ct_rows := filter (\<lambda>c. cd_id c \<noteq> i) (ct_rows d)\<rparr>)
     else (Inl ErrNoRows, d))"

text \<open>An update of no row is not an error.\<close>

definition UpdateSignCount :: "string \<Rightarrow> 32 word \<Rightarrow> int \<Rightarrow> (cred_db, db_err, unit) prog" where
  "UpdateSignCount i count used = cred_stmt (\<lambda>d. (Inr (), d\<lparr>ct_rows :=
     map (\<lambda>c. if cd_id c = i then c\<lparr>cd_sign_count := count, cd_last_used := Some used\<rparr> else c) (ct_rows d)\<rparr>))"

definition CountCredentials :: "(cred_db, db_err, nat) prog" where
  "CountCredentials = cred_stmt (\<lambda>d. (Inr (length (ct_rows d)), d))"

definition CountWebAuthnCredentials :: "(cred_db, 'e, nat) prog" where
  "CountWebAuthnCredentials = bindE (tryE CountCredentials) (\<lambda>r. ret (case r of Inl _ \<Rightarrow> 0 | Inr n \<Rightarrow> n))"

subsection \<open>Credentials of the library\<close>

text \<open>The fields of \<open>webauthn.Credential\<close> and \<open>webauthn.User\<close> the code reads and writes.\<close>

record wa_credential =
  wk_id :: string
  wk_public_key :: string
  wk_attestation :: string
  wk_transport :: "string list"
  wk_present :: bool
  wk_verified :: bool
  wk_eligible :: bool
  wk_backed :: bool
  wk_aaguid :: string
  wk_sign_count :: "32 word"

record wa_user =
  wu_name :: string
  wu_display_name :: string
  wu_credentials :: "wa_credential list"

record flag_reader =
  fl_present :: "8 word \<Rightarrow> bool"
  fl_verified :: "8 word \<Rightarrow> bool"
  fl_eligible :: "8 word \<Rightarrow> bool"
  fl_backed :: "8 word \<Rightarrow> bool"

text \<open>The bits of the flags byte, as the WebAuthn standard numbers them.\<close>

definition reads_flags :: "flag_reader \<Rightarrow> bool" where
  "reads_flags r \<longleftrightarrow> (\<forall>b. fl_present r b = bit b 0 \<and> fl_verified r b = bit b 2 \<and> fl_eligible r b = bit b 3 \<and>
     fl_backed r b = bit b 4)"

unbundle bit_operations_syntax

definition flags_byte :: "wa_credential \<Rightarrow> 8 word" where
  "flags_byte c = (if wk_present c then 0x01 else 0) OR (if wk_verified c then 0x04 else 0) OR
     (if wk_eligible c then 0x08 else 0) OR (if wk_backed c then 0x10 else 0)"

text \<open>\<open>strconv.Quote\<close>: printable runes as they are, the others escaped.\<close>

definition hex_fixed :: "nat \<Rightarrow> nat \<Rightarrow> string" where
  "hex_fixed width n = map (\<lambda>i. hex_char (n div 16 ^ i mod 16)) (rev [0..<width])"

definition quote_rune :: "(nat \<Rightarrow> bool) \<Rightarrow> string \<Rightarrow> nat \<Rightarrow> string" where
  "quote_rune is_print raw r =
     (if length raw = 1 \<and> r = 65533 then CHR 0x5C # CHR ''x'' # hex_fixed 2 (of_char (hd raw))
      else if r = 34 \<or> r = 92 then CHR 0x5C # raw
      else if (if r < 128 then 32 \<le> r \<and> r < 127 else is_print r) then raw
      else if r = 7 then [CHR 0x5C, CHR ''a''] else if r = 8 then [CHR 0x5C, CHR ''b'']
      else if r = 12 then [CHR 0x5C, CHR ''f''] else if r = 10 then [CHR 0x5C, CHR ''n'']
      else if r = 13 then [CHR 0x5C, CHR ''r''] else if r = 9 then [CHR 0x5C, CHR ''t'']
      else if r = 11 then [CHR 0x5C, CHR ''v'']
      else if r < 32 \<or> r = 127 then CHR 0x5C # CHR ''x'' # hex_fixed 2 r
      else if r < 65536 then CHR 0x5C # CHR ''u'' # hex_fixed 4 r
      else CHR 0x5C # CHR ''U'' # hex_fixed 8 r)"

function quote_body :: "(nat \<Rightarrow> bool) \<Rightarrow> string \<Rightarrow> string" where
  "quote_body is_print s =
     (if s = [] then []
      else quote_rune is_print (take (snd (decode_rune s)) s) (fst (decode_rune s)) @
        quote_body is_print (drop (snd (decode_rune s)) s))"
  by pat_completeness auto
termination
  by (relation "measure (\<lambda>(_, s). length s)") (auto simp: decode_rune_width)

declare quote_body.simps [simp del]

definition go_quote :: "(nat \<Rightarrow> bool) \<Rightarrow> string \<Rightarrow> string" where
  "go_quote is_print s = CHR 0x22 # quote_body is_print s @ [CHR 0x22]"

definition encodeTransports :: "(nat \<Rightarrow> bool) \<Rightarrow> string list \<Rightarrow> string" where
  "encodeTransports is_print ts =
     (if ts = [] then ''[]'' else ''['' @ join '','' (map (go_quote is_print) ts) @ '']'')"

definition trimQuotes :: "string \<Rightarrow> string" where
  "trimQuotes s = (if 2 \<le> length s \<and> hd s = CHR 0x22 \<and> last s = CHR 0x22 then butlast (tl s) else s)"

definition splitComma :: "string \<Rightarrow> string list" where
  "splitComma s = split_on (CHR '','') s"

definition splitTransport :: "string \<Rightarrow> string list" where
  "splitTransport s = filter (\<lambda>p. p \<noteq> []) (map trimQuotes (splitComma s))"

definition parse_transports :: "string \<Rightarrow> string list" where
  "parse_transports s =
     (if s \<noteq> [] \<and> s \<noteq> ''[]'' then (if 2 < length s then splitTransport (butlast (tl s)) else []) else [])"

text \<open>\<open>base64.RawURLEncoding.DecodeString\<close>: line ends are skipped, padding and the standard alphabet refused.\<close>

definition std_char :: "char \<Rightarrow> char" where
  "std_char c = (if c = CHR ''-'' then CHR ''+'' else if c = CHR ''_'' then CHR ''/'' else c)"

definition raw_url_decode :: "string \<Rightarrow> string option" where
  "raw_url_decode s =
     (let t = filter (\<lambda>c. c \<noteq> nl \<and> c \<noteq> cr) s in
      if list_ex (\<lambda>c. c = CHR ''='' \<or> c = CHR ''+'' \<or> c = CHR ''/'') t then None
      else if length t mod 4 = 1 then None
      else b64_quads (map std_char t @
        replicate ((4 - length t mod 4) mod 4) (CHR ''='')))"

definition storageCredToWebAuthn :: "flag_reader \<Rightarrow> credential \<Rightarrow> wa_credential" where
  "storageCredToWebAuthn fl c =
     \<lparr>wk_id = (case raw_url_decode (cd_id c) of None \<Rightarrow> cd_id c | Some b \<Rightarrow> b),
      wk_public_key = cd_public_key c, wk_attestation = cd_attestation c,
      wk_transport = parse_transports (cd_transport c),
      wk_present = fl_present fl (cd_flags c), wk_verified = fl_verified fl (cd_flags c),
      wk_eligible = fl_eligible fl (cd_flags c), wk_backed = fl_backed fl (cd_flags c),
      wk_aaguid = cd_aaguid c, wk_sign_count = cd_sign_count c\<rparr>"

definition NewWebAuthnUser ::
  "flag_reader \<Rightarrow> (string \<Rightarrow> string option) \<Rightarrow> string \<Rightarrow> string \<Rightarrow> string \<Rightarrow> credential list \<Rightarrow> wa_user" where
  "NewWebAuthnUser fl url_host username display origin creds =
     \<lparr>wu_name = username,
      wu_display_name = (if display = [] then (case url_host origin of Some host \<Rightarrow> host | None \<Rightarrow> username) else display),
      wu_credentials = map (storageCredToWebAuthn fl) creds\<rparr>"

text \<open>The columns a registered credential is stored in (handlers.go, webauthnRegisterFinish).\<close>

definition base64EncodeID :: "string \<Rightarrow> string" where
  "base64EncodeID i = raw_url_encode i"

definition registered_row :: "(nat \<Rightarrow> bool) \<Rightarrow> string \<Rightarrow> wa_credential \<Rightarrow> credential" where
  "registered_row is_print name c =
     \<lparr>cd_id = base64EncodeID (wk_id c), cd_public_key = wk_public_key c, cd_attestation = wk_attestation c,
      cd_aaguid = wk_aaguid c, cd_transport = encodeTransports is_print (wk_transport c), cd_flags = flags_byte c,
      cd_sign_count = wk_sign_count c, cd_created = 0, cd_last_used = None, cd_friendly_name = name\<rparr>"

subsection \<open>A registered credential is read back\<close>

lemma b64_padding:
  "length (filter (\<lambda>c. c \<noteq> CHR ''='') (b64_encode s)) mod 4 \<noteq> 1 \<and>
   filter (\<lambda>c. c \<noteq> CHR ''='') (b64_encode s) @
     replicate ((4 - length (filter (\<lambda>c. c \<noteq> CHR ''='') (b64_encode s)) mod 4) mod 4) (CHR ''='') = b64_encode s"
proof (induction s rule: b64_encode.induct)
  case (4 a b c r)
  have m: "Suc (Suc (Suc (Suc n))) mod 4 = n mod 4" for n by presburger
  show ?case using 4 by (simp add: b64_char_not_pad byte_bounds byte_bounds0 m)
qed (simp_all add: b64_char_not_pad byte_bounds byte_bounds0 numeral_2_eq_2)

lemma b64_url_table:
  "list_all (\<lambda>n. b64_char n \<noteq> CHR ''-'' \<and> b64_char n \<noteq> CHR ''_'' \<and> b64_char n \<noteq> CHR ''='') [0..<64]"
  by (simp add: b64_char_def b64_alphabet_def upt_conv_Cons)

lemma b64_char_url: "n < 64 \<Longrightarrow> b64_char n \<noteq> CHR ''-'' \<and> b64_char n \<noteq> CHR ''_'' \<and> b64_char n \<noteq> CHR ''=''"
  using b64_url_table by (simp add: list_all_iff)

definition b64_text :: "char \<Rightarrow> bool" where
  "b64_text c \<longleftrightarrow> c = CHR ''='' \<or> (\<exists>n < 64. c = b64_char n)"

lemma b64_text_simps [simp]: "b64_text (CHR ''='')" "n < 64 \<Longrightarrow> b64_text (b64_char n)"
  by (auto simp: b64_text_def)

lemma b64_encode_chars: "list_all b64_text (b64_encode s)"
  by (induction s rule: b64_encode.induct) (simp_all add: byte_bounds byte_bounds0)

definition url_char :: "char \<Rightarrow> char" where
  "url_char c = (if c = CHR ''+'' then CHR ''-'' else if c = CHR ''/'' then CHR ''_'' else c)"

lemma raw_url_encode_map: "raw_url_encode s = map url_char (filter (\<lambda>c. c \<noteq> CHR ''='') (b64_encode s))"
  unfolding raw_url_encode_def url_char_def[abs_def] ..

lemma url_char_digit:
  assumes "b64_text c" "c \<noteq> CHR ''=''"
  shows "std_char (url_char c) = c" "url_char c \<noteq> CHR ''=''" "url_char c \<noteq> CHR ''+''" "url_char c \<noteq> CHR ''/''"
    "url_char c \<noteq> nl" "url_char c \<noteq> cr"
proof -
  obtain n where n: "n < 64" "c = b64_char n" using assms by (auto simp: b64_text_def)
  have "c \<noteq> CHR ''-''" "c \<noteq> CHR ''_''" "c \<noteq> nl" "c \<noteq> cr"
    using b64_char_url[OF n(1)] b64_char_plain[OF n(1)] by (simp_all add: n(2))
  then show "std_char (url_char c) = c" "url_char c \<noteq> CHR ''=''" "url_char c \<noteq> CHR ''+''" "url_char c \<noteq> CHR ''/''"
    "url_char c \<noteq> nl" "url_char c \<noteq> cr"
    using assms(2) by (simp_all add: url_char_def std_char_def)
qed

lemma raw_url_roundtrip: "raw_url_decode (raw_url_encode s) = Some s"
proof -
  let ?f = "filter (\<lambda>c. c \<noteq> CHR ''='') (b64_encode s)"
  have f: "b64_text c" "c \<noteq> CHR ''=''" if "c \<in> set ?f" for c
    using that b64_encode_chars[of s] by (simp_all add: list_all_iff)
  have plain: "filter (\<lambda>c. c \<noteq> nl \<and> c \<noteq> cr) (map url_char ?f) = map url_char ?f"
    using url_char_digit(5,6)[OF f] by (intro filter_True) auto
  have undo: "map std_char (map url_char ?f) = ?f"
    unfolding map_map by (rule map_idI) (simp only: o_apply url_char_digit(1)[OF f])
  have bad: "\<not> list_ex (\<lambda>c. c = CHR ''='' \<or> c = CHR ''+'' \<or> c = CHR ''/'') (map url_char ?f)"
    using url_char_digit(2-4)[OF f] by (auto simp: list_ex_iff)
  show ?thesis
    unfolding raw_url_decode_def raw_url_encode_map plain Let_def undo length_map
    using b64_padding[of s] bad by (simp add: b64_quads_encode)
qed

definition plain_transport :: "string \<Rightarrow> bool" where
  "plain_transport t \<longleftrightarrow> t \<noteq> [] \<and> list_all (\<lambda>c. 32 \<le> (of_char c :: nat) \<and> (of_char c :: nat) < 127 \<and>
     c \<noteq> CHR 0x22 \<and> c \<noteq> CHR 0x5C \<and> c \<noteq> CHR '','') t"

lemma quote_body_plain:
  "list_all (\<lambda>c. 32 \<le> (of_char c :: nat) \<and> (of_char c :: nat) < 127 \<and> c \<noteq> CHR 0x22 \<and> c \<noteq> CHR 0x5C \<and> c \<noteq> CHR '','') t \<Longrightarrow>
     quote_body is_print t = t"
proof (induction t)
  case (Cons c t)
  have "(of_char c :: nat) \<noteq> 34" "(of_char c :: nat) \<noteq> 92"
    using Cons.prems of_char_eq_iff[of c "CHR 0x22", where ?'a = nat] of_char_eq_iff[of c "CHR 0x5C", where ?'a = nat] by auto
  then show ?case using Cons
    by (simp add: quote_body.simps[of _ "c # t"] quote_rune_def Let_def)
qed (simp add: quote_body.simps)

lemma split_join: "xs \<noteq> [] \<Longrightarrow> \<forall>x \<in> set xs. c \<notin> set x \<Longrightarrow> split_on c (join [c] xs) = xs"
  by (induction "[c]" xs rule: join.induct) (auto simp: split_on_sep_free split_on_append_sep)

lemma transports_roundtrip:
  assumes "list_all plain_transport ts"
  shows "parse_transports (encodeTransports is_print ts) = ts"
proof (cases "ts = []")
  case False
  let ?q = "map (go_quote is_print) ts"
  have q: "?q = map (\<lambda>t. CHR 0x22 # t @ [CHR 0x22]) ts"
    using assms by (auto simp: go_quote_def list_all_iff plain_transport_def quote_body_plain)
  have "\<forall>x \<in> set ?q. CHR '','' \<notin> set x" unfolding q using assms by (auto simp: list_all_iff plain_transport_def)
  then have split: "split_on (CHR '','') (join '','' ?q) = ?q" using False by (intro split_join) auto
  have "map trimQuotes ?q = ts" unfolding q by (simp add: trimQuotes_def o_def)
  moreover have "filter (\<lambda>p. p \<noteq> []) ts = ts" using assms by (auto simp: list_all_iff plain_transport_def)
  ultimately have parts: "splitTransport (join '','' ?q) = ts" by (simp add: splitTransport_def splitComma_def split)
  have "join '','' ?q \<noteq> []" using False by (cases ts rule: remdups_adj.cases) (auto simp: go_quote_def)
  then show ?thesis using False by (auto simp: encodeTransports_def parse_transports_def parts Suc_lessI)
qed (simp add: encodeTransports_def parse_transports_def)

lemma flags_roundtrip:
  assumes "reads_flags fl"
  shows "fl_present fl (flags_byte c) = wk_present c" "fl_verified fl (flags_byte c) = wk_verified c"
    "fl_eligible fl (flags_byte c) = wk_eligible c" "fl_backed fl (flags_byte c) = wk_backed c"
  using assms by (simp_all add: reads_flags_def flags_byte_def bit_or_iff)

lemma registered_row_roundtrip:
  assumes "reads_flags fl" "list_all plain_transport (wk_transport c)"
  shows "storageCredToWebAuthn fl (registered_row is_print name c) = c"
  using assms by (simp add: storageCredToWebAuthn_def registered_row_def base64EncodeID_def raw_url_roundtrip
      transports_roundtrip flags_roundtrip)

end
