(* ===== verification/AuthApi.thy ===== *)
theory AuthApi
  imports Api Config Gate Outcome Webauthn
begin

text \<open>
  The endpoints below \<open>/api/auth/\<close> (auth/handlers.go): login and logout, the session query, the two
  passkey ceremonies and the management of passkeys. A handler is a program on the state of the
  authentication part; each access to a store is one step of it. The passkey library is a parameter
  of which a call answers, fails or panics; clock and random source are sequences of readings, the
  state counts how many were taken. \<open>NilDeref\<close> is a panic; a body that cannot be read or decoded is
  \<open>None\<close>.
\<close>

subsection \<open>Friendly names\<close>

definition encode_rune :: "nat \<Rightarrow> string" where
  "encode_rune r =
     (if r < 128 then [char_of r]
      else if r < 2048 then [char_of (192 + r div 64), char_of (128 + r mod 64)]
      else if 1114112 \<le> r \<or> 55296 \<le> r \<and> r < 57344 then [CHR 0xEF, CHR 0xBF, CHR 0xBD]
      else if r < 65536 then [char_of (224 + r div 4096), char_of (128 + r div 64 mod 64), char_of (128 + r mod 64)]
      else [char_of (240 + r div 262144), char_of (128 + r div 4096 mod 64), char_of (128 + r div 64 mod 64),
            char_of (128 + r mod 64)])"

text \<open>A conversion of runes to a string; \<open>strings.ToValidUTF8\<close> that drops the invalid bytes.\<close>

definition utf8 :: "nat list \<Rightarrow> string" where
  "utf8 rs = concat (map encode_rune rs)"

function to_valid_utf8 :: "string \<Rightarrow> string" where
  "to_valid_utf8 s =
     (if s = [] then []
      else (if decode_rune s = (65533, 1) then [] else take (snd (decode_rune s)) s) @
        to_valid_utf8 (drop (snd (decode_rune s)) s))"
  by pat_completeness auto
termination
  by (relation "measure length") (auto simp: decode_rune_width)

declare to_valid_utf8.simps [simp del]

definition sanitizeFriendlyName :: "string \<Rightarrow> string" where
  "sanitizeFriendlyName name =
     (let clean = utf8 (filter (\<lambda>r. r \<noteq> 60 \<and> r \<noteq> 62) (runes name));
          short = (if 64 < length (runes clean) then utf8 (take 64 (runes clean)) else clean) in
      trim_space (to_valid_utf8 short))"

subsection \<open>Requests, the environment and the state\<close>

record auth_request =
  aq_request :: request
  aq_remote :: string
  aq_user_agent :: string

definition userAgentFriendlyName :: "auth_request \<Rightarrow> string" where
  "userAgentFriendlyName rq =
     (let ua = aq_user_agent rq in
      if ua = [] then ''Passkey''
      else if 48 < length (runes ua) then utf8 (take 48 (runes ua)) else ua)"

definition extractIP :: "auth_request \<Rightarrow> string" where
  "extractIP rq = (case split_host_port (aq_remote rq) of None \<Rightarrow> aq_remote rq | Some (host, _) \<Rightarrow> host)"

text \<open>
  The library: the options and the data of a ceremony it begins, the credential of a ceremony it
  finishes. A passkey login asks the code for the user of a credential id and a user handle, unless
  it fails before, and then checks the assertion against that user.
\<close>

datatype 'a lib_result = LibOk 'a | LibErr | LibPanic

record ('d, 'o) webauthn_lib =
  wl_begin_registration :: "wa_user \<Rightarrow> ('o \<times> 'd) lib_result"
  wl_finish_registration :: "wa_user \<Rightarrow> 'd \<Rightarrow> string \<Rightarrow> wa_credential lib_result"
  wl_begin_login :: "('o \<times> 'd) lib_result"
  wl_login_user :: "'d \<Rightarrow> string \<Rightarrow> (string \<times> string) lib_result"
  wl_finish_login :: "wa_user \<Rightarrow> 'd \<Rightarrow> string \<Rightarrow> wa_credential lib_result"

text \<open>\<open>ah_counter\<close>: whether the counter of passkeys is the one over the database.\<close>

record ('d, 'o) auth_handlers =
  ah_cfg :: auth_config
  ah_basic :: "basic_verifier option"
  ah_counter :: bool
  ah_secure :: string
  ah_lib :: "('d, 'o) webauthn_lib option"
  ah_webauthn :: "webauthn_config option"

definition NewAuthHandlers ::
  "auth_config \<Rightarrow> basic_verifier option \<Rightarrow> bool \<Rightarrow> ('d, 'o) webauthn_lib option \<Rightarrow> webauthn_config option \<Rightarrow>
   ('d, 'o) auth_handlers" where
  "NewAuthHandlers cfg basic counter lib wcfg =
     \<lparr>ah_cfg = cfg, ah_basic = basic, ah_counter = counter, ah_secure = ac_secure_cookies cfg, ah_lib = lib,
      ah_webauthn = wcfg\<rparr>"

record auth_env =
  ae_clock :: "nat \<Rightarrow> int"
  ae_random :: "nat \<Rightarrow> string option"
  ae_order :: "(string \<times> session) list \<Rightarrow> (string \<times> session) list"
  ae_matches :: "string \<Rightarrow> string \<Rightarrow> bool"
  ae_flags :: flag_reader
  ae_url_host :: "string \<Rightarrow> string option"
  ae_print :: "nat \<Rightarrow> bool"

record 'd auth_state =
  as_sessions :: session_store
  as_limiter :: login_limiter
  as_challenges :: "'d challenge_store"
  as_creds :: cred_db
  as_ticks :: nat
  as_draws :: nat

type_synonym ('d, 'e, 'a) auth_prog = "('d auth_state, 'e, 'a) prog"

definition auth_now :: "auth_env \<Rightarrow> ('d, 'e, int) auth_prog" where
  "auth_now e w = (Inr (ae_clock e (as_ticks w)), w\<lparr>as_ticks := Suc (as_ticks w)\<rparr>)"

definition auth_draw :: "auth_env \<Rightarrow> ('d, 'e, string option) auth_prog" where
  "auth_draw e w = (Inr (ae_random e (as_draws w)), w\<lparr>as_draws := Suc (as_draws w)\<rparr>)"

definition on_creds :: "(cred_db, 'e, 'a) prog \<Rightarrow> ('d, 'e, 'a) auth_prog" where
  "on_creds m w = (case m (as_creds w) of (r, c) \<Rightarrow> (r, w\<lparr>as_creds := c\<rparr>))"

definition new_session :: "auth_env \<Rightarrow> string \<Rightarrow> ('d, api_err, string) auth_prog" where
  "new_session e user =
     bindE (auth_draw e) (\<lambda>r. bindE (auth_now e) (\<lambda>n. bindE (auth_now e) (\<lambda>n' w.
       case Create (ae_order e) r n n' user (as_sessions w) of
         (None, s) \<Rightarrow> (Inl (ApiError 500 ''internal_error''), w\<lparr>as_sessions := s\<rparr>)
       | (Some t, s) \<Rightarrow> (Inr t, w\<lparr>as_sessions := s\<rparr>))))"

definition find_session :: "auth_env \<Rightarrow> string \<Rightarrow> ('d, 'e, session option) auth_prog" where
  "find_session e token =
     bindE (auth_now e) (\<lambda>n w. case Get token n (as_sessions w) of (r, s) \<Rightarrow> (Inr r, w\<lparr>as_sessions := s\<rparr>))"

definition store_challenge :: "auth_env \<Rightarrow> 'd \<Rightarrow> ('d, 'e, string) auth_prog" where
  "store_challenge e d =
     bindE (auth_draw e) (\<lambda>r. bindE (auth_now e) (\<lambda>n w.
       case StoreChallenge (case r of None \<Rightarrow> replicate 32 (CHR 0x00) | Some b \<Rightarrow> b) n d (as_challenges w) of
         (t, cs) \<Rightarrow> (Inr t, w\<lparr>as_challenges := cs\<rparr>)))"

definition take_challenge :: "auth_env \<Rightarrow> string \<Rightarrow> ('d, api_err, 'd) auth_prog" where
  "take_challenge e token =
     bindE (auth_now e) (\<lambda>n w.
       case GetChallenge token n (as_challenges w) of
         (None, cs) \<Rightarrow> (Inl (ApiError 400 ''invalid_token''), w\<lparr>as_challenges := cs\<rparr>)
       | (Some d, cs) \<Rightarrow> (Inr d, w\<lparr>as_challenges := cs\<rparr>))"

definition lib_call :: "'a lib_result \<Rightarrow> api_err \<Rightarrow> ('d, api_err, 'a) auth_prog" where
  "lib_call r err = (case r of LibOk a \<Rightarrow> ret a | LibErr \<Rightarrow> fail err | LibPanic \<Rightarrow> fail NilDeref)"

definition decoded :: "'a option \<Rightarrow> ('d, api_err, 'a) auth_prog" where
  "decoded b = (case b of None \<Rightarrow> fail (ApiError 400 ''invalid_request'') | Some r \<Rightarrow> ret r)"

text \<open>The deferred recovery of the two finish handlers.\<close>

definition recovered :: "('d, api_err, 'a) auth_prog \<Rightarrow> ('d, api_err, 'a) auth_prog" where
  "recovered m = mapErr (\<lambda>e. if e = NilDeref then ApiError 500 ''internal_error'' else e) m"

subsection \<open>The limit on failed logins in the handlers\<close>

text \<open>A connection over the Unix socket is never refused, but its failures are recorded.\<close>

definition rate_guard :: "auth_env \<Rightarrow> auth_request \<Rightarrow> ('d, api_err, unit) auth_prog" where
  "rate_guard e rq =
     (if \<not> rq_unix (aq_request rq) \<and> extractIP rq \<noteq> []
      then bindE (auth_now e) (\<lambda>n. bindE (getE (\<lambda>w. Check (extractIP rq) n (as_limiter w))) (\<lambda>ok.
        guardE ok (ApiError 429 ''rate_limit_exceeded'')))
      else ret ())"

definition record_failure :: "auth_env \<Rightarrow> auth_request \<Rightarrow> ('d, 'e, unit) auth_prog" where
  "record_failure e rq =
     (if extractIP rq \<noteq> []
      then bindE (auth_now e) (\<lambda>n. modifyE (\<lambda>w. w\<lparr>as_limiter := RecordFailure (extractIP rq) n (as_limiter w)\<rparr>))
      else ret ())"

definition reset_limit :: "auth_request \<Rightarrow> ('d, 'e, unit) auth_prog" where
  "reset_limit rq =
     (if extractIP rq \<noteq> [] then modifyE (\<lambda>w. w\<lparr>as_limiter := Reset (extractIP rq) (as_limiter w)\<rparr>) else ret ())"

subsection \<open>Login, logout and the session query\<close>

record login_answer =
  la_cookie :: cookie
  la_username :: string
  la_expires :: int
  la_ttl :: int

definition makeCookie :: "('d, 'o) auth_handlers \<Rightarrow> string \<Rightarrow> int \<Rightarrow> auth_request \<Rightarrow> cookie" where
  "makeCookie h token expires rq =
     \<lparr>ck_value = token,
      ck_secure = (if ah_secure h = ''true'' then True
        else if ah_secure h = ''false'' then False
        else if rq_unix (aq_request rq) then rq_forwarded_proto (aq_request rq) = ''https''
        else rq_tls (aq_request rq)),
      ck_expires = expires\<rparr>"

text \<open>The end of both logins: the session is looked up again and put into a cookie.\<close>

definition login_response :: "('d, 'o) auth_handlers \<Rightarrow> auth_env \<Rightarrow> auth_request \<Rightarrow> string \<Rightarrow> string \<Rightarrow>
    ('d, api_err, login_answer) auth_prog" where
  "login_response h e rq user token =
     bindE (find_session e token) (\<lambda>s. case s of
         None \<Rightarrow> fail NilDeref
       | Some x \<Rightarrow> getE (\<lambda>w. let expires = ExpiresAt (as_sessions w) x in
           \<lparr>la_cookie = makeCookie h token expires rq, la_username = user, la_expires = expires,
            la_ttl = TTLSeconds (as_sessions w)\<rparr>))"

definition verify_password :: "('d, 'o) auth_handlers \<Rightarrow> auth_env \<Rightarrow> string \<Rightarrow> string \<Rightarrow> ('d, api_err, bool) auth_prog" where
  "verify_password h e user password =
     (case ah_basic h of None \<Rightarrow> fail NilDeref | Some v \<Rightarrow> ret (Verify (ae_matches e) v user password))"

text \<open>A login up to its new session, and the whole of it.\<close>

definition login_session :: "('d, 'o) auth_handlers \<Rightarrow> auth_env \<Rightarrow> auth_request \<Rightarrow> (string \<times> string) option \<Rightarrow>
    ('d, api_err, string \<times> string) auth_prog" where
  "login_session h e rq body =
     thenE (guardE (AnyEnabled (ah_cfg h)) (ApiError 400 ''auth_not_configured''))
    (thenE (guardE (ba_enabled (ac_basic (ah_cfg h))) (ApiError 400 ''basic_auth_disabled''))
    (bindE (decoded body) (\<lambda>(user, password).
     thenE (rate_guard e rq)
    (bindE (verify_password h e user password) (\<lambda>ok.
     if \<not> ok then thenE (record_failure e rq) (fail (ApiError 401 ''invalid_credentials''))
     else thenE (modifyE (\<lambda>w. w\<lparr>as_sessions := DeleteByUsername user (as_sessions w)\<rparr>))
         (bindE (new_session e user) (\<lambda>token.
          thenE (reset_limit rq) (ret (user, token)))))))))"

definition login :: "('d, 'o) auth_handlers \<Rightarrow> auth_env \<Rightarrow> auth_request \<Rightarrow> (string \<times> string) option \<Rightarrow>
    ('d, api_err, login_answer) auth_prog" where
  "login h e rq body = bindE (login_session h e rq body) (\<lambda>(user, token). login_response h e rq user token)"

definition logout :: "auth_request \<Rightarrow> ('d, api_err, unit) auth_prog" where
  "logout rq =
     (case rq_cookie (aq_request rq) of
        None \<Rightarrow> ret ()
      | Some v \<Rightarrow> if v \<noteq> [] then modifyE (\<lambda>w. w\<lparr>as_sessions := Delete v (as_sessions w)\<rparr>) else ret ())"

record session_info =
  si_status :: nat
  si_auth_required :: bool
  si_user :: "(string \<times> int) option"
  si_available :: bool
  si_enabled :: bool
  si_ttl :: int

definition count_passkeys :: "('d, 'o) auth_handlers \<Rightarrow> ('d, 'e, nat) auth_prog" where
  "count_passkeys h = (if ah_counter h then on_creds CountWebAuthnCredentials else ret 0)"

definition session_query :: "('d, 'o) auth_handlers \<Rightarrow> auth_env \<Rightarrow> auth_request \<Rightarrow> ('d, 'e, session_info) auth_prog" where
  "session_query h e rq =
     (let enabled = (case ah_webauthn h of None \<Rightarrow> False | Some c \<Rightarrow> wa_enabled c) in
      bindE (if enabled then bindE (count_passkeys h) (\<lambda>n. ret (0 < n)) else ret False) (\<lambda>available.
      let answer = (\<lambda>status required user. getE (\<lambda>w. \<lparr>si_status = status, si_auth_required = required, si_user = user,
            si_available = available, si_enabled = enabled, si_ttl = TTLSeconds (as_sessions w)\<rparr>)) in
      if \<not> AnyEnabled (ah_cfg h) then answer 200 False None
      else (case rq_cookie (aq_request rq) of
          None \<Rightarrow> answer 401 True None
        | Some v \<Rightarrow>
            if v = [] then answer 401 True None
            else bindE (find_session e v) (\<lambda>s. case s of
                None \<Rightarrow> answer 401 True None
              | Some x \<Rightarrow> bindE (getE (\<lambda>w. ExpiresAt (as_sessions w) x)) (\<lambda>expires.
                  answer 200 True (Some (ss_username x, expires)))))))"

subsection \<open>Guards of the passkey endpoints\<close>

definition requireSession :: "auth_env \<Rightarrow> auth_request \<Rightarrow> ('d, api_err, session) auth_prog" where
  "requireSession e rq =
     (case rq_cookie (aq_request rq) of
        None \<Rightarrow> fail (ApiError 401 ''unauthorized'')
      | Some v \<Rightarrow>
          if v = [] then fail (ApiError 401 ''unauthorized'')
          else bindE (find_session e v) (\<lambda>s. case s of
              None \<Rightarrow> fail (ApiError 401 ''unauthorized'') | Some x \<Rightarrow> ret x))"

definition webauthnDisabledGuard :: "('d, 'o) auth_handlers \<Rightarrow>
    ('d, api_err, ('d, 'o) webauthn_lib \<times> webauthn_config) auth_prog" where
  "webauthnDisabledGuard h =
     (case (ah_webauthn h, ah_lib h) of
        (Some c, Some lib) \<Rightarrow> if wa_enabled c then ret (lib, c) else fail (ApiError 400 ''webauthn_disabled'')
      | _ \<Rightarrow> fail (ApiError 400 ''webauthn_disabled''))"

definition loadAdminUser :: "('d, 'o) auth_handlers \<Rightarrow> auth_env \<Rightarrow> webauthn_config \<Rightarrow> ('d, db_err, wa_user) auth_prog" where
  "loadAdminUser h e wc =
     bindE (on_creds ListCredentials) (\<lambda>creds.
       ret (NewWebAuthnUser (ae_flags e) (ae_url_host e) (ba_username (ac_basic (ah_cfg h)))
         (wa_display_name wc) (wa_origin wc) creds))"

definition auth_internal :: "'e \<Rightarrow> api_err" where
  "auth_internal err = ApiError 500 ''internal_error''"

definition auth_db_error :: "'e \<Rightarrow> api_err" where
  "auth_db_error err = ApiError 500 ''db_error''"

subsection \<open>Registration of a passkey\<close>

definition webauthnRegisterBegin :: "('d, 'o) auth_handlers \<Rightarrow> auth_env \<Rightarrow> auth_request \<Rightarrow>
    ('d, api_err, 'o \<times> string) auth_prog" where
  "webauthnRegisterBegin h e rq =
     bindE (webauthnDisabledGuard h) (\<lambda>(lib, wc).
     thenE (requireSession e rq)
    (bindE (mapErr auth_internal (loadAdminUser h e wc)) (\<lambda>user.
     bindE (lib_call (wl_begin_registration lib user) (ApiError 500 ''webauthn_error'')) (\<lambda>(options, d).
     bindE (store_challenge e d) (\<lambda>token. ret (options, token))))))"

record register_body =
  rb_token :: string
  rb_friendly_name :: string
  rb_credential :: string

definition passkey_name :: "auth_request \<Rightarrow> string \<Rightarrow> string" where
  "passkey_name rq given =
     (let name = sanitizeFriendlyName given in
      if name = [] then sanitizeFriendlyName (userAgentFriendlyName rq) else name)"

definition webauthnRegisterFinish :: "('d, 'o) auth_handlers \<Rightarrow> auth_env \<Rightarrow> auth_request \<Rightarrow> register_body option \<Rightarrow>
    ('d, api_err, string \<times> string) auth_prog" where
  "webauthnRegisterFinish h e rq body = recovered
    (bindE (webauthnDisabledGuard h) (\<lambda>(lib, wc).
     thenE (requireSession e rq)
    (bindE (decoded body) (\<lambda>b.
     bindE (take_challenge e (rb_token b)) (\<lambda>d.
     bindE (mapErr auth_internal (loadAdminUser h e wc)) (\<lambda>user.
     bindE (lib_call (wl_finish_registration lib user d (rb_credential b)) (ApiError 400 ''registration_failed'')) (\<lambda>c.
     let name = passkey_name rq (rb_friendly_name b) in
     bindE (tryE (on_creds (InsertCredential (registered_row (ae_print e) name c)))) (\<lambda>r.
       case r of
         Inl err \<Rightarrow> fail (if err = ErrUnique then ApiError 409 ''credential_exists'' else auth_db_error err)
       | Inr _ \<Rightarrow> ret (base64EncodeID (wk_id c), name)))))))))"

subsection \<open>Login with a passkey\<close>

definition webauthnLoginBegin :: "('d, 'o) auth_handlers \<Rightarrow> auth_env \<Rightarrow> auth_request \<Rightarrow>
    ('d, api_err, 'o \<times> string) auth_prog" where
  "webauthnLoginBegin h e rq =
     bindE (webauthnDisabledGuard h) (\<lambda>(lib, wc).
     thenE (rate_guard e rq)
    (bindE (mapErr auth_db_error (on_creds CountCredentials)) (\<lambda>count.
     thenE (guardE (count \<noteq> 0) (ApiError 400 ''no_credentials''))
    (bindE (lib_call (wl_begin_login lib) (ApiError 500 ''webauthn_error'')) (\<lambda>(options, d).
     bindE (store_challenge e d) (\<lambda>token. ret (options, token)))))))"

text \<open>FinishDiscoverableLogin, with the call back for the user.\<close>

definition finish_discoverable :: "('d, 'o) auth_handlers \<Rightarrow> auth_env \<Rightarrow> ('d, 'o) webauthn_lib \<Rightarrow> webauthn_config \<Rightarrow>
    'd \<Rightarrow> string \<Rightarrow> ('d, api_err, wa_credential) auth_prog" where
  "finish_discoverable h e lib wc d assertion =
     bindE (lib_call (wl_login_user lib d assertion) (ApiError 401 ''authentication_failed'')) (\<lambda>_.
     bindE (mapErr (\<lambda>_. ApiError 401 ''authentication_failed'') (loadAdminUser h e wc)) (\<lambda>user.
     lib_call (wl_finish_login lib user d assertion) (ApiError 401 ''authentication_failed'')))"

definition update_count :: "auth_env \<Rightarrow> wa_credential \<Rightarrow> ('d, 'e, unit) auth_prog" where
  "update_count e c =
     bindE (tryE (on_creds (GetCredentialByID (base64EncodeID (wk_id c))))) (\<lambda>r.
       case r of
         Inl _ \<Rightarrow> ret ()
       | Inr _ \<Rightarrow> bindE (auth_now e) (\<lambda>n.
           ignoreE (on_creds (UpdateSignCount (base64EncodeID (wk_id c)) (wk_sign_count c) n))))"

definition webauthnLoginFinish :: "('d, 'o) auth_handlers \<Rightarrow> auth_env \<Rightarrow> auth_request \<Rightarrow> (string \<times> string) option \<Rightarrow>
    ('d, api_err, login_answer) auth_prog" where
  "webauthnLoginFinish h e rq body = recovered
    (bindE (webauthnDisabledGuard h) (\<lambda>(lib, wc).
     thenE (rate_guard e rq)
    (bindE (decoded body) (\<lambda>(token, assertion).
     bindE (take_challenge e token) (\<lambda>d.
     bindE (tryE (finish_discoverable h e lib wc d assertion)) (\<lambda>r.
       case r of
         Inl err \<Rightarrow> thenE (if err = NilDeref then ret () else record_failure e rq) (fail err)
       | Inr c \<Rightarrow>
           thenE (reset_limit rq)
          (thenE (update_count e c)
          (bindE (new_session e (ba_username (ac_basic (ah_cfg h)))) (\<lambda>t.
           login_response h e rq (ba_username (ac_basic (ah_cfg h))) t)))))))))"

subsection \<open>Management of the passkeys\<close>

record credential_info =
  ci_id :: string
  ci_friendly_name :: string
  ci_created :: nat
  ci_last_used :: "int option"

definition credential_info_of :: "credential \<Rightarrow> credential_info" where
  "credential_info_of c =
     \<lparr>ci_id = cd_id c, ci_friendly_name = cd_friendly_name c, ci_created = cd_created c, ci_last_used = cd_last_used c\<rparr>"

definition webauthnListCredentials :: "('d, 'o) auth_handlers \<Rightarrow> auth_env \<Rightarrow> auth_request \<Rightarrow>
    ('d, api_err, credential_info list) auth_prog" where
  "webauthnListCredentials h e rq =
     thenE (webauthnDisabledGuard h)
    (thenE (requireSession e rq)
    (bindE (mapErr auth_db_error (on_creds ListCredentials)) (\<lambda>cs. ret (map credential_info_of cs))))"

definition webauthnDeleteCredential :: "('d, 'o) auth_handlers \<Rightarrow> auth_env \<Rightarrow> auth_request \<Rightarrow> string \<Rightarrow>
    ('d, api_err, unit) auth_prog" where
  "webauthnDeleteCredential h e rq i =
     thenE (webauthnDisabledGuard h)
    (thenE (requireSession e rq)
    (thenE (guardE (i \<noteq> []) (ApiError 400 ''missing_id''))
      (mapErr (\<lambda>err. if err = ErrNoRows then ApiError 404 ''not_found'' else auth_db_error err)
        (on_creds (DeleteCredential i)))))"

subsection \<open>The table of endpoints\<close>

datatype auth_endpoint =
    EpLogin | EpLogout | EpSession | EpRegisterBegin | EpRegisterFinish | EpLoginBegin | EpLoginFinish
  | EpList | EpDelete string

definition auth_routes :: "((string \<times> string) \<times> auth_endpoint) list" where
  "auth_routes =
     [((''POST'', ''/api/auth/login''), EpLogin), ((''POST'', ''/api/auth/logout''), EpLogout),
      ((''DELETE'', ''/api/auth/logout''), EpLogout), ((''GET'', ''/api/auth/session''), EpSession),
      ((''POST'', ''/api/auth/webauthn/register/begin''), EpRegisterBegin),
      ((''POST'', ''/api/auth/webauthn/register/finish''), EpRegisterFinish),
      ((''POST'', ''/api/auth/webauthn/login/begin''), EpLoginBegin),
      ((''POST'', ''/api/auth/webauthn/login/finish''), EpLoginFinish),
      ((''GET'', ''/api/auth/webauthn/credentials''), EpList)]"

text \<open>
  \<open>http.ServeMux\<close> on the clean path of a request: a GET pattern takes HEAD too, \<open>{id}\<close> one segment.
  The path is the decoded one without an encoded slash.
\<close>

definition auth_route :: "string \<Rightarrow> string \<Rightarrow> auth_endpoint option" where
  "auth_route method path =
     (let prefix = ''/api/auth/webauthn/credentials/''; i = drop (length prefix) path in
      if method = ''DELETE'' \<and> has_prefix prefix path \<and> i \<noteq> [] \<and> CHR ''/'' \<notin> set i then Some (EpDelete i)
      else map_of auth_routes (if method = ''HEAD'' then ''GET'' else method, path))"

text \<open>What the body of a request decodes to, as each of the types the handlers expect.\<close>

record auth_body =
  ab_login :: "(string \<times> string) option"
  ab_register :: "register_body option"
  ab_assertion :: "(string \<times> string) option"

definition answered :: "('d, api_err, 'a) auth_prog \<Rightarrow> ('d, api_err, unit) auth_prog" where
  "answered m = bindE m (\<lambda>_. ret ())"

definition serve_endpoint :: "('d, 'o) auth_handlers \<Rightarrow> auth_env \<Rightarrow> auth_request \<Rightarrow> auth_body \<Rightarrow> auth_endpoint \<Rightarrow>
    ('d, api_err, unit) auth_prog" where
  "serve_endpoint h e rq b ep =
     (case ep of
        EpLogin \<Rightarrow> answered (login h e rq (ab_login b))
      | EpLogout \<Rightarrow> logout rq
      | EpSession \<Rightarrow> answered (session_query h e rq)
      | EpRegisterBegin \<Rightarrow> answered (webauthnRegisterBegin h e rq)
      | EpRegisterFinish \<Rightarrow> answered (webauthnRegisterFinish h e rq (ab_register b))
      | EpLoginBegin \<Rightarrow> answered (webauthnLoginBegin h e rq)
      | EpLoginFinish \<Rightarrow> answered (webauthnLoginFinish h e rq (ab_assertion b))
      | EpList \<Rightarrow> answered (webauthnListCredentials h e rq)
      | EpDelete i \<Rightarrow> webauthnDeleteCredential h e rq i)"

definition serve_auth :: "('d, 'o) auth_handlers \<Rightarrow> auth_env \<Rightarrow> auth_request \<Rightarrow> auth_body \<Rightarrow> 'd auth_state \<Rightarrow> 'd auth_state" where
  "serve_auth h e rq b w =
     (case auth_route (rq_method (aq_request rq)) (rq_path (aq_request rq)) of
        None \<Rightarrow> w | Some ep \<Rightarrow> snd (serve_endpoint h e rq b ep w))"

subsection \<open>Sessions are created by logins only\<close>

text \<open>
  \<open>only S cond\<close>: every session is one of the sessions \<open>S\<close> under its token, or satisfies \<open>cond\<close>.
\<close>

definition only :: "(string \<times> session) list \<Rightarrow> (session \<Rightarrow> bool) \<Rightarrow> 'd auth_state \<Rightarrow> bool" where
  "only S cond w \<longleftrightarrow> store_ok (as_sessions w) \<and>
     (\<forall>t x. map_of (st_sessions (as_sessions w)) t = Some x \<longrightarrow> map_of S t = Some x \<or> cond x)"

definition env_ok :: "auth_env \<Rightarrow> bool" where
  "env_ok e \<longleftrightarrow> order_ok (ae_order e) \<and> (\<forall>k b. ae_random e k = Some b \<longrightarrow> length b = 32)"

lemma only_refl: "store_ok (as_sessions w) \<Longrightarrow> only (st_sessions (as_sessions w)) cond w"
  by (simp add: only_def)

lemma only_weaken: "only S cond w \<Longrightarrow> (\<And>x. cond x \<Longrightarrow> cond' x) \<Longrightarrow> only S cond' w"
  by (auto simp: only_def)

lemma only_store_step:
  assumes "only S cond w" "op_ok op" "\<And>t. \<not> creates t op" "\<And>t. \<not> touches t op"
  shows "only S cond (w\<lparr>as_sessions := store_step op (as_sessions w)\<rparr>)"
proof -
  have "map_of (st_sessions (store_step op (as_sessions w))) t \<in> {None, map_of (st_sessions (as_sessions w)) t}" for t
    using assms by (intro step_lookup) (simp_all add: only_def)
  then have "map_of (st_sessions (store_step op (as_sessions w))) t = Some x \<Longrightarrow>
      map_of (st_sessions (as_sessions w)) t = Some x" for t x by (metis insertE option.simps(3) singletonD)
  moreover have "store_ok (store_step op (as_sessions w))" using assms by (intro step_ok) (simp_all add: only_def)
  ultimately show ?thesis using assms(1) by (simp add: only_def)
qed

lemma only_other [simp]:
  "only S cond (w\<lparr>as_ticks := n\<rparr>) = only S cond w" "only S cond (w\<lparr>as_draws := n\<rparr>) = only S cond w"
  "only S cond (w\<lparr>as_creds := c\<rparr>) = only S cond w" "only S cond (w\<lparr>as_limiter := l\<rparr>) = only S cond w"
  "only S cond (w\<lparr>as_challenges := ch\<rparr>) = only S cond w"
  by (simp_all add: only_def)

lemma only_get: "only S cond w \<Longrightarrow> only S cond (w\<lparr>as_sessions := snd (Get t n (as_sessions w))\<rparr>)"
  and only_delete: "only S cond w \<Longrightarrow> only S cond (w\<lparr>as_sessions := Delete t (as_sessions w)\<rparr>)"
  and only_delete_user: "only S cond w \<Longrightarrow> only S cond (w\<lparr>as_sessions := DeleteByUsername u (as_sessions w)\<rparr>)"
  using only_store_step[of S cond w "OpGet t n"] only_store_step[of S cond w "OpDelete t"]
    only_store_step[of S cond w "OpDeleteUser u"] by simp_all

lemma keeps_only_basic [keeps_intros]:
  "keeps (only S cond) (auth_now e)" "keeps (only S cond) (auth_draw e)" "keeps (only S cond) (on_creds m)"
  by (simp_all add: keeps_def auth_now_def auth_draw_def on_creds_def split: prod.split)

lemma keeps_lib [keeps_intros]: "keeps I (lib_call r err)" "keeps I (decoded b)"
  by (simp_all add: keeps_def lib_call_def decoded_def split: lib_result.split option.split)

lemma keeps_recovered [keeps_intros]: "keeps I m \<Longrightarrow> keeps I (recovered m)"
  unfolding recovered_def by (rule keeps_mapErr)

lemma keeps_answered [keeps_intros]: "keeps I m \<Longrightarrow> keeps I (answered m)"
  unfolding answered_def by (intro keeps_intros)

lemma keeps_only_stores [keeps_intros]:
  "keeps (only S cond) (find_session e t)" "keeps (only S cond) (store_challenge e d)"
  "keeps (only S cond) (take_challenge e t)"
proof -
  show "keeps (only S cond) (find_session e t)"
    unfolding find_session_def by (intro keeps_bindE keeps_only_basic, rule keepsI) (simp add: only_get case_prod_beta)
  show "keeps (only S cond) (store_challenge e d)"
    unfolding store_challenge_def
    by (intro keeps_bindE keeps_only_basic, rule keepsI) (simp split: prod.split)
  show "keeps (only S cond) (take_challenge e t)"
    unfolding take_challenge_def
    by (intro keeps_bindE keeps_only_basic, rule keepsI) (simp split: prod.split option.split)
qed

lemma keeps_only_limit [keeps_intros]:
  "keeps (only S cond) (rate_guard e rq)" "keeps (only S cond) (record_failure e rq)" "keeps (only S cond) (reset_limit rq)"
  unfolding rate_guard_def record_failure_def reset_limit_def by (intro keeps_intros; simp)+

lemma keeps_only_guards [keeps_intros]:
  "keeps (only S cond) (requireSession e rq)" "keeps (only S cond) (webauthnDisabledGuard h)"
  "keeps (only S cond) (loadAdminUser h e wc)" "keeps (only S cond) (login_response h e rq user token)"
  "keeps (only S cond) (count_passkeys h)" "keeps (only S cond) (update_count e c)"
  "keeps (only S cond) (verify_password h e user p)"
proof -
  show "keeps (only S cond) (webauthnDisabledGuard h)"
    by (simp add: keeps_def webauthnDisabledGuard_def split: option.split)
qed (unfold requireSession_def loadAdminUser_def login_response_def count_passkeys_def update_count_def verify_password_def, (intro keeps_intros)+)

lemma keeps_only_new_session:
  assumes "env_ok e" "\<And>x. ss_username x = user \<Longrightarrow> cond x"
  shows "keeps (only S cond) (new_session e user)"
proof (rule keepsI)
  fix w :: "'d auth_state"
  assume w: "only S cond w"
  let ?r = "ae_random e (as_draws w)" and ?n = "ae_clock e (as_ticks w)" and ?n' = "ae_clock e (Suc (as_ticks w))"
  let ?op = "OpCreate (ae_order e) ?r ?n ?n' user"
  have run: "as_sessions (snd (new_session e user w)) = store_step ?op (as_sessions w)"
    by (simp add: new_session_def bindE_def auth_draw_def auth_now_def split: prod.split option.split)
  have ok: "op_ok ?op" using assms(1) by (auto simp: env_ok_def)
  have "map_of S t = Some x \<or> cond x" if x: "map_of (st_sessions (store_step ?op (as_sessions w))) t = Some x" for t x
  proof (cases "creates t ?op")
    case True
    then have "ss_username x = user" using x by (auto simp: Create_def Let_def update_lookup)
    then show ?thesis by (simp add: assms(2))
  next
    case False
    then have "map_of (st_sessions (as_sessions w)) t = Some x"
      using step_lookup[OF _ ok False, of "as_sessions w"] x w by (auto simp: only_def)
    then show ?thesis using w by (auto simp: only_def)
  qed
  moreover have "store_ok (store_step ?op (as_sessions w))" using w ok by (intro step_ok) (simp_all add: only_def)
  ultimately show "only S cond (snd (new_session e user w))" by (simp add: only_def run)
qed

definition password_ok :: "('d, 'o) auth_handlers \<Rightarrow> auth_env \<Rightarrow> (string \<times> string) option \<Rightarrow> session \<Rightarrow> bool" where
  "password_ok h e body x \<longleftrightarrow> (\<exists>user p v. body = Some (user, p) \<and> ah_basic h = Some v \<and>
     Verify (ae_matches e) v user p \<and> ss_username x = user)"

text \<open>The user the library is shown for the rows of the table of credentials.\<close>

definition admin_user :: "('d, 'o) auth_handlers \<Rightarrow> auth_env \<Rightarrow> webauthn_config \<Rightarrow> credential list \<Rightarrow> wa_user" where
  "admin_user h e wc rows =
     NewWebAuthnUser (ae_flags e) (ae_url_host e) (ba_username (ac_basic (ah_cfg h))) (wa_display_name wc) (wa_origin wc)
       (rev (sort_key cd_created rows))"

text \<open>A pending challenge was answered by an assertion the library accepts for that user.\<close>

definition passkey_ok :: "('d, 'o) auth_handlers \<Rightarrow> auth_env \<Rightarrow> (string \<times> string) option \<Rightarrow> 'd auth_state \<Rightarrow> session \<Rightarrow> bool" where
  "passkey_ok h e body w x \<longleftrightarrow> (\<exists>lib wc token assertion d k c. ah_lib h = Some lib \<and> ah_webauthn h = Some wc \<and> wa_enabled wc \<and>
     body = Some (token, assertion) \<and> fst (GetChallenge token (ae_clock e k) (as_challenges w)) = Some d \<and>
     wl_finish_login lib (admin_user h e wc (ct_rows (as_creds w))) d assertion = LibOk c \<and>
     ss_username x = ba_username (ac_basic (ah_cfg h)))"

lemma bindE_const [simp]: "bindE (ret a) f = f a" "bindE (fail err) f = fail err"
  by (simp_all add: bindE_def fun_eq_iff)

lemma answered_state [simp]: "snd (answered m w) = snd (m w)"
  by (simp add: answered_def bindE_def split: prod.split sum.split)

lemma keeps_login:
  assumes "env_ok e"
  shows "keeps (only S (password_ok h e body)) (login h e rq body)"
proof (cases body)
  case (Some up)
  obtain user p where up: "up = (user, p)" by fastforce
  have verified: "keeps (only S (password_ok h e body)) (new_session e user)"
    if "ah_basic h = Some v" "Verify (ae_matches e) v user p" for v
    using that Some up by (intro keeps_only_new_session assms) (simp add: password_ok_def)
  have "keeps (only S (password_ok h e body)) (login_session h e rq (Some (user, p)))"
    unfolding login_session_def decoded_def verify_password_def
    by (cases "ah_basic h") (auto intro!: keeps_intros verified only_delete_user)
  then show ?thesis unfolding login_def by (auto simp: Some up intro!: keeps_intros)
qed (auto simp: login_def login_session_def decoded_def thenE_def intro!: keeps_intros)

lemma keeps_passive:
  "keeps (only S cond) (logout rq)" "keeps (only S cond) (session_query h e rq)"
  "keeps (only S cond) (webauthnRegisterBegin h e rq)" "keeps (only S cond) (webauthnRegisterFinish h e rq rb)"
  "keeps (only S cond) (webauthnLoginBegin h e rq)" "keeps (only S cond) (webauthnListCredentials h e rq)"
  "keeps (only S cond) (webauthnDeleteCredential h e rq i)"
  unfolding logout_def session_query_def webauthnRegisterBegin_def webauthnRegisterFinish_def webauthnLoginBegin_def
    webauthnListCredentials_def webauthnDeleteCredential_def
  by (auto intro!: keeps_intros only_delete)

subsection \<open>Passkey logins\<close>

text \<open>The state in which the challenges and the rows are still those of the start.\<close>

definition still :: "(string \<times> session) list \<Rightarrow> (session \<Rightarrow> bool) \<Rightarrow> 'd auth_state \<Rightarrow> 'd auth_state \<Rightarrow> bool" where
  "still S cond w0 w \<longleftrightarrow> only S cond w \<and> as_challenges w = as_challenges w0 \<and> ct_rows (as_creds w) = ct_rows (as_creds w0)"

lemma keeps_still_guard: "keeps (still S cond w0) (rate_guard e rq)"
  by (auto simp: keeps_def still_def rate_guard_def bindE_def auth_now_def)

lemma outcome_fact: "(F \<Longrightarrow> outcome P m Q E) \<Longrightarrow> outcome (\<lambda>w. P w \<and> F) m Q E"
  by (auto simp: outcome_def)

lemma outcome_take_challenge:
  "outcome (still S cond w0) (take_challenge e token)
     (\<lambda>d w. (only S cond w \<and> ct_rows (as_creds w) = ct_rows (as_creds w0)) \<and>
        (\<exists>k. fst (GetChallenge token (ae_clock e k) (as_challenges w0)) = Some d)) (\<lambda>_. only S cond)"
proof (rule outcomeI)
  fix w :: "'a auth_state" and err
  assume "still S cond w0 w"
  then show "only S cond (snd (take_challenge e token w))"
    using keeps_only_stores(3)[THEN keepsD] by (auto simp: still_def)
next
  fix w :: "'a auth_state" and d
  assume w: "still S cond w0 w" and d: "fst (take_challenge e token w) = Inr d"
  have "only S cond (snd (take_challenge e token w))" using w keeps_only_stores(3)[THEN keepsD] by (auto simp: still_def)
  moreover have "ct_rows (as_creds (snd (take_challenge e token w))) = ct_rows (as_creds w)"
    by (simp add: take_challenge_def bindE_def auth_now_def split: prod.split option.split)
  moreover have "fst (GetChallenge token (ae_clock e (as_ticks w)) (as_challenges w)) = Some d"
    using d by (simp add: take_challenge_def bindE_def auth_now_def split: prod.splits option.splits)
  ultimately show "(only S cond (snd (take_challenge e token w)) \<and>
      ct_rows (as_creds (snd (take_challenge e token w))) = ct_rows (as_creds w0)) \<and>
      (\<exists>k. fst (GetChallenge token (ae_clock e k) (as_challenges w0)) = Some d)"
    using w by (auto simp: still_def)
qed

lemma loadAdminUser_run:
  "loadAdminUser h e wc w = (r, w') \<Longrightarrow> r = Inr u \<Longrightarrow> u = admin_user h e wc (ct_rows (as_creds w))"
  by (auto simp: loadAdminUser_def on_creds_def bindE_def ListCredentials_def cred_stmt_def Let_def admin_user_def
      split: prod.splits if_splits)

lemma outcome_finish:
  "outcome (\<lambda>w. only S cond w \<and> ct_rows (as_creds w) = R) (finish_discoverable h e lib wc d assertion)
     (\<lambda>c w. only S cond w \<and> wl_finish_login lib (admin_user h e wc R) d assertion = LibOk c) (\<lambda>_. only S cond)"
proof -
  have user: "outcome (\<lambda>w. only S cond w \<and> ct_rows (as_creds w) = R)
      (mapErr (\<lambda>_. ApiError 401 ''authentication_failed'') (loadAdminUser h e wc))
      (\<lambda>u w. only S cond w \<and> u = admin_user h e wc R) (\<lambda>_. only S cond)"
  proof (rule outcome_mapErr, rule outcomeI)
    fix w :: "'a auth_state" and err
    assume w: "only S cond w \<and> ct_rows (as_creds w) = R"
    then show "only S cond (snd (loadAdminUser h e wc w))" using keeps_only_guards(3)[THEN keepsD] by auto
  next
    fix w :: "'a auth_state" and u
    assume w: "only S cond w \<and> ct_rows (as_creds w) = R" and u: "fst (loadAdminUser h e wc w) = Inr u"
    have "u = admin_user h e wc R" using loadAdminUser_run[OF surjective_pairing u] w by simp
    then show "only S cond (snd (loadAdminUser h e wc w)) \<and> u = admin_user h e wc R"
      using w keeps_only_guards(3)[THEN keepsD] by auto
  qed
  show ?thesis
    unfolding finish_discoverable_def lib_call_def
    by (rule outcome_bindE[where Q = "\<lambda>_ w. only S cond w \<and> ct_rows (as_creds w) = R"])
      (auto split: lib_result.split simp: outcome_def[of _ "ret _"] outcome_def[of _ "fail _"] intro!: outcome_bindE[OF user])
qed

lemma login_finish_sessions:
  assumes "env_ok e" "store_ok (as_sessions w0)"
  shows "only (st_sessions (as_sessions w0)) (passkey_ok h e body w0) (snd (webauthnLoginFinish h e rq body w0))"
proof -
  let ?S = "st_sessions (as_sessions w0)" and ?cond = "passkey_ok h e body w0"
  have "outcome (still ?S ?cond w0) (webauthnLoginFinish h e rq body) (\<lambda>_. only ?S ?cond) (\<lambda>_. only ?S ?cond)"
  proof (cases "\<exists>lib wc token assertion. ah_lib h = Some lib \<and> ah_webauthn h = Some wc \<and> wa_enabled wc \<and>
      body = Some (token, assertion)")
    case True
    then obtain lib wc token assertion where h: "ah_lib h = Some lib" "ah_webauthn h = Some wc" "wa_enabled wc"
      "body = Some (token, assertion)" by blast
    have session: "keeps (only ?S ?cond) (new_session e (ba_username (ac_basic (ah_cfg h))))"
      if "\<exists>k. fst (GetChallenge token (ae_clock e k) (as_challenges w0)) = Some d"
        "wl_finish_login lib (admin_user h e wc (ct_rows (as_creds w0))) d assertion = LibOk c" for d c
      using that h by (intro keeps_only_new_session assms(1)) (auto simp: passkey_ok_def)
    have tail: "outcome (only ?S ?cond) (tail c) (\<lambda>_. only ?S ?cond) (\<lambda>_. only ?S ?cond)"
      if "\<exists>k. fst (GetChallenge token (ae_clock e k) (as_challenges w0)) = Some d"
        "wl_finish_login lib (admin_user h e wc (ct_rows (as_creds w0))) d assertion = LibOk c"
        "tail = (\<lambda>c. thenE (reset_limit rq) (thenE (update_count e c)
          (bindE (new_session e (ba_username (ac_basic (ah_cfg h)))) (\<lambda>t.
           login_response h e rq (ba_username (ac_basic (ah_cfg h))) t))))" for d c tail
      unfolding that(3) by (intro outcome_keeps keeps_intros session[OF that(1,2)])
    have failed: "outcome (only ?S ?cond) (thenE (if err = NilDeref then ret () else record_failure e rq) (fail err))
      (\<lambda>_. only ?S ?cond) (\<lambda>_. only ?S ?cond)" for err :: api_err
      by (intro outcome_keeps keeps_intros)
    have guard: "outcome (still ?S ?cond w0) (rate_guard e rq) (\<lambda>_. still ?S ?cond w0) (\<lambda>_. only ?S ?cond)"
      by (rule outcome_conseq[OF outcome_keeps[OF keeps_still_guard]]) (auto simp only: still_def)
    show ?thesis
      unfolding webauthnLoginFinish_def recovered_def webauthnDisabledGuard_def h option.case prod.case decoded_def
        if_P[OF h(3)] bindE_const
      by (intro outcome_mapErr outcome_thenE[OF guard[unfolded h(4)]] outcome_bindE[OF outcome_take_challenge] outcome_fact
          outcome_inspect[OF outcome_finish] failed[unfolded h(4)] tail[unfolded h(4)] refl)
  next
    case False
    then have "keeps (only ?S ?cond) (webauthnLoginFinish h e rq body)"
      unfolding webauthnLoginFinish_def webauthnDisabledGuard_def decoded_def
      by (cases "ah_lib h"; cases "ah_webauthn h"; cases body) (auto intro!: keeps_intros simp: thenE_def)
    then show ?thesis by (intro outcome_pre[OF outcome_keeps]) (auto simp: still_def)
  qed
  moreover have "still ?S ?cond w0 w0" using assms(2) by (simp add: still_def only_refl)
  ultimately show ?thesis unfolding outcome_def by (metis sum.exhaust)
qed

lemma new_session_by_login:
  assumes "env_ok e" "store_ok (as_sessions w)" "serve_auth h e rq b w = w'"
    "map_of (st_sessions (as_sessions w')) t = Some x" "map_of (st_sessions (as_sessions w)) t \<noteq> Some x"
  shows "auth_route (rq_method (aq_request rq)) (rq_path (aq_request rq)) = Some EpLogin \<and> password_ok h e (ab_login b) x \<or>
    auth_route (rq_method (aq_request rq)) (rq_path (aq_request rq)) = Some EpLoginFinish \<and>
      passkey_ok h e (ab_assertion b) w x"
proof (cases "auth_route (rq_method (aq_request rq)) (rq_path (aq_request rq))")
  case None
  then show ?thesis using assms(3-5) by (simp add: serve_auth_def)
next
  case (Some ep)
  let ?S = "st_sessions (as_sessions w)"
  have start: "only ?S cond w" for cond using assms(2) by (rule only_refl)
  have w': "w' = snd (serve_endpoint h e rq b ep w)" using assms(3) Some by (simp add: serve_auth_def)
  have new: "cond x" if "only ?S cond w'" for cond using that assms(4,5) by (auto simp: only_def)
  show ?thesis
  proof (cases "ep = EpLogin \<or> ep = EpLoginFinish")
    case True
    have finish: "only ?S (passkey_ok h e (ab_assertion b) w) (snd (answered (webauthnLoginFinish h e rq (ab_assertion b)) w))"
      using login_finish_sessions[OF assms(1,2)] by simp
    have "keeps (only ?S (password_ok h e (ab_login b))) (answered (login h e rq (ab_login b)))"
      by (intro keeps_intros keeps_login assms(1))
    note login = keepsD[OF this start]
    from True show ?thesis
    proof
      assume ep: "ep = EpLogin"
      then have "only ?S (password_ok h e (ab_login b)) w'" using login unfolding w' serve_endpoint_def by simp
      from new[OF this] show ?thesis by (simp add: Some ep)
    next
      assume ep: "ep = EpLoginFinish"
      then have "only ?S (passkey_ok h e (ab_assertion b) w) w'" using finish unfolding w' serve_endpoint_def by simp
      from new[OF this] show ?thesis by (simp add: Some ep)
    qed
  next
    case False
    have "keeps (only ?S (\<lambda>_. False)) (serve_endpoint h e rq b ep)"
      using False by (cases ep) (auto simp: serve_endpoint_def intro!: keeps_intros keeps_passive)
    from keepsD[OF this start] show ?thesis using new unfolding w' by blast
  qed
qed

text \<open>
  C9: Only a login makes a session: when a request below /api/auth/ leaves the store with a session it
  did not hold before, the request was a password login whose user and password the verifier accepted,
  or a passkey login that redeemed a pending challenge with an assertion the library accepts for the
  registered credentials, and the session is of that user.
\<close>
theorem session_only_by_login:
  assumes "env_ok e" "store_ok (as_sessions w)" "serve_auth h e rq b w = w'"
    "map_of (st_sessions (as_sessions w')) t = Some x" "map_of (st_sessions (as_sessions w)) t \<noteq> Some x"
  shows "auth_route (rq_method (aq_request rq)) (rq_path (aq_request rq)) = Some EpLogin \<and> password_ok h e (ab_login b) x \<or>
    auth_route (rq_method (aq_request rq)) (rq_path (aq_request rq)) = Some EpLoginFinish \<and>
      passkey_ok h e (ab_assertion b) w x"
  using assms by (rule new_session_by_login)

definition sample_auth_config :: auth_config where
  "sample_auth_config = \<lparr>ac_basic = \<lparr>ba_enabled = True, ba_username = ''admin'', ba_password_hash = ''secret''\<rparr>,
     ac_token = \<lparr>ta_enabled = False, ta_token = [], ta_allow_weak = False\<rparr>,
     ac_webauthn = \<lparr>wa_enabled = False, wa_display_name = [], wa_origin = []\<rparr>,
     ac_session_ttl = 900, ac_skip_unix = True, ac_secure_cookies = ''auto'', ac_max_sessions = 10\<rparr>"

definition sample_handlers :: "(unit, unit) auth_handlers" where
  "sample_handlers = NewAuthHandlers sample_auth_config (Some (NewBasicAuthVerifier ''admin'' ''secret'')) False None None"

definition sample_auth_env :: auth_env where
  "sample_auth_env = \<lparr>ae_clock = int, ae_random = (\<lambda>k. Some (char_of k # replicate 31 CHR ''x'')), ae_order = (\<lambda>xs. xs),
     ae_matches = (\<lambda>hash p. hash = p),
     ae_flags = \<lparr>fl_present = (\<lambda>b. bit b 0), fl_verified = (\<lambda>b. bit b 2), fl_eligible = (\<lambda>b. bit b 3), fl_backed = (\<lambda>b. bit b 4)\<rparr>,
     ae_url_host = (\<lambda>_. None), ae_print = (\<lambda>_. False)\<rparr>"

definition sample_login :: auth_request where
  "sample_login = \<lparr>aq_request = sample_poll\<lparr>rq_method := ''POST'', rq_path := ''/api/auth/login''\<rparr>,
     aq_remote = ''10.0.0.9:4711'', aq_user_agent = ''curl''\<rparr>"

definition sample_body :: auth_body where
  "sample_body = \<lparr>ab_login = Some (''admin'', ''secret''), ab_register = None, ab_assertion = None\<rparr>"

definition sample_auth_state :: "unit auth_state" where
  "sample_auth_state = \<lparr>as_sessions = NewSessionStore 900 10, as_limiter = NewLoginRateLimiter 5 60,
     as_challenges = NewChallengeStore, as_creds = \<lparr>ct_rows = [], ct_now = 0, ct_faults = []\<rparr>, as_ticks = 1, as_draws = 0\<rparr>"

lemma sample_env_ok: "env_ok sample_auth_env"
  by (auto simp: env_ok_def sample_auth_env_def order_ok_def)

lemma sample_auth_ok: "store_ok (as_sessions sample_auth_state)"
  by (simp add: sample_auth_state_def store_ok_def NewSessionStore_def)

theorem session_only_by_login_witness:
  "\<exists>x. map_of (st_sessions (as_sessions (serve_auth sample_handlers sample_auth_env sample_login sample_body sample_auth_state)))
      (raw_url_encode (CHR 0x00 # replicate 31 CHR ''x'')) = Some x \<and>
     password_ok sample_handlers sample_auth_env (Some (''admin'', ''secret'')) x"
proof -
  let ?w = "serve_auth sample_handlers sample_auth_env sample_login sample_body sample_auth_state"
  let ?t = "raw_url_encode (CHR 0x00 # replicate 31 CHR ''x'')"
  have route: "auth_route (rq_method (aq_request sample_login)) (rq_path (aq_request sample_login)) = Some EpLogin"
    by code_simp
  have ip: "extractIP sample_login = ''10.0.0.9''" by code_simp
  have new: "map_of (st_sessions (as_sessions ?w)) ?t =
      Some \<lparr>ss_username = ''admin'', ss_token = ?t, ss_created = 2, ss_activity = 3\<rparr>"
    unfolding serve_auth_def route option.case serve_endpoint_def auth_endpoint.case answered_state login_def login_session_def
      rate_guard_def record_failure_def reset_limit_def ip
    by (simp add: sample_handlers_def sample_auth_config_def NewAuthHandlers_def AnyEnabled_def decoded_def sample_body_def
        sample_auth_env_def sample_auth_state_def run_simps auth_now_def auth_draw_def bindE_def thenE_def Check_def verify_password_def
        Verify_def NewBasicAuthVerifier_def NewLoginRateLimiter_def NewSessionStore_def DeleteByUsername_def new_session_def
        Create_def login_response_def find_session_def Get_def expired_def Let_def char_of_def sample_login_def sample_poll_def)
  have absent: "map_of (st_sessions (as_sessions sample_auth_state)) ?t \<noteq> Some x" for x
    by (simp add: sample_auth_state_def NewSessionStore_def)
  have "auth_route (rq_method (aq_request sample_login)) (rq_path (aq_request sample_login)) \<noteq> Some EpLoginFinish"
    by (simp add: route)
  moreover have "ab_login sample_body = Some (''admin'', ''secret'')" by (simp add: sample_body_def)
  ultimately show ?thesis
    using session_only_by_login[OF sample_env_ok sample_auth_ok refl new absent] new by metis
qed

end
