(* ===== verification/Login.thy ===== *)
theory Login
  imports AuthApi
begin

text \<open>
  What the handlers of auth/handlers.go promise: the effect of a login and of a logout, the races
  between logins, the bound on failed attempts, and who may change the passkeys.
\<close>

subsection \<open>The effect of a login\<close>

lemma rate_guard_sessions: "rate_guard e rq w = (r, w') \<Longrightarrow> as_sessions w' = as_sessions w \<and> as_draws w' = as_draws w"
  by (auto simp: rate_guard_def bindE_def auth_now_def split: if_splits)

lemma new_session_run:
  "new_session e user w = (Inr t, w') \<Longrightarrow>
     Create (ae_order e) (ae_random e (as_draws w)) (ae_clock e (as_ticks w)) (ae_clock e (Suc (as_ticks w))) user (as_sessions w) =
       (Some t, as_sessions w')"
  by (auto simp: new_session_def bindE_def auth_draw_def auth_now_def split: prod.splits option.splits)

lemma reset_limit_frame [simp]:
  "fst (reset_limit rq w) = Inr ()" "as_sessions (snd (reset_limit rq w)) = as_sessions w"
  by (simp_all add: reset_limit_def)

lemma thenE_reset:
  "thenE (reset_limit rq) n w = n (if extractIP rq \<noteq> [] then w\<lparr>as_limiter := Reset (extractIP rq) (as_limiter w)\<rparr> else w)"
  by (simp add: reset_limit_def thenE_def bindE_def)

lemma login_sessionD:
  assumes "login_session h e rq body w = (Inr (user, t), w')"
  shows "\<exists>k m. Create (ae_order e) (ae_random e m) (ae_clock e k) (ae_clock e (Suc k)) user
    (DeleteByUsername user (as_sessions w)) = (Some t, as_sessions w')"
proof -
  obtain user' p where body: "body = Some (user', p)"
    using assms by (cases body) (auto simp: login_session_def decoded_def thenE_def bindE_def split: if_splits)
  obtain w1 where w1: "rate_guard e rq w = (Inr (), w1)" and
    rest: "bindE (verify_password h e user' p) (\<lambda>ok.
      if \<not> ok then thenE (record_failure e rq) (fail (ApiError 401 ''invalid_credentials''))
      else thenE (modifyE (\<lambda>w. w\<lparr>as_sessions := DeleteByUsername user' (as_sessions w)\<rparr>))
         (bindE (new_session e user') (\<lambda>token. thenE (reset_limit rq) (ret (user', token))))) w1 = (Inr (user, t), w')"
    using assms unfolding login_session_def body decoded_def option.case bindE_const prod.case
    by (auto simp: run_simps split: if_splits dest!: thenE_InrD)
  obtain ok where ok: "verify_password h e user' p w1 = (Inr ok, w1)"
    using rest by (auto simp: verify_password_def bindE_def split: option.splits)
  have "ok"
    using rest by (rule contrapos_pp) (auto simp: bindE_def ok thenE_def record_failure_def auth_now_def)
  let ?w2 = "w1\<lparr>as_sessions := DeleteByUsername user' (as_sessions w1)\<rparr>"
  have "bindE (new_session e user') (\<lambda>token. thenE (reset_limit rq) (ret (user', token))) ?w2 = (Inr (user, t), w')"
    using rest \<open>ok\<close> by (simp add: bindE_Inr[where m = "verify_password h e user' p", OF ok] run_simps)
  from bindE_InrD[OF this] obtain t' w3 where w3: "new_session e user' ?w2 = (Inr t', w3)"
      "thenE (reset_limit rq) (ret (user', t')) w3 = (Inr (user, t) :: api_err + _, w')" by blast
  have "user' = user" "t' = t" "as_sessions w' = as_sessions w3"
    using w3(2) unfolding thenE_reset by (auto split: if_splits)
  moreover have "as_sessions w1 = as_sessions w" using rate_guard_sessions[OF w1] by simp
  ultimately show ?thesis using new_session_run[OF w3(1)] by auto
qed

lemma Create_lookup:
  assumes "Create order r n n' user s = (Some t, s')"
  shows "map_of (st_sessions s') t = Some \<lparr>ss_username = user, ss_token = t, ss_created = n, ss_activity = n'\<rparr>"
    "t' \<noteq> t \<Longrightarrow> map_of (st_sessions s') t' \<in> {None, map_of (st_sessions s) t'}"
    "t' \<noteq> t \<Longrightarrow> int (length (st_sessions s)) < st_max s \<Longrightarrow> map_of (st_sessions s') t' = map_of (st_sessions s) t'"
    "st_ttl s' = st_ttl s"
proof -
  define s1 where "s1 = (if int (length (st_sessions s)) \<ge> st_max s then evictOldestLocked order s else s)"
  have s1: "map_of (st_sessions s1) t' \<in> {None, map_of (st_sessions s) t'}" "st_ttl s1 = st_ttl s"
    "int (length (st_sessions s)) < st_max s \<Longrightarrow> s1 = s" for t'
    by (auto simp: s1_def evictOldestLocked_def delete_lookup split: option.split)
  have s': "s' = s1\<lparr>st_sessions := AList.update t
      \<lparr>ss_username = user, ss_token = t, ss_created = n, ss_activity = n'\<rparr> (st_sessions s1)\<rparr>"
    using assms by (auto simp: Create_def Let_def s1_def split: option.splits)
  show "map_of (st_sessions s') t = Some \<lparr>ss_username = user, ss_token = t, ss_created = n, ss_activity = n'\<rparr>"
    "t' \<noteq> t \<Longrightarrow> map_of (st_sessions s') t' \<in> {None, map_of (st_sessions s) t'}"
    "t' \<noteq> t \<Longrightarrow> int (length (st_sessions s)) < st_max s \<Longrightarrow> map_of (st_sessions s') t' = map_of (st_sessions s) t'"
    "st_ttl s' = st_ttl s"
    using s1 by (simp_all add: s' update_lookup)
qed

lemma delete_user_lookup:
  "store_ok s \<Longrightarrow> map_of (st_sessions (DeleteByUsername user s)) t =
     Option.bind (map_of (st_sessions s) t) (\<lambda>x. if ss_username x \<noteq> user then Some x else None)"
  by (simp add: DeleteByUsername_def map_of_filter_entry store_ok_def)

text \<open>After a login the new session is the only one of its user; nobody else gains one.\<close>

lemma login_session_effect:
  assumes "login_session h e rq body w = (Inr (user, t), w')" "store_ok (as_sessions w)"
  shows "\<exists>k. map_of (st_sessions (as_sessions w')) t =
      Some \<lparr>ss_username = user, ss_token = t, ss_created = ae_clock e k, ss_activity = ae_clock e (Suc k)\<rparr>"
    "t' \<noteq> t \<Longrightarrow> map_of (st_sessions (as_sessions w')) t' = Some x \<Longrightarrow>
      map_of (st_sessions (as_sessions w)) t' = Some x \<and> ss_username x \<noteq> user"
    "t' \<noteq> t \<Longrightarrow> int (length (st_sessions (DeleteByUsername user (as_sessions w)))) < st_max (as_sessions w) \<Longrightarrow>
      map_of (st_sessions (as_sessions w)) t' = Some x \<Longrightarrow> ss_username x \<noteq> user \<Longrightarrow>
      map_of (st_sessions (as_sessions w')) t' = Some x"
proof -
  obtain k m where c: "Create (ae_order e) (ae_random e m) (ae_clock e k) (ae_clock e (Suc k)) user
    (DeleteByUsername user (as_sessions w)) = (Some t, as_sessions w')" using login_sessionD[OF assms(1)] by blast
  show "\<exists>k. map_of (st_sessions (as_sessions w')) t =
      Some \<lparr>ss_username = user, ss_token = t, ss_created = ae_clock e k, ss_activity = ae_clock e (Suc k)\<rparr>"
    using Create_lookup(1)[OF c] by blast
  show "map_of (st_sessions (as_sessions w)) t' = Some x \<and> ss_username x \<noteq> user"
    if "t' \<noteq> t" "map_of (st_sessions (as_sessions w')) t' = Some x" for t' x
    using Create_lookup(2)[OF c that(1)] that(2)
    by (auto simp: delete_user_lookup[OF assms(2)] split: Option.bind_splits if_splits)
  show "map_of (st_sessions (as_sessions w')) t' = Some x"
    if "t' \<noteq> t" "int (length (st_sessions (DeleteByUsername user (as_sessions w)))) < st_max (as_sessions w)"
      "map_of (st_sessions (as_sessions w)) t' = Some x" "ss_username x \<noteq> user" for t' x
  proof -
    have "st_max (DeleteByUsername user (as_sessions w)) = st_max (as_sessions w)" by (simp add: DeleteByUsername_def)
    then show ?thesis
      using Create_lookup(3)[OF c that(1)] that(2-4) by (simp add: delete_user_lookup[OF assms(2)])
  qed
qed

text \<open>
  C11: A password login rotates the session: the cookie of the answer names a session of the user that
  logged in, and it is the only one that user has; sessions of other users are neither made nor
  changed, and none of them is dropped while there is room. The cookie expires the time to live after
  the login, and Secure follows the configuration.
\<close>
theorem login_effect:
  assumes "login h e rq body w = (Inr a, w')" "store_ok (as_sessions w)"
  shows "(\<exists>x. map_of (st_sessions (as_sessions w')) (ck_value (la_cookie a)) = Some x \<and> ss_username x = la_username a \<and>
      ck_expires (la_cookie a) = ss_activity x + st_ttl (as_sessions w) \<and>
      ck_secure (la_cookie a) = cookie_secure (ah_secure h) (aq_request rq)) \<and>
    (\<forall>t x. t \<noteq> ck_value (la_cookie a) \<longrightarrow> map_of (st_sessions (as_sessions w')) t = Some x \<longrightarrow>
      map_of (st_sessions (as_sessions w)) t = Some x \<and> ss_username x \<noteq> la_username a) \<and>
    (int (length (st_sessions (DeleteByUsername (la_username a) (as_sessions w)))) < st_max (as_sessions w) \<longrightarrow>
      (\<forall>t x. t \<noteq> ck_value (la_cookie a) \<longrightarrow> map_of (st_sessions (as_sessions w)) t = Some x \<longrightarrow>
        ss_username x \<noteq> la_username a \<longrightarrow> map_of (st_sessions (as_sessions w')) t = Some x))"
proof -
  obtain user token w1 where s: "login_session h e rq body w = (Inr (user, token), w1)"
    and r: "login_response h e rq user token w1 = (Inr a, w')"
    using assms(1) unfolding login_def by (auto dest!: bindE_InrD)
  have sessions: "as_sessions w' = as_sessions w1" and ans: "la_username a = user" "ck_value (la_cookie a) = token"
    and x: "\<exists>x. map_of (st_sessions (as_sessions w1)) token = Some x \<and> la_cookie a = makeCookie h token (ExpiresAt (as_sessions w1) x) rq"
    using r by (auto simp: login_response_def find_session_def bindE_def auth_now_def Get_def makeCookie_def Let_def
        split: prod.splits option.splits if_splits)
  have ttl: "st_ttl (as_sessions w1) = st_ttl (as_sessions w)"
    using login_sessionD[OF s] Create_lookup(4) by (fastforce simp: DeleteByUsername_def)
  obtain x0 k where x0: "map_of (st_sessions (as_sessions w1)) token = Some x0" "ss_username x0 = user"
    "la_cookie a = makeCookie h token (ss_activity x0 + st_ttl (as_sessions w)) rq"
    using login_session_effect(1)[OF s assms(2)] x ttl by (auto simp: ExpiresAt_def)
  have cookie: "ck_expires (la_cookie a) = ss_activity x0 + st_ttl (as_sessions w)"
    "ck_secure (la_cookie a) = cookie_secure (ah_secure h) (aq_request rq)"
    unfolding x0(3) by (simp_all add: makeCookie_def cookie_secure_def)
  show ?thesis
    unfolding sessions ans using x0(1,2) cookie login_session_effect(2,3)[OF s assms(2)] by blast
qed

text \<open>
  C15: Two logins of the same user race: when a second login completes its rotation between the first
  one's new session and the first one's look-up of it, the first handler dereferences nil.
\<close>
theorem concurrent_login_panics:
  assumes "store_ok (as_sessions w)" "env_ok e" "login_session h e rq body w = (Inr (user, t), w1)"
    "login_session h e rq' body' w1 = (Inr (user, t'), w2)" "t \<noteq> t'"
  shows "fst (login_response h e rq user t w2) = Inl NilDeref"
proof -
  have "store_ok (as_sessions w1)"
  proof -
    have "keeps (only (st_sessions (as_sessions w)) (\<lambda>_. True)) (login_session h e rq body)"
      unfolding login_session_def by (auto intro!: keeps_intros only_delete_user keeps_only_new_session assms(2))
    from keepsD[OF this only_refl[OF assms(1)]] show ?thesis by (simp add: assms(3) only_def)
  qed
  then have "map_of (st_sessions (as_sessions w2)) t = Some x \<Longrightarrow>
      map_of (st_sessions (as_sessions w1)) t = Some x \<and> ss_username x \<noteq> user" for x
    using login_session_effect(2)[OF assms(4)] assms(5) by blast
  moreover obtain k where "map_of (st_sessions (as_sessions w1)) t =
      Some \<lparr>ss_username = user, ss_token = t, ss_created = ae_clock e k, ss_activity = ae_clock e (Suc k)\<rparr>"
    using login_session_effect(1)[OF assms(3,1)] by blast
  ultimately have "map_of (st_sessions (as_sessions w2)) t = None"
    by (cases "map_of (st_sessions (as_sessions w2)) t") auto
  then show ?thesis
    by (simp add: login_response_def find_session_def bindE_def auth_now_def Get_def)
qed

subsection \<open>Failed attempts are bounded\<close>

text \<open>
  The answers that count as a failed attempt, and those after which the count may start anew; \<open>None\<close> is
  an answer without an error.
\<close>

definition denied :: "api_err option \<Rightarrow> bool" where
  "denied r \<longleftrightarrow> r = Some (ApiError 401 ''invalid_credentials'') \<or> r = Some (ApiError 401 ''authentication_failed'')"

definition passed :: "api_err option \<Rightarrow> bool" where
  "passed r \<longleftrightarrow> (case r of None \<Rightarrow> True | Some NilDeref \<Rightarrow> True | Some (ApiError status _) \<Rightarrow> status = 500)"

text \<open>What a request may do to the limiter it found as \<open>L\<close> when the clock had been read \<open>K\<close> times.\<close>

definition limit_effect :: "auth_env \<Rightarrow> auth_request \<Rightarrow> login_limiter \<Rightarrow> nat \<Rightarrow> api_err option \<Rightarrow> 'd auth_state \<Rightarrow> bool" where
  "limit_effect e rq L K r w \<longleftrightarrow> K \<le> as_ticks w \<and>
     (\<not> denied r \<and> as_limiter w = L \<or>
      passed r \<and> extractIP rq \<noteq> [] \<and> as_limiter w = Reset (extractIP rq) L \<or>
      denied r \<and> extractIP rq = [] \<and> as_limiter w = L \<or>
      denied r \<and> (\<exists>k. K \<le> k \<and> k < as_ticks w \<and> as_limiter w = RecordFailure (extractIP rq) (ae_clock e k) L) \<and>
        (\<not> rq_unix (aq_request rq) \<longrightarrow> Check (extractIP rq) (ae_clock e K) L))"

definition limiter_is :: "login_limiter \<Rightarrow> nat \<Rightarrow> 'd auth_state \<Rightarrow> bool" where
  "limiter_is L K w \<longleftrightarrow> as_limiter w = L \<and> K \<le> as_ticks w"

lemma keeps_lim [keeps_intros]:
  "keeps (limiter_is L K) (auth_now e)" "keeps (limiter_is L K) (auth_draw e)" "keeps (limiter_is L K) (on_creds m)"
  "keeps (limiter_is L K) (new_session e user)" "keeps (limiter_is L K) (find_session e t)" "keeps (limiter_is L K) (store_challenge e d)"
  "keeps (limiter_is L K) (take_challenge e t)" "keeps (limiter_is L K) (rate_guard e rq)" "keeps (limiter_is L K) (webauthnDisabledGuard h)"
  "keeps (limiter_is L K) (verify_password h e user p)"
  by (simp_all add: keeps_def limiter_is_def auth_now_def auth_draw_def on_creds_def new_session_def find_session_def
      store_challenge_def take_challenge_def rate_guard_def webauthnDisabledGuard_def verify_password_def bindE_def
      split: prod.split option.split)

lemma keeps_lim_guards [keeps_intros]:
  "keeps (limiter_is L K) (requireSession e rq)" "keeps (limiter_is L K) (loadAdminUser h e wc)"
  "keeps (limiter_is L K) (login_response h e rq user token)" "keeps (limiter_is L K) (count_passkeys h)" "keeps (limiter_is L K) (update_count e c)"
  by (unfold requireSession_def loadAdminUser_def login_response_def count_passkeys_def update_count_def, (intro keeps_intros)+)

lemma keeps_lim_passive:
  "keeps (limiter_is L K) (logout rq)" "keeps (limiter_is L K) (session_query h e rq)"
  "keeps (limiter_is L K) (webauthnRegisterBegin h e rq)" "keeps (limiter_is L K) (webauthnRegisterFinish h e rq rb)"
  "keeps (limiter_is L K) (webauthnLoginBegin h e rq)" "keeps (limiter_is L K) (webauthnListCredentials h e rq)"
  "keeps (limiter_is L K) (webauthnDeleteCredential h e rq i)"
  unfolding logout_def session_query_def webauthnRegisterBegin_def webauthnRegisterFinish_def webauthnLoginBegin_def
    webauthnListCredentials_def webauthnDeleteCredential_def
  by (auto intro!: keeps_intros simp: limiter_is_def)

lemma lim_effect: "limiter_is L K w \<Longrightarrow> \<not> denied r \<Longrightarrow> limit_effect e rq L K r w"
  by (simp add: limiter_is_def limit_effect_def)

abbreviation reset_to :: "auth_request \<Rightarrow> login_limiter \<Rightarrow> login_limiter" where
  "reset_to rq L \<equiv> if extractIP rq \<noteq> [] then Reset (extractIP rq) L else L"

lemma passed_not_denied: "passed r \<Longrightarrow> \<not> denied r"
  by (auto simp: passed_def denied_def)

lemma reset_effect: "limiter_is (reset_to rq L) K w \<Longrightarrow> passed r \<Longrightarrow> limit_effect e rq L K r w"
  using passed_not_denied[of r] by (auto simp: limiter_is_def limit_effect_def split: if_splits)

lemma outcome_keeps_err:
  "keeps P m \<Longrightarrow> (\<And>w err. fst (m w) = Inl err \<Longrightarrow> X err) \<Longrightarrow> outcome P m (\<lambda>_. P) (\<lambda>err w. P w \<and> X err)"
  by (auto simp: outcome_def keeps_def)

text \<open>The parts of the two logins.\<close>

definition allowed :: "auth_env \<Rightarrow> auth_request \<Rightarrow> login_limiter \<Rightarrow> nat \<Rightarrow> bool" where
  "allowed e rq L K \<longleftrightarrow> (\<not> rq_unix (aq_request rq) \<and> extractIP rq \<noteq> [] \<longrightarrow> Check (extractIP rq) (ae_clock e K) L)"

lemma outcome_guard:
  "outcome (\<lambda>w. as_limiter w = L \<and> as_ticks w = K) (rate_guard e rq) (\<lambda>_ w. limiter_is L K w \<and> allowed e rq L K)
     (\<lambda>err. limit_effect e rq L K (Some err))"
  by (auto simp: outcome_def rate_guard_def bindE_def auth_now_def limiter_is_def allowed_def limit_effect_def denied_def split: if_splits)

lemma outcome_denied:
  assumes "denied (Some err)" "allowed e rq L K"
  shows "outcome (limiter_is L K) (thenE (record_failure e rq) (fail err)) Q (\<lambda>err. limit_effect e rq L K (Some err))"
  using assms by (auto simp: outcome_def thenE_def bindE_def record_failure_def auth_now_def limiter_is_def allowed_def limit_effect_def denied_def)

lemma outcome_reset: "outcome (limiter_is L K) (reset_limit rq) (\<lambda>_. limiter_is (reset_to rq L) K) E"
  by (auto simp: outcome_def reset_limit_def limiter_is_def)

lemma outcome_response:
  "outcome (limiter_is L' K) (login_response h e rq user t) (\<lambda>_. limiter_is L' K) (\<lambda>err w. limiter_is L' K w \<and> err = NilDeref)"
proof (rule outcome_keeps_err)
  show "keeps (limiter_is L' K) (login_response h e rq user t)" by (rule keeps_lim_guards)
  show "err = NilDeref" if "fst (login_response h e rq user t w) = Inl err" for w err
    using that
    by (cases "Get t (ae_clock e (as_ticks w)) (as_sessions w)")
      (auto simp: login_response_def bindE_def find_session_def auth_now_def split: option.splits)
qed

lemma outcome_new_session:
  "outcome (limiter_is L' K) (new_session e user) (\<lambda>_. limiter_is L' K) (\<lambda>err w. limiter_is L' K w \<and> err = ApiError 500 ''internal_error'')"
proof (rule outcome_keeps_err)
  show "keeps (limiter_is L' K) (new_session e user)" by (rule keeps_lim)
  show "err = ApiError 500 ''internal_error''" if "fst (new_session e user w) = Inl err" for w err
    using that by (auto simp: new_session_def bindE_def auth_draw_def auth_now_def split: prod.splits option.splits)
qed

lemma login_limit:
  "outcome (\<lambda>w. as_limiter w = L \<and> as_ticks w = K) (login h e rq body) (\<lambda>_. limit_effect e rq L K None)
     (\<lambda>err. limit_effect e rq L K (Some err))"
proof -
  let ?P = "\<lambda>w. as_limiter w = L \<and> as_ticks w = K" and ?E = "\<lambda>err. limit_effect e rq L K (Some err)"
  have early: "outcome ?P (fail err) Q ?E" if "\<not> denied (Some err)" for err and Q :: "'x \<Rightarrow> _"
    using that by (auto simp: outcome_def limit_effect_def denied_def)
  have fresh: "outcome (limiter_is L K) (new_session e user) (\<lambda>_. limiter_is L K) ?E" for user
    by (rule outcome_conseq[OF outcome_new_session]) (auto intro!: lim_effect simp: denied_def)
  have created: "outcome (limiter_is L K) (bindE (new_session e user) (\<lambda>token. thenE (reset_limit rq) (ret (user, token))))
      (\<lambda>_. limiter_is (reset_to rq L) K) ?E" for user
    by (intro outcome_bindE[OF fresh] outcome_thenE[OF outcome_reset] outcome_ret)
  have body: "outcome ?P (login_session h e rq body) (\<lambda>_. limiter_is (reset_to rq L) K) ?E"
  proof (cases "AnyEnabled (ah_cfg h) \<and> ba_enabled (ac_basic (ah_cfg h)) \<and> body \<noteq> None")
    case True
    then obtain user p where b: "AnyEnabled (ah_cfg h)" "ba_enabled (ac_basic (ah_cfg h))" "body = Some (user, p)" by auto
    have verify: "outcome (limiter_is L K) (bindE (verify_password h e user p) (\<lambda>ok.
        if \<not> ok then thenE (record_failure e rq) (fail (ApiError 401 ''invalid_credentials''))
        else thenE (modifyE (\<lambda>w. w\<lparr>as_sessions := DeleteByUsername user (as_sessions w)\<rparr>))
         (bindE (new_session e user) (\<lambda>token. thenE (reset_limit rq) (ret (user, token)))))) (\<lambda>_. limiter_is (reset_to rq L) K) ?E"
      if "allowed e rq L K"
    proof (rule outcome_bindE[where Q = "\<lambda>_. limiter_is L K"])
      show "outcome (limiter_is L K) (verify_password h e user p) (\<lambda>_. limiter_is L K) ?E"
        by (auto simp: verify_password_def outcome_def lim_effect denied_def split: option.split)
      have "outcome (limiter_is L K) (modifyE (\<lambda>w. w\<lparr>as_sessions := DeleteByUsername user (as_sessions w)\<rparr>)) (\<lambda>_. limiter_is L K) ?E"
        by (simp add: outcome_def limiter_is_def)
      from outcome_thenE[OF this created]
      show "outcome (limiter_is L K) (if \<not> ok then thenE (record_failure e rq) (fail (ApiError 401 ''invalid_credentials''))
        else thenE (modifyE (\<lambda>w. w\<lparr>as_sessions := DeleteByUsername user (as_sessions w)\<rparr>))
         (bindE (new_session e user) (\<lambda>token. thenE (reset_limit rq) (ret (user, token))))) (\<lambda>_. limiter_is (reset_to rq L) K) ?E" for ok
        using that by (cases ok) (auto intro!: outcome_denied simp: denied_def)
    qed
    have "outcome ?P (thenE (rate_guard e rq) (bindE (verify_password h e user p) (\<lambda>ok.
        if \<not> ok then thenE (record_failure e rq) (fail (ApiError 401 ''invalid_credentials''))
        else thenE (modifyE (\<lambda>w. w\<lparr>as_sessions := DeleteByUsername user (as_sessions w)\<rparr>))
         (bindE (new_session e user) (\<lambda>token. thenE (reset_limit rq) (ret (user, token))))))) (\<lambda>_. limiter_is (reset_to rq L) K) ?E"
      by (intro outcome_thenE[OF outcome_guard] outcome_fact verify)
    then show ?thesis
      by (simp add: login_session_def b guardE_def thenE_def decoded_def)
  next
    case False
    then obtain err where "err \<in> {ApiError 400 ''auth_not_configured'', ApiError 400 ''basic_auth_disabled'', ApiError 400 ''invalid_request''}"
        "login_session h e rq body = fail err"
      by (cases "AnyEnabled (ah_cfg h)"; cases "ba_enabled (ac_basic (ah_cfg h))"; cases body)
        (simp_all add: login_session_def guardE_def thenE_def decoded_def fail_def bindE_def fun_eq_iff)
    then show ?thesis by (simp only:) (rule early, auto simp: denied_def)
  qed
  show ?thesis
    unfolding login_def
    by (rule outcome_bindE[OF body]) (auto intro!: outcome_conseq[OF outcome_response] reset_effect simp: passed_def)
qed

lemma outcome_finish_limit:
  "outcome (limiter_is L K) (finish_discoverable h e lib wc d assertion) (\<lambda>_. limiter_is L K)
     (\<lambda>err w. limiter_is L K w \<and> (err = NilDeref \<or> err = ApiError 401 ''authentication_failed''))"
proof (rule outcome_keeps_err)
  show "keeps (limiter_is L K) (finish_discoverable h e lib wc d assertion)"
    unfolding finish_discoverable_def by (intro keeps_intros)
  show "err = NilDeref \<or> err = ApiError 401 ''authentication_failed''"
    if "fst (finish_discoverable h e lib wc d assertion w) = Inl err" for w err
    using that by (auto simp: finish_discoverable_def bindE_def lib_call_def mapErr_def
        split: lib_result.splits prod.splits sum.splits)
qed

lemma login_finish_limit:
  fixes h :: "('d, 'o) auth_handlers"
  shows "outcome (\<lambda>w. as_limiter w = L \<and> as_ticks w = K) (webauthnLoginFinish h e rq body) (\<lambda>_. limit_effect e rq L K None)
     (\<lambda>err. limit_effect e rq L K (Some err))"
proof (cases "\<exists>lib wc. ah_lib h = Some lib \<and> ah_webauthn h = Some wc \<and> wa_enabled wc")
  case True
  then obtain lib wc where h: "ah_lib h = Some lib" "ah_webauthn h = Some wc" "wa_enabled wc" by blast
  let ?E = "\<lambda>err. limit_effect e rq L K (Some (if err = NilDeref then ApiError 500 ''internal_error'' else err))"
  let ?user = "ba_username (ac_basic (ah_cfg h))"
  have early: "outcome (limiter_is L K :: 'd auth_state \<Rightarrow> bool) (fail err) Q ?E" if "\<not> denied (Some err)" "err \<noteq> NilDeref" for err and Q :: "'x \<Rightarrow> _"
    using that by (auto simp: outcome_def intro!: lim_effect)
  have guard: "outcome (\<lambda>w. as_limiter w = L \<and> as_ticks w = K) (rate_guard e rq)
      (\<lambda>_ w. limiter_is L K w \<and> allowed e rq L K) ?E"
    by (rule outcome_conseq[OF outcome_guard]) (auto simp: limit_effect_def denied_def passed_def)
  have tail: "outcome (limiter_is L K :: 'd auth_state \<Rightarrow> bool) (thenE (reset_limit rq) (thenE (update_count e c) (bindE (new_session e ?user) (\<lambda>t.
      login_response h e rq ?user t)))) (\<lambda>_. limit_effect e rq L K None) ?E" for c
  proof (intro outcome_thenE[OF outcome_reset])
    let ?L = "reset_to rq L"
    have count: "outcome (limiter_is ?L K :: 'd auth_state \<Rightarrow> bool) (update_count e c) (\<lambda>_. limiter_is ?L K) ?E"
    proof -
      have "fst (update_count e c w) = (Inr () :: api_err + unit)" for w :: "'d auth_state"
        by (simp add: update_count_def bindE_def auth_now_def split: sum.split)
      then show ?thesis using keepsD[OF keeps_lim_guards(5)] by (auto simp: outcome_def)
    qed
    have fresh: "outcome (limiter_is ?L K) (new_session e ?user) (\<lambda>_. limiter_is ?L K) ?E"
      by (rule outcome_conseq[OF outcome_new_session]) (auto intro!: reset_effect simp: passed_def)
    have answer: "outcome (limiter_is ?L K) (login_response h e rq ?user t) (\<lambda>_. limit_effect e rq L K None) ?E" for t
      by (rule outcome_conseq[OF outcome_response]) (auto intro!: reset_effect simp: passed_def)
    show "outcome (limiter_is ?L K) (thenE (update_count e c) (bindE (new_session e ?user) (\<lambda>t.
      login_response h e rq ?user t))) (\<lambda>_. limit_effect e rq L K None) ?E"
      by (intro outcome_thenE[OF count] outcome_bindE[OF fresh] answer)
  qed
  have finish: "outcome (limiter_is L K) (bindE (tryE (finish_discoverable h e lib wc d assertion)) (\<lambda>r. case r of
         Inl err \<Rightarrow> thenE (if err = NilDeref then ret () else record_failure e rq) (fail err)
       | Inr c \<Rightarrow> thenE (reset_limit rq) (thenE (update_count e c) (bindE (new_session e ?user) (\<lambda>t.
           login_response h e rq ?user t))))) (\<lambda>_. limit_effect e rq L K None) ?E"
    if a: "allowed e rq L K" for d assertion
  proof (rule outcome_inspect[OF outcome_finish_limit _ tail])
    fix err
    show "outcome (\<lambda>w :: 'd auth_state. limiter_is L K w \<and> (err = NilDeref \<or> err = ApiError 401 ''authentication_failed''))
      (thenE (if err = NilDeref then ret () else record_failure e rq) (fail err)) (\<lambda>_. limit_effect e rq L K None) ?E"
    proof (rule outcome_fact, elim disjE)
      assume "err = NilDeref"
      then show "outcome (limiter_is L K :: 'd auth_state \<Rightarrow> bool) (thenE (if err = NilDeref then ret () else record_failure e rq) (fail err))
          (\<lambda>_. limit_effect e rq L K None) ?E"
        by (auto simp: thenE_def outcome_def denied_def intro!: lim_effect)
    next
      assume err: "err = ApiError 401 ''authentication_failed''"
      have "outcome (limiter_is L K :: 'd auth_state \<Rightarrow> bool) (thenE (record_failure e rq) (fail err)) (\<lambda>_. limit_effect e rq L K None)
          (\<lambda>err. limit_effect e rq L K (Some err))"
        by (rule outcome_denied[OF _ a]) (simp add: denied_def err)
      then show "outcome (limiter_is L K :: 'd auth_state \<Rightarrow> bool) (thenE (if err = NilDeref then ret () else record_failure e rq) (fail err))
          (\<lambda>_. limit_effect e rq L K None) ?E"
        using err by (auto simp: outcome_def limit_effect_def denied_def passed_def)
    qed
  qed
  have challenge: "outcome (limiter_is L K :: 'd auth_state \<Rightarrow> bool) (take_challenge e token) (\<lambda>_. limiter_is L K) ?E" for token
  proof (rule outcome_conseq[OF outcome_keeps_err[where X = "\<lambda>err. err = ApiError 400 ''invalid_token''"]])
    show "keeps (limiter_is L K) (take_challenge e token)" by (rule keeps_lim)
    show "err = ApiError 400 ''invalid_token''" if "fst (take_challenge e token w) = Inl err" for w :: "'d auth_state" and err
      using that by (auto simp: take_challenge_def bindE_def auth_now_def split: prod.splits option.splits)
  qed (auto intro!: lim_effect simp: denied_def)
  have rest: "outcome (limiter_is L K :: 'd auth_state \<Rightarrow> bool) (bindE (decoded body) (\<lambda>(token, assertion).
     bindE (take_challenge e token) (\<lambda>d.
     bindE (tryE (finish_discoverable h e lib wc d assertion)) (\<lambda>r. case r of
         Inl err \<Rightarrow> thenE (if err = NilDeref then ret () else record_failure e rq) (fail err)
       | Inr c \<Rightarrow> thenE (reset_limit rq) (thenE (update_count e c) (bindE (new_session e ?user) (\<lambda>t.
           login_response h e rq ?user t))))))) (\<lambda>_. limit_effect e rq L K None) ?E"
    if a: "allowed e rq L K"
  proof (cases body)
    case None
    then show ?thesis by (simp add: decoded_def) (rule early; simp add: denied_def)
  next
    case (Some p)
    then show ?thesis
      by (cases p) (auto simp: decoded_def intro!: outcome_bindE[OF challenge] finish[OF a])
  qed
  show ?thesis
    unfolding webauthnLoginFinish_def recovered_def webauthnDisabledGuard_def h option.case prod.case if_P[OF h(3)] bindE_const
    by (intro outcome_mapErr outcome_thenE[OF guard] outcome_fact rest)
next
  case False
  then have "webauthnDisabledGuard h = fail (ApiError 400 ''webauthn_disabled'')"
    by (auto simp: webauthnDisabledGuard_def split: option.split)
  then show ?thesis
    by (simp add: webauthnLoginFinish_def recovered_def mapErr_def outcome_def limit_effect_def denied_def)
qed

text \<open>
  Runs of requests and clean-ups of the limiter, with an account of the attempts: the time a denied
  attempt was admitted at, \<open>None\<close> for an attempt that passed.
\<close>

datatype login_event = Attempt auth_request auth_body auth_endpoint | SweepAttempts

type_synonym attempts = "(string \<times> int option) list"

definition error_of :: "api_err + 'a \<Rightarrow> api_err option" where
  "error_of r = (case r of Inl err \<Rightarrow> Some err | Inr _ \<Rightarrow> None)"

definition attempt_entry :: "auth_env \<Rightarrow> auth_request \<Rightarrow> auth_endpoint \<Rightarrow> nat \<Rightarrow> api_err option \<Rightarrow> attempts" where
  "attempt_entry e rq ep K r =
     (if ep \<noteq> EpLogin \<and> ep \<noteq> EpLoginFinish then []
      else if denied r then [(extractIP rq, Some (ae_clock e K))]
      else if passed r then [(extractIP rq, None)] else [])"

fun login_event_step :: "('d, 'o) auth_handlers \<Rightarrow> auth_env \<Rightarrow> login_event \<Rightarrow> 'd auth_state \<times> attempts \<Rightarrow> 'd auth_state \<times> attempts" where
  "login_event_step h e (Attempt rq b ep) (w, acc) =
     (case serve_endpoint h e rq b ep w of (r, w') \<Rightarrow> (w', acc @ attempt_entry e rq ep (as_ticks w) (error_of r)))"
| "login_event_step h e SweepAttempts (w, acc) =
     (w\<lparr>as_limiter := cleanup_attempts (ae_clock e (as_ticks w)) (as_limiter w), as_ticks := Suc (as_ticks w)\<rparr>, acc)"

definition run_attempts :: "('d, 'o) auth_handlers \<Rightarrow> auth_env \<Rightarrow> login_event list \<Rightarrow> 'd auth_state \<Rightarrow> 'd auth_state \<times> attempts" where
  "run_attempts h e evs w = foldl (\<lambda>s ev. login_event_step h e ev s) (w, []) evs"

text \<open>The denied attempts of an address since it last passed.\<close>

definition streak :: "string \<Rightarrow> attempts \<Rightarrow> int list" where
  "streak ip acc = foldl (\<lambda>ts (ip', a). if ip' \<noteq> ip then ts else case a of None \<Rightarrow> [] | Some t \<Rightarrow> ts @ [t]) [] acc"

lemma streak_append [simp]:
  "streak ip (acc @ [(ip', a)]) = (if ip' \<noteq> ip then streak ip acc else case a of None \<Rightarrow> [] | Some t \<Rightarrow> streak ip acc @ [t])"
  by (simp add: streak_def split: option.split)

text \<open>The limiter's own history behind the account, and the bound.\<close>

definition accounted :: "auth_env \<Rightarrow> int \<Rightarrow> int \<Rightarrow> 'd auth_state \<Rightarrow> attempts \<Rightarrow> login_op list \<Rightarrow> bool" where
  "accounted e m window w acc ops \<longleftrightarrow>
     as_limiter w = run_logins ops (NewLoginRateLimiter m window) \<and>
     (\<forall>op \<in> set ops. \<forall>t. op_time op = Some t \<longrightarrow> t \<le> ae_clock e (as_ticks w)) \<and>
     (\<forall>ip. ip \<noteq> [] \<longrightarrow> (\<exists>pre fs. failures ip ops = pre @ fs \<and> list_all2 (\<le>) (streak ip acc) fs))"

definition bounded_streak :: "int \<Rightarrow> int \<Rightarrow> int list \<Rightarrow> bool" where
  "bounded_streak m window ts \<longleftrightarrow> ts = [] \<or> int (length (filter (\<lambda>s. last ts - window < s) ts)) \<le> m"

lemma filter_dominated:
  "list_all2 (\<le>) xs ys \<Longrightarrow> length (filter (\<lambda>s. c < s) xs) \<le> length (filter (\<lambda>s. c < s) (ys :: int list))"
  by (induction rule: list_all2_induct) auto

lemma accounted_streak:
  "accounted e m window w acc ops \<Longrightarrow> ip \<noteq> [] \<Longrightarrow> \<exists>pre fs. failures ip ops = pre @ fs \<and> list_all2 (\<le>) (streak ip acc) fs"
  by (simp add: accounted_def)

lemma accounted_later:
  "accounted e m window w acc ops \<Longrightarrow> mono (ae_clock e) \<Longrightarrow> as_limiter w' = as_limiter w \<Longrightarrow> as_ticks w \<le> as_ticks w' \<Longrightarrow>
     accounted e m window w' acc ops"
  unfolding accounted_def by (metis monoD order_trans)

lemma run_logins_snoc: "run_logins (ops @ [op]) l = login_step op (run_logins ops l)"
  by (simp add: run_logins_def)

text \<open>One attempt at a login.\<close>

lemma attempt_accounted:
  assumes a: "accounted e m window w acc ops" and mono: "mono (ae_clock e)" and m: "0 < m"
    and eff: "limit_effect e rq (as_limiter w) (as_ticks w) r w'"
    and ip: "ip \<noteq> []" "extractIP rq = ip \<Longrightarrow> \<not> rq_unix (aq_request rq)"
    and bound: "bounded_streak m window (streak ip acc)" and ep: "ep = EpLogin \<or> ep = EpLoginFinish"
  shows "(\<exists>ops'. accounted e m window w' (acc @ attempt_entry e rq ep (as_ticks w) r) ops') \<and>
    bounded_streak m window (streak ip (acc @ attempt_entry e rq ep (as_ticks w) r))"
proof -
  let ?K = "as_ticks w" and ?L = "as_limiter w"
  have ticks: "?K \<le> as_ticks w'" using eff by (simp add: limit_effect_def)
  have later: "ae_clock e ?K \<le> ae_clock e (as_ticks w')" using mono ticks by (rule monoD)
  consider (same) "\<not> denied r" "as_limiter w' = ?L" | (passed) "passed r" "extractIP rq \<noteq> []" "as_limiter w' = Reset (extractIP rq) ?L"
    | (nobody) "denied r" "extractIP rq = []" "as_limiter w' = ?L"
    | (failed) k where "denied r" "?K \<le> k" "k < as_ticks w'" "as_limiter w' = RecordFailure (extractIP rq) (ae_clock e k) ?L"
      "\<not> rq_unix (aq_request rq) \<longrightarrow> Check (extractIP rq) (ae_clock e ?K) ?L"
    using eff unfolding limit_effect_def by blast
  then show ?thesis
  proof cases
    case same
    have "accounted e m window w' acc ops" by (rule accounted_later[OF a mono same(2) ticks])
    then have "accounted e m window w' (acc @ attempt_entry e rq ep ?K r) ops"
      using same(1) ep by (auto simp: accounted_def attempt_entry_def)
    then show ?thesis using same(1) bound by (auto simp: attempt_entry_def bounded_streak_def)
  next
    case passed
    have nd: "\<not> denied r" using passed(1) by (rule passed_not_denied)
    have entry: "attempt_entry e rq ep ?K r = [(extractIP rq, None)]" using ep nd passed(1) by (auto simp: attempt_entry_def)
    have "accounted e m window w' (acc @ [(extractIP rq, None)]) (ops @ [Success (extractIP rq)])"
      unfolding accounted_def
    proof (intro conjI allI impI)
      show "as_limiter w' = run_logins (ops @ [Success (extractIP rq)]) (NewLoginRateLimiter m window)"
        using a passed(3) by (simp add: accounted_def run_logins_snoc)
      show "\<forall>op \<in> set (ops @ [Success (extractIP rq)]). \<forall>t. op_time op = Some t \<longrightarrow> t \<le> ae_clock e (as_ticks w')"
        using a later by (fastforce simp: accounted_def)
      show "\<exists>pre fs. failures ip' (ops @ [Success (extractIP rq)]) = pre @ fs \<and> list_all2 (\<le>) (streak ip' (acc @ [(extractIP rq, None)])) fs"
        if "ip' \<noteq> []" for ip' using a that by (auto simp: accounted_def failures_snoc)
    qed
    moreover have "bounded_streak m window (streak ip (acc @ [(extractIP rq, None)]))"
      using bound by (auto simp: bounded_streak_def)
    ultimately show ?thesis unfolding entry by blast
  next
    case nobody
    have "accounted e m window w' acc ops" by (rule accounted_later[OF a mono nobody(3) ticks])
    moreover have "attempt_entry e rq ep ?K r = [([], Some (ae_clock e ?K))]" using ep nobody by (auto simp: attempt_entry_def)
    ultimately show ?thesis using ip(1) bound by (auto simp: accounted_def)
  next
    case failed
    let ?c = "ae_clock e ?K" and ?f = "ae_clock e k"
    have entry: "attempt_entry e rq ep ?K r = [(extractIP rq, Some ?c)]" using ep failed(1) by (auto simp: attempt_entry_def)
    have cf: "?c \<le> ?f" "?f \<le> ae_clock e (as_ticks w')" using mono failed(2,3) by (auto simp: mono_def)
    have "accounted e m window w' (acc @ [(extractIP rq, Some ?c)]) (ops @ [Failure (extractIP rq) ?f])"
      unfolding accounted_def
    proof (intro conjI allI impI)
      show "as_limiter w' = run_logins (ops @ [Failure (extractIP rq) ?f]) (NewLoginRateLimiter m window)"
        using a failed(4) by (simp add: accounted_def run_logins_snoc)
      show "\<forall>op \<in> set (ops @ [Failure (extractIP rq) ?f]). \<forall>t. op_time op = Some t \<longrightarrow> t \<le> ae_clock e (as_ticks w')"
        using a later cf(2) by (fastforce simp: accounted_def)
      show "\<exists>pre fs. failures ip' (ops @ [Failure (extractIP rq) ?f]) = pre @ fs \<and>
          list_all2 (\<le>) (streak ip' (acc @ [(extractIP rq, Some ?c)])) fs" if ne: "ip' \<noteq> []" for ip'
      proof -
        obtain pre fs where f: "failures ip' ops = pre @ fs" "list_all2 (\<le>) (streak ip' acc) fs"
          using accounted_streak[OF a ne] by blast
        then have "list_all2 (\<le>) (streak ip' acc @ [?c]) (fs @ [?f])" using cf(1) by (intro list_all2_appendI) simp_all
        with f show ?thesis
          by (cases "extractIP rq = ip'") (auto simp: failures_snoc intro: exI[of _ "pre"] exI[of _ "fs @ [?f]"])
      qed
    qed
    moreover have "bounded_streak m window (streak ip (acc @ [(extractIP rq, Some ?c)]))"
    proof (cases "extractIP rq = ip")
      case True
      have "Check ip ?c (run_logins ops (NewLoginRateLimiter m window))" using failed(5) ip(2)[OF True] a True by (simp add: accounted_def)
      moreover have "\<forall>op \<in> set ops. \<forall>t. op_time op = Some t \<longrightarrow> t \<le> ?c" using a by (simp add: accounted_def)
      ultimately have few: "int (length (filter (\<lambda>t. ?c - window < t) (failures ip ops))) < m" using check_exact[OF _ m] by blast
      obtain pre fs where f: "failures ip ops = pre @ fs" "list_all2 (\<le>) (streak ip acc) fs"
        using accounted_streak[OF a ip(1)] by blast
      have "length (filter (\<lambda>s. ?c - window < s) (streak ip acc)) \<le> length (filter (\<lambda>s. ?c - window < s) (failures ip ops))"
        using filter_dominated[OF f(2), of "?c - window"] by (simp add: f(1))
      then show ?thesis using few by (simp add: True bounded_streak_def)
    qed (use bound in simp)
    ultimately show ?thesis unfolding entry by blast
  qed
qed

lemma answered_effect:
  assumes "outcome P m' (\<lambda>_. F None) (\<lambda>err. F (Some err))" "P v" "answered m' v = (r, v')"
  shows "F (error_of r) v'"
proof (cases "m' v")
  case (Pair q u)
  then show ?thesis
    using assms outcomeD_ok[OF assms(1,2)] outcomeD_err[OF assms(1,2)]
    by (cases q) (auto simp: answered_def bindE_def error_of_def)
qed



lemma sample_ip: "extractIP sample_login = ''10.0.0.9''"
  by code_simp

abbreviation sample_token :: "nat \<Rightarrow> string" where
  "sample_token k \<equiv> raw_url_encode (char_of k # replicate 31 CHR ''x'')"

definition sample_session :: "nat \<Rightarrow> int \<Rightarrow> string \<times> session" where
  "sample_session k n = (sample_token k, \<lparr>ss_username = ''admin'', ss_token = sample_token k, ss_created = n, ss_activity = n + 1\<rparr>)"

definition logged_in :: "nat \<Rightarrow> int \<Rightarrow> nat \<Rightarrow> unit auth_state" where
  "logged_in k n ticks = sample_auth_state\<lparr>as_sessions := \<lparr>st_ttl = 900, st_max = 10, st_sessions = [sample_session k n]\<rparr>,
     as_draws := Suc k, as_ticks := ticks\<rparr>"

lemma sample_login_runs:
  "login_session sample_handlers sample_auth_env sample_login (Some (''admin'', ''secret'')) sample_auth_state =
     (Inr (''admin'', sample_token 0), logged_in 0 2 4)"
  "login_session sample_handlers sample_auth_env sample_login (Some (''admin'', ''secret'')) (logged_in 0 2 4) =
     (Inr (''admin'', sample_token 1), logged_in 1 5 7)"
  "login_response sample_handlers sample_auth_env sample_login ''admin'' (sample_token 0) (logged_in 0 2 4) =
     (Inr \<lparr>la_cookie = \<lparr>ck_value = sample_token 0, ck_secure = True, ck_expires = 903\<rparr>, la_username = ''admin'',
        la_expires = 903, la_ttl = 0\<rparr>, logged_in 0 2 5)"
  unfolding login_def login_session_def rate_guard_def record_failure_def reset_limit_def sample_ip
  by (simp_all add: sample_handlers_def sample_auth_config_def NewAuthHandlers_def AnyEnabled_def decoded_def
      sample_auth_env_def sample_auth_state_def logged_in_def sample_session_def run_simps auth_now_def auth_draw_def bindE_def
      thenE_def Check_def verify_password_def Verify_def NewBasicAuthVerifier_def NewLoginRateLimiter_def NewSessionStore_def
      DeleteByUsername_def new_session_def Create_def login_response_def find_session_def Get_def expired_def Let_def
      sample_login_def sample_poll_def Reset_def makeCookie_def ExpiresAt_def TTLSeconds_def)

lemma logged_in_ok: "store_ok (as_sessions (logged_in k n ticks))"
  by (simp add: logged_in_def sample_session_def store_ok_def raw_url_encode_nonempty)

theorem login_effect_witness:
  "\<exists>a w'. login sample_handlers sample_auth_env sample_login (Some (''admin'', ''secret'')) sample_auth_state = (Inr a, w') \<and>
     la_username a = ''admin'' \<and> (\<exists>x. map_of (st_sessions (as_sessions w')) (ck_value (la_cookie a)) = Some x \<and>
       ss_username x = ''admin'')"
proof -
  obtain a w' where run: "login sample_handlers sample_auth_env sample_login (Some (''admin'', ''secret'')) sample_auth_state = (Inr a, w')"
    "la_username a = ''admin''"
    by (simp add: login_def bindE_def sample_login_runs)
  show ?thesis using login_effect[OF run(1) sample_auth_ok] run by auto
qed

theorem concurrent_login_panics_witness:
  "fst (login_response sample_handlers sample_auth_env sample_login ''admin'' (sample_token 0) (logged_in 1 5 7)) = Inl NilDeref"
proof (rule concurrent_login_panics[OF sample_auth_ok sample_env_ok sample_login_runs(1,2)])
  have "raw_url_decode (sample_token 0) \<noteq> raw_url_decode (sample_token 1)" unfolding raw_url_roundtrip by simp
  then show "sample_token 0 \<noteq> sample_token 1" by metis
qed

subsection \<open>Logout\<close>

text \<open>
  Logging out ends the session of the cookie and no other: the next request with that cookie is
  treated as one without a session.
\<close>
theorem logout_ends_session:
  assumes "rq_cookie (aq_request rq) = Some v" "rq_cookie r = Some v" "logout rq w = (res, w')" "\<not> (am_skip_unix m \<and> rq_unix r)"
  shows "fst (Wrap m now now' r (as_sessions w')) = without_session m r \<and>
    (\<forall>t. t \<noteq> v \<longrightarrow> map_of (st_sessions (as_sessions w')) t = map_of (st_sessions (as_sessions w)) t)"
proof (cases "v = []")
  case True
  then show ?thesis using assms by (auto simp: logout_def Wrap_def)
next
  case False
  then have w': "as_sessions w' = Delete v (as_sessions w)" using assms(1,3) by (auto simp: logout_def)
  then have "Get v now (as_sessions w') = (None, as_sessions w')" by (simp add: Get_def Delete_def delete_lookup)
  then show ?thesis using assms(2,4) w' by (auto simp: Wrap_def Delete_def delete_lookup)
qed

theorem logout_ends_session_witness:
  "fst (Wrap sample_middleware 6 6 sample_poll (as_sessions (snd (logout sample_login
     (logged_in 0 2 4\<lparr>as_sessions := sample_store\<rparr>))))) = Unauthorized"
proof -
  have "fst (Wrap sample_middleware 6 6 sample_poll (as_sessions (snd (logout sample_login (logged_in 0 2 4\<lparr>as_sessions := sample_store\<rparr>))))) =
      without_session sample_middleware sample_poll"
    using logout_ends_session[where rq = sample_login and v = "''tok''" and r = sample_poll and m = sample_middleware
        and w = "logged_in 0 2 4\<lparr>as_sessions := sample_store\<rparr>" and now = 6 and now' = 6, OF _ _ surjective_pairing]
    by (simp add: sample_login_def sample_poll_def)
  also have "\<dots> = Unauthorized" by code_simp
  finally show ?thesis .
qed

subsection \<open>Who may change the passkeys\<close>

text \<open>A passkey without what a login updates.\<close>

definition passkey_core :: "credential \<Rightarrow> credential" where
  "passkey_core c = c\<lparr>cd_sign_count := 0, cd_last_used := None\<rparr>"

definition passkeys :: "'d auth_state \<Rightarrow> credential list" where
  "passkeys w = map passkey_core (ct_rows (as_creds w))"

definition passkeys_are :: "credential list \<Rightarrow> 'd auth_state \<Rightarrow> bool" where
  "passkeys_are R w \<longleftrightarrow> passkeys w = R"

lemma cred_stmt_rows:
  assumes "\<And>d. map passkey_core (ct_rows (snd (m d))) = map passkey_core (ct_rows d)"
  shows "keeps (passkeys_are R) (on_creds (cred_stmt m))"
  using assms by (simp add: keeps_def passkeys_are_def passkeys_def on_creds_def cred_stmt_def Let_def case_prod_beta)

lemma keeps_passkeys_queries [keeps_intros]:
  "keeps (passkeys_are R) (on_creds ListCredentials)" "keeps (passkeys_are R) (on_creds CountCredentials)"
  "keeps (passkeys_are R) (on_creds (GetCredentialByID i))" "keeps (passkeys_are R) (on_creds (UpdateSignCount i n u))"
proof -
  have same: "passkey_core (c\<lparr>cd_sign_count := n, cd_last_used := Some u\<rparr>) = passkey_core c" for c
    by (simp add: passkey_core_def)
  show "keeps (passkeys_are R) (on_creds ListCredentials)" "keeps (passkeys_are R) (on_creds CountCredentials)"
    "keeps (passkeys_are R) (on_creds (GetCredentialByID i))" "keeps (passkeys_are R) (on_creds (UpdateSignCount i n u))"
    unfolding ListCredentials_def CountCredentials_def GetCredentialByID_def UpdateSignCount_def
    by (rule cred_stmt_rows, simp add: same split: option.split)+
qed

lemma keeps_passkeys_count [keeps_intros]: "keeps (passkeys_are R) (on_creds CountWebAuthnCredentials)"
proof (rule keepsI)
  fix w :: "'d auth_state"
  have "snd (on_creds CountWebAuthnCredentials w) = snd (on_creds CountCredentials w)"
    by (simp add: on_creds_def CountWebAuthnCredentials_def bindE_def case_prod_beta split: sum.split)
  then show "passkeys_are R w \<Longrightarrow> passkeys_are R (snd (on_creds CountWebAuthnCredentials w))"
    using keeps_passkeys_queries(2)[THEN keepsD] by metis
qed

lemma keeps_passkeys [keeps_intros]:
  "keeps (passkeys_are R) (auth_now e)" "keeps (passkeys_are R) (new_session e user)" "keeps (passkeys_are R) (find_session e t)"
  "keeps (passkeys_are R) (store_challenge e d)" "keeps (passkeys_are R) (take_challenge e t)"
  "keeps (passkeys_are R) (rate_guard e rq)" "keeps (passkeys_are R) (record_failure e rq)" "keeps (passkeys_are R) (reset_limit rq)"
  "keeps (passkeys_are R) (webauthnDisabledGuard h)" "keeps (passkeys_are R) (verify_password h e user p)"
  "keeps (passkeys_are R) (logout rq)"
  by (simp_all add: keeps_def passkeys_are_def passkeys_def auth_now_def auth_draw_def new_session_def find_session_def
      store_challenge_def take_challenge_def rate_guard_def record_failure_def reset_limit_def webauthnDisabledGuard_def
      verify_password_def logout_def bindE_def split: prod.split option.split)

lemma keeps_passkeys_parts [keeps_intros]:
  "keeps (passkeys_are R) (requireSession e rq)" "keeps (passkeys_are R) (loadAdminUser h e wc)"
  "keeps (passkeys_are R) (login_response h e rq user token)" "keeps (passkeys_are R) (count_passkeys h)"
  "keeps (passkeys_are R) (update_count e c)" "keeps (passkeys_are R) (finish_discoverable h e lib wc d assertion)"
  by (unfold requireSession_def loadAdminUser_def login_response_def count_passkeys_def update_count_def finish_discoverable_def,
      (intro keeps_intros)+)

lemma keeps_passkeys_endpoints:
  "keeps (passkeys_are R) (login h e rq body)" "keeps (passkeys_are R) (session_query h e rq)"
  "keeps (passkeys_are R) (webauthnRegisterBegin h e rq)" "keeps (passkeys_are R) (webauthnLoginBegin h e rq)"
  "keeps (passkeys_are R) (webauthnLoginFinish h e rq a)" "keeps (passkeys_are R) (webauthnListCredentials h e rq)"
  unfolding login_def login_session_def session_query_def webauthnRegisterBegin_def webauthnLoginBegin_def
    webauthnLoginFinish_def webauthnListCredentials_def
  by (auto intro!: keeps_intros simp: passkeys_are_def passkeys_def)

lemma guard_cases: "(\<exists>p. webauthnDisabledGuard h = ret p) \<or> (\<exists>err. webauthnDisabledGuard h = fail err)"
  by (auto simp: webauthnDisabledGuard_def split: option.split)

text \<open>
  C13: Passkeys are managed under a session: a request below /api/auth/ adds or removes a passkey, or
  changes anything of one but its counter and last use, only with the cookie of a session that is
  alive, and only through the end of a registration or a deletion.
\<close>
theorem passkeys_change_with_session:
  assumes "passkeys (serve_auth h e rq b w) \<noteq> passkeys w"
  shows "live_session (aq_request rq) (ae_clock e (as_ticks w)) (as_sessions w) \<noteq> None \<and>
    auth_route (rq_method (aq_request rq)) (rq_path (aq_request rq)) \<in> Some ` ({EpRegisterFinish} \<union> range EpDelete)"
proof -
  obtain ep where ep: "auth_route (rq_method (aq_request rq)) (rq_path (aq_request rq)) = Some ep"
    and changed: "passkeys (snd (serve_endpoint h e rq b ep w)) \<noteq> passkeys w"
    using assms by (auto simp: serve_auth_def split: option.splits)
  have "ep \<in> {EpRegisterFinish} \<union> range EpDelete"
  proof (rule ccontr)
    assume other: "ep \<notin> {EpRegisterFinish} \<union> range EpDelete"
    have "keeps (passkeys_are (passkeys w)) (serve_endpoint h e rq b ep)"
      unfolding serve_endpoint_def using other
      by (cases ep) (simp_all add: keeps_answered keeps_passkeys_endpoints keeps_passkeys)
    with changed show False by (auto simp: keeps_def passkeys_are_def)
  qed
  moreover have "live_session (aq_request rq) (ae_clock e (as_ticks w)) (as_sessions w) \<noteq> None"
  proof
    assume none: "live_session (aq_request rq) (ae_clock e (as_ticks w)) (as_sessions w) = None"
    have refused: "\<exists>err w'. requireSession e rq w = (Inl err, w') \<and> passkeys w' = passkeys w"
      using none by (auto simp: requireSession_def live_session_def find_session_def bindE_def auth_now_def Get_def passkeys_def
          split: option.splits if_splits)
    have "passkeys (snd (webauthnRegisterFinish h e rq (ab_register b) w)) = passkeys w"
      "passkeys (snd (webauthnDeleteCredential h e rq i w)) = passkeys w" for i
      using guard_cases[of h] refused
      by (auto simp: webauthnRegisterFinish_def webauthnDeleteCredential_def recovered_def mapErr_def thenE_def bindE_Inl
          split: prod.splits sum.splits)
    with changed \<open>ep \<in> {EpRegisterFinish} \<union> range EpDelete\<close> show False by (auto simp: serve_endpoint_def)
  qed
  ultimately show ?thesis using ep by blast
qed

definition passkey_config :: webauthn_config where
  "passkey_config = \<lparr>wa_enabled = True, wa_display_name = ''agent'', wa_origin = ''https://vpn.example''\<rparr>"

definition passkey_lib :: "(nat, unit) webauthn_lib" where
  "passkey_lib = \<lparr>wl_begin_registration = (\<lambda>_. LibOk ((), 1)), wl_finish_registration = (\<lambda>_ d a. if d = 1 then LibOk
      \<lparr>wk_id = a, wk_public_key = ''key'', wk_attestation = ''none'', wk_transport = [''internal'', ''hybrid''], wk_present = True,
       wk_verified = True, wk_eligible = False, wk_backed = False, wk_aaguid = ''aa'', wk_sign_count = 0\<rparr> else LibErr),
     wl_begin_login = LibOk ((), 2), wl_login_user = (\<lambda>_ a. LibOk (a, ''admin'')), wl_finish_login = (\<lambda>_ _ _. LibErr)\<rparr>"

definition passkey_handlers :: "(nat, unit) auth_handlers" where
  "passkey_handlers = NewAuthHandlers sample_auth_config (Some (NewBasicAuthVerifier ''admin'' ''secret'')) True
     (Some passkey_lib) (Some passkey_config)"

definition passkey_state :: "nat auth_state" where
  "passkey_state = \<lparr>as_sessions = sample_store, as_limiter = NewLoginRateLimiter 5 60,
     as_challenges = \<lparr>ch_entries = [(''challenge'', 1, 0)], ch_order = [''challenge'']\<rparr>,
     as_creds = \<lparr>ct_rows = [], ct_now = 0, ct_faults = []\<rparr>, as_ticks = 1, as_draws = 0\<rparr>"

definition register_request :: auth_request where
  "register_request = sample_login\<lparr>aq_request := sample_poll\<lparr>rq_method := ''POST'', rq_path := ''/api/auth/webauthn/register/finish''\<rparr>\<rparr>"

abbreviation sample_registration :: register_body where
  "sample_registration \<equiv> \<lparr>rb_token = ''challenge'', rb_friendly_name = ''laptop'', rb_credential = ''id''\<rparr>"

lemma sample_registration_run:
  "\<exists>w'. webauthnRegisterFinish passkey_handlers sample_auth_env register_request (Some sample_registration) passkey_state =
     (Inr (base64EncodeID ''id'', passkey_name register_request ''laptop''), w') \<and> passkeys w' \<noteq> []"
  by (simp add: webauthnRegisterFinish_def passkey_handlers_def NewAuthHandlers_def recovered_def mapErr_def webauthnDisabledGuard_def
      passkey_config_def requireSession_def register_request_def sample_login_def sample_poll_def sample_auth_env_def run_simps
      passkey_state_def decoded_def find_session_def Get_def expired_def sample_store_def bindE_def thenE_def auth_now_def
      take_challenge_def GetChallenge_def Let_def challengeTTL_def loadAdminUser_def on_creds_def ListCredentials_def cred_stmt_def
      lib_call_def passkey_lib_def InsertCredential_def passkeys_def)

theorem passkeys_change_with_session_witness:
  "passkeys (serve_auth passkey_handlers sample_auth_env register_request
      (sample_body\<lparr>ab_register := Some sample_registration\<rparr>) passkey_state) \<noteq> [] \<and>
   live_session (aq_request register_request) 1 sample_store \<noteq> None"
proof -
  let ?w = "serve_auth passkey_handlers sample_auth_env register_request
      (sample_body\<lparr>ab_register := Some sample_registration\<rparr>) passkey_state"
  have route: "auth_route (rq_method (aq_request register_request)) (rq_path (aq_request register_request)) = Some EpRegisterFinish"
    by code_simp
  have "passkeys ?w \<noteq> []"
    using sample_registration_run by (auto simp: serve_auth_def route serve_endpoint_def sample_body_def)
  moreover have "passkeys passkey_state = []" by (simp add: passkeys_def passkey_state_def)
  ultimately have "live_session (aq_request register_request) (ae_clock sample_auth_env (as_ticks passkey_state))
      (as_sessions passkey_state) \<noteq> None"
    using passkeys_change_with_session[of passkey_handlers sample_auth_env register_request _ passkey_state] by metis
  then show ?thesis using \<open>passkeys ?w \<noteq> []\<close> by (simp add: passkey_state_def sample_auth_env_def)
qed

subsection \<open>A registered passkey is known to the library\<close>

lemma register_frames:
  "requireSession e rq w = (r, w') \<Longrightarrow> as_creds w' = as_creds w \<and> as_challenges w' = as_challenges w"
  "take_challenge e t w = (q, w') \<Longrightarrow> as_creds w' = as_creds w"
  "loadAdminUser h e wc w = (u, w') \<Longrightarrow> ct_rows (as_creds w') = ct_rows (as_creds w)"
  by (auto simp: requireSession_def find_session_def take_challenge_def loadAdminUser_def bindE_def auth_now_def on_creds_def
      ListCredentials_def cred_stmt_def Let_def split: option.splits prod.splits if_splits)

lemma take_challenge_run:
  "take_challenge e t w = (Inr d, w') \<Longrightarrow> fst (GetChallenge t (ae_clock e (as_ticks w)) (as_challenges w)) = Some d"
  by (auto simp: take_challenge_def bindE_def auth_now_def split: prod.splits option.splits)

lemma insert_credential_run:
  "on_creds (InsertCredential c) w = (Inr u, w') \<Longrightarrow> cd_id c \<notin> cd_id ` set (ct_rows (as_creds w)) \<and>
     ct_rows (as_creds w') = ct_rows (as_creds w) @ [c\<lparr>cd_created := ct_now (as_creds w), cd_last_used := None\<rparr>]"
  by (auto simp: on_creds_def InsertCredential_def cred_stmt_def Let_def split: if_splits prod.splits)

lemma registered_row_read:
  assumes "reads_flags fl" "list_all plain_transport (wk_transport c)"
  shows "storageCredToWebAuthn fl ((registered_row is_print name c)\<lparr>cd_created := n, cd_last_used := u\<rparr>) = c"
proof -
  have "storageCredToWebAuthn fl (r\<lparr>cd_created := n, cd_last_used := u\<rparr>) = storageCredToWebAuthn fl r" for r
    by (cases "raw_url_decode (cd_id r)") (simp_all add: storageCredToWebAuthn_def)
  then show ?thesis by (simp add: registered_row_roundtrip[OF assms])
qed



subsection \<open>Names of passkeys\<close>

lemma strip_set: "set (strip qs s) \<subseteq> set s" "length (strip qs s) \<le> length s"
  using strip_suffix[of qs s] by (auto dest: in_set_dropD)

lemma trim_space_set: "set (trim_space s) \<subseteq> set s" "length (trim_space s) \<le> length s"
proof -
  show "set (trim_space s) \<subseteq> set s"
    using strip_set(1)[of "map rev space_seqs" "rev (trim_left s)"] strip_set(1)[of space_seqs s]
    by (auto simp: trim_space_def trim_right_def trim_left_def)
  show "length (trim_space s) \<le> length s"
    using strip_set(2)[of "map rev space_seqs" "rev (trim_left s)"] strip_set(2)[of space_seqs s]
    by (simp add: trim_space_def trim_right_def trim_left_def)
qed

lemma to_valid_set: "set (to_valid_utf8 s) \<subseteq> set s \<and> length (to_valid_utf8 s) \<le> length s"
proof (induction s rule: to_valid_utf8.induct)
  case (1 s)
  show ?case
  proof (cases "s = []")
    case False
    let ?n = "snd (decode_rune s)"
    have IH: "set (to_valid_utf8 (drop ?n s)) \<subseteq> set (drop ?n s)" "length (to_valid_utf8 (drop ?n s)) \<le> length s - ?n"
      using 1 False by auto
    have "set (drop ?n s) \<subseteq> set s" "set (take ?n s) \<subseteq> set s" by (auto dest: in_set_dropD in_set_takeD)
    then show ?thesis using IH False by (auto simp: to_valid_utf8.simps[of s])
  qed (simp add: to_valid_utf8.simps)
qed

lemma decode_rune_short: "snd (decode_rune s) \<le> 4"
  by (cases s) (auto simp: Let_def split: list.splits)

lemma length_runes: "length s \<le> 4 * length (runes s)"
proof (induction s rule: runes.induct)
  case (1 s)
  show ?case
  proof (cases "s = []")
    case False
    have "length s \<le> snd (decode_rune s) + length (drop (snd (decode_rune s)) s)" by simp
    also have "\<dots> \<le> 4 + 4 * length (runes (drop (snd (decode_rune s)) s))"
      using 1 False decode_rune_short[of s] by (intro add_mono) auto
    finally show ?thesis using False by (simp add: runes.simps[of s])
  qed simp
qed

text \<open>Bytes below 128 encode themselves and are read as themselves.\<close>

lemma encode_rune_ascii:
  assumes "c \<in> set (encode_rune r)" "(of_char c :: nat) < 128"
  shows "(of_char c :: nat) = r"
proof (cases "r < 128")
  case True
  then show ?thesis using assms by (simp add: encode_rune_def)
next
  case False
  have high: "c \<noteq> char_of (128 + n)" if "n < 128" for n :: nat using that assms(2) by auto
  have div: "r div 64 < 32" if "r < 2048" using that by (simp add: less_mult_imp_div_less)
  have div': "r div 4096 < 16" if "r < 65536" using that by (simp add: less_mult_imp_div_less)
  have div'': "r div 262144 < 5" if "r < 1114112" using that by (simp add: less_mult_imp_div_less)
  have m: "x mod 64 < 128" for x :: nat by (rule less_trans[OF mod_less_divisor]) simp_all
  have "c \<noteq> char_of (192 + r div 64)" if "r < 2048" using high[of "64 + r div 64"] div[OF that] by simp
  moreover have "c \<noteq> char_of (224 + r div 4096)" if "r < 65536" using high[of "96 + r div 4096"] div'[OF that] by simp
  moreover have "c \<noteq> char_of (240 + r div 262144)" if "r < 1114112" using high[of "112 + r div 262144"] div''[OF that] by simp
  moreover have "c \<noteq> char_of (128 + x mod 64)" for x :: nat using high[OF m] .
  moreover have "c \<noteq> CHR 0xEF" "c \<noteq> CHR 0xBF" "c \<noteq> CHR 0xBD" using assms(2) by auto
  ultimately have False using assms(1) False by (auto simp: encode_rune_def split: if_splits)
  then show ?thesis ..
qed

lemma utf8_ascii: "c \<in> set (utf8 rs) \<Longrightarrow> (of_char c :: nat) < 128 \<Longrightarrow> of_char c \<in> set rs"
  by (auto simp: utf8_def dest: encode_rune_ascii)

lemma length_utf8: "length (utf8 rs) \<le> 4 * length rs"
proof -
  have "length (encode_rune r) \<le> 4" for r by (simp add: encode_rune_def)
  then show ?thesis by (induction rs) (auto simp: utf8_def intro: add_mono[of _ 4, simplified])
qed

lemma decode_rune_ascii: "s \<noteq> [] \<Longrightarrow> fst (decode_rune s) < 128 \<Longrightarrow> char_of (fst (decode_rune s)) \<in> set s"
  by (cases s) (auto simp: Let_def split: if_splits list.splits)

lemma runes_ascii: "r \<in> set (runes s) \<Longrightarrow> r < 128 \<Longrightarrow> char_of r \<in> set s"
proof (induction s rule: runes.induct)
  case (1 s)
  show ?case
  proof (cases "s = []")
    case False
    have "r = fst (decode_rune s) \<or> r \<in> set (runes (drop (snd (decode_rune s)) s))"
      using "1.prems"(1) False by (simp add: runes.simps[of s])
    then show ?thesis
      using 1 False decode_rune_ascii[OF False] by (auto dest: in_set_dropD)
  qed (use 1 in \<open>simp add: runes.simps\<close>)
qed

text \<open>
  The name a passkey is stored with is harmless in the page that lists it: no angle bracket and at most
  256 bytes, whatever the request asked for.
\<close>
theorem passkey_name_safe:
  "CHR ''<'' \<notin> set (sanitizeFriendlyName name) \<and> CHR ''>'' \<notin> set (sanitizeFriendlyName name) \<and>
   length (sanitizeFriendlyName name) \<le> 256"
proof -
  define clean where "clean = utf8 (filter (\<lambda>r. r \<noteq> 60 \<and> r \<noteq> 62) (runes name))"
  define short where "short = (if 64 < length (runes clean) then utf8 (take 64 (runes clean)) else clean)"
  have name: "sanitizeFriendlyName name = trim_space (to_valid_utf8 short)"
    by (simp add: sanitizeFriendlyName_def clean_def short_def Let_def)
  have "c \<notin> set short" if c: "c = CHR ''<'' \<or> c = CHR ''>''" for c
  proof
    have clean: "c \<notin> set clean" using utf8_ascii[of c "filter (\<lambda>r. r \<noteq> 60 \<and> r \<noteq> 62) (runes name)"] c by (auto simp: clean_def)
    assume "c \<in> set short"
    then have "c \<in> set (utf8 (take 64 (runes clean)))" using clean by (auto simp: short_def split: if_splits)
    then have "of_char c \<in> set (runes clean)" using utf8_ascii[of c "take 64 (runes clean)"] c by (auto dest: in_set_takeD)
    then have "char_of (of_char c :: nat) \<in> set clean" using c by (intro runes_ascii) auto
    then show False using clean by simp
  qed
  moreover have "length short \<le> 256"
    using length_runes[of clean] length_utf8[of "take 64 (runes clean)"] by (auto simp: short_def)
  moreover have "set (sanitizeFriendlyName name) \<subseteq> set short"
    unfolding name using trim_space_set(1) to_valid_set by (rule subset_trans[OF _ conjunct1])
  moreover have "length (sanitizeFriendlyName name) \<le> length short"
    unfolding name using trim_space_set(2) to_valid_set by (rule order_trans[OF _ conjunct2])
  ultimately show ?thesis by auto
qed

end
