(* ===== verification/GoPath.thy ===== *)
theory GoPath
  imports GoStrings
begin

text \<open>
  What the servers use of Go's \<open>path\<close> and \<open>net/http\<close>: path.Clean, the cleaning and the matching of
  http.ServeMux, and what keeps a cleaned path below its root.
\<close>

subsection \<open>path.Clean\<close>

text \<open>One element of the path: the elements kept so far are the stack.\<close>

definition clean_step :: "bool \<Rightarrow> string list \<Rightarrow> string \<Rightarrow> string list" where
  "clean_step rooted st seg =
     (if seg = [] \<or> seg = ''.'' then st
      else if seg = ''..'' then
        (if st \<noteq> [] \<and> last st \<noteq> ''..'' then butlast st else if rooted then st else st @ [''..''])
      else st @ [seg])"

definition rooted :: "string \<Rightarrow> bool" where
  "rooted p \<longleftrightarrow> has_prefix ''/'' p"

definition clean_elements :: "string \<Rightarrow> string list" where
  "clean_elements p = foldl (clean_step (rooted p)) [] (split_on (CHR ''/'') p)"

definition path_clean :: "string \<Rightarrow> string" where
  "path_clean p =
     (let out = (if rooted p then ''/'' else []) @ join ''/'' (clean_elements p) in
      if out = [] then ''.'' else out)"

subsection \<open>http.ServeMux\<close>

definition mux_clean :: "string \<Rightarrow> string" where
  "mux_clean p =
     (if p = [] then ''/''
      else (let q = (if rooted p then p else CHR ''/'' # p); np = path_clean q in
        if has_suffix ''/'' q \<and> np \<noteq> ''/'' then np @ ''/'' else np))"

definition pattern_matches :: "string \<Rightarrow> string \<Rightarrow> bool" where
  "pattern_matches path pat \<longleftrightarrow> (if has_suffix ''/'' pat then has_prefix pat path else path = pat)"

text \<open>
  The patterns are given in order of precedence, a longer one before its prefixes. A path for which
  only a shorter subtree is registered, while the path with a slash added is a pattern, is redirected
  there, and so is one that is not clean; a CONNECT request is not cleaned.
\<close>

datatype 'p mux_answer = MuxTo 'p | MuxMoved string | MuxNone

definition serve_mux :: "(string \<times> 'p) list \<Rightarrow> string \<Rightarrow> string \<Rightarrow> 'p mux_answer" where
  "serve_mux pats method path =
     (let p = (if method = ''CONNECT'' then path else mux_clean path);
          best = find (\<lambda>(pat, _). pattern_matches p pat) pats in
      if (case best of None \<Rightarrow> True | Some (pat, _) \<Rightarrow> pat \<noteq> p) \<and> \<not> has_suffix ''/'' p \<and> p @ ''/'' \<in> fst ` set pats
        then MuxMoved (p @ ''/'')
      else if p \<noteq> path then MuxMoved p
      else (case best of None \<Rightarrow> MuxNone | Some (_, h) \<Rightarrow> MuxTo h))"

subsection \<open>Cleaned paths\<close>

text \<open>An element that names something below its directory.\<close>

definition plain_element :: "string \<Rightarrow> bool" where
  "plain_element s \<longleftrightarrow> s \<noteq> [] \<and> s \<noteq> ''.'' \<and> s \<noteq> ''..'' \<and> CHR ''/'' \<notin> set s"

text \<open>Without a root, the first elements may lead up.\<close>

definition clean_list :: "bool \<Rightarrow> string list \<Rightarrow> bool" where
  "clean_list r ss \<longleftrightarrow> (\<exists>n xs. ss = replicate n ''..'' @ xs \<and> list_all plain_element xs \<and> (r \<longrightarrow> n = 0))"

lemma clean_step_plain: "plain_element s \<Longrightarrow> clean_step r st s = st @ [s]"
  by (simp add: clean_step_def plain_element_def)

lemma clean_listE:
  assumes "clean_list r st"
  obtains n where "st = replicate n ''..''" "r \<longrightarrow> n = 0"
  | n xs x where "st = replicate n ''..'' @ xs @ [x]" "list_all plain_element (xs @ [x])" "r \<longrightarrow> n = 0"
proof -
  from assms obtain n xs where st: "st = replicate n ''..'' @ xs" "list_all plain_element xs" "r \<longrightarrow> n = 0"
    by (auto simp: clean_list_def)
  show thesis
  proof (cases xs rule: rev_cases)
    case Nil
    then show thesis using st that(1) by simp
  next
    case (snoc ys y)
    then show thesis using st that(2) by simp
  qed
qed

lemma clean_list_up: "clean_list False st \<Longrightarrow> st = [] \<or> last st = ''..'' \<Longrightarrow> clean_list False (st @ [''..''])"
proof (elim clean_listE)
  fix n assume "st = replicate n ''..''"
  then have "st @ [''..''] = replicate (Suc n) ''..'' @ []" by (simp add: replicate_append_same)
  then show ?thesis unfolding clean_list_def by (metis list.pred_inject(1))
qed (auto simp: plain_element_def)

lemma clean_step_list:
  assumes "clean_list r st" "CHR ''/'' \<notin> set seg"
  shows "clean_list r (clean_step r st seg)"
proof -
  consider "seg = [] \<or> seg = ''.''" | "plain_element seg" | "seg = ''..''"
    using assms(2) by (auto simp: plain_element_def)
  then show ?thesis
  proof cases
    case 2
    from assms(1) obtain n xs where st: "st = replicate n ''..'' @ xs" "list_all plain_element xs" "r \<longrightarrow> n = 0"
      by (auto simp: clean_list_def)
    then have "st @ [seg] = replicate n ''..'' @ (xs @ [seg]) \<and> list_all plain_element (xs @ [seg]) \<and> (r \<longrightarrow> n = 0)"
      using 2 by simp
    then show ?thesis unfolding clean_list_def clean_step_plain[OF 2] by blast
  next
    case 3
    show ?thesis
    proof (cases "st \<noteq> [] \<and> last st \<noteq> ''..''")
      case True
      from assms(1) True show ?thesis
        by (elim clean_listE) (auto simp: 3 clean_step_def clean_list_def butlast_append)
    next
      case False
      then show ?thesis using assms(1) clean_list_up by (cases r) (auto simp: 3 clean_step_def)
    qed
  qed (use assms(1) in \<open>simp add: clean_step_def\<close>)
qed

lemma clean_elements_list: "clean_list (rooted p) (clean_elements p)"
proof -
  have "clean_list r (foldl (clean_step r) st segs)" if "clean_list r st" "\<forall>s \<in> set segs. CHR ''/'' \<notin> set s" for r st segs
    using that by (induction segs arbitrary: st) (simp_all add: clean_step_list)
  moreover have "clean_list r []" for r by (simp add: clean_list_def)
  ultimately show ?thesis unfolding clean_elements_def using split_on_parts_free by metis
qed

lemma clean_elements_plain: "rooted p \<Longrightarrow> s \<in> set (clean_elements p) \<Longrightarrow> plain_element s"
  using clean_elements_list[of p] by (auto simp: clean_list_def list_all_iff)

lemma rooted_path_clean: "rooted p \<Longrightarrow> path_clean p = CHR ''/'' # join ''/'' (clean_elements p)"
  by (simp add: path_clean_def)

text \<open>Splitting a joined list gives it back.\<close>

lemma split_on_join:
  "ss \<noteq> [] \<Longrightarrow> \<forall>s \<in> set ss. c \<notin> set s \<Longrightarrow> split_on c (join [c] ss) = ss"
  by (induction "[c]" ss rule: join.induct) (simp_all add: split_on_sep_free split_on_append_sep)

lemma foldl_clean_plain: "list_all plain_element xs \<Longrightarrow> foldl (clean_step r) st xs = st @ xs"
  by (induction xs arbitrary: st) (simp_all add: clean_step_plain)

lemma foldl_clean_up: "st = replicate m ''..'' \<Longrightarrow> foldl (clean_step False) st (replicate n ''..'' @ xs) = foldl (clean_step False) (replicate (m + n) ''..'') xs"
proof (induction n arbitrary: m st)
  case (Suc n)
  have "clean_step False st ''..'' = replicate (Suc m) ''..''"
    using Suc.prems by (cases m) (simp_all add: clean_step_def replicate_append_same)
  then show ?case using Suc.IH[of _ "Suc m"] by simp
qed simp

lemma foldl_clean_list: "clean_list r ss \<Longrightarrow> foldl (clean_step r) [] ss = ss"
proof -
  assume "clean_list r ss"
  then obtain n xs where ss: "ss = replicate n ''..'' @ xs" "list_all plain_element xs" "r \<longrightarrow> n = 0"
    by (auto simp: clean_list_def)
  show "foldl (clean_step r) [] ss = ss"
  proof (cases r)
    case True
    then show ?thesis using ss by (simp add: foldl_clean_plain)
  next
    case False
    then show ?thesis using ss foldl_clean_up[of "[]" 0 n xs] by (simp add: foldl_clean_plain)
  qed
qed

lemma clean_list_free: "clean_list r ss \<Longrightarrow> s \<in> set ss \<Longrightarrow> CHR ''/'' \<notin> set s \<and> s \<noteq> []"
proof -
  assume "clean_list r ss" "s \<in> set ss"
  then have "s = ''..'' \<or> plain_element s" by (force simp: clean_list_def list_all_iff)
  then show ?thesis by (auto simp: plain_element_def)
qed

text \<open>Cleaning is idempotent.\<close>

lemma clean_elements_clean: "clean_elements (path_clean p) = clean_elements p \<and> rooted (path_clean p) = rooted p"
proof -
  let ?ss = "clean_elements p"
  have ok: "clean_list (rooted p) ?ss" by (rule clean_elements_list)
  have free: "\<forall>s \<in> set ?ss. CHR ''/'' \<notin> set s" and full: "\<forall>s \<in> set ?ss. s \<noteq> []"
    using clean_list_free[OF ok] by auto
  show ?thesis
  proof (cases "?ss = []")
    case True
    then have "path_clean p = (if rooted p then ''/'' else ''.'')" by (simp add: path_clean_def Let_def)
    then show ?thesis using True by (auto simp: clean_elements_def rooted_def clean_step_def)
  next
    case False
    obtain s ss where ss: "?ss = s # ss" using False by (cases ?ss) auto
    have s: "s \<noteq> []" "CHR ''/'' \<notin> set s" using free full ss by auto
    have "join ''/'' ?ss \<noteq> []" "\<not> rooted (join ''/'' ?ss)"
      using s unfolding ss by (cases ss; cases s; simp add: rooted_def; blast)+
    then have clean: "path_clean p = (if rooted p then ''/'' else []) @ join ''/'' ?ss" "rooted (path_clean p) = rooted p"
      by (auto simp: path_clean_def Let_def rooted_def)
    have "split_on (CHR ''/'') (path_clean p) = (if rooted p then [[]] else []) @ ?ss"
      using split_on_join[OF False free] by (simp add: clean(1))
    then have "clean_elements (path_clean p) = foldl (clean_step (rooted p)) [] ?ss"
      by (simp add: clean_elements_def clean(2) clean_step_def)
    then show ?thesis using foldl_clean_list[OF ok] clean(2) by simp
  qed
qed

lemma path_clean_idem: "path_clean (path_clean p) = path_clean p"
  by (simp add: path_clean_def[of "path_clean p"] clean_elements_clean) (simp add: path_clean_def)

text \<open>A cleaned path ends with a slash only at the root.\<close>

lemma join_last: "ss \<noteq> [] \<Longrightarrow> last ss \<noteq> [] \<Longrightarrow> join sep ss \<noteq> [] \<and> last (join sep ss) = last (last ss)"
  by (induction sep ss rule: join.induct) auto

lemma path_clean_slash: "rooted p \<Longrightarrow> has_suffix ''/'' (path_clean p) \<Longrightarrow> path_clean p = ''/''"
proof (rule ccontr)
  assume p: "rooted p" "has_suffix ''/'' (path_clean p)" "path_clean p \<noteq> ''/''"
  then have ne: "clean_elements p \<noteq> []" by (auto simp: rooted_path_clean)
  then have "last (clean_elements p) \<in> set (clean_elements p)" by simp
  from clean_elements_plain[OF p(1) this] have l: "last (clean_elements p) \<noteq> []" "CHR ''/'' \<notin> set (last (clean_elements p))"
    by (auto simp: plain_element_def)
  have "last (path_clean p) = CHR ''/''" using p(2) by (auto simp: has_suffix_iff)
  then have "last (last (clean_elements p)) = CHR ''/''"
    using join_last[OF ne l(1), of "''/''"] by (simp add: rooted_path_clean[OF p(1)] split: if_splits)
  with l show False by (metis last_in_set)
qed

lemma mux_clean_clean: "rooted p \<Longrightarrow> mux_clean (path_clean p) = path_clean p"
proof -
  assume p: "rooted p"
  then have "rooted (path_clean p)" "path_clean p \<noteq> []" by (auto simp: clean_elements_clean simp del: rooted_path_clean) (simp add: rooted_path_clean)
  then show ?thesis using path_clean_slash[OF p] by (auto simp: mux_clean_def path_clean_idem Let_def)
qed

end
