(* ===== verification/Daemon.thy ===== *)
theory Daemon
  imports Login GoPath
begin

text \<open>
  How main puts the agent together (cmd/wg-sockd/main.go): the peers the debounced writer flushes, the
  first reconciliation, the client of degraded mode, the wiring of authentication and the path of a
  request through it. The loops main starts and the dry run are in Tasks.thy.
\<close>

subsection \<open>The debounced writer's peers\<close>

text \<open>The callback: a failed query is logged and gives no peers.\<close>

definition get_peers :: "(('k, 'f) world, 'e, peer_conf list) prog" where
  "get_peers =
     bindE (tryE (on_db ListPeers)) (\<lambda>r. ret (case r of Inl _ \<Rightarrow> [] | Inr ps \<Rightarrow> map conf_of_peer (filter pr_enabled ps)))"

text \<open>A run of the timer, not interrupted; a failed write is only logged.\<close>

definition flush_daemon :: "('k, 'f) world \<Rightarrow> ('k, 'f) world" where
  "flush_daemon w =
     (case deb_flush (w_deb w) of (pending, d1) \<Rightarrow>
        if pending then
          (case deb_take d1 of (go, d2) \<Rightarrow>
             if go then snd ((bindE get_peers (\<lambda>ps. ignoreE (write_shared ps)) :: (('k, 'f) world, unit, unit) prog) (w\<lparr>w_deb := d2\<rparr>)) else w\<lparr>w_deb := d2\<rparr>)
        else w\<lparr>w_deb := d1\<rparr>)"

lemma get_peers_run:
  "get_peers w = (Inr (if next_fault (db_faults (w_db w)) then [] else map conf_of_peer (filter pr_enabled (sort_key pr_created_at (db_peers (w_db w))))),
     w\<lparr>w_db := (w_db w)\<lparr>db_faults := tl (db_faults (w_db w))\<rparr>\<rparr>)"
  by (simp add: get_peers_def bindE_def on_db_def ListPeers_def stmt_def)

text \<open>The file after a flush that could write it.\<close>

lemma flush_daemon_file:
  assumes "df_pending (w_deb w)" "fs_faults (w_fs w) = []"
  shows "fs_conf (w_fs (flush_daemon w)) = Some (render_conf (parsed_file (fs_conf (w_fs w)))
    (if next_fault (db_faults (w_db w)) then [] else map conf_of_peer (filter pr_enabled (sort_key pr_created_at (db_peers (w_db w))))))"
proof -
  let ?ps = "if next_fault (db_faults (w_db w)) then [] else map conf_of_peer (filter pr_enabled (sort_key pr_created_at (db_peers (w_db w))))"
  have run: "w_fs (flush_daemon w) = snd (write_conf ?ps (w_fs w))"
    using assms(1) by (simp add: flush_daemon_def deb_flush_def deb_take_def bindE_def get_peers_run write_shared_def
        SharedWriteConf_def split: prod.split)
  have "fst (write_conf ?ps (w_fs w)) = Inr ()"
    using assms(2) by (auto simp: write_conf_def parse_conf_def bindE_def thenE_def Let_def split: option.split)
  then show ?thesis using write_conf_outcome[of ?ps "w_fs w"] by (simp add: run)
qed

text \<open>
  C38: One failed query empties the server: when the debounced flush runs while the database does not
  answer, it writes a configuration file without any peer, although the database still holds them;
  the pending mark is taken, so nothing puts them back until the next change.
\<close>
theorem failed_query_empties_file:
  assumes "df_pending (w_deb w)" "next_fault (db_faults (w_db w))" "fs_faults (w_fs w) = []" "fs_conf (w_fs w) = Some c"
    "conf_file.cf_interface (parse_content c) \<noteq> []"
  shows "\<exists>c'. fs_conf (w_fs (flush_daemon w)) = Some c' \<and> cf_peers (parse_content c') = [] \<and>
    db_peers (w_db (flush_daemon w)) = db_peers (w_db w) \<and> \<not> df_pending (w_deb (flush_daemon w))"
proof -
  have "fs_conf (w_fs (flush_daemon w)) = Some (render_conf (parse_content c) [])"
    using flush_daemon_file[OF assms(1,3)] assms(2,4) by (simp add: parsed_file_def)
  moreover have "cf_peers (parse_content (render_conf (parse_content c) [])) = []"
    using parse_render(3)[OF assms(5), of "[]"] by simp
  moreover have "db_peers (w_db (flush_daemon w)) = db_peers (w_db w) \<and> \<not> df_pending (w_deb (flush_daemon w))"
    using assms(1) by (simp add: flush_daemon_def deb_flush_def deb_take_def bindE_def get_peers_run write_shared_def split: prod.split)
  ultimately show ?thesis by blast
qed

text \<open>
  The two producers of the file agree without an IPv6 prefix: then the debounced flush writes the
  very peers a handler writes directly. With a prefix they agree exactly when no enabled peer has a
  derived address to add.
\<close>
theorem conf_producers_agree:
  assumes "\<not> next_fault (db_faults (w_db w))"
  shows "fst (get_peers w) = fst (buildPeerConfs env w) \<longleftrightarrow>
    (\<forall>p \<in> set (db_peers (w_db w)). pr_enabled p \<longrightarrow> pr_client_address p \<noteq> [] \<longrightarrow> e_ipv6_prefix env \<noteq> [] \<longrightarrow>
       (case derive_ipv6 (pr_client_address p) (e_ipv6_prefix env) of None \<Rightarrow> True | Some v \<Rightarrow> v = []))"
proof -
  have built: "fst (buildPeerConfs env w) = (Inr (map (peer_conf_of env) (filter pr_enabled (sort_key pr_created_at (db_peers (w_db w))))) :: unit + _)"
    using assms by (simp add: buildPeerConfs_def bindE_def mapErr_def on_db_def ListPeers_def stmt_def)
  have same: "conf_of_peer p = peer_conf_of env p \<longleftrightarrow> (pr_client_address p \<noteq> [] \<longrightarrow> e_ipv6_prefix env \<noteq> [] \<longrightarrow>
       (case derive_ipv6 (pr_client_address p) (e_ipv6_prefix env) of None \<Rightarrow> True | Some v \<Rightarrow> v = []))" for p
    by (auto simp: peer_conf_of_def conf_of_peer_def with_ipv6_def Let_def split: option.split)
  have "fst (get_peers w) = (Inr (map conf_of_peer (filter pr_enabled (sort_key pr_created_at (db_peers (w_db w))))) :: unit + _)"
    using assms by (simp add: get_peers_run)
  then show ?thesis
    unfolding built by (auto simp: map_eq_conv same)
qed

definition pending_world :: "(dev_client, unit) world" where
  "pending_world = (sample_world [])\<lparr>w_deb := \<lparr>df_pending = True, df_timer = False, df_closed = False\<rparr>,
     w_db := (w_db (sample_world []))\<lparr>db_faults := [True]\<rparr>, w_fs := \<lparr>fs_conf = Some sample_conf, fs_tmp = None, fs_faults = []\<rparr>\<rparr>"

theorem failed_query_empties_file_witness:
  "\<exists>c'. fs_conf (w_fs (flush_daemon pending_world)) = Some c' \<and> cf_peers (parse_content c') = [] \<and>
     db_peers (w_db (flush_daemon pending_world)) \<noteq> []"
proof -
  have "\<exists>c'. fs_conf (w_fs (flush_daemon pending_world)) = Some c' \<and> cf_peers (parse_content c') = [] \<and>
    db_peers (w_db (flush_daemon pending_world)) = db_peers (w_db pending_world) \<and> \<not> df_pending (w_deb (flush_daemon pending_world))"
    by (rule failed_query_empties_file[where c = sample_conf]) (simp_all add: pending_world_def sample_interface)
  moreover have "db_peers (w_db pending_world) \<noteq> []" by (simp add: pending_world_def sample_world_def)
  ultimately show ?thesis by auto
qed

theorem conf_producers_agree_witness:
  "fst (get_peers (sample_world [])) = fst (buildPeerConfs (sample_env\<lparr>e_ipv6_prefix := []\<rparr>) (sample_world []))"
proof -
  have "\<not> next_fault (db_faults (w_db (sample_world [])))" by (simp add: sample_world_def)
  from conf_producers_agree[OF this, of "sample_env\<lparr>e_ipv6_prefix := []\<rparr>"] show ?thesis by simp
qed

subsection \<open>Starting up, with and without WireGuard\<close>

text \<open>The first pass and the firewall after it (main, steps 5a and 5b); both errors are only logged.\<close>

definition fw_sync_world :: "('k, 'f) env \<Rightarrow> peer list \<Rightarrow> (('k, 'f) world, fw_err, unit) prog" where
  "fw_sync_world env ps w = (case fw_sync (e_fw env) ps (w_fw w) of (r, f) \<Rightarrow> (r, w\<lparr>w_fw := f\<rparr>))"

definition start_sync :: "('k, 'f) env \<Rightarrow> orders \<Rightarrow> (('k, 'f) world, unit, unit) prog" where
  "start_sync env o' =
     thenE (ignoreE (ReconcileOnce env o'))
    (bindE (tryE (on_db ListPeers)) (\<lambda>r. case r of
         Inl _ \<Rightarrow> ret ()
       | Inr ps \<Rightarrow> ignoreE (fw_sync_world env ps)))"

text \<open>The client that stands in when WireGuard is not available.\<close>

definition degraded_client :: "'k wg_client" where
  "degraded_client = \<lparr>get_device = (\<lambda>_. fail WgFailed), configure_peers = (\<lambda>_ _. fail WgFailed),
     remove_peer_key = (\<lambda>_ _. fail WgFailed), generate_key_pair = fail WgFailed, generate_psk = fail WgFailed\<rparr>"

interpretation degraded: wg_contract degraded_client "\<lambda>_. {}" "\<lambda>_. True"
  by unfold_locales (auto simp: degraded_client_def added_keys_def)

text \<open>
  Degraded mode is harmless: without WireGuard a reconciliation pass fails before it changes
  anything, and starting up only synchronises the firewall with the peers of the database.
\<close>
theorem degraded_start:
  assumes "e_wg env = degraded_client" "db_faults (w_db w) = []"
  shows "ReconcileOnce env o' w = (Inl (GettingDevice WgFailed), w) \<and>
    snd (start_sync env o' w) = w\<lparr>w_fw := snd (fw_sync (e_fw env) (sort_key pr_created_at (db_peers (w_db w))) (w_fw w))\<rparr>"
proof -
  have "ReconcileOnce env o' w = (Inl (GettingDevice WgFailed), w)"
    using assms(1) by (simp add: ReconcileOnce_def bindE_def mapErr_def get_dev_def degraded_client_def)
  then show ?thesis
    using assms(2) by (simp add: start_sync_def thenE_def bindE_def on_db_def ListPeers_def stmt_def fw_sync_world_def split: prod.split)
qed

theorem degraded_start_witness:
  "ReconcileOnce (sample_env\<lparr>e_wg := degraded_client\<rparr>) sample_orders (sample_world []) =
     (Inl (GettingDevice WgFailed), sample_world [])"
  using degraded_start[of "sample_env\<lparr>e_wg := degraded_client\<rparr>" "sample_world []" sample_orders] by (simp add: sample_world_def)

subsection \<open>The wiring of authentication\<close>

text \<open>
  The handlers, the middleware if there is one, and the state they start from. \<open>new_lib\<close> stands for the
  constructor of the passkey library on the relying party, the display name and the origin; its
  failure and an origin that does not parse end the agent (\<open>None\<close>).
\<close>

record ('d, 'o) wiring =
  wr_handlers :: "('d, 'o) auth_handlers"
  wr_middleware :: "auth_middleware option"

definition new_auth_state :: "int \<Rightarrow> int \<Rightarrow> cred_db \<Rightarrow> 'd auth_state" where
  "new_auth_state ttl maximum creds =
     \<lparr>as_sessions = NewSessionStore ttl maximum, as_limiter = NewLoginRateLimiter 5 (60 * 1000000000),
      as_challenges = NewChallengeStore, as_creds = creds, as_ticks = 0, as_draws = 0\<rparr>"

definition wire_auth ::
  "(string \<Rightarrow> string option) \<Rightarrow> (string \<Rightarrow> string \<Rightarrow> string \<Rightarrow> ('d, 'o) webauthn_lib option) \<Rightarrow> auth_config \<Rightarrow> cred_db \<Rightarrow>
   (('d, 'o) wiring \<times> 'd auth_state) option" where
  "wire_auth hostname new_lib a creds =
     (if AnyEnabled a then
        (let basic = (if ba_enabled (ac_basic a) then Some (NewBasicAuthVerifier (ba_username (ac_basic a)) (ba_password_hash (ac_basic a))) else None);
             token = (if ta_enabled (ac_token a) then Some (ta_token (ac_token a)) else None);
             middleware = Some \<lparr>am_token = token, am_skip_unix = ac_skip_unix a, am_secure = ac_secure_cookies a\<rparr>;
             state = new_auth_state (ac_session_ttl a) (ac_max_sessions a) creds in
         if wa_enabled (ac_webauthn a) then
           (let origin = wa_origin (ac_webauthn a) in
            case hostname origin of
              None \<Rightarrow> None
            | Some host \<Rightarrow>
                (case new_lib (if host = [] then origin else host) (wa_display_name (ac_webauthn a)) origin of
                   None \<Rightarrow> None
                 | Some lib \<Rightarrow> Some (\<lparr>wr_handlers = NewAuthHandlers a basic True (Some lib) (Some (ac_webauthn a)),
                     wr_middleware = middleware\<rparr>, state)))
         else Some (\<lparr>wr_handlers = NewAuthHandlers a basic False None None, wr_middleware = middleware\<rparr>, state))
      else Some (\<lparr>wr_handlers = NewAuthHandlers a None False None None, wr_middleware = None\<rparr>,
        new_auth_state (15 * 60 * 1000000000) 1 creds))"

subsection \<open>The path of a request\<close>

text \<open>
  The base multiplexer: what is below \<open>/api/auth/\<close> goes to the authentication endpoints, the rest
  through the middleware and the gate to the router, with the limit on its body and the user it is
  served for.
\<close>

datatype base_route = AuthRoutes | ApiRoutes

datatype passage = AtAuth | MuxRedirect string | NoPattern | ToLogin | NotAuthenticated | Gated gate_verdict "string option"

definition base_patterns :: "(string \<times> base_route) list" where
  "base_patterns = [(''/api/auth/'', AuthRoutes), (''/'', ApiRoutes)]"

record 'd gateway =
  gw_auth :: "'d auth_state"
  gw_rate :: "rate_limiter option"
  gw_read_only :: bool

definition base_mux :: "('d, 'o) wiring \<Rightarrow> auth_env \<Rightarrow> auth_request \<Rightarrow> auth_body \<Rightarrow> 'd gateway \<Rightarrow> passage \<times> 'd gateway" where
  "base_mux wr e rq b g =
     (let r = aq_request rq; w = gw_auth g;
          gated = (\<lambda>user g. case NewRateLimitedRouter (gw_rate g) (Some (gw_read_only g)) (ae_clock e (as_ticks (gw_auth g))) r of
            (v, rl) \<Rightarrow> (Gated v user, g\<lparr>gw_rate := rl, gw_auth := (gw_auth g)\<lparr>as_ticks := Suc (as_ticks (gw_auth g))\<rparr>\<rparr>)) in
      (case serve_mux base_patterns (rq_method r) (rq_path r) of
         MuxNone \<Rightarrow> (NoPattern, g)
       | MuxMoved p \<Rightarrow> (MuxRedirect p, g)
       | MuxTo AuthRoutes \<Rightarrow> (AtAuth, g\<lparr>gw_auth := serve_auth (wr_handlers wr) e rq b w\<rparr>)
       | MuxTo ApiRoutes \<Rightarrow>
           (case wr_middleware wr of
              None \<Rightarrow> gated None g
            | Some m \<Rightarrow>
                (case Wrap m (ae_clock e (as_ticks w)) (ae_clock e (Suc (as_ticks w))) r (as_sessions w) of (v, s) \<Rightarrow>
                   let g1 = g\<lparr>gw_auth := w\<lparr>as_sessions := s, as_ticks := Suc (Suc (as_ticks w))\<rparr>\<rparr> in
                   case v of
                     Served user _ \<Rightarrow> gated user g1
                   | RedirectLogin \<Rightarrow> (ToLogin, g1)
                   | Unauthorized \<Rightarrow> (NotAuthenticated, g1)))))"

definition run_requests :: "('d, 'o) wiring \<Rightarrow> auth_env \<Rightarrow> (auth_request \<times> auth_body) list \<Rightarrow> 'd gateway \<Rightarrow> 'd gateway" where
  "run_requests wr e rs g = foldl (\<lambda>g (rq, b). snd (base_mux wr e rq b g)) g rs"

text \<open>
  Only what passes authentication is limited: a request for the authentication endpoints, one
  without a session or a token and one the multiplexer redirects leave the token buckets as they are,
  so neither their number nor their bodies are bounded by the gate.
\<close>
theorem rejected_not_limited:
  "case base_mux wr e rq b g of
     (Gated v user, g') \<Rightarrow> True
   | (_, g') \<Rightarrow> gw_rate g' = gw_rate g \<and> gw_read_only g' = gw_read_only g"
  by (simp add: base_mux_def Let_def split: mux_answer.split base_route.split option.split prod.split verdict.split)

text \<open>An accepted login of a user.\<close>

definition login_accepted :: "('d, 'o) auth_handlers \<Rightarrow> auth_env \<Rightarrow> auth_request \<Rightarrow> auth_body \<Rightarrow> 'd auth_state \<Rightarrow> string \<Rightarrow> bool" where
  "login_accepted h e rq b w user \<longleftrightarrow>
     (let ep = auth_route (rq_method (aq_request rq)) (rq_path (aq_request rq));
          x = \<lparr>ss_username = user, ss_token = [], ss_created = 0, ss_activity = 0\<rparr> in
      ep = Some EpLogin \<and> password_ok h e (ab_login b) x \<or> ep = Some EpLoginFinish \<and> passkey_ok h e (ab_assertion b) w x)"

definition users_in :: "string set \<Rightarrow> 'd auth_state \<Rightarrow> bool" where
  "users_in U w \<longleftrightarrow> store_ok (as_sessions w) \<and> (\<forall>t x. map_of (st_sessions (as_sessions w)) t = Some x \<longrightarrow> ss_username x \<in> U)"

lemma serve_auth_store_ok:
  assumes "env_ok e" "store_ok (as_sessions w)"
  shows "store_ok (as_sessions (serve_auth h e rq b w))"
proof (cases "auth_route (rq_method (aq_request rq)) (rq_path (aq_request rq))")
  case (Some ep)
  let ?S = "st_sessions (as_sessions w)"
  have start: "only ?S cond w" for cond using assms(2) by (rule only_refl)
  have "\<exists>cond. only ?S cond (snd (serve_endpoint h e rq b ep w))"
  proof (cases "ep = EpLogin \<or> ep = EpLoginFinish")
    case True
    then show ?thesis
    proof
      assume "ep = EpLogin"
      have "keeps (only ?S (password_ok h e (ab_login b))) (answered (login h e rq (ab_login b)))"
        by (intro keeps_intros keeps_login assms(1))
      from keepsD[OF this start] show ?thesis using \<open>ep = EpLogin\<close> by (auto simp: serve_endpoint_def)
    next
      assume "ep = EpLoginFinish"
      with login_finish_sessions[OF assms] show ?thesis by (auto simp: serve_endpoint_def)
    qed
  next
    case False
    then have "keeps (only ?S (\<lambda>_. False)) (serve_endpoint h e rq b ep)"
      by (cases ep) (auto simp: serve_endpoint_def intro!: keeps_intros keeps_passive)
    from keepsD[OF this start] show ?thesis by blast
  qed
  then show ?thesis by (auto simp: serve_auth_def Some only_def)
qed (simp add: serve_auth_def assms(2))

lemma accepted_session:
  assumes "env_ok e" "users_in U w"
  shows "users_in (U \<union> {u. login_accepted h e rq b w u}) (serve_auth h e rq b w)"
proof -
  let ?w' = "serve_auth h e rq b w"
  have ok: "store_ok (as_sessions ?w')" using assms by (intro serve_auth_store_ok) (simp_all add: users_in_def)
  have "ss_username x \<in> U \<union> {u. login_accepted h e rq b w u}"
    if x: "map_of (st_sessions (as_sessions ?w')) t = Some x" for t x
  proof (cases "map_of (st_sessions (as_sessions w)) t = Some x")
    case True
    then show ?thesis using assms(2) by (auto simp: users_in_def)
  next
    case False
    have "store_ok (as_sessions w)" using assms(2) by (simp add: users_in_def)
    from new_session_by_login[OF assms(1) this refl x False] show ?thesis
      by (auto simp: login_accepted_def password_ok_def passkey_ok_def)
  qed
  with ok show ?thesis by (auto simp: users_in_def)
qed

lemma users_mono: "users_in U w \<Longrightarrow> U \<subseteq> V \<Longrightarrow> users_in V w"
  by (auto simp: users_in_def)

text \<open>The middleware makes no session.\<close>

lemma request_op_users:
  assumes "store_ok s" "\<forall>t x. map_of (st_sessions s) t = Some x \<longrightarrow> ss_username x \<in> U" "op = OpGet v n \<or> op = OpTouch v n"
  shows "store_ok (store_step op s) \<and> (\<forall>t x. map_of (st_sessions (store_step op s)) t = Some x \<longrightarrow> ss_username x \<in> U)"
proof -
  have "op_ok op" using assms(3) by auto
  with assms(1) have "store_ok (store_step op s)" by (rule step_ok)
  then show ?thesis
    using assms(2,3)
    by (auto simp: Get_def Touch_def delete_lookup update_lookup split: option.splits if_splits)
qed

lemma users_in_wrap:
  assumes "users_in U w"
  shows "users_in U (w\<lparr>as_sessions := snd (Wrap m n n' r (as_sessions w)), as_ticks := k\<rparr>)"
proof -
  have "store_ok (run_store ops s) \<and> (\<forall>t x. map_of (st_sessions (run_store ops s)) t = Some x \<longrightarrow> ss_username x \<in> U)"
    if "store_ok s" "\<forall>t x. map_of (st_sessions s) t = Some x \<longrightarrow> ss_username x \<in> U"
      "\<forall>op \<in> set ops. \<exists>v n. op = OpGet v n \<or> op = OpTouch v n" for ops s
    using that
  proof (induction ops arbitrary: s)
    case (Cons op ops)
    have "op = OpGet v n \<or> op = OpTouch v n \<Longrightarrow> store_ok (store_step op s) \<and>
        (\<forall>t x. map_of (st_sessions (store_step op s)) t = Some x \<longrightarrow> ss_username x \<in> U)" for v n
      using Cons.prems(1,2) by (rule request_op_users)
    with Cons.prems(3) have step: "store_ok (store_step op s)"
      "\<forall>t x. map_of (st_sessions (store_step op s)) t = Some x \<longrightarrow> ss_username x \<in> U" by (meson list.set_intros(1))+
    have "run_store (op # ops) s = run_store ops (store_step op s)" by (simp add: run_store_def)
    then show ?case using Cons.IH[OF step] Cons.prems(3) by simp
  qed (simp add: run_store_def)
  note run = this
  have ops: "\<forall>op \<in> set (request_ops m n n' r). \<exists>v n. op = OpGet v n \<or> op = OpTouch v n"
    by (auto simp: request_ops_def split: option.split)
  from assms have "store_ok (as_sessions w)" "\<forall>t x. map_of (st_sessions (as_sessions w)) t = Some x \<longrightarrow> ss_username x \<in> U"
    by (simp_all add: users_in_def)
  from run[OF this ops] show ?thesis by (simp add: users_in_def Wrap_ops)
qed

lemma users_in_base_mux:
  assumes "env_ok e" "users_in U (gw_auth g)"
  shows "users_in (U \<union> {u. login_accepted (wr_handlers wr) e rq b (gw_auth g) u}) (gw_auth (snd (base_mux wr e rq b g)))"
proof -
  let ?w = "gw_auth g" and ?r = "aq_request rq"
  have ticks: "users_in V (w\<lparr>as_ticks := k\<rparr>) = users_in V w" for V k and w :: "'a auth_state" by (simp add: users_in_def)
  show ?thesis
  proof (cases "serve_mux base_patterns (rq_method ?r) (rq_path ?r) = MuxTo AuthRoutes")
    case True
    then show ?thesis using accepted_session[OF assms] by (simp add: base_mux_def Let_def)
  next
    case False
    have "users_in U (gw_auth (snd (base_mux wr e rq b g)))"
    proof (cases "wr_middleware wr")
      case None
      then show ?thesis using False assms(2)
        by (simp add: base_mux_def Let_def ticks split: prod.split mux_answer.split base_route.split)
    next
      case (Some m)
      obtain v s where step: "Wrap m (ae_clock e (as_ticks ?w)) (ae_clock e (Suc (as_ticks ?w))) ?r (as_sessions ?w) = (v, s)"
        by fastforce
      have kept: "users_in U (?w\<lparr>as_sessions := s, as_ticks := k\<rparr>)" for k
        using users_in_wrap[OF assms(2), where m = m and r = ?r] step by (metis snd_conv)
      show ?thesis
        using False Some step kept assms(2)
        by (cases v) (simp_all add: base_mux_def Let_def split: prod.split mux_answer.split base_route.split)
    qed
    then show ?thesis by (rule users_mono) blast
  qed
qed

lemma served_by_session:
  assumes "fst (Wrap m n n' r s) = Served user c" "\<not> rq_unix r" "rq_path r \<noteq> ''/api/health''" "\<not> bearer m r"
  obtains x t where "user = Some (ss_username x)" "map_of (st_sessions s) t = Some x"
proof -
  have "\<exists>x t. user = Some (ss_username x) \<and> map_of (st_sessions s) t = Some x"
    using assms by (auto simp: Wrap_def without_session_served Get_def split: if_splits option.splits)
  then show thesis using that by blast
qed

text \<open>
  Nobody reaches the API without having logged in: in a run of requests from the start of an agent
  with authentication, when a request over TCP for anything but the health endpoint passes to the
  router without the bearer token, it is served for a user of whom the run accepted a login before.
\<close>
lemma router_needs_login:
  assumes "wire_auth hostname new_lib a creds = Some (wr, w)" "AnyEnabled a" "env_ok e" "0 \<le> ac_max_sessions a"
    "fst (base_mux wr e rq b (run_requests wr e rs \<lparr>gw_auth = w, gw_rate = rl, gw_read_only = ro\<rparr>)) = Gated v user"
    "\<not> rq_unix (aq_request rq)" "rq_path (aq_request rq) \<noteq> ''/api/health''"
    "ta_enabled (ac_token a) \<longrightarrow> rq_authorization (aq_request rq) \<noteq> ''Bearer '' @ ta_token (ac_token a)"
  shows "\<exists>u pre rq' b' post. user = Some u \<and> rs = pre @ (rq', b') # post \<and>
    login_accepted (wr_handlers wr) e rq' b' (gw_auth (run_requests wr e pre \<lparr>gw_auth = w, gw_rate = rl, gw_read_only = ro\<rparr>)) u"
proof -
  let ?g = "\<lparr>gw_auth = w, gw_rate = rl, gw_read_only = ro\<rparr>"
  let ?A = "\<lambda>rs. {u. \<exists>pre rq' b' post. rs = pre @ (rq', b') # post \<and> login_accepted (wr_handlers wr) e rq' b' (gw_auth (run_requests wr e pre ?g)) u}"
  have start: "users_in {} w"
    using assms(1) by (auto simp: wire_auth_def Let_def new_auth_state_def NewSessionStore_def users_in_def store_ok_def split: if_splits option.splits)
  have users: "users_in (?A rs) (gw_auth (run_requests wr e rs ?g))" for rs
  proof (induction rs rule: rev_induct)
    case Nil
    then show ?case using start by (simp add: run_requests_def)
  next
    case (snoc p rs)
    obtain rq' b' where p: "p = (rq', b')" by fastforce
    have "users_in (?A rs \<union> {u. login_accepted (wr_handlers wr) e rq' b' (gw_auth (run_requests wr e rs ?g)) u})
        (gw_auth (snd (base_mux wr e rq' b' (run_requests wr e rs ?g))))"
      by (rule users_in_base_mux[OF assms(3) snoc])
    moreover have "?A rs \<union> {u. login_accepted (wr_handlers wr) e rq' b' (gw_auth (run_requests wr e rs ?g)) u} \<subseteq> ?A (rs @ [p])"
    proof
      fix u assume u: "u \<in> ?A rs \<union> {u. login_accepted (wr_handlers wr) e rq' b' (gw_auth (run_requests wr e rs ?g)) u}"
      show "u \<in> ?A (rs @ [p])"
      proof (cases "u \<in> ?A rs")
        case True
        then obtain pre rq1 b1 post where "rs = pre @ (rq1, b1) # post"
          "login_accepted (wr_handlers wr) e rq1 b1 (gw_auth (run_requests wr e pre ?g)) u" by blast
        then have "rs @ [p] = pre @ (rq1, b1) # (post @ [p]) \<and>
          login_accepted (wr_handlers wr) e rq1 b1 (gw_auth (run_requests wr e pre ?g)) u" by simp
        then show ?thesis by blast
      next
        case False
        then have "rs @ [p] = rs @ (rq', b') # [] \<and> login_accepted (wr_handlers wr) e rq' b' (gw_auth (run_requests wr e rs ?g)) u"
          using u p by blast
        then show ?thesis by blast
      qed
    qed
    moreover have "run_requests wr e (rs @ [p]) ?g = snd (base_mux wr e rq' b' (run_requests wr e rs ?g))"
      by (simp add: run_requests_def p)
    ultimately show ?case using users_mono by (simp only:)
  qed
  let ?h = "run_requests wr e rs ?g"
  obtain m where m: "wr_middleware wr = Some m" "am_token m = (if ta_enabled (ac_token a) then Some (ta_token (ac_token a)) else None)"
    using assms(1,2) by (auto simp: wire_auth_def Let_def split: if_splits option.splits)
  obtain c where c: "fst (Wrap m (ae_clock e (as_ticks (gw_auth ?h))) (ae_clock e (Suc (as_ticks (gw_auth ?h)))) (aq_request rq)
      (as_sessions (gw_auth ?h))) = Served user c"
    using assms(5) m(1) by (auto simp: base_mux_def Let_def split: mux_answer.splits base_route.splits prod.splits verdict.splits)
  obtain x t where x: "user = Some (ss_username x)" "map_of (st_sessions (as_sessions (gw_auth ?h))) t = Some x"
    using served_by_session[OF c assms(6,7)] assms(8) m(2) by (auto simp: bearer_def split: if_splits)
  then have "ss_username x \<in> ?A rs" using users[of rs] by (auto simp: users_in_def)
  then show ?thesis using x(1) by blast
qed

text \<open>The administrator logs in, then lists the peers.\<close>

definition daemon_wiring :: "(unit, unit) wiring" where
  "daemon_wiring = \<lparr>wr_handlers = sample_handlers, wr_middleware = Some sample_middleware\<rparr>"

definition daemon_start :: "unit auth_state" where
  "daemon_start = new_auth_state 900 10 \<lparr>ct_rows = [], ct_now = 0, ct_faults = []\<rparr>"

definition daemon_gateway :: "unit gateway" where
  "daemon_gateway = \<lparr>gw_auth = daemon_start, gw_rate = None, gw_read_only = False\<rparr>"

definition daemon_query :: auth_request where
  "daemon_query = sample_login\<lparr>aq_request := sample_poll\<lparr>rq_path := ''/api/peers'', rq_cookie := Some (sample_token 0)\<rparr>\<rparr>"

lemma daemon_wired: "wire_auth hostname new_lib sample_auth_config \<lparr>ct_rows = [], ct_now = 0, ct_faults = []\<rparr> = Some (daemon_wiring, daemon_start)"
  by (simp add: wire_auth_def sample_auth_config_def AnyEnabled_def daemon_wiring_def sample_handlers_def sample_middleware_def
      daemon_start_def Let_def)

lemma daemon_login:
  "as_sessions (serve_auth sample_handlers sample_auth_env sample_login sample_body daemon_start) =
     \<lparr>st_ttl = 900, st_max = 10, st_sessions = [sample_session 0 1]\<rparr> \<and>
   as_ticks (serve_auth sample_handlers sample_auth_env sample_login sample_body daemon_start) = 4"
proof -
  have route: "auth_route (rq_method (aq_request sample_login)) (rq_path (aq_request sample_login)) = Some EpLogin"
    by code_simp
  show ?thesis
    unfolding serve_auth_def route option.case serve_endpoint_def auth_endpoint.case answered_state login_def login_session_def
      rate_guard_def record_failure_def reset_limit_def sample_ip
    by (simp add: sample_handlers_def sample_auth_config_def NewAuthHandlers_def AnyEnabled_def decoded_def sample_body_def
        sample_auth_env_def daemon_start_def new_auth_state_def run_simps auth_now_def auth_draw_def bindE_def thenE_def Check_def
        verify_password_def Verify_def NewBasicAuthVerifier_def NewLoginRateLimiter_def NewSessionStore_def DeleteByUsername_def
        new_session_def Create_def login_response_def find_session_def Get_def expired_def Let_def sample_login_def
        sample_poll_def sample_session_def Reset_def makeCookie_def ExpiresAt_def TTLSeconds_def)
qed

lemma daemon_routes:
  "serve_mux base_patterns (rq_method (aq_request sample_login)) (rq_path (aq_request sample_login)) = MuxTo AuthRoutes"
  "serve_mux base_patterns (rq_method (aq_request daemon_query)) (rq_path (aq_request daemon_query)) = MuxTo ApiRoutes"
proof -
  have "serve_mux base_patterns ''GET'' ''/api/peers'' = MuxTo ApiRoutes" by code_simp
  then show "serve_mux base_patterns (rq_method (aq_request daemon_query)) (rq_path (aq_request daemon_query)) = MuxTo ApiRoutes"
    by (simp add: daemon_query_def sample_poll_def)
qed code_simp

lemma daemon_served:
  "fst (base_mux daemon_wiring sample_auth_env daemon_query sample_body
     (run_requests daemon_wiring sample_auth_env [(sample_login, sample_body)] daemon_gateway)) = Gated (Routed None) (Some ''admin'')"
proof -
  let ?w = "serve_auth sample_handlers sample_auth_env sample_login sample_body daemon_start"
  let ?r = "aq_request daemon_query"
  have poll: "\<not> isBackgroundPoll ?r" by (simp add: isBackgroundPoll_def backgroundPollPaths_def daemon_query_def sample_poll_def)
  have "Get (sample_token 0) 4 (as_sessions ?w) = (Some (snd (sample_session 0 1)), as_sessions ?w)"
    using daemon_login by (simp add: Get_def sample_session_def expired_def)
  then have "fst (Wrap sample_middleware 4 5 ?r (as_sessions ?w)) = Served (Some ''admin'')
      (Some (makeSessionCookie sample_middleware (sample_token 0) (ExpiresAt (as_sessions ?w) ((snd (sample_session 0 1))\<lparr>ss_activity := 5\<rparr>)) ?r))"
    using poll by (simp add: Wrap_def daemon_query_def sample_poll_def raw_url_encode_nonempty sample_session_def)
  then obtain c s where served: "Wrap sample_middleware 4 5 ?r (as_sessions ?w) = (Served (Some ''admin'') c, s)"
    by (metis prod.collapse)
  have clock: "ae_clock sample_auth_env = int" by (simp add: sample_auth_env_def)
  have run: "run_requests daemon_wiring sample_auth_env [(sample_login, sample_body)] daemon_gateway = daemon_gateway\<lparr>gw_auth := ?w\<rparr>"
    by (simp add: run_requests_def base_mux_def Let_def daemon_routes(1) daemon_gateway_def daemon_wiring_def)
  have get: "rq_method ?r = ''GET''" by (simp add: daemon_query_def sample_poll_def)
  show ?thesis
    unfolding run
    by (simp add: base_mux_def Let_def daemon_routes(2)[unfolded get] daemon_gateway_def daemon_wiring_def clock daemon_login
        served[unfolded daemon_login[THEN conjunct1]]
        NewRateLimitedRouter_def MaxBodyReader_def ReadOnlyGuard_def read_method_def get)
qed

lemma router_reached:
  "\<exists>u. login_accepted sample_handlers sample_auth_env sample_login sample_body daemon_start u \<and>
     fst (base_mux daemon_wiring sample_auth_env daemon_query sample_body
       (run_requests daemon_wiring sample_auth_env [(sample_login, sample_body)] daemon_gateway)) = Gated (Routed None) (Some u)"
proof -
  have "\<exists>u pre rq' b' post. Some ''admin'' = Some u \<and> [(sample_login, sample_body)] = pre @ (rq', b') # post \<and>
    login_accepted (wr_handlers daemon_wiring) sample_auth_env rq' b'
      (gw_auth (run_requests daemon_wiring sample_auth_env pre \<lparr>gw_auth = daemon_start, gw_rate = None, gw_read_only = False\<rparr>)) u"
    by (rule router_needs_login[OF daemon_wired _ sample_env_ok _ daemon_served[unfolded daemon_gateway_def]])
      (simp_all add: sample_auth_config_def AnyEnabled_def daemon_query_def sample_poll_def)
  then have "login_accepted sample_handlers sample_auth_env sample_login sample_body daemon_start ''admin''"
    by (auto simp: Cons_eq_append_conv run_requests_def daemon_wiring_def)
  then show ?thesis using daemon_served by blast
qed

end
