(* ===== verification/Ui.thy ===== *)
theory Ui
  imports Daemon
begin

text \<open>
  The web interface: the proxy in front of the agent (ui/internal/proxy/handler.go), its watch on the
  agent's socket (ui/internal/discovery/discovery.go), and the pages the agent serves itself (main,
  step 12). The files are a tree: what \<open>os.Stat\<close> finds at the elements of a path below the root; a
  file that can be found can be opened.
\<close>

subsection \<open>Files and pages\<close>

datatype node = Missing | Unreadable | Folder | File

type_synonym tree = "string list \<Rightarrow> node"

text \<open>\<open>Redirect\<close> carries the path the browser makes of the relative target.\<close>

datatype page = Redirect string | Content "string list" | Listing "string list" | FileError

definition index_html :: string where
  "index_html = ''index.html''"

text \<open>http.FileServer on a rooted path.\<close>

definition file_server :: "tree \<Rightarrow> string \<Rightarrow> page" where
  "file_server t p =
     (let es = clean_elements p in
      if has_suffix ''/index.html'' p then Redirect (take (length p - length index_html) p)
      else (case t es of
          Missing \<Rightarrow> FileError
        | Unreadable \<Rightarrow> FileError
        | Folder \<Rightarrow>
            if \<not> has_suffix ''/'' p then Redirect (p @ ''/'')
            else (case t (es @ [index_html]) of
                File \<Rightarrow> Content (es @ [index_html])
              | Folder \<Rightarrow> Listing (es @ [index_html])
              | _ \<Rightarrow> Listing es)
        | File \<Rightarrow>
            if has_suffix ''/'' p then (if p = ''/'' then FileError else Redirect (butlast p))
            else Content es))"

text \<open>http.ServeFile for the index, on the path of the request: an element \<open>..\<close> between slashes or
  backslashes is refused.\<close>

definition contains_dot_dot :: "string \<Rightarrow> bool" where
  "contains_dot_dot p \<longleftrightarrow> ''..'' \<in> set (concat (map (split_on (CHR 0x5C)) (split_on (CHR ''/'') p)))"

definition serve_index :: "tree \<Rightarrow> string \<Rightarrow> page" where
  "serve_index t p =
     (if contains_dot_dot p then FileError
      else if has_suffix ''/index.html'' p then Redirect (take (length p - length index_html) p)
      else (case t [index_html] of
          File \<Rightarrow> Content [index_html]
        | Folder \<Rightarrow>
            if \<not> has_suffix ''/'' p then Redirect (p @ ''/'')
            else (case t [index_html, index_html] of
                File \<Rightarrow> Content [index_html, index_html]
              | Folder \<Rightarrow> Listing [index_html, index_html]
              | _ \<Rightarrow> Listing [index_html])
        | _ \<Rightarrow> FileError))"

subsection \<open>The proxy\<close>

datatype ui_answer = Status | Proxied string | Page page | NotFound | NotBuilt | InternalError

definition found :: "node \<Rightarrow> bool" where
  "found n \<longleftrightarrow> n = Folder \<or> n = File"

definition spaHandler :: "tree \<Rightarrow> string \<Rightarrow> ui_answer" where
  "spaHandler t p =
     (let es = clean_elements p in
      if t es = File then Page (file_server t p)
      else if t es = Folder \<and> found (t (es @ [index_html])) then Page (file_server t p)
      else (case t [index_html] of
          Missing \<Rightarrow> NotBuilt
        | Unreadable \<Rightarrow> InternalError
        | _ \<Rightarrow> Page (serve_index t p)))"

definition apiProxy :: "string \<Rightarrow> ui_answer" where
  "apiProxy p = (if \<not> has_prefix ''/api/'' p \<and> p \<noteq> ''/api'' then NotFound else Proxied p)"

datatype ui_route = StatusRoute | ProxyRoute | SpaRoute

definition NewHandler :: "string \<Rightarrow> (string \<times> ui_route) list" where
  "NewHandler method =
     (if method = ''GET'' \<or> method = ''HEAD'' then [(''/ui/status'', StatusRoute)] else []) @
     [(''/api/'', ProxyRoute), (''/'', SpaRoute)]"

definition ServeHTTP :: "tree \<Rightarrow> string \<Rightarrow> string \<Rightarrow> ui_answer" where
  "ServeHTTP t method path =
     (let p = path_clean path in
      case serve_mux (NewHandler method) method p of
        MuxNone \<Rightarrow> NotFound
      | MuxMoved q \<Rightarrow> Page (Redirect q)
      | MuxTo StatusRoute \<Rightarrow> Status
      | MuxTo ProxyRoute \<Rightarrow> apiProxy p
      | MuxTo SpaRoute \<Rightarrow> spaHandler t p)"

text \<open>The request the agent receives: over a connection to its Unix socket.\<close>

definition forwarded :: "int \<Rightarrow> string \<Rightarrow> string \<Rightarrow> auth_request \<Rightarrow> auth_request" where
  "forwarded conn remote p rq = rq\<lparr>aq_request := (aq_request rq)\<lparr>rq_unix := True, rq_conn := conn, rq_path := p, rq_tls := False\<rparr>,
     aq_remote := remote\<rparr>"

subsection \<open>The pages of the agent\<close>

datatype agent_answer = ToBase | UiPage page | UiNotFound

definition serve_static :: "tree \<Rightarrow> string \<Rightarrow> agent_answer" where
  "serve_static t p =
     (if has_prefix ''/api/'' (path_clean p) then UiNotFound
      else if found (t (clean_elements (path_clean p))) then UiPage (file_server t p)
      else UiPage (file_server t ''/''))"

definition ui_mux :: "tree \<Rightarrow> string \<Rightarrow> string \<Rightarrow> agent_answer" where
  "ui_mux t method path =
     (case serve_mux [(''/api/'', True), (''/'', False)] method path of
        MuxNone \<Rightarrow> UiNotFound
      | MuxMoved q \<Rightarrow> UiPage (Redirect q)
      | MuxTo api \<Rightarrow> if api then ToBase else serve_static t path)"

subsection \<open>The watch on the socket\<close>

datatype ui_state = StateDisconnected | StateConnecting | StateConnected

text \<open>
  What an iteration of Run finds: whether the context is cancelled, whether the path is a socket, and
  what the health check answers (\<open>None\<close> for an error, its status otherwise).
\<close>

record observation =
  ob_cancelled :: bool
  ob_socket :: bool
  ob_health :: "int option"

definition healthCheck :: "observation \<Rightarrow> bool" where
  "healthCheck ob \<longleftrightarrow> ob_health ob = Some 200"

definition run_step :: "observation \<Rightarrow> ui_state \<Rightarrow> ui_state" where
  "run_step ob s =
     (case s of
        StateConnecting \<Rightarrow> if ob_socket ob then (if healthCheck ob then StateConnected else s) else s
      | StateConnected \<Rightarrow> if \<not> healthCheck ob then StateConnecting else s
      | StateDisconnected \<Rightarrow> s)"

text \<open>Run: the states it goes through, one for each iteration, and whether it has returned.\<close>

fun run_loop :: "observation list \<Rightarrow> ui_state \<Rightarrow> ui_state list \<times> bool" where
  "run_loop [] s = ([s], False)"
| "run_loop (ob # obs) s =
     (if ob_cancelled ob then ([s, StateDisconnected], True)
      else (case run_loop obs (run_step ob s) of (ss, returned) \<Rightarrow> (s # ss, returned)))"

definition Run :: "observation list \<Rightarrow> ui_state list \<times> bool" where
  "Run obs = run_loop obs StateConnecting"

subsection \<open>The multiplexer\<close>

lemma serve_mux_to:
  assumes "serve_mux pats method p = MuxTo h"
  shows "(method = ''CONNECT'' \<or> mux_clean p = p) \<and> (\<exists>pat. (pat, h) \<in> set pats \<and> pattern_matches p pat)"
proof -
  let ?q = "if method = ''CONNECT'' then p else mux_clean p"
  from assms obtain pat where find: "find (\<lambda>(pat, _). pattern_matches ?q pat) pats = Some (pat, h)" and q: "?q = p"
    by (auto simp: serve_mux_def Let_def split: if_splits option.splits)
  from find_SomeD[OF find] show ?thesis using q by (auto split: if_splits)
qed

lemma rooted_matches: "pattern_matches p pat \<Longrightarrow> rooted pat \<Longrightarrow> rooted p"
  by (auto simp: pattern_matches_def rooted_def has_prefix_iff split: if_splits)

text \<open>What the proxy routes is rooted, and clean but for a CONNECT request.\<close>

lemma NewHandler_to:
  assumes "serve_mux (NewHandler method) method p = MuxTo h"
  shows "rooted p \<and> (h = ProxyRoute \<longrightarrow> has_prefix ''/api/'' p)"
proof -
  from serve_mux_to[OF assms] obtain pat where pat: "(pat, h) \<in> set (NewHandler method)" "pattern_matches p pat" by blast
  then have "rooted pat" by (auto simp: NewHandler_def rooted_def split: if_splits)
  with pat show ?thesis using rooted_matches[of p pat]
    by (auto simp: NewHandler_def pattern_matches_def has_suffix_iff split: if_splits)
qed

lemma plain_clean: "rooted p \<Longrightarrow> list_all plain_element (clean_elements p)"
  by (simp add: list_all_iff clean_elements_plain)

lemma plain_index: "plain_element index_html"
  by (simp add: plain_element_def index_html_def)

definition confined :: "page \<Rightarrow> bool" where
  "confined pg \<longleftrightarrow> (case pg of Content es \<Rightarrow> list_all plain_element es | Listing es \<Rightarrow> list_all plain_element es | _ \<Rightarrow> True)"

lemma file_server_confined: "rooted p \<Longrightarrow> confined (file_server t p)"
  by (auto simp: file_server_def confined_def Let_def plain_clean plain_index split: node.split)

lemma serve_index_confined: "confined (serve_index t p)"
  by (auto simp: serve_index_def confined_def plain_index split: node.split)

text \<open>
  C34: The proxy stays below its directory and below the API: whatever the path of a request, a file it
  serves or a directory it lists is named by plain elements only, none of them leading up, and what it
  forwards to the agent is a clean path below \<open>/api/\<close>; the guard of the forwarding never refuses.
\<close>
theorem proxy_confined:
  "case ServeHTTP t method path of
     Page pg \<Rightarrow> confined pg
   | Proxied p \<Rightarrow> has_prefix ''/api/'' p \<and> path_clean p = p \<and> list_all plain_element (clean_elements p)
   | NotFound \<Rightarrow> serve_mux (NewHandler method) method (path_clean path) = MuxNone
   | _ \<Rightarrow> True"
proof -
  let ?p = "path_clean path"
  show ?thesis
  proof (cases "serve_mux (NewHandler method) method ?p")
    case (MuxTo h)
    then have p: "rooted ?p" "h = ProxyRoute \<longrightarrow> has_prefix ''/api/'' ?p" using NewHandler_to by blast+
    then show ?thesis using MuxTo
      by (cases h) (auto simp: ServeHTTP_def apiProxy_def spaHandler_def Let_def file_server_confined serve_index_confined
          path_clean_idem plain_clean split: node.split)
  qed (simp_all add: ServeHTTP_def confined_def)
qed

subsection \<open>Redirects that do not end\<close>

text \<open>The answer after at most \<open>n\<close> redirects.\<close>

fun follow :: "nat \<Rightarrow> tree \<Rightarrow> string \<Rightarrow> string \<Rightarrow> ui_answer" where
  "follow 0 t method path = ServeHTTP t method path"
| "follow (Suc n) t method path =
     (case ServeHTTP t method path of Page (Redirect q) \<Rightarrow> follow n t method q | a \<Rightarrow> a)"

lemma path_clean_trailing:
  assumes "rooted p" "path_clean p \<noteq> ''/''"
  shows "path_clean (path_clean p @ ''/'') = path_clean p"
proof -
  have r: "rooted (path_clean p)" "rooted (path_clean p @ ''/'')"
    using clean_elements_clean[of p] assms(1) by (auto simp: rooted_def has_prefix_trans_append)
  have "split_on (CHR ''/'') (path_clean p @ ''/'') = split_on (CHR ''/'') (path_clean p) @ [[]]"
    using split_on_append_sep[of "CHR ''/''" "path_clean p" "[]"] by simp
  then have "clean_elements (path_clean p @ ''/'') = clean_elements (path_clean p)"
    using r by (simp add: clean_elements_def clean_step_def)
  then show ?thesis using r assms(1) clean_elements_clean[of p] by (simp add: rooted_path_clean)
qed

text \<open>A clean path that is not one of the proxy's own goes to the files.\<close>

lemma NewHandler_spa:
  assumes "rooted p" "path_clean p = p" "\<not> has_prefix ''/api/'' p" "p \<noteq> ''/api''" "p \<noteq> ''/ui/status''"
  shows "serve_mux (NewHandler method) method p = MuxTo SpaRoute"
proof -
  have q: "(if method = ''CONNECT'' then p else mux_clean p) = p" using mux_clean_clean[OF assms(1)] assms(2) by simp
  have "p \<noteq> []" "has_prefix ''/'' p" using assms(1) by (auto simp: rooted_def)
  moreover have "p @ ''/'' = ''/api/'' \<longleftrightarrow> p = ''/api''" "p @ ''/'' = ''/'' \<longleftrightarrow> p = []" by auto
  ultimately show ?thesis unfolding serve_mux_def Let_def q
    using assms(3-5) by (auto simp: NewHandler_def pattern_matches_def has_suffix_iff)
qed

lemma follow_fixed:
  assumes "ServeHTTP t method p = Page (Redirect q)" "ServeHTTP t method q = Page (Redirect q)"
  shows "follow n t method p = Page (Redirect q)"
proof -
  have "follow n t method q = Page (Redirect q)" for n using assms(2) by (induction n) simp_all
  then show ?thesis using assms(1) by (cases n) simp_all
qed

text \<open>
  A directory of the web root that has an index cannot be opened through the proxy: the proxy takes
  the slash off the path before the file server, which redirects to the path with the slash, so no
  number of redirects reaches a page. The same happens to \<open>/api/\<close>, which the multiplexer redirects to.
\<close>
theorem directory_redirects_forever:
  assumes "rooted p" "path_clean p \<noteq> ''/''"
    "\<not> has_prefix ''/api/'' (path_clean p)" "path_clean p \<noteq> ''/api''" "path_clean p \<noteq> ''/ui/status''"
    "t (clean_elements p) = Folder" "found (t (clean_elements p @ [index_html]))" "last (clean_elements p) \<noteq> index_html"
  shows "follow n t method p = Page (Redirect (path_clean p @ ''/'')) \<and>
    follow n t method ''/api/'' = Page (Redirect ''/api/'')"
proof -
  let ?c = "path_clean p"
  have root: "rooted ?c" "clean_elements ?c = clean_elements p" using clean_elements_clean[of p] assms(1) by auto
  have noslash: "\<not> has_suffix ''/'' ?c" using path_clean_slash[OF assms(1)] assms(2) by auto
  have noindex: "\<not> has_suffix ''/index.html'' ?c"
  proof
    assume "has_suffix ''/index.html'' ?c"
    then obtain u where u: "?c = u @ CHR ''/'' # index_html" by (auto simp: has_suffix_iff index_html_def)
    have "split_on (CHR ''/'') ?c = split_on (CHR ''/'') u @ [index_html]"
      unfolding u by (simp add: split_on_append_sep) (simp add: split_on_sep_free index_html_def)
    then have "clean_elements ?c = foldl (clean_step (rooted ?c)) [] (split_on (CHR ''/'') u) @ [index_html]"
      by (simp add: clean_elements_def clean_step_plain plain_index)
    then show False using assms(8) root(2) by simp
  qed
  have answer: "ServeHTTP t method q = Page (Redirect (?c @ ''/''))" if "path_clean q = ?c" for q
  proof -
    have "serve_mux (NewHandler method) method ?c = MuxTo SpaRoute"
      using root(1) assms(3-5) by (intro NewHandler_spa) (simp_all add: path_clean_idem)
    then show ?thesis using that assms(6,7) noslash noindex
      by (simp add: ServeHTTP_def spaHandler_def file_server_def root(2) Let_def)
  qed
  have api: "ServeHTTP t method ''/api/'' = Page (Redirect ''/api/'')"
  proof -
    have "path_clean ''/api/'' = ''/api''" "mux_clean ''/api'' = ''/api''" by code_simp+
    then show ?thesis by (simp add: ServeHTTP_def serve_mux_def NewHandler_def pattern_matches_def has_suffix_iff Let_def)
  qed
  show ?thesis
    using follow_fixed[OF answer[OF refl] answer[OF path_clean_trailing[OF assms(1,2)]]] follow_fixed[OF api api] by simp
qed

definition sample_tree :: tree where
  "sample_tree es = (if es = [] \<or> es = [''docs''] then Folder
     else if es = [index_html] \<or> es = [''docs'', index_html] \<or> es = [''app.js''] then File else Missing)"

theorem directory_redirects_forever_witness:
  "follow 20 sample_tree ''GET'' ''/docs'' = Page (Redirect ''/docs/'')"
proof -
  have e: "clean_elements ''/docs'' = [''docs'']" and c: "path_clean ''/docs'' = ''/docs''" by code_simp+
  have "follow 20 sample_tree ''GET'' ''/docs'' = Page (Redirect (path_clean ''/docs'' @ ''/'')) \<and>
    follow 20 sample_tree ''GET'' ''/api/'' = Page (Redirect ''/api/'')"
    by (rule directory_redirects_forever) (simp_all add: c e rooted_def sample_tree_def found_def, simp_all add: index_html_def)
  then show ?thesis by (simp add: c)
qed

subsection \<open>The proxy and authentication\<close>

lemma base_api:
  assumes "rooted p" "path_clean p = p" "\<not> has_prefix ''/api/auth/'' p" "p \<noteq> ''/api/auth''"
  shows "serve_mux base_patterns method p = MuxTo ApiRoutes"
proof -
  have q: "(if method = ''CONNECT'' then p else mux_clean p) = p" using mux_clean_clean[OF assms(1)] assms(2) by simp
  have "p \<noteq> []" "has_prefix ''/'' p" using assms(1) by (auto simp: rooted_def)
  moreover have "p @ ''/'' = ''/api/auth/'' \<longleftrightarrow> p = ''/api/auth''" "p @ ''/'' = ''/'' \<longleftrightarrow> p = []" by auto
  ultimately show ?thesis unfolding serve_mux_def Let_def q
    using assms(3,4) by (auto simp: base_patterns_def pattern_matches_def has_suffix_iff)
qed

text \<open>
  Behind the proxy nobody is asked to log in: with \<open>skip_unix_socket\<close>, the default, the agent
  serves every request the proxy forwards, whoever sent it, for no user, because it arrives at the
  Unix socket; only the token bucket and the read-only mode are left to refuse it.
\<close>
theorem proxy_skips_authentication:
  assumes "wr_middleware wr = Some m" "am_skip_unix m"
    "ServeHTTP t (rq_method (aq_request rq)) (rq_path (aq_request rq)) = Proxied p"
    "\<not> has_prefix ''/api/auth/'' p" "p \<noteq> ''/api/auth''"
  shows "\<exists>v. fst (base_mux wr e (forwarded conn remote p rq) b g) = Gated v None"
proof -
  from assms(3) have "p = path_clean (rq_path (aq_request rq)) \<and>
      serve_mux (NewHandler (rq_method (aq_request rq))) (rq_method (aq_request rq)) p = MuxTo ProxyRoute"
    by (auto simp: ServeHTTP_def apiProxy_def spaHandler_def Let_def split: mux_answer.splits ui_route.splits if_splits node.splits)
  then have "rooted p" "path_clean p = p" using NewHandler_to by (auto simp: path_clean_idem)
  from base_api[OF this assms(4,5)] show ?thesis using assms(1,2)
    by (simp add: base_mux_def Let_def forwarded_def Wrap_def split: prod.split)
qed

theorem proxy_skips_authentication_witness:
  "\<exists>v. fst (base_mux daemon_wiring sample_auth_env (forwarded 2 ''@'' ''/api/peers'' (sample_login\<lparr>aq_request :=
     sample_poll\<lparr>rq_method := ''DELETE'', rq_path := ''/ui/../api//peers'', rq_cookie := None\<rparr>\<rparr>)) sample_body daemon_gateway) = Gated v None"
proof (rule proxy_skips_authentication[where t = sample_tree and m = sample_middleware])
  have "path_clean ''/ui/../api//peers'' = ''/api/peers''" "mux_clean ''/api/peers'' = ''/api/peers''" by code_simp+
  then show "ServeHTTP sample_tree (rq_method (aq_request (sample_login\<lparr>aq_request :=
     sample_poll\<lparr>rq_method := ''DELETE'', rq_path := ''/ui/../api//peers'', rq_cookie := None\<rparr>\<rparr>)))
     (rq_path (aq_request (sample_login\<lparr>aq_request :=
     sample_poll\<lparr>rq_method := ''DELETE'', rq_path := ''/ui/../api//peers'', rq_cookie := None\<rparr>\<rparr>))) = Proxied ''/api/peers''"
    by (simp add: ServeHTTP_def serve_mux_def NewHandler_def pattern_matches_def has_suffix_iff apiProxy_def Let_def)
qed (simp_all add: daemon_wiring_def sample_middleware_def)

subsection \<open>Two servers of one interface\<close>

text \<open>A path the pages are asked for: clean, no directory, neither the API nor an index.\<close>

definition page_path :: "string \<Rightarrow> bool" where
  "page_path p \<longleftrightarrow> rooted p \<and> path_clean p = p \<and> p \<noteq> ''/'' \<and> \<not> has_prefix ''/api/'' p \<and> p \<noteq> ''/api'' \<and> p \<noteq> ''/ui/status'' \<and>
     \<not> has_suffix ''/index.html'' p \<and> \<not> contains_dot_dot p"

text \<open>
  The agent and the proxy serve the same interface: over one built web root, a path of the
  application gives the same page on both, the file if there is one and the index otherwise.
\<close>
theorem pages_agree:
  assumes "page_path p" "t [] = Folder" "t [index_html] = File" "t (clean_elements p) \<noteq> Folder"
  shows "ServeHTTP t method p = Page (Content (if t (clean_elements p) = File then clean_elements p else [index_html])) \<and>
    ui_mux t method p = UiPage (Content (if t (clean_elements p) = File then clean_elements p else [index_html]))"
proof -
  from assms(1) have p: "rooted p" "path_clean p = p" "p \<noteq> ''/''" "\<not> has_prefix ''/api/'' p" "p \<noteq> ''/api''" "p \<noteq> ''/ui/status''"
    "\<not> has_suffix ''/index.html'' p" "\<not> contains_dot_dot p" by (auto simp: page_path_def)
  have noslash: "\<not> has_suffix ''/'' p" using path_clean_slash[OF p(1)] p(2,3) by auto
  have own: "file_server t p = Content (clean_elements p)" if "t (clean_elements p) = File"
    using that noslash p(7) by (simp add: file_server_def Let_def)
  have root: "clean_elements ''/'' = []" by (simp add: clean_elements_def clean_step_def)
  have index: "file_server t ''/'' = Content [index_html]"
    using assms(2,3) by (simp add: file_server_def root Let_def has_suffix_iff Cons_eq_append_conv)
  have "serve_index t p = Content [index_html]" using assms(3) p(7,8) by (simp add: serve_index_def)
  then have proxy: "ServeHTTP t method p = Page (Content (if t (clean_elements p) = File then clean_elements p else [index_html]))"
    using NewHandler_spa[OF p(1,2,4,5,6)] assms(3,4) own by (simp add: ServeHTTP_def p(2) spaHandler_def Let_def)
  have q: "(if method = ''CONNECT'' then p else mux_clean p) = p" using mux_clean_clean[OF p(1)] p(2) by simp
  have "serve_mux [(''/api/'', True), (''/'', False)] method p = MuxTo False"
  proof -
    have "p \<noteq> []" "has_prefix ''/'' p" using p(1) by (auto simp: rooted_def)
    moreover have "p @ ''/'' = ''/api/'' \<longleftrightarrow> p = ''/api''" "p @ ''/'' = ''/'' \<longleftrightarrow> p = []" by auto
    ultimately show ?thesis unfolding serve_mux_def Let_def q using p(4,5) by (auto simp: pattern_matches_def has_suffix_iff)
  qed
  then have "ui_mux t method p = UiPage (Content (if t (clean_elements p) = File then clean_elements p else [index_html]))"
    using own index assms(4) by (cases "t (clean_elements p)") (simp_all add: ui_mux_def serve_static_def p(2,4) found_def)
  with proxy show ?thesis by simp
qed

theorem pages_agree_witness:
  "ServeHTTP sample_tree ''GET'' ''/peers/7'' = Page (Content [index_html]) \<and> ui_mux sample_tree ''GET'' ''/peers/7'' = UiPage (Content [index_html])"
proof -
  have p: "page_path ''/peers/7''" by code_simp
  have e: "clean_elements ''/peers/7'' = [''peers'', ''7'']" by code_simp
  have "sample_tree (clean_elements ''/peers/7'') = Missing" by (simp add: e sample_tree_def index_html_def)
  then show ?thesis using pages_agree[OF p, of sample_tree "''GET''"] by (simp add: sample_tree_def index_html_def)
qed

subsection \<open>The connection state\<close>

text \<open>The socket was seen, and every health check since then was answered with 200.\<close>

definition up_since :: "observation list \<Rightarrow> bool" where
  "up_since obs \<longleftrightarrow> (\<exists>us vs. obs = us @ vs \<and> vs \<noteq> [] \<and> ob_socket (hd vs) \<and> list_all healthCheck vs)"

lemma up_since_snoc: "up_since (obs @ [ob]) \<longleftrightarrow> healthCheck ob \<and> (up_since obs \<or> ob_socket ob)"
proof
  assume "up_since (obs @ [ob])"
  then obtain us vs where *: "obs @ [ob] = us @ vs" "vs \<noteq> []" "ob_socket (hd vs)" "list_all healthCheck vs"
    by (auto simp: up_since_def)
  then obtain ws where vs: "vs = ws @ [ob]" "obs = us @ ws" by (cases vs rule: rev_cases) auto
  show "healthCheck ob \<and> (up_since obs \<or> ob_socket ob)"
  proof (cases "ws = []")
    case False
    then have "up_since obs" using * vs by (auto simp: up_since_def)
    then show ?thesis using * vs by simp
  qed (use * vs in simp)
next
  assume *: "healthCheck ob \<and> (up_since obs \<or> ob_socket ob)"
  show "up_since (obs @ [ob])"
  proof (cases "up_since obs")
    case True
    then obtain us vs where "obs = us @ vs" "vs \<noteq> []" "ob_socket (hd vs)" "list_all healthCheck vs" by (auto simp: up_since_def)
    then have "obs @ [ob] = us @ (vs @ [ob]) \<and> vs @ [ob] \<noteq> [] \<and> ob_socket (hd (vs @ [ob])) \<and> list_all healthCheck (vs @ [ob])"
      using * by simp
    then show ?thesis unfolding up_since_def by blast
  next
    case False
    then have "obs @ [ob] = obs @ [ob] \<and> [ob] \<noteq> [] \<and> ob_socket (hd [ob]) \<and> list_all healthCheck [ob]" using * by simp
    then show ?thesis unfolding up_since_def by blast
  qed
qed

lemma run_steps: "foldl (\<lambda>s ob. run_step ob s) StateConnecting obs = (if up_since obs then StateConnected else StateConnecting)"
proof (induction obs rule: rev_induct)
  case (snoc ob obs)
  then show ?case by (simp add: up_since_snoc run_step_def)
qed (simp add: up_since_def)

lemma run_loop_states:
  "run_loop obs s =
     (let alive = takeWhile (\<lambda>ob. \<not> ob_cancelled ob) obs; returned = list_ex ob_cancelled obs in
      (map (\<lambda>k. foldl (\<lambda>s ob. run_step ob s) s (take k alive)) [0..<Suc (length alive)] @ (if returned then [StateDisconnected] else []),
       returned))"
proof (induction obs arbitrary: s)
  case (Cons ob obs)
  have "[0..<Suc (Suc n)] = 0 # map Suc [0..<Suc n]" for n by (metis map_Suc_upt upt_conv_Cons zero_less_Suc)
  moreover have "[0..<Suc 0] = [0]" by simp
  ultimately show ?case using Cons.IH[of "run_step ob s"] by (simp add: Let_def del: upt_Suc)
qed simp

text \<open>
  What the proxy reports: it is connected exactly while the socket was seen and every health check
  since then was answered with 200, it is connecting the rest of the time, and it is disconnected and
  has returned exactly when it found its context cancelled.
\<close>
theorem discovery_states:
  "Run obs =
     (let alive = takeWhile (\<lambda>ob. \<not> ob_cancelled ob) obs; returned = list_ex ob_cancelled obs in
      (map (\<lambda>k. if up_since (take k alive) then StateConnected else StateConnecting) [0..<Suc (length alive)] @
         (if returned then [StateDisconnected] else []), returned))"
  by (simp only: Run_def run_loop_states run_steps)

end
