(* ===== verification/Agent.thy ===== *)
theory Agent
  imports Ui PeerBatch PeerQuery ProfileApi
begin

text \<open>
  The whole agent: the table of routes (api/router.go), a request on its way from the socket to its
  handler, the start (main, steps 1b to 5b) and the background tasks main starts, as steps on the
  state of authentication, gate and world.
\<close>

subsection \<open>The table of routes\<close>

datatype endpoint =
    ApiHealth | ApiStats | ApiListPeers | ApiCreatePeer | ApiBatch | ApiNextAddress
  | ApiGetPeer string | ApiDeletePeer string | ApiUpdatePeer string | ApiRotateKeys string | ApiApprove string
  | ApiListProfiles | ApiGetProfile string | ApiCreateProfile | ApiUpdateProfile string | ApiDeleteProfile string

definition fixed_routes :: "((string \<times> string) \<times> endpoint) list" where
  "fixed_routes =
     [((''GET'', ''/api/health''), ApiHealth), ((''GET'', ''/api/stats''), ApiStats),
      ((''GET'', ''/api/peers''), ApiListPeers), ((''POST'', ''/api/peers''), ApiCreatePeer),
      ((''POST'', ''/api/peers/batch''), ApiBatch), ((''GET'', ''/api/peers/next-address''), ApiNextAddress),
      ((''GET'', ''/api/profiles''), ApiListProfiles), ((''POST'', ''/api/profiles''), ApiCreateProfile)]"

definition peer_routes :: "(string \<times> (string \<Rightarrow> endpoint)) list" where
  "peer_routes = [(''GET'', ApiGetPeer), (''DELETE'', ApiDeletePeer), (''PUT'', ApiUpdatePeer)]"

definition peer_actions :: "((string \<times> string) \<times> (string \<Rightarrow> endpoint)) list" where
  "peer_actions = [((''POST'', ''rotate-keys''), ApiRotateKeys), ((''POST'', ''approve''), ApiApprove)]"

definition profile_routes :: "(string \<times> (string \<Rightarrow> endpoint)) list" where
  "profile_routes = [(''GET'', ApiGetProfile), (''PUT'', ApiUpdateProfile), (''DELETE'', ApiDeleteProfile)]"

text \<open>
  http.ServeMux on a clean path: a GET pattern takes HEAD too, a literal segment comes before a
  wildcard, and a wildcard takes one segment that is not empty.
\<close>

definition NewRouter :: "string \<Rightarrow> string \<Rightarrow> endpoint option" where
  "NewRouter method path =
     (let m = (if method = ''HEAD'' then ''GET'' else method) in
      case map_of fixed_routes (m, path) of
        Some ep \<Rightarrow> Some ep
      | None \<Rightarrow>
          if has_prefix ''/api/peers/'' path then
            (case split_on (CHR ''/'') (drop (length ''/api/peers/'') path) of
               [i] \<Rightarrow> if i = [] then None else map_option (\<lambda>f. f i) (map_of peer_routes m)
             | [i, act] \<Rightarrow> if i = [] then None else map_option (\<lambda>f. f i) (map_of peer_actions (m, act))
             | _ \<Rightarrow> None)
          else if has_prefix ''/api/profiles/'' path then
            (case split_on (CHR ''/'') (drop (length ''/api/profiles/'') path) of
               [n] \<Rightarrow> if n = [] then None else map_option (\<lambda>f. f n) (map_of profile_routes m)
             | _ \<Rightarrow> None)
          else None)"

text \<open>What the body decodes to, as each of the types the handlers expect, and what they read outside.\<close>

record api_input =
  in_create :: "create_request option"
  in_batch :: "create_request list option"
  in_update :: "update_request option"
  in_approve :: "approve_request option"
  in_profile :: "create_profile_request option"
  in_profile_change :: "update_profile_request option"
  in_addrs :: "string list option"
  in_conf_writable :: bool
  in_now :: int

definition replied :: "('k, 'f, 'a) handler \<Rightarrow> ('k, 'f, unit) handler" where
  "replied h = bindE h (\<lambda>_. ret ())"

definition serve_api :: "('k, 'f) env \<Rightarrow> api_input \<Rightarrow> endpoint \<Rightarrow> ('k, 'f, unit) handler" where
  "serve_api env i ep =
     (case ep of
        ApiHealth \<Rightarrow> replied (api_Health env (in_conf_writable i))
      | ApiStats \<Rightarrow> replied (api_Stats env (in_now i))
      | ApiListPeers \<Rightarrow> replied (api_ListPeers env)
      | ApiCreatePeer \<Rightarrow> replied (api_CreatePeer env (in_create i))
      | ApiBatch \<Rightarrow> replied (api_BatchCreatePeers env (in_batch i))
      | ApiNextAddress \<Rightarrow> replied (api_NextAddress (in_addrs i))
      | ApiGetPeer s \<Rightarrow> replied (api_GetPeer env s)
      | ApiDeletePeer s \<Rightarrow> api_DeletePeer env s
      | ApiUpdatePeer s \<Rightarrow> replied (api_UpdatePeer env s (in_update i))
      | ApiRotateKeys s \<Rightarrow> replied (api_RotateKeys env s)
      | ApiApprove s \<Rightarrow> replied (api_ApprovePeer env s (in_approve i))
      | ApiListProfiles \<Rightarrow> replied (api_ListProfiles env)
      | ApiGetProfile n \<Rightarrow> replied (api_GetProfile env n)
      | ApiCreateProfile \<Rightarrow> replied (api_CreateProfile env (in_profile i))
      | ApiUpdateProfile n \<Rightarrow> replied (api_UpdateProfile env n (in_profile_change i))
      | ApiDeleteProfile n \<Rightarrow> api_DeleteProfile n)"

subsection \<open>A request on its way\<close>

record ('d, 'k, 'f) agent =
  ag_gate :: "'d gateway"
  ag_world :: "('k, 'f) world"

type_synonym asked = "auth_request \<times> auth_body \<times> api_input"

definition serve_request :: "('d, 'o) wiring \<Rightarrow> auth_env \<Rightarrow> ('k, 'f) env \<Rightarrow> asked \<Rightarrow> ('d, 'k, 'f) agent \<Rightarrow> ('d, 'k, 'f) agent" where
  "serve_request wr e env q a =
     (case q of (rq, b, i) \<Rightarrow>
        (case base_mux wr e rq b (ag_gate a) of (p, g) \<Rightarrow>
          (case p of
             Gated (Routed _) _ \<Rightarrow>
               (case NewRouter (rq_method (aq_request rq)) (rq_path (aq_request rq)) of
                  None \<Rightarrow> a\<lparr>ag_gate := g\<rparr>
                | Some ep \<Rightarrow> a\<lparr>ag_gate := g, ag_world := snd (serve_api env i ep (ag_world a))\<rparr>)
           | _ \<Rightarrow> a\<lparr>ag_gate := g\<rparr>)))"

definition serve_requests :: "('d, 'o) wiring \<Rightarrow> auth_env \<Rightarrow> ('k, 'f) env \<Rightarrow> asked list \<Rightarrow> ('d, 'k, 'f) agent \<Rightarrow> ('d, 'k, 'f) agent" where
  "serve_requests wr e env qs a = foldl (\<lambda>a q. serve_request wr e env q a) a qs"

subsection \<open>The start\<close>

text \<open>
  Recovery, opening the database, the profiles of the configuration, the first pass and the firewall;
  \<open>None\<close> is an agent that ends. \<open>meta\<close> and \<open>stmts\<close> as for RecoverDB, \<open>faults\<close> for the statements after.
\<close>

definition seed_config :: "profile_seed list \<Rightarrow> (db, db_err, unit) prog" where
  "seed_config seeds = (if seeds \<noteq> [] then SeedProfiles seeds else ret ())"

definition boot :: "config \<Rightarrow> ('k, 'f) env \<Rightarrow> orders \<Rightarrow> ((string \<times> string \<times> string) list) option \<Rightarrow> bool list \<Rightarrow> bool list \<Rightarrow>
    disk \<Rightarrow> ('k, 'f) world \<Rightarrow> ('k, 'f) world option" where
  "boot cfg env o' meta stmts faults d w =
     (case RecoverDB meta stmts d of (r, d1) \<Rightarrow>
        if r = Panicked then None
        else (case NewDB d1 of
          (Inl _, _) \<Rightarrow> None
        | (Inr b, _) \<Rightarrow>
            (case seed_config (cf_peer_profiles cfg) (b\<lparr>db_faults := faults\<rparr>) of
               (Inl _, _) \<Rightarrow> None
             | (Inr _, b') \<Rightarrow> Some (snd (start_sync env o' (w\<lparr>w_db := b'\<rparr>))))))"

subsection \<open>The running agent\<close>

datatype event = Asked asked | Pass orders | FlushTimer

definition agent_step :: "('d, 'o) wiring \<Rightarrow> auth_env \<Rightarrow> ('k, 'f) env \<Rightarrow> event \<Rightarrow> ('d, 'k, 'f) agent \<Rightarrow> ('d, 'k, 'f) agent" where
  "agent_step wr e env ev a =
     (case ev of
        Asked q \<Rightarrow> serve_request wr e env q a
      | Pass o' \<Rightarrow> a\<lparr>ag_world := snd (ReconcileOnce env o' (ag_world a))\<rparr>
      | FlushTimer \<Rightarrow> a\<lparr>ag_world := flush_daemon (ag_world a)\<rparr>)"

inductive reaches :: "('d, 'o) wiring \<Rightarrow> auth_env \<Rightarrow> ('k, 'f) env \<Rightarrow> ('d, 'k, 'f) agent \<Rightarrow> ('d, 'k, 'f) agent \<Rightarrow> bool" for wr e env a where
  start: "reaches wr e env a a"
| more: "reaches wr e env a b \<Longrightarrow> reaches wr e env a (agent_step wr e env ev b)"

subsection \<open>The database of a running agent\<close>

definition disk_ok :: "disk \<Rightarrow> bool" where
  "disk_ok d \<longleftrightarrow> (\<forall>b. dk_db d = Some (Sound b) \<or> dk_bak d = Some (Sound b) \<longrightarrow> db_inv b)"

lemma keeps_replied [keeps_intros]: "keeps I h \<Longrightarrow> keeps I (replied h)"
  unfolding replied_def by (intro keeps_intros)

lemma keeps_case_ipnet [keeps_intros]:
  "(\<And>b m. keeps I (f b m)) \<Longrightarrow> (\<And>b m. keeps I (g b m)) \<Longrightarrow> keeps I (case n of Net4 b m \<Rightarrow> f b m | Net6 b m \<Rightarrow> g b m)"
  by (cases n) simp_all

lemma keeps_queries:
  "keeps db_ok (api_Health env cw)" "keeps db_ok (api_Stats env now)" "keeps db_ok (api_ListPeers env)"
  "keeps db_ok (api_NextAddress addrs)" "keeps db_ok (api_GetPeer env s)"
  unfolding api_Health_def api_Stats_def api_ListPeers_def api_NextAddress_def api_GetPeer_def peer_of_path_def live_response_def Let_def
  by (intro keeps_intros)+

lemma keeps_serve_api: "keeps db_ok (serve_api env i ep)"
  unfolding serve_api_def
  by (cases ep) (simp_all add: keeps_replied keeps_queries keeps_profile_handlers keeps_CreatePeer keeps_BatchCreatePeers keeps_UpdatePeer
      keeps_RotateKeys keeps_ApprovePeer keeps_DeletePeer)

lemma keeps_pass: "keeps db_ok (ReconcileOnce env o')"
proof -
  have "keeps (holds_db db_inv) (ReconcileOnce env o')" by (intro keeps_reconcile keeps_intros)
  then show ?thesis by (simp add: keeps_def holds_db_def db_ok_def)
qed

lemma flush_db_ok:
  fixes w :: "('k, 'f) world"
  assumes "db_ok w"
  shows "db_ok (flush_daemon w)"
proof -
  have "keeps db_ok (bindE get_peers (\<lambda>ps. ignoreE (write_shared ps)) :: (('k, 'f) world, unit, unit) prog)"
    unfolding get_peers_def by (intro keeps_intros)
  from keepsD[OF this] assms show ?thesis
    by (auto simp: flush_daemon_def db_ok_def split: prod.split)
qed

lemma agent_step_ok: "db_ok (ag_world a) \<Longrightarrow> db_ok (ag_world (agent_step wr e env ev a))"
  using keepsD[OF keeps_serve_api] keepsD[OF keeps_pass] flush_db_ok
  by (auto simp: agent_step_def serve_request_def split: event.split prod.split passage.split gate_verdict.split option.split)

lemma start_sync_ok: "db_ok w \<Longrightarrow> db_ok (snd (start_sync env o' w))"
proof -
  have "keeps db_ok (fw_sync_world env ps)" for ps
    by (auto simp: keeps_def fw_sync_world_def db_ok_def split: prod.split)
  then have "keeps db_ok (start_sync env o')"
    unfolding start_sync_def by (intro keeps_intros keeps_pass)
  then show "db_ok w \<Longrightarrow> db_ok (snd (start_sync env o' w))" by (rule keepsD)
qed

lemma seed_config_ok: "keeps db_inv (seed_config seeds)"
  by (simp add: seed_config_def SeedProfiles_inv keeps_ret)

text \<open>What opening the file gives after a recovery.\<close>

lemma opened_ok:
  assumes "disk_ok d" "RecoverDB meta stmts d = (r, d1)" "r \<noteq> Panicked" "NewDB d1 = (Inr b, d2)"
  shows "db_inv b"
proof -
  have "recovered_as meta d r d1" using recover_outcome[where meta = meta and stmts = stmts and d = d] assms(2) by simp
  then have "dk_db d1 = Some (Sound x) \<Longrightarrow> db_inv x" for x
    using assms(1,3) by (cases r) (auto simp: disk_ok_def)
  moreover have "db_inv (fresh_db x)" for x by (simp add: db_inv_def fresh_db_def unique_ok_def)
  ultimately show ?thesis
    using assms(4) by (auto simp: NewDB_def disk_call_def split: if_splits option.splits db_file.splits)
qed

lemma boot_ok:
  assumes "disk_ok d" "boot cfg env o' meta stmts faults d w = Some w'"
  shows "db_ok w'"
proof -
  obtain r d1 where r: "RecoverDB meta stmts d = (r, d1)" by fastforce
  from assms(2) r obtain b d2 u b' where run: "r \<noteq> Panicked" "NewDB d1 = (Inr b, d2)"
    "seed_config (cf_peer_profiles cfg) (b\<lparr>db_faults := faults\<rparr>) = (Inr u, b')"
    and w': "w' = snd (start_sync env o' (w\<lparr>w_db := b'\<rparr>))"
    by (auto simp: boot_def split: if_splits sum.splits prod.splits)
  have "db_inv (b\<lparr>db_faults := faults\<rparr>)" using opened_ok[OF assms(1) r run(1,2)] by simp
  from keepsD'[OF seed_config_ok this run(3)] have "db_ok (w\<lparr>w_db := b'\<rparr>)" by (simp add: db_ok_def)
  then show ?thesis unfolding w' by (rule start_sync_ok)
qed


subsection \<open>Nothing changes without a login\<close>

text \<open>
  A request that carries neither a bearer token nor an accepted login, over TCP, and not for the
  health endpoint.
\<close>

definition anonymous :: "auth_config \<Rightarrow> auth_request \<Rightarrow> bool" where
  "anonymous ac rq \<longleftrightarrow> \<not> rq_unix (aq_request rq) \<and> rq_path (aq_request rq) \<noteq> ''/api/health'' \<and>
     (ta_enabled (ac_token ac) \<longrightarrow> rq_authorization (aq_request rq) \<noteq> ''Bearer '' @ ta_token (ac_token ac))"

definition logins :: "('d, 'o) wiring \<Rightarrow> auth_env \<Rightarrow> asked list \<Rightarrow> 'd gateway \<Rightarrow> bool" where
  "logins wr e qs g \<longleftrightarrow> (\<exists>pre rq b i post u. qs = pre @ (rq, b, i) # post \<and>
     login_accepted (wr_handlers wr) e rq b (gw_auth (run_requests wr e (map (\<lambda>(rq, b, i). (rq, b)) pre) g)) u)"

lemma serve_requests_gate:
  fixes a :: "('d, 'k, 'f) agent"
  shows "ag_gate (serve_requests wr e env qs a) = run_requests wr e (map (\<lambda>(rq, b, i). (rq, b)) qs) (ag_gate a)"
proof (induction qs rule: rev_induct)
  case (snoc q qs)
  obtain rq b i where q: "q = (rq, b, i)" by (cases q)
  have "ag_gate (serve_request wr e env q x) = snd (base_mux wr e rq b (ag_gate x))" for x :: "('d, 'k, 'f) agent"
    by (simp add: q serve_request_def split: prod.split passage.split gate_verdict.split option.split)
  then show ?case using snoc by (simp add: serve_requests_def run_requests_def q)
qed (simp add: serve_requests_def run_requests_def)

text \<open>
  C2: The agent does nothing for a stranger: with any method of authentication configured, a run of
  requests over TCP without the bearer token in which no login is accepted leaves the peers, the
  database, the firewall, the configuration file and every other part of the agent's world as it was;
  requests for the health endpoint apart.
\<close>
theorem stranger_changes_nothing:
  assumes "wire_auth hostname new_lib ac creds = Some (wr, s)" "AnyEnabled ac" "env_ok e" "0 \<le> ac_max_sessions ac"
    "ag_gate a = \<lparr>gw_auth = s, gw_rate = rl, gw_read_only = ro\<rparr>"
    "\<forall>q \<in> set qs. anonymous ac (fst q)" "\<not> logins wr e qs (ag_gate a)"
  shows "ag_world (serve_requests wr e env qs a) = ag_world a"
  using assms(6,7)
proof (induction qs rule: rev_induct)
  case (snoc q qs)
  obtain rq b i where q: "q = (rq, b, i)" by (cases q)
  let ?rs = "map (\<lambda>(rq, b, i). (rq, b)) qs" and ?a = "serve_requests wr e env qs a"
  have none: "\<not> logins wr e qs (ag_gate a)" using snoc.prems(2) by (force simp: logins_def)
  with snoc have same: "ag_world ?a = ag_world a" by simp
  have refused: "fst (base_mux wr e rq b (ag_gate ?a)) \<noteq> Gated v user" for v user
  proof
    assume "fst (base_mux wr e rq b (ag_gate ?a)) = Gated v user"
    then have served: "fst (base_mux wr e rq b (run_requests wr e ?rs \<lparr>gw_auth = s, gw_rate = rl, gw_read_only = ro\<rparr>)) = Gated v user"
      by (simp add: serve_requests_gate assms(5))
    obtain u pre rq' b' post where login: "?rs = pre @ (rq', b') # post"
      "login_accepted (wr_handlers wr) e rq' b' (gw_auth (run_requests wr e pre \<lparr>gw_auth = s, gw_rate = rl, gw_read_only = ro\<rparr>)) u"
      using router_needs_login[OF assms(1-4) served] snoc.prems(1) by (auto simp: q anonymous_def)
    then obtain qpre i' qpost where "qs = qpre @ (rq', b', i') # qpost" "pre = map (\<lambda>(rq, b, i). (rq, b)) qpre"
      by (auto simp: map_eq_append_conv map_eq_Cons_conv)
    then have "logins wr e qs (ag_gate a)" using login(2) unfolding logins_def assms(5) by blast
    with none show False ..
  qed
  have "ag_world (serve_request wr e env q ?a) = ag_world ?a"
  proof (cases "base_mux wr e rq b (ag_gate ?a)")
    case (Pair p g)
    show ?thesis
    proof (cases p)
      case (Gated v u)
      then show ?thesis using Pair refused[of v u] by simp
    qed (use Pair in \<open>simp_all add: q serve_request_def\<close>)
  qed
  then show ?case using same by (simp add: serve_requests_def)
qed (simp add: serve_requests_def)

definition no_input :: api_input where
  "no_input = \<lparr>in_create = None, in_batch = None, in_update = None, in_approve = None, in_profile = None,
     in_profile_change = None, in_addrs = None, in_conf_writable = True, in_now = 0\<rparr>"

definition deletion :: asked where
  "deletion = (sample_login\<lparr>aq_request := sample_poll\<lparr>rq_method := ''DELETE'', rq_path := ''/api/peers/1'', rq_cookie := None\<rparr>\<rparr>,
     sample_body, no_input)"

theorem stranger_changes_nothing_witness:
  "ag_world (serve_requests daemon_wiring sample_auth_env sample_env [deletion, deletion]
     \<lparr>ag_gate = daemon_gateway, ag_world = sample_world [sample_key CHR ''A'']\<rparr>) = sample_world [sample_key CHR ''A'']"
proof -
  have "auth_route ''DELETE'' ''/api/peers/1'' = None" by code_simp
  then have stranger: "\<not> login_accepted h e (fst deletion) b w u" for h :: "(unit, unit) auth_handlers" and e b w u
    by (simp add: login_accepted_def deletion_def)
  have only: "rq = fst deletion" if "[deletion, deletion] = pre @ (rq, b, i) # post" for rq b i pre post
    using that by (auto simp: Cons_eq_append_conv) (metis fst_conv)+
  have "\<not> logins daemon_wiring sample_auth_env [deletion, deletion] daemon_gateway"
    unfolding logins_def using only stranger by fast
  then show ?thesis
    using stranger_changes_nothing[OF daemon_wired _ sample_env_ok, where a = "\<lparr>ag_gate = daemon_gateway,
        ag_world = sample_world [sample_key CHR ''A'']\<rparr>" and qs = "[deletion, deletion]" and rl = None and ro = False and env = sample_env]
    by (simp add: sample_auth_config_def AnyEnabled_def daemon_gateway_def anonymous_def deletion_def sample_poll_def)
qed

definition damaged_disk :: disk where
  "damaged_disk = \<lparr>dk_db = Some Corrupt, dk_bak = None, dk_now = 0, dk_faults = []\<rparr>"


end
