(* ===== verification/Tasks.thy ===== *)
theory Tasks
  imports Agent
begin

text \<open>
  The tasks main starts beside the servers (the loops of the reconciler, the backup, the disk check and
  the watchdog) and the dry run.
\<close>

subsection \<open>Loops on a ticker\<close>

text \<open>
  What a loop receives: a tick, with what the work at that tick reads, or the end of its context. A
  ticker of a period that is not positive panics, which ends the agent.
\<close>

datatype 'e tick = Tick 'e | Done

datatype task_end = Waiting | Returned | TickerPanic

fun on_ticks :: "'e tick list \<Rightarrow> ('e \<Rightarrow> 's \<Rightarrow> 's) \<Rightarrow> 's \<Rightarrow> 's \<times> task_end" where
  "on_ticks [] f s = (s, Waiting)"
| "on_ticks (Done # ts) f s = (s, Returned)"
| "on_ticks (Tick e # ts) f s = on_ticks ts f (f e s)"

definition with_ticker :: "int \<Rightarrow> 'e tick list \<Rightarrow> ('e \<Rightarrow> 's \<Rightarrow> 's) \<Rightarrow> 's \<Rightarrow> 's \<times> task_end" where
  "with_ticker d ts f s = (if d \<le> 0 then (s, TickerPanic) else on_ticks ts f s)"

definition hour :: int where
  "hour = 60 * 60 * 1000000000"

text \<open>Reconciler.RunLoop, with the iteration orders of each pass; errors are only logged.\<close>

definition RunLoop :: "('k, 'f) env \<Rightarrow> int \<Rightarrow> orders tick list \<Rightarrow> ('k, 'f) world \<Rightarrow> ('k, 'f) world \<times> task_end" where
  "RunLoop env interval ts w = with_ticker interval ts (\<lambda>o' w. snd (ReconcileOnce env o' w)) w"

text \<open>DB.BackupLoop: the first tick is the end of the initial delay.\<close>

definition BackupLoop :: "unit tick list \<Rightarrow> disk \<Rightarrow> disk \<times> task_end" where
  "BackupLoop ts d =
     (case ts of
        [] \<Rightarrow> (d, Waiting)
      | Done # _ \<Rightarrow> (d, Returned)
      | Tick _ # ts' \<Rightarrow> with_ticker hour ts' (\<lambda>_ d. snd (Backup d)) (snd (Backup d)))"

text \<open>
  DiskChecker.RunLoop: a check at the start, then one for every tick of the first ticker, with the
  free bytes; the second ticker (\<open>None\<close>) only logs.
\<close>

definition disk_loop :: "64 word option \<Rightarrow> 64 word option option tick list \<Rightarrow> disk_checker \<Rightarrow> disk_checker \<times> task_end" where
  "disk_loop first ts dc =
     with_ticker (30 * 1000000000) ts (\<lambda>free dc. case free of None \<Rightarrow> dc | Some f \<Rightarrow> disk_check f dc) (disk_check first dc)"

text \<open>
  The watchdog: half of the interval systemd gives in microseconds, as 64-bit durations, the division
  towards zero; the state counts the notifications.
\<close>

definition half_interval :: "int \<Rightarrow> int" where
  "half_interval usec = (let d = wrap64 (usec * 1000) in if 0 \<le> d then d div 2 else - ((- d) div 2))"

definition watchdogLoop :: "string \<Rightarrow> unit tick list \<Rightarrow> nat \<Rightarrow> nat \<times> task_end" where
  "watchdogLoop usec_text ts n =
     (if usec_text = [] then (n, Returned)
      else (case parse_int64 usec_text of
          None \<Rightarrow> (n, Returned)
        | Some usec \<Rightarrow> if usec \<le> 0 then (n, Returned) else with_ticker (half_interval usec) ts (\<lambda>_. Suc) n))"

text \<open>The key that is no longer read, anywhere in the file.\<close>

definition detectDeprecatedAutoApprove :: "string option \<Rightarrow> bool" where
  "detectDeprecatedAutoApprove content = (case content of None \<Rightarrow> False | Some s \<Rightarrow> contains ''auto_approve_unknown'' s)"

subsection \<open>The dry run\<close>

datatype probe = NoSuchFile | StatError | IsDir | NotDir

record probes =
  pb_db_dir :: probe
  pb_db_write :: bool
  pb_socket_dir :: probe
  pb_conf :: probe
  pb_conf_read :: bool
  pb_conf_write :: bool

text \<open>The exit code; WireGuard's tools are only warned about.\<close>

definition runDryRun :: "config \<Rightarrow> probes \<Rightarrow> nat" where
  "runDryRun c b =
     (let code = 0;
          code = (if (cf_serve_ui c \<or> cf_ui_listen c \<noteq> []) \<and> split_host_port (cf_ui_listen c) = None then 1 else code);
          code = (case pb_db_dir b of
                    NoSuchFile \<Rightarrow> code | StatError \<Rightarrow> 1 | NotDir \<Rightarrow> 1 | IsDir \<Rightarrow> if pb_db_write b then code else 1);
          code = (case pb_socket_dir b of NoSuchFile \<Rightarrow> code | StatError \<Rightarrow> 1 | NotDir \<Rightarrow> 1 | IsDir \<Rightarrow> code);
          code = (case pb_conf b of
                    NoSuchFile \<Rightarrow> code
                  | StatError \<Rightarrow> 1
                  | _ \<Rightarrow> (let code = (if pb_conf_read b then code else 1) in if pb_conf_write b then code else 1))
      in code)"

subsection \<open>Loops\<close>

lemma on_ticks_state:
  "on_ticks ts f s =
     (foldl (\<lambda>s t. case t of Tick e \<Rightarrow> f e s | Done \<Rightarrow> s) s (takeWhile (\<lambda>t. t \<noteq> Done) ts), if Done \<in> set ts then Returned else Waiting)"
  by (induction ts f s rule: on_ticks.induct) simp_all

text \<open>A property every tick keeps holds after the loop.\<close>

lemma on_ticks_keeps: "(\<And>e s. P s \<Longrightarrow> P (f e s)) \<Longrightarrow> P s \<Longrightarrow> P (fst (on_ticks ts f s))"
  by (induction ts f s rule: on_ticks.induct) simp_all

lemma configured_interval:
  assumes "configure_agent unmarshal url_host flags files vars = Inr c"
    and "LoadConfig unmarshal (files (config_path flags)) = Inr file"
  shows "cf_reconcile_interval c = cf_reconcile_interval file"
proof -
  obtain cfg ap c1 where run: "ApplyEnv vars (merge_file (\<lambda>n. n \<in> fst ` set flags) file cfg) = (None, ap, c1)"
    and c: "ValidateAuth url_host c1 = Inr c"
    using assms by (auto simp: configure_agent_def split: sum.splits prod.splits option.splits)
  have "cf_reconcile_interval c1 = cf_reconcile_interval (merge_file (\<lambda>n. n \<in> fst ` set flags) file cfg)"
  proof -
    have "list_all (\<lambda>(n, s). if n = [] then setter_reads cf_reconcile_interval (\<lambda>_. None) s else setter_keeps cf_reconcile_interval s) env_mappings"
      by (simp add: owns_simps)
    from apply_mappings_field[OF run[unfolded ApplyEnv_def] this] show ?thesis
      by (simp add: decided_def env_mappings_def)
  qed
  moreover have "cf_reconcile_interval c = cf_reconcile_interval c1"
    using c by (auto simp: ValidateAuth_def Let_def webauthn_field_def split: if_splits)
  ultimately show ?thesis by (simp add: merge_file_def)
qed

text \<open>
  The interval of the file alone decides whether the reconciler ever runs: no flag and no variable
  changes it and no validation refuses it, and with zero or less the loop panics before its first pass
  and takes the agent with it; with a positive one the loop makes one pass for every tick until its
  context ends.
\<close>
theorem reconcile_interval_unchecked:
  assumes "configure_agent unmarshal url_host flags files vars = Inr c"
    and "LoadConfig unmarshal (files (config_path flags)) = Inr file"
  shows "RunLoop env (cf_reconcile_interval c) ts w =
    (if cf_reconcile_interval file \<le> 0 then (w, TickerPanic)
     else (foldl (\<lambda>w t. case t of Tick o' \<Rightarrow> snd (ReconcileOnce env o' w) | Done \<Rightarrow> w) w (takeWhile (\<lambda>t. t \<noteq> Done) ts),
       if Done \<in> set ts then Returned else Waiting))"
  by (simp add: RunLoop_def with_ticker_def on_ticks_state configured_interval[OF assms])

theorem reconcile_interval_unchecked_witness:
  "\<exists>c. configure_agent (\<lambda>_ c. Some (c\<lparr>cf_reconcile_interval := 0, cf_external_endpoint := ''vpn:51820''\<rparr>)) (\<lambda>_. None) []
      (\<lambda>_. Contents ''reconcile_interval: 0s'') (\<lambda>_. None) = Inr c \<and>
    RunLoop sample_env (cf_reconcile_interval c) [Tick sample_orders] (sample_world []) = (sample_world [], TickerPanic)"
proof -
  let ?unmarshal = "\<lambda>_ c. Some (c\<lparr>cf_reconcile_interval := 0, cf_external_endpoint := ''vpn:51820''\<rparr>)"
  let ?run = "configure_agent ?unmarshal (\<lambda>_. None) [] (\<lambda>_. Contents ''reconcile_interval: 0s'') (\<lambda>_. None)"
  have "\<not> isl ?run" by code_simp
  then obtain c where c: "?run = Inr c" by (cases ?run) auto
  have "LoadConfig ?unmarshal (Contents ''reconcile_interval: 0s'') =
      Inr (Defaults\<lparr>cf_reconcile_interval := 0, cf_external_endpoint := ''vpn:51820''\<rparr>)" by (simp add: LoadConfig_def)
  from reconcile_interval_unchecked[OF c this, of sample_env "[Tick sample_orders]" "sample_world []"]
  have "RunLoop sample_env (cf_reconcile_interval c) [Tick sample_orders] (sample_world []) = (sample_world [], TickerPanic)" by simp
  with c show ?thesis by blast
qed

text \<open>The text of a positive number is read back.\<close>

lemma parse_positive: "0 < n \<Longrightarrow> n < 2 ^ 63 \<Longrightarrow> parse_int64 (itoa n) = Some n"
  using parse_int64_dec[of "nat n"] by (simp add: itoa_def nat_less_iff)

text \<open>
  The watchdog is fed at half its interval, and its ticker does not panic, up to the largest
  interval whose nanoseconds fit into a duration; one microsecond more and it panics.
\<close>
theorem watchdog_interval:
  assumes "0 < usec" "usec \<le> 9223372036854775"
  shows "half_interval usec = 500 * usec \<and> snd (watchdogLoop (itoa usec) ts n) \<noteq> TickerPanic \<and>
    watchdogLoop (itoa 9223372036854776) ts n = (n, TickerPanic)"
proof -
  have half: "half_interval usec = 500 * usec"
    using assms by (simp add: half_interval_def wrap64_def Let_def)
  moreover have "snd (watchdogLoop (itoa usec) ts n) \<noteq> TickerPanic"
    using assms half parse_positive[of usec]
    by (simp add: watchdogLoop_def with_ticker_def on_ticks_state)
  moreover have "half_interval 9223372036854776 \<le> 0" by (simp add: half_interval_def wrap64_def)
  then have "watchdogLoop (itoa 9223372036854776) ts n = (n, TickerPanic)"
    using parse_positive[of 9223372036854776] by (simp add: watchdogLoop_def with_ticker_def itoa_def)
  ultimately show ?thesis by blast
qed

theorem watchdog_interval_witness:
  "half_interval 30000000 = 15000000000 \<and> watchdogLoop (itoa 9223372036854776) [Tick ()] 0 = (0, TickerPanic)"
  using watchdog_interval[of 30000000 "[Tick ()]" 0] by simp

text \<open>
  A clean dry run says: the listening address splits into host and port where one is given, and
  neither a directory nor the configuration file is found unfit. A data directory that does not exist
  passes, although nothing creates it.
\<close>
theorem dry_run_exact:
  "runDryRun c b = 0 \<longleftrightarrow>
     (cf_serve_ui c \<or> cf_ui_listen c \<noteq> [] \<longrightarrow> split_host_port (cf_ui_listen c) \<noteq> None) \<and>
     (pb_db_dir b = NoSuchFile \<or> pb_db_dir b = IsDir \<and> pb_db_write b) \<and>
     (pb_socket_dir b = NoSuchFile \<or> pb_socket_dir b = IsDir) \<and>
     (pb_conf b = NoSuchFile \<or> pb_conf b \<noteq> StatError \<and> pb_conf_read b \<and> pb_conf_write b)"
  by (cases "pb_db_dir b"; cases "pb_socket_dir b"; cases "pb_conf b") (auto simp: runDryRun_def Let_def)

end
