(* ===== verification/Health.thy ===== *)
theory Health
  imports Tasks
begin

text \<open>
  Health checks and metrics: the checker of health/health.go, the collector of metrics/collector.go, and
  what the state of the agent looks like to those that watch it.
\<close>

subsection \<open>The checker\<close>

record checker =
  ck_conf_path :: string
  ck_recovered_from :: string
  ck_disk :: "disk_checker option"

definition NewChecker :: checker where
  "NewChecker = \<lparr>ck_conf_path = [], ck_recovered_from = [], ck_disk = None\<rparr>"

record checked =
  hc_status :: string
  hc_wireguard :: string
  hc_sqlite :: string
  hc_recovered_from :: string
  hc_disk_ok :: "bool option"
  hc_conf_writable :: "bool option"

text \<open>\<open>quick\<close> is the row of the pragma; \<open>creatable\<close> whether the temporary file could be made.\<close>

definition Check :: "('k, 'f) env \<Rightarrow> checker \<Rightarrow> string \<Rightarrow> bool \<Rightarrow> (('k, 'f) world, unit, checked) prog" where
  "Check env c quick creatable =
     bindE (tryE (get_dev env)) (\<lambda>wg.
     bindE (tryE (on_db (stmt (ret quick)))) (\<lambda>db.
       (let wireguard = (case wg of Inl _ \<Rightarrow> ''error'' | Inr _ \<Rightarrow> ''ok'');
            sqlite = (case db of Inl _ \<Rightarrow> ''error'' | Inr r \<Rightarrow> if r \<noteq> ''ok'' then ''error'' else ''ok'');
            disk = map_option (\<lambda>d. \<not> dc_read_only d) (ck_disk c);
            conf = (if ck_conf_path c = [] then None else Some creatable);
            wg_ok = (wireguard = ''ok''); db_ok = (sqlite = ''ok'');
            disk_ok = (case ck_disk c of None \<Rightarrow> True | Some d \<Rightarrow> \<not> dc_read_only d);
            conf_ok = (ck_conf_path c = [] \<or> (case conf of None \<Rightarrow> False | Some b \<Rightarrow> b)) in
        ret \<lparr>hc_status = (if wg_ok \<and> db_ok \<and> disk_ok \<and> conf_ok then ''ok''
               else if \<not> wg_ok \<and> \<not> db_ok then ''unavailable'' else ''degraded''),
             hc_wireguard = wireguard, hc_sqlite = sqlite, hc_recovered_from = ck_recovered_from c,
             hc_disk_ok = disk, hc_conf_writable = conf\<rparr>)))"

subsection \<open>The collector\<close>

text \<open>
  A metric: its name, its value and its labels. The values are 64-bit integers that are converted to
  floating point; \<open>f\<close> is the conversion.
\<close>

record 'v metric =
  mt_name :: string
  mt_value :: 'v
  mt_labels :: "string list"

definition metric_of :: "(int \<Rightarrow> 'v) \<Rightarrow> string \<Rightarrow> int \<Rightarrow> string list \<Rightarrow> 'v metric" where
  "metric_of f name v labels = \<lparr>mt_name = name, mt_value = f v, mt_labels = labels\<rparr>"

definition peer_labels :: "peer \<Rightarrow> string list" where
  "peer_labels p = [pr_friendly_name p, pr_public_key p, case pr_profile p of None \<Rightarrow> [] | Some n \<Rightarrow> n]"

definition peer_metrics :: "(int \<Rightarrow> 'v) \<Rightarrow> peer \<Rightarrow> int \<Rightarrow> int \<Rightarrow> int \<Rightarrow> int \<Rightarrow> 'v metric list" where
  "peer_metrics f p rx tx handshake online =
     [metric_of f ''wireguard_peer_receive_bytes_total'' rx (peer_labels p),
      metric_of f ''wireguard_peer_transmit_bytes_total'' tx (peer_labels p),
      metric_of f ''wireguard_peer_last_handshake_seconds'' handshake (peer_labels p),
      metric_of f ''wireguard_peer_is_online'' online (peer_labels p),
      metric_of f ''wireguard_peer_enabled'' (if pr_enabled p then 1 else 0) (peer_labels p)]"

definition total_metrics :: "(int \<Rightarrow> 'v) \<Rightarrow> int \<Rightarrow> int \<Rightarrow> int \<Rightarrow> int \<Rightarrow> 'v metric list" where
  "total_metrics f peers online rx tx =
     [metric_of f ''wireguard_peers_total'' peers [], metric_of f ''wireguard_peers_online'' online [],
      metric_of f ''wireguard_transfer_receive_bytes_total'' rx [], metric_of f ''wireguard_transfer_transmit_bytes_total'' tx []]"

text \<open>What the loop reads of a peer on the device; seconds since the epoch.\<close>

definition live_values :: "int \<Rightarrow> wg_peer option \<Rightarrow> int \<times> int \<times> int \<times> int" where
  "live_values now live =
     (case live of
        None \<Rightarrow> (0, 0, 0, 0)
      | Some w \<Rightarrow> (wp_rx w, wp_tx w, if wp_handshake w = 0 then 0 else int (wp_handshake w div 1000000000), if is_online now w then 1 else 0))"

fun collect_peers :: "(int \<Rightarrow> 'v) \<Rightarrow> int \<Rightarrow> (string \<rightharpoonup> wg_peer) \<Rightarrow> peer list \<Rightarrow> int \<Rightarrow> int \<Rightarrow> int \<Rightarrow> 'v metric list \<times> int \<times> int \<times> int" where
  "collect_peers f now live [] online rx tx = ([], online, rx, tx)"
| "collect_peers f now live (p # ps) online rx tx =
     (case live_values now (live (pr_public_key p)) of (prx, ptx, handshake, up) \<Rightarrow>
        (case collect_peers f now live ps (online + up) (wrap64 (rx + prx)) (wrap64 (tx + ptx)) of (ms, totals) \<Rightarrow>
           (peer_metrics f p prx ptx handshake up @ ms, totals)))"

definition emitDBOnly :: "(int \<Rightarrow> 'v) \<Rightarrow> peer list \<Rightarrow> 'v metric list" where
  "emitDBOnly f ps = concat (map (\<lambda>p. peer_metrics f p 0 0 0 0) ps) @ total_metrics f (int (length ps)) 0 0 0"

definition Collect :: "(int \<Rightarrow> 'v) \<Rightarrow> ('k, 'f) env \<Rightarrow> int \<Rightarrow> (('k, 'f) world, unit, 'v metric list) prog" where
  "Collect f env now =
     bindE (tryE (on_db ListPeers)) (\<lambda>r. case r of
        Inl _ \<Rightarrow> ret []
      | Inr ps \<Rightarrow> bindE (tryE (get_dev env)) (\<lambda>d. case d of
            Inl _ \<Rightarrow> ret (emitDBOnly f ps)
          | Inr dev \<Rightarrow> ret (case collect_peers f now (live_map env dev) ps 0 0 0 of (ms, online, rx, tx) \<Rightarrow>
              ms @ total_metrics f (int (length ps)) online rx tx)))"

subsection \<open>What a collection holds\<close>

lemma wrap64_add: "wrap64 (wrap64 x + y) = wrap64 (x + y)"
  unfolding wrap64_def by (simp add: mod_simps algebra_simps)

lemma collect_peers_run:
  "collect_peers f now live ps online rx tx =
     (concat (map (\<lambda>p. case live_values now (live (pr_public_key p)) of (prx, ptx, h, up) \<Rightarrow> peer_metrics f p prx ptx h up) ps),
      online + (\<Sum>p\<leftarrow>ps. snd (snd (snd (live_values now (live (pr_public_key p)))))),
      (if ps = [] then rx else wrap64 (rx + (\<Sum>p\<leftarrow>ps. fst (live_values now (live (pr_public_key p)))))),
      (if ps = [] then tx else wrap64 (tx + (\<Sum>p\<leftarrow>ps. fst (snd (live_values now (live (pr_public_key p))))))))"
proof (induction ps arbitrary: online rx tx)
  case (Cons p ps)
  obtain prx ptx h up where v: "live_values now (live (pr_public_key p)) = (prx, ptx, h, up)" by (cases "live_values now (live (pr_public_key p))")
  show ?case using Cons.IH by (simp add: v wrap64_add algebra_simps)
qed simp

definition series :: "'v metric \<Rightarrow> string \<times> string list" where
  "series m = (mt_name m, mt_labels m)"

text \<open>The names of the metrics of one peer, and those of the totals, are different.\<close>

lemma peer_series: "map series (peer_metrics f p a b c d) = map (\<lambda>n. (n, peer_labels p))
    [''wireguard_peer_receive_bytes_total'', ''wireguard_peer_transmit_bytes_total'', ''wireguard_peer_last_handshake_seconds'',
     ''wireguard_peer_is_online'', ''wireguard_peer_enabled'']"
  by (simp add: series_def peer_metrics_def metric_of_def)

lemma distinct_concat_labels:
  assumes "distinct (map l ps)" "distinct ns"
  shows "distinct (concat (map (\<lambda>p. map (\<lambda>n. (n, l p)) ns) ps))"
  using assms(1)
proof (induction ps)
  case (Cons p ps)
  have "distinct (map (\<lambda>n. (n, l p)) ns)" using assms(2) by (simp add: distinct_map inj_on_def)
  then show ?case using Cons by auto
qed simp

lemma series_distinct:
  assumes "distinct (map pr_public_key ps)" "\<And>p. p \<in> set ps \<Longrightarrow> map series (g p) = map (\<lambda>n. (n, peer_labels p)) ns" "distinct ns"
    "map series ts = map (\<lambda>n. (n, [])) ks" "distinct ks"
  shows "distinct (map series (concat (map g ps) @ ts))"
proof -
  have keys: "distinct (map peer_labels ps)"
    using assms(1) by (auto simp: distinct_map inj_on_def peer_labels_def)
  have "map series (concat (map g ps)) = concat (map (\<lambda>p. map (\<lambda>n. (n, peer_labels p)) ns) ps)"
    using assms(2) by (induction ps) simp_all
  moreover have "distinct (map (\<lambda>n. (n, [] :: string list)) ks)" using assms(5) by (simp add: distinct_map inj_on_def)
  ultimately show ?thesis using distinct_concat_labels[OF keys assms(3)] assms(4) by (auto simp: peer_labels_def)
qed

lemma Collect_run:
  "Collect f env now w =
     (let w1 = w\<lparr>w_db := (w_db w)\<lparr>db_faults := tl (db_faults (w_db w))\<rparr>\<rparr>; ps = sort_key pr_created_at (db_peers (w_db w)) in
      if next_fault (db_faults (w_db w)) then (Inr [], w1)
      else (Inr (case fst (get_dev env w1) of
          Inl _ \<Rightarrow> emitDBOnly f ps
        | Inr dev \<Rightarrow> (case collect_peers f now (live_map env dev) ps 0 0 0 of (ls, online, rx, tx) \<Rightarrow>
            ls @ total_metrics f (int (length ps)) online rx tx)), snd (get_dev env w1)))"
  by (simp add: Collect_def bindE_def on_db_def ListPeers_def stmt_def Let_def split: sum.split)

text \<open>
  C35: A collection is well formed: over a database that holds its invariant, no two metrics of one
  scrape have the same name and labels, with the device and without it, and a scrape changes no table.
\<close>
theorem collect_well_formed:
  assumes "db_inv (w_db w)" "Collect f env now w = (Inr ms, w')"
  shows "distinct (map series ms) \<and> tables (w_db w') = tables (w_db w)"
proof -
  let ?ps = "sort_key pr_created_at (db_peers (w_db w))"
  have totals: "map series (total_metrics f a b c d) = map (\<lambda>n. (n, [])) [''wireguard_peers_total'', ''wireguard_peers_online'',
      ''wireguard_transfer_receive_bytes_total'', ''wireguard_transfer_transmit_bytes_total'']" for a b c d
    by (simp add: series_def total_metrics_def metric_of_def)
  have "distinct (map pr_public_key (db_peers (w_db w)))"
    using assms(1) by (simp add: db_inv_def unique_ok_def)
  then have ps: "distinct (map pr_public_key ?ps)" by (simp add: distinct_map distinct_sort)
  have "distinct (map series (emitDBOnly f ?ps))"
    unfolding emitDBOnly_def by (rule series_distinct[OF ps peer_series _ totals]) simp_all
  moreover have "distinct (map series (case collect_peers f now live ?ps 0 0 0 of (ls, online, rx, tx) \<Rightarrow>
      ls @ total_metrics f (int (length ?ps)) online rx tx))" for live
    unfolding collect_peers_run prod.case
    by (rule series_distinct[OF ps _ _ totals], unfold case_prod_beta, rule peer_series) simp_all
  ultimately show ?thesis
    using assms(2) by (auto simp: Collect_run Let_def tables_def split: if_splits sum.splits)
qed

theorem collect_well_formed_witness:
  "\<exists>ms w'. Collect (\<lambda>x. x) sample_env 0 (sample_world [sample_key CHR ''A'']) = (Inr ms, w') \<and> distinct (map series ms)"
proof -
  have "\<exists>ms w'. Collect (\<lambda>x. x) sample_env 0 (sample_world [sample_key CHR ''A'']) = (Inr ms, w')"
    by (simp add: Collect_run Let_def)
  then obtain ms w' where run: "Collect (\<lambda>x. x) sample_env 0 (sample_world [sample_key CHR ''A'']) = (Inr ms, w')" by blast
  from collect_well_formed[OF sample_db run] run show ?thesis by blast
qed

text \<open>
  Without WireGuard the metrics are those of a device without peers: the series of a peer neither
  disappear nor keep old values.
\<close>
theorem metrics_without_device:
  "emitDBOnly f ps = (case collect_peers f now (live_map env (dev\<lparr>dev_peers := []\<rparr>)) ps 0 0 0 of
     (ls, online, rx, tx) \<Rightarrow> ls @ total_metrics f (int (length ps)) online rx tx)"
  by (simp add: emitDBOnly_def collect_peers_run live_map_def live_values_def wrap64_def sum_list_0)

text \<open>
  The two health checks agree: the checker and the handler of \<open>/api/health\<close> give the same verdict on
  the same state, for a checker that watches the configuration file and no disk, when the quick check
  of the database answers that it is intact.
\<close>
theorem health_checks_agree:
  assumes "fst (Check env c ''ok'' creatable w) = Inr h" "fst (api_Health env creatable w) = Inr h'"
    "ck_conf_path c \<noteq> []" "ck_disk c = None"
  shows "(hc_status h = ''ok'' \<longleftrightarrow> hs_ok h') \<and> (hc_status h = ''unavailable'' \<longleftrightarrow> \<not> hs_wireguard h' \<and> \<not> hs_sqlite h')"
  using assms by (auto simp: Check_def api_Health_def bindE_def on_db_def stmt_def Let_def split: sum.splits if_splits)

theorem health_checks_agree_witness:
  "\<exists>h h'. fst (Check sample_env (NewChecker\<lparr>ck_conf_path := ''/etc/wireguard/wg0.conf''\<rparr>) ''ok'' False (sample_world [])) = Inr h \<and>
     fst (api_Health sample_env False (sample_world [])) = Inr h' \<and> (hc_status h = ''ok'' \<longleftrightarrow> hs_ok h')"
proof -
  let ?c = "NewChecker\<lparr>ck_conf_path := ''/etc/wireguard/wg0.conf''\<rparr>"
  obtain h where h: "fst (Check sample_env ?c ''ok'' False (sample_world [])) = Inr h"
    by (simp add: Check_def bindE_def Let_def split: sum.splits) 
  obtain h' where h': "fst (api_Health sample_env False (sample_world [])) = Inr h'"
    by (simp add: api_Health_def bindE_def)
  from health_checks_agree[OF h h'] h h' show ?thesis by (auto simp: NewChecker_def)
qed

subsection \<open>Degraded mode, seen from outside\<close>

definition health_code :: "api_err + health_response \<Rightarrow> int" where
  "health_code r = (case r of Inr h \<Rightarrow> if hs_ok h then 200 else 503 | Inl _ \<Rightarrow> 500)"

lemma degraded_code: "e_wg env = degraded_client \<Longrightarrow> health_code (fst (api_Health env cw w)) = 503"
  by (simp add: health_code_def api_Health_def bindE_def get_dev_def degraded_client_def)

text \<open>
  Degraded mode looks like an absent agent: without WireGuard the agent serves, but its health
  endpoint answers 503 to every question, so the proxy, which asks for 200, never reports that it is
  connected.
\<close>
theorem degraded_never_connected:
  assumes "e_wg env = degraded_client"
    "\<forall>ob \<in> set obs. \<exists>cw w. ob_health ob = Some (health_code (fst (api_Health env cw w)))"
  shows "StateConnected \<notin> set (fst (Run obs))"
proof -
  have down: "\<not> healthCheck ob" if "ob \<in> set obs" for ob
    using that assms degraded_code[OF assms(1)] by (auto simp: healthCheck_def)
  have "\<not> up_since xs" if "set xs \<subseteq> set obs" for xs
    using that down by (force simp: up_since_def neq_Nil_conv)
  moreover have "set (take k (takeWhile (\<lambda>ob. \<not> ob_cancelled ob) obs)) \<subseteq> set obs" for k
    by (meson in_set_takeD set_takeWhileD subsetI)
  ultimately have "\<not> up_since (take k (takeWhile (\<lambda>ob. \<not> ob_cancelled ob) obs))" for k by blast
  then show ?thesis by (simp add: Run_def run_loop_states run_steps Let_def image_iff del: upt_Suc)
qed

theorem degraded_never_connected_witness:
  "StateConnected \<notin> set (fst (Run [\<lparr>ob_cancelled = False, ob_socket = True, ob_health = Some 503\<rparr>,
     \<lparr>ob_cancelled = False, ob_socket = True, ob_health = Some 503\<rparr>]))"
proof (rule degraded_never_connected[where env = "sample_env\<lparr>e_wg := degraded_client\<rparr>"])
  have "health_code (fst (api_Health (sample_env\<lparr>e_wg := degraded_client\<rparr>) True (sample_world []))) = 503"
    by (rule degraded_code) simp
  then show "\<forall>ob \<in> set [\<lparr>ob_cancelled = False, ob_socket = True, ob_health = Some 503\<rparr>,
     \<lparr>ob_cancelled = False, ob_socket = True, ob_health = Some (503 :: int)\<rparr>].
       \<exists>cw w. ob_health ob = Some (health_code (fst (api_Health (sample_env\<lparr>e_wg := degraded_client\<rparr>) cw w)))"
    by (metis (no_types, lifting) list.distinct(1) list.inject observation.select_convs(3) set_ConsD empty_iff list.set(1))
qed simp

end
