(* ===== verification/Ctl.thy ===== *)
theory Ctl
  imports Agent
begin

text \<open>
  The command line client (cmd/wg-sockd-ctl/main.go): its flags (the flag package), its commands as
  programs over a server that answers requests, and the bodies they send, which the agent's types
  (api/types.go) read back. Texts outside ASCII are their UTF-8 bytes.
\<close>

subsection \<open>Flags\<close>

datatype flag_kind = StrFlag | IntFlag | BoolFlag

type_synonym flag_set = "(string \<times> flag_kind) list"

datatype flag_error = BadSyntax | NoSuchFlag | NoArgument | BadValue | HelpAsked

text \<open>\<open>strconv.ParseInt(s, 0, 64)\<close>: prefixes and underscores between digits.\<close>

definition digit_of :: "char \<Rightarrow> nat option" where
  "digit_of c =
     (let n = of_char c :: nat in
      if 48 \<le> n \<and> n \<le> 57 then Some (n - 48)
      else if 97 \<le> n \<and> n \<le> 122 then Some (n - 87)
      else if 65 \<le> n \<and> n \<le> 90 then Some (n - 55) else None)"

fun underscores_ok :: "bool \<Rightarrow> bool \<Rightarrow> string \<Rightarrow> bool" where
  "underscores_ok dig us [] = (\<not> us)"
| "underscores_ok dig us (c # s) =
     (if c = CHR ''_'' then dig \<and> \<not> us \<and> underscores_ok False True s
      else underscores_ok True False s)"

definition int_base :: "string \<Rightarrow> nat \<times> string" where
  "int_base s =
     (case s of
        c # d # e # r \<Rightarrow>
          if c = CHR ''0'' \<and> d \<in> {CHR ''b'', CHR ''B''} then (2, e # r)
          else if c = CHR ''0'' \<and> d \<in> {CHR ''o'', CHR ''O''} then (8, e # r)
          else if c = CHR ''0'' \<and> d \<in> {CHR ''x'', CHR ''X''} then (16, e # r)
          else if c = CHR ''0'' then (8, d # e # r) else (10, s)
      | c # r \<Rightarrow> if c = CHR ''0'' then (8, r) else (10, s)
      | [] \<Rightarrow> (10, []))"

definition parse_uint0 :: "string \<Rightarrow> nat option" where
  "parse_uint0 s =
     (if s = [] then None
      else (case int_base s of (b, ds) \<Rightarrow>
        let vs = map digit_of (filter (\<lambda>c. c \<noteq> CHR ''_'') ds) in
        if (\<exists>v \<in> set vs. case v of None \<Rightarrow> True | Some n \<Rightarrow> b \<le> n) then None
        else if CHR ''_'' \<in> set s \<and> \<not> underscores_ok (b \<noteq> 10) False ds then None
        else Some (foldl (\<lambda>a v. a * b + the v) 0 vs)))"

definition parse_int0 :: "string \<Rightarrow> int option" where
  "parse_int0 s =
     (case (case s of c # r \<Rightarrow> if c = CHR ''-'' then (True, r) else if c = CHR ''+'' then (False, r) else (False, s) | [] \<Rightarrow> (False, [])) of
        (neg, r) \<Rightarrow> (case parse_uint0 r of
            None \<Rightarrow> None
          | Some n \<Rightarrow> let v = (if neg then - int n else int n) in if - (2 ^ 63) \<le> v \<and> v < 2 ^ 63 then Some v else None))"

definition valid_value :: "flag_kind \<Rightarrow> string \<Rightarrow> bool" where
  "valid_value k v = (case k of StrFlag \<Rightarrow> True | IntFlag \<Rightarrow> parse_int0 v \<noteq> None | BoolFlag \<Rightarrow> parse_bool v \<noteq> None)"

datatype argument = Positional | Terminator | Malformed | Flagged string "string option"

definition argument_of :: "string \<Rightarrow> argument" where
  "argument_of s =
     (if length s < 2 \<or> hd s \<noteq> CHR ''-'' then Positional
      else if s = ''--'' then Terminator
      else (let name = (if s ! 1 = CHR ''-'' then drop 2 s else drop 1 s) in
        if name = [] \<or> hd name = CHR ''-'' \<or> hd name = CHR ''='' then Malformed
        else if CHR ''='' \<in> set (tl name)
          then Flagged (hd name # takeWhile (\<lambda>c. c \<noteq> CHR ''='') (tl name)) (Some (tl (dropWhile (\<lambda>c. c \<noteq> CHR ''='') (tl name))))
          else Flagged name None))"

definition set_flag :: "flag_kind \<Rightarrow> string \<Rightarrow> string \<Rightarrow> flag_error + ((string \<times> string) list \<times> string list) \<Rightarrow>
    flag_error + ((string \<times> string) list \<times> string list)" where
  "set_flag k name v r =
     (if \<not> valid_value k v then Inl BadValue
      else (case r of Inl e \<Rightarrow> Inl e | Inr (fs, rest) \<Rightarrow> Inr ((name, v) # fs, rest)))"

text \<open>The flags set, in order, and the arguments that are left.\<close>

fun parse_flags :: "flag_set \<Rightarrow> string list \<Rightarrow> flag_error + ((string \<times> string) list \<times> string list)" where
  "parse_flags spec [] = Inr ([], [])"
| "parse_flags spec (s # args) =
     (case argument_of s of
        Positional \<Rightarrow> Inr ([], s # args)
      | Terminator \<Rightarrow> Inr ([], args)
      | Malformed \<Rightarrow> Inl BadSyntax
      | Flagged name value \<Rightarrow>
          (case map_of spec name of
             None \<Rightarrow> Inl (if name = ''help'' \<or> name = ''h'' then HelpAsked else NoSuchFlag)
           | Some BoolFlag \<Rightarrow> set_flag BoolFlag name (case value of None \<Rightarrow> ''true'' | Some v \<Rightarrow> v) (parse_flags spec args)
           | Some k \<Rightarrow>
               (case value of
                  Some v \<Rightarrow> set_flag k name v (parse_flags spec args)
                | None \<Rightarrow> (case args of [] \<Rightarrow> Inl NoArgument | v # rest \<Rightarrow> set_flag k name v (parse_flags spec rest)))))"

type_synonym settings = "(string \<times> string) list"

definition str_flag :: "settings \<Rightarrow> string \<Rightarrow> string" where
  "str_flag fs name = (case map_of (rev fs) name of None \<Rightarrow> [] | Some v \<Rightarrow> v)"

definition int_flag :: "settings \<Rightarrow> string \<Rightarrow> int \<Rightarrow> int" where
  "int_flag fs name unset = (case map_of (rev fs) name of None \<Rightarrow> unset | Some v \<Rightarrow> the (parse_int0 v))"

definition bool_flag :: "settings \<Rightarrow> string \<Rightarrow> bool" where
  "bool_flag fs name = (case map_of (rev fs) name of None \<Rightarrow> False | Some v \<Rightarrow> parse_bool v = Some True)"

definition explicit :: "settings \<Rightarrow> string \<Rightarrow> bool" where
  "explicit fs name \<longleftrightarrow> name \<in> fst ` set fs"

subsection \<open>Requests and answers\<close>

datatype json = JStr string | JInt int | JBool bool | JStrs "string list"

type_synonym object = "(string \<times> json) list"

record http_request =
  hq_method :: string
  hq_path :: string
  hq_body :: "object option"
  hq_token :: string

record cli_peer =
  pe_id :: int
  pe_public_key :: string
  pe_friendly_name :: string
  pe_allowed_ips :: "string list"
  pe_profile :: "string option"
  pe_enabled :: bool
  pe_auto :: bool
  pe_endpoint :: string
  pe_handshake :: "int option"
  pe_rx :: int
  pe_tx :: int

record cli_profile =
  pv_name :: string
  pv_allowed_ips :: "string list"
  pv_exclude_ips :: "string list"
  pv_resolved :: "string list"
  pv_description :: string
  pv_default :: bool
  pv_peers :: int
  pv_client_ips :: string
  pv_use_psk :: bool

text \<open>What an answer decodes to, and the error of one that is not a success.\<close>

datatype reply =
    RPeers "cli_peer list" | RPeer cli_peer | RConf string string | RProfiles "cli_profile list" | RProfile cli_profile
  | RHealth string string string | RStats int int int int | ROther

record http_answer =
  an_status :: int
  an_error :: "(string \<times> string) option"
  an_reply :: reply

datatype cli_err =
    Usage | FlagExit flag_error | RequestFailed | ApiFailed int "(string \<times> string) option" | Undecodable
  | NoMatch | AmbiguousPrefix "cli_peer list" | EmptyPassword | HashFailed

text \<open>What a command prints: an answer as JSON, a status of its own as JSON, a table, lines.\<close>

datatype shown = AsJson reply | StatusJson string "string \<times> json" | AsTable "string list list" | AsText "string list" | Cancelled | HashLine string

text \<open>
  The globals of a run, the clock, what the user types at a prompt, and what \<open>time.Format\<close> and
  \<open>strconv.Quote\<close> (the verb \<open>%q\<close>) give.
\<close>

record cli =
  cl_json :: bool
  cl_token :: string
  cl_now :: int
  cl_stdin :: string
  cl_time_text :: "int \<Rightarrow> string"
  cl_quote :: "string \<Rightarrow> string"

type_synonym 's server = "http_request \<Rightarrow> ('s, unit, http_answer) prog"

definition doRequest :: "'s server \<Rightarrow> cli \<Rightarrow> string \<Rightarrow> string \<Rightarrow> object option \<Rightarrow> ('s, cli_err, http_answer) prog" where
  "doRequest sv c method path body =
     mapErr (\<lambda>_. RequestFailed) (sv \<lparr>hq_method = method, hq_path = path, hq_body = body, hq_token = cl_token c\<rparr>)"

definition checkError :: "http_answer \<Rightarrow> ('s, cli_err, unit) prog" where
  "checkError a =
     (if 200 \<le> an_status a \<and> an_status a < 300 then ret ()
      else (case an_error a of
          Some (e, msg) \<Rightarrow> if e \<noteq> [] then fail (ApiFailed (an_status a) (Some (e, msg))) else fail (ApiFailed (an_status a) None)
        | None \<Rightarrow> fail (ApiFailed (an_status a) None)))"

definition call_api :: "'s server \<Rightarrow> cli \<Rightarrow> string \<Rightarrow> string \<Rightarrow> object option \<Rightarrow> ('s, cli_err, reply) prog" where
  "call_api sv c method path body =
     bindE (doRequest sv c method path body) (\<lambda>a. thenE (checkError a) (ret (an_reply a)))"

text \<open>The answer: ASCII letters are lowered.\<close>

definition lower :: "string \<Rightarrow> string" where
  "lower s = map (\<lambda>c. let n = of_char c :: nat in if 65 \<le> n \<and> n \<le> 90 then char_of (n + 32) else c) s"

definition confirm :: "cli \<Rightarrow> bool" where
  "confirm c \<longleftrightarrow> trim_space (lower (takeWhile (\<lambda>x. x \<noteq> nl) (cl_stdin c))) \<in> {''y'', ''yes''}"

subsection \<open>Texts\<close>

text \<open>Tenths of a unit, rounded to the nearest, ties to even; below \<open>2 ^ 53\<close> the quotient is exact.\<close>

definition tenths :: "int \<Rightarrow> int \<Rightarrow> int" where
  "tenths b unit =
     (let q = 10 * b div unit; r = 10 * b mod unit in
      if 2 * r > unit \<or> 2 * r = unit \<and> odd q then q + 1 else q)"

definition in_unit :: "int \<Rightarrow> int \<Rightarrow> string \<Rightarrow> string" where
  "in_unit b unit suffix = itoa (tenths b unit div 10) @ ''.'' @ itoa (tenths b unit mod 10) @ suffix"

definition humanBytes :: "int \<Rightarrow> string" where
  "humanBytes b =
     (if 1024 * 1024 * 1024 \<le> b then in_unit b (1024 * 1024 * 1024) ''G''
      else if 1024 * 1024 \<le> b then in_unit b (1024 * 1024) ''M''
      else if 1024 \<le> b then in_unit b 1024 ''K''
      else itoa b @ ''B'')"

definition dash :: string where
  "dash = [CHR 0xE2, CHR 0x80, CHR 0x94]"

definition ellipsis :: string where
  "ellipsis = [CHR 0xE2, CHR 0x80, CHR 0xA6]"

definition check_mark :: string where
  "check_mark = [CHR 0xE2, CHR 0x9C, CHR 0x93]"

text \<open>A line after the mark of success.\<close>

definition marked :: "string \<Rightarrow> string" where
  "marked s = [CHR 0xE2, CHR 0x9C, CHR 0x85, CHR '' ''] @ s"

definition warning :: string where
  "warning = [CHR 0xE2, CHR 0x9A, CHR 0xA0, CHR 0xEF, CHR 0xB8, CHR 0x8F] @ ''  Save this config now '' @ dash @
     '' the private key won'' @ [CHR 0x27] @ ''t be shown again.''"

definition orDash :: "string \<Rightarrow> string" where
  "orDash s = (if s = [] then dash else s)"

definition splitTrim :: "string \<Rightarrow> string list" where
  "splitTrim s = filter (\<lambda>p. p \<noteq> []) (map trim_space (split_on (CHR '','') s))"

definition shortened :: "nat \<Rightarrow> string \<Rightarrow> string" where
  "shortened n s = (if n < length s then take n s @ ellipsis else s)"

definition peer_status :: "int \<Rightarrow> cli_peer \<Rightarrow> string" where
  "peer_status now p =
     (if \<not> pe_enabled p then ''disabled''
      else (case pe_handshake p of
          None \<Rightarrow> ''offline''
        | Some t \<Rightarrow> if now - t < 3 * 60 * 1000000000 then ''online'' else ''offline''))"

subsection \<open>Commands on peers\<close>

text \<open>A command's own flags; an error of them ends the program.\<close>

definition with_flags :: "flag_set \<Rightarrow> string list \<Rightarrow> (settings \<Rightarrow> string list \<Rightarrow> ('s, cli_err, shown) prog) \<Rightarrow> ('s, cli_err, shown) prog" where
  "with_flags spec args f = (case parse_flags spec args of Inl e \<Rightarrow> fail (FlagExit e) | Inr (fs, rest) \<Rightarrow> f fs rest)"

definition field_if :: "bool \<Rightarrow> 'a \<Rightarrow> 'a list" where
  "field_if b x = (if b then [x] else [])"

definition peersList :: "'s server \<Rightarrow> cli \<Rightarrow> ('s, cli_err, shown) prog" where
  "peersList sv c =
     bindE (call_api sv c ''GET'' ''/api/peers'' None) (\<lambda>r. case r of
       RPeers ps \<Rightarrow>
         if cl_json c then ret (AsJson r)
         else ret (AsTable ([''NAME'', ''PUBLIC_KEY'', ''ALLOWED_IPS'', ''STATUS'', ''RX'', ''TX''] # map (\<lambda>p.
           [if pe_auto p then pe_friendly_name p @ '' [auto]'' else pe_friendly_name p, shortened 12 (pe_public_key p),
            join '','' (pe_allowed_ips p), peer_status (cl_now c) p, humanBytes (pe_rx p), humanBytes (pe_tx p)]) ps))
     | _ \<Rightarrow> fail Undecodable)"

definition peersGet :: "'s server \<Rightarrow> cli \<Rightarrow> string list \<Rightarrow> ('s, cli_err, shown) prog" where
  "peersGet sv c args = with_flags [(''id'', IntFlag)] args (\<lambda>fs _.
     (let i = int_flag fs ''id'' 0 in
      thenE (guardE (i \<noteq> 0) Usage)
     (bindE (call_api sv c ''GET'' (''/api/peers/'' @ itoa i) None) (\<lambda>r. case r of
        RPeer p \<Rightarrow>
          if cl_json c then ret (AsJson r)
          else ret (AsText ([''Name:           '' @ pe_friendly_name p, ''ID:             '' @ itoa (pe_id p),
            ''Public Key:     '' @ pe_public_key p, ''Status:         '' @ peer_status (cl_now c) p,
            ''Enabled:        '' @ (if pe_enabled p then ''true'' else ''false''),
            ''Profile:        '' @ (case pe_profile p of None \<Rightarrow> dash | Some n \<Rightarrow> n),
            ''Allowed IPs:    '' @ join '', '' (pe_allowed_ips p), ''Endpoint:       '' @ orDash (pe_endpoint p),
            ''Last Handshake: '' @ (case pe_handshake p of None \<Rightarrow> ''never'' | Some t \<Rightarrow> cl_time_text c t),
            ''Transfer:       '' @ [CHR 0xE2, CHR 0x86, CHR 0x93] @ humanBytes (pe_rx p) @ ''  '' @ [CHR 0xE2, CHR 0x86, CHR 0x91] @ humanBytes (pe_tx p)]
            @ field_if (pe_auto p) ''Auto-discovered: yes''))
      | _ \<Rightarrow> fail Undecodable))))"

definition shown_conf :: "cli \<Rightarrow> string \<Rightarrow> string list \<Rightarrow> reply \<Rightarrow> ('s, cli_err, shown) prog" where
  "shown_conf c what extra r = (case r of
     RConf key config \<Rightarrow> if cl_json c then ret (AsJson r)
       else ret (AsText ([marked (what @ key), []] @ extra @ [''--- Client Config ---'', config]))
   | _ \<Rightarrow> fail Undecodable)"

definition add_flags :: flag_set where
  "add_flags = [(''name'', StrFlag), (''profile'', StrFlag), (''allowed-ips'', StrFlag), (''endpoint'', StrFlag),
     (''persistent-keepalive'', IntFlag), (''client-dns'', StrFlag), (''client-mtu'', IntFlag), (''client-address'', StrFlag),
     (''preshared-key'', StrFlag), (''client-allowed-ips'', StrFlag)]"

text \<open>The marshalled CreatePeerRequest: empty fields are left out, but the name.\<close>

definition add_body :: "settings \<Rightarrow> object" where
  "add_body fs =
     (let s = str_flag fs in
      [(''friendly_name'', JStr (s ''name''))] @
      field_if (s ''profile'' = [] \<and> s ''allowed-ips'' \<noteq> []) (''allowed_ips'', JStrs (split_on (CHR '','') (s ''allowed-ips''))) @
      field_if (s ''profile'' \<noteq> []) (''profile'', JStr (s ''profile'')) @
      field_if (s ''endpoint'' \<noteq> []) (''configured_endpoint'', JStr (s ''endpoint'')) @
      field_if (0 \<le> int_flag fs ''persistent-keepalive'' (-1)) (''persistent_keepalive'', JInt (int_flag fs ''persistent-keepalive'' (-1))) @
      field_if (s ''client-dns'' \<noteq> []) (''client_dns'', JStr (s ''client-dns'')) @
      field_if (0 \<le> int_flag fs ''client-mtu'' (-1)) (''client_mtu'', JInt (int_flag fs ''client-mtu'' (-1))) @
      field_if (s ''client-address'' \<noteq> []) (''client_address'', JStr (s ''client-address'')) @
      field_if (s ''preshared-key'' \<noteq> []) (''preshared_key'', JStr (s ''preshared-key'')) @
      field_if (s ''client-allowed-ips'' \<noteq> []) (''client_allowed_ips'', JStr (s ''client-allowed-ips'')))"

definition peersAdd :: "'s server \<Rightarrow> cli \<Rightarrow> string list \<Rightarrow> ('s, cli_err, shown) prog" where
  "peersAdd sv c args = with_flags add_flags args (\<lambda>fs _.
     thenE (guardE (str_flag fs ''name'' \<noteq> []) Usage)
    (thenE (guardE (str_flag fs ''client-allowed-ips'' \<noteq> []) Usage)
    (thenE (guardE (str_flag fs ''client-address'' \<noteq> []) Usage)
    (bindE (call_api sv c ''POST'' ''/api/peers'' (Some (add_body fs))) (shown_conf c ''Peer created: '' [])))))"

definition update_flags :: flag_set where
  "update_flags = [(''id'', IntFlag), (''name'', StrFlag), (''profile'', StrFlag), (''allowed-ips'', StrFlag), (''notes'', StrFlag),
     (''enable'', BoolFlag), (''disable'', BoolFlag), (''endpoint'', StrFlag), (''persistent-keepalive'', IntFlag),
     (''client-dns'', StrFlag), (''client-mtu'', IntFlag), (''client-address'', StrFlag), (''client-allowed-ips'', StrFlag)]"

definition update_body :: "settings \<Rightarrow> object" where
  "update_body fs =
     (let s = str_flag fs in
      field_if (s ''name'' \<noteq> []) (''friendly_name'', JStr (s ''name'')) @
      field_if (s ''profile'' \<noteq> []) (''profile'', JStr (s ''profile'')) @
      field_if (s ''allowed-ips'' \<noteq> []) (''allowed_ips'', JStrs (split_on (CHR '','') (s ''allowed-ips''))) @
      field_if (s ''notes'' \<noteq> []) (''notes'', JStr (s ''notes'')) @
      field_if (bool_flag fs ''enable'' \<or> bool_flag fs ''disable'') (''enabled'', JBool (\<not> bool_flag fs ''disable'')) @
      field_if (explicit fs ''endpoint'') (''configured_endpoint'', JStr (s ''endpoint'')) @
      field_if (explicit fs ''client-dns'') (''client_dns'', JStr (s ''client-dns'')) @
      field_if (0 \<le> int_flag fs ''persistent-keepalive'' (-1)) (''persistent_keepalive'', JInt (int_flag fs ''persistent-keepalive'' (-1))) @
      field_if (0 \<le> int_flag fs ''client-mtu'' (-1)) (''client_mtu'', JInt (int_flag fs ''client-mtu'' (-1))) @
      field_if (explicit fs ''client-address'') (''client_address'', JStr (s ''client-address'')) @
      field_if (explicit fs ''client-allowed-ips'') (''client_allowed_ips'', JStr (s ''client-allowed-ips'')))"

definition peersUpdate :: "'s server \<Rightarrow> cli \<Rightarrow> string list \<Rightarrow> ('s, cli_err, shown) prog" where
  "peersUpdate sv c args = with_flags update_flags args (\<lambda>fs _.
     (let i = int_flag fs ''id'' 0 in
      thenE (guardE (i \<noteq> 0) Usage)
     (thenE (guardE (\<not> (bool_flag fs ''enable'' \<and> bool_flag fs ''disable'')) Usage)
     (thenE (guardE (update_body fs \<noteq> []) Usage)
     (bindE (call_api sv c ''PUT'' (''/api/peers/'' @ itoa i) (Some (update_body fs))) (\<lambda>r. case r of
        RPeer p \<Rightarrow> if cl_json c then ret (AsJson r) else ret (AsText [marked (''Peer '' @ itoa i @ '' updated'')])
      | _ \<Rightarrow> fail Undecodable))))))"

definition peersDelete :: "'s server \<Rightarrow> cli \<Rightarrow> string list \<Rightarrow> ('s, cli_err, shown) prog" where
  "peersDelete sv c args = with_flags [(''id'', IntFlag), (''yes'', BoolFlag)] args (\<lambda>fs _.
     (let i = int_flag fs ''id'' 0 in
      thenE (guardE (i \<noteq> 0) Usage)
        (if \<not> bool_flag fs ''yes'' \<and> \<not> confirm c then ret Cancelled
         else thenE (bindE (call_api sv c ''DELETE'' (''/api/peers/'' @ itoa i) None) (\<lambda>_. ret ()))
           (ret (if cl_json c then StatusJson ''deleted'' (''id'', JInt i) else AsText [marked (''Peer '' @ itoa i @ '' deleted'')])))))"

definition approve_flags :: flag_set where
  "approve_flags = [(''client-address'', StrFlag), (''name'', StrFlag), (''profile'', StrFlag), (''allowed-ips'', StrFlag),
     (''endpoint'', StrFlag), (''client-dns'', StrFlag), (''client-mtu'', IntFlag), (''persistent-keepalive'', IntFlag),
     (''client-allowed-ips'', StrFlag)]"

definition approve_body :: "settings \<Rightarrow> object" where
  "approve_body fs =
     (let s = str_flag fs in
      [(''client_address'', JStr (s ''client-address'')), (''client_allowed_ips'', JStr (s ''client-allowed-ips''))] @
      field_if (s ''name'' \<noteq> []) (''friendly_name'', JStr (s ''name'')) @
      field_if (s ''profile'' \<noteq> []) (''profile'', JStr (s ''profile'')) @
      field_if (s ''allowed-ips'' \<noteq> []) (''allowed_ips'', JStrs (split_on (CHR '','') (s ''allowed-ips''))) @
      field_if (s ''endpoint'' \<noteq> []) (''configured_endpoint'', JStr (s ''endpoint'')) @
      field_if (s ''client-dns'' \<noteq> []) (''client_dns'', JStr (s ''client-dns'')) @
      field_if (0 \<le> int_flag fs ''client-mtu'' (-1)) (''client_mtu'', JInt (int_flag fs ''client-mtu'' (-1))) @
      field_if (0 \<le> int_flag fs ''persistent-keepalive'' (-1)) (''persistent_keepalive'', JInt (int_flag fs ''persistent-keepalive'' (-1))))"

text \<open>The approval of the one listed peer whose public key has the prefix.\<close>

definition approve_match :: "'s server \<Rightarrow> cli \<Rightarrow> settings \<Rightarrow> string \<Rightarrow> cli_peer list \<Rightarrow> ('s, cli_err, shown) prog" where
  "approve_match sv c fs prefix ps =
     (case filter (\<lambda>p. has_prefix prefix (pe_public_key p)) ps of
        [] \<Rightarrow> fail NoMatch
      | [p] \<Rightarrow>
          bindE (call_api sv c ''POST'' (''/api/peers/'' @ itoa (pe_id p) @ ''/approve'') (Some (approve_body fs))) (\<lambda>r.
            ret (if cl_json c then (case r of RPeer _ \<Rightarrow> AsJson r | _ \<Rightarrow> AsJson (RPeer p))
                 else AsText [marked (''Peer approved: '' @ pe_friendly_name p @ '' ('' @ shortened 12 (pe_public_key p) @ '') '' @ dash @
                   '' client_address='' @ str_flag fs ''client-address'')]))
      | ms \<Rightarrow> fail (AmbiguousPrefix ms))"

definition peersApprove :: "'s server \<Rightarrow> cli \<Rightarrow> string list \<Rightarrow> ('s, cli_err, shown) prog" where
  "peersApprove sv c args = with_flags approve_flags args (\<lambda>fs rest.
     (case rest of
        [] \<Rightarrow> fail Usage
      | prefix # _ \<Rightarrow>
          thenE (guardE (4 \<le> length prefix) Usage)
         (thenE (guardE (str_flag fs ''client-address'' \<noteq> []) Usage)
         (thenE (guardE (str_flag fs ''client-allowed-ips'' \<noteq> []) Usage)
         (bindE (call_api sv c ''GET'' ''/api/peers'' None) (\<lambda>r. case r of
            RPeers ps \<Rightarrow> approve_match sv c fs prefix ps
          | _ \<Rightarrow> fail Undecodable))))))"

definition peersRotateKeys :: "'s server \<Rightarrow> cli \<Rightarrow> string list \<Rightarrow> ('s, cli_err, shown) prog" where
  "peersRotateKeys sv c args = with_flags [(''id'', IntFlag), (''yes'', BoolFlag)] args (\<lambda>fs _.
     (let i = int_flag fs ''id'' 0 in
      thenE (guardE (i \<noteq> 0) Usage)
        (if \<not> bool_flag fs ''yes'' \<and> \<not> confirm c then ret Cancelled
         else bindE (call_api sv c ''POST'' (''/api/peers/'' @ itoa i @ ''/rotate-keys'') None) (shown_conf c ''Keys rotated: '' [warning, []]))))"

definition handlePeers :: "'s server \<Rightarrow> cli \<Rightarrow> string list \<Rightarrow> ('s, cli_err, shown) prog" where
  "handlePeers sv c args =
     (case args of
        [] \<Rightarrow> fail Usage
      | cmd # rest \<Rightarrow>
          if cmd = ''list'' then peersList sv c
          else if cmd = ''get'' then peersGet sv c rest
          else if cmd = ''add'' then peersAdd sv c rest
          else if cmd = ''update'' then peersUpdate sv c rest
          else if cmd = ''delete'' then peersDelete sv c rest
          else if cmd = ''approve'' then peersApprove sv c rest
          else if cmd = ''rotate-keys'' then peersRotateKeys sv c rest
          else fail Usage)"

subsection \<open>Commands on profiles, health, statistics, passwords\<close>

definition profilesList :: "'s server \<Rightarrow> cli \<Rightarrow> ('s, cli_err, shown) prog" where
  "profilesList sv c =
     bindE (call_api sv c ''GET'' ''/api/profiles'' None) (\<lambda>r. case r of
       RProfiles ps \<Rightarrow>
         if cl_json c then ret (AsJson r)
         else ret (AsTable ([''NAME'', ''ALLOWED_IPS'', ''PEERS'', ''DEFAULT''] # map (\<lambda>p.
           [pv_name p, shortened 50 (join '','' (pv_resolved p)), itoa (pv_peers p), if pv_default p then check_mark else []]) ps))
     | _ \<Rightarrow> fail Undecodable)"

definition profile_flags :: flag_set where
  "profile_flags = [(''name'', StrFlag), (''allowed-ips'', StrFlag), (''exclude-ips'', StrFlag), (''description'', StrFlag),
     (''endpoint'', StrFlag), (''persistent-keepalive'', IntFlag), (''client-dns'', StrFlag), (''client-mtu'', IntFlag),
     (''client-allowed-ips'', StrFlag)]"

text \<open>A list, even an empty one, is sent; empty texts are left out.\<close>

definition create_profile_body :: "settings \<Rightarrow> object" where
  "create_profile_body fs =
     (let s = str_flag fs in
      [(''name'', JStr (s ''name'')), (''allowed_ips'', JStrs (splitTrim (s ''allowed-ips'')))] @
      field_if (s ''exclude-ips'' \<noteq> [] \<and> splitTrim (s ''exclude-ips'') \<noteq> []) (''exclude_ips'', JStrs (splitTrim (s ''exclude-ips''))) @
      field_if (s ''description'' \<noteq> []) (''description'', JStr (s ''description'')) @
      field_if (s ''endpoint'' \<noteq> []) (''endpoint'', JStr (s ''endpoint'')) @
      field_if (0 \<le> int_flag fs ''persistent-keepalive'' (-1)) (''persistent_keepalive'', JInt (int_flag fs ''persistent-keepalive'' (-1))) @
      field_if (s ''client-dns'' \<noteq> []) (''client_dns'', JStr (s ''client-dns'')) @
      field_if (0 \<le> int_flag fs ''client-mtu'' (-1)) (''client_mtu'', JInt (int_flag fs ''client-mtu'' (-1))) @
      field_if (s ''client-allowed-ips'' \<noteq> []) (''client_allowed_ips'', JStr (s ''client-allowed-ips'')) @
      [(''use_preshared_key'', JBool (bool_flag fs ''use-preshared-key''))])"

text \<open>An answer that is not a profile is taken for one without a body.\<close>

definition profile_done :: "cli \<Rightarrow> string \<Rightarrow> string \<Rightarrow> reply \<Rightarrow> ('s, cli_err, shown) prog" where
  "profile_done c name what r =
     ret (if cl_json c then (case r of RProfile _ \<Rightarrow> AsJson r | _ \<Rightarrow> StatusJson what (''name'', JStr name))
          else AsText [marked (''Profile '' @ cl_quote c name @ '' '' @ what)])"

definition profilesCreate :: "'s server \<Rightarrow> cli \<Rightarrow> string list \<Rightarrow> ('s, cli_err, shown) prog" where
  "profilesCreate sv c args = with_flags (profile_flags @ [(''use-preshared-key'', BoolFlag)]) args (\<lambda>fs _.
     thenE (guardE (str_flag fs ''name'' \<noteq> [] \<and> str_flag fs ''allowed-ips'' \<noteq> []) Usage)
    (bindE (call_api sv c ''POST'' ''/api/profiles'' (Some (create_profile_body fs))) (profile_done c (str_flag fs ''name'') ''created'')))"

definition update_profile_body :: "settings \<Rightarrow> object" where
  "update_profile_body fs =
     (let s = str_flag fs in
      field_if (s ''allowed-ips'' \<noteq> []) (''allowed_ips'', JStrs (splitTrim (s ''allowed-ips''))) @
      field_if (s ''exclude-ips'' \<noteq> []) (''exclude_ips'', JStrs (splitTrim (s ''exclude-ips''))) @
      field_if (s ''description'' \<noteq> []) (''description'', JStr (s ''description'')) @
      field_if (explicit fs ''endpoint'') (''endpoint'', JStr (s ''endpoint'')) @
      field_if (explicit fs ''client-dns'') (''client_dns'', JStr (s ''client-dns'')) @
      field_if (explicit fs ''client-allowed-ips'') (''client_allowed_ips'', JStr (s ''client-allowed-ips'')) @
      field_if (explicit fs ''use-preshared-key'') (''use_preshared_key'', JBool (s ''use-preshared-key'' \<in> {''true'', ''1''})) @
      field_if (0 \<le> int_flag fs ''persistent-keepalive'' (-1)) (''persistent_keepalive'', JInt (int_flag fs ''persistent-keepalive'' (-1))) @
      field_if (0 \<le> int_flag fs ''client-mtu'' (-1)) (''client_mtu'', JInt (int_flag fs ''client-mtu'' (-1))))"

definition profilesUpdate :: "'s server \<Rightarrow> cli \<Rightarrow> string list \<Rightarrow> ('s, cli_err, shown) prog" where
  "profilesUpdate sv c args = with_flags (profile_flags @ [(''use-preshared-key'', StrFlag)]) args (\<lambda>fs _.
     thenE (guardE (str_flag fs ''name'' \<noteq> []) Usage)
    (thenE (guardE (update_profile_body fs \<noteq> []) Usage)
    (bindE (call_api sv c ''PUT'' (''/api/profiles/'' @ str_flag fs ''name'') (Some (update_profile_body fs)))
      (profile_done c (str_flag fs ''name'') ''updated''))))"

definition profilesDelete :: "'s server \<Rightarrow> cli \<Rightarrow> string list \<Rightarrow> ('s, cli_err, shown) prog" where
  "profilesDelete sv c args = with_flags [(''name'', StrFlag), (''yes'', BoolFlag)] args (\<lambda>fs _.
     (let name = str_flag fs ''name'' in
      thenE (guardE (name \<noteq> []) Usage)
        (if \<not> bool_flag fs ''yes'' \<and> \<not> confirm c then ret Cancelled
         else thenE (bindE (call_api sv c ''DELETE'' (''/api/profiles/'' @ name) None) (\<lambda>_. ret ()))
           (ret (if cl_json c then StatusJson ''deleted'' (''name'', JStr name)
             else AsText [marked (''Profile '' @ cl_quote c name @ '' deleted'')])))))"

definition handleProfiles :: "'s server \<Rightarrow> cli \<Rightarrow> string list \<Rightarrow> ('s, cli_err, shown) prog" where
  "handleProfiles sv c args =
     (case args of
        [] \<Rightarrow> fail Usage
      | cmd # rest \<Rightarrow>
          if cmd = ''list'' then profilesList sv c
          else if cmd = ''create'' then profilesCreate sv c rest
          else if cmd = ''update'' then profilesUpdate sv c rest
          else if cmd = ''delete'' then profilesDelete sv c rest
          else fail Usage)"

definition healthCmd :: "'s server \<Rightarrow> cli \<Rightarrow> ('s, cli_err, shown) prog" where
  "healthCmd sv c =
     bindE (call_api sv c ''GET'' ''/api/health'' None) (\<lambda>r. case r of
       RHealth status wg db \<Rightarrow>
         if cl_json c then ret (AsJson r)
         else ret (AsText [''Status:    '' @ status, ''WireGuard: '' @ wg, ''SQLite:    '' @ db])
     | _ \<Rightarrow> fail Undecodable)"

definition statsCmd :: "'s server \<Rightarrow> cli \<Rightarrow> ('s, cli_err, shown) prog" where
  "statsCmd sv c =
     bindE (call_api sv c ''GET'' ''/api/stats'' None) (\<lambda>r. case r of
       RStats n online rx tx \<Rightarrow>
         if cl_json c then ret (AsJson r)
         else ret (AsText [''Total Peers: '' @ itoa n, ''Online:      '' @ itoa online, ''Total RX:    '' @ humanBytes rx,
           ''Total TX:    '' @ humanBytes tx])
     | _ \<Rightarrow> fail Undecodable)"

text \<open>The line read, \<open>None\<close> when reading fails; bcrypt at cost 12 is an argument, and may refuse.\<close>

definition hashPasswordCmd :: "(string \<Rightarrow> string option) \<Rightarrow> string option \<Rightarrow> ('s, cli_err, shown) prog" where
  "hashPasswordCmd bcrypt line =
     (case line of
        None \<Rightarrow> fail HashFailed
      | Some password \<Rightarrow>
          if password = [] then fail EmptyPassword
          else (case bcrypt password of None \<Rightarrow> fail HashFailed | Some h \<Rightarrow> ret (HashLine h)))"

subsection \<open>The program\<close>

text \<open>
  main: what it prints, with the exit code. The token of the environment stands in for one that is not
  given. \<open>Version\<close> stands for the text of printVersion, \<open>Help\<close> for that of usage.
\<close>

datatype ctl_end = Version | Help nat | Finished shown | Failed cli_err nat

definition global_flags :: flag_set where
  "global_flags = [(''socket'', StrFlag), (''version'', BoolFlag), (''json'', BoolFlag), (''token'', StrFlag)]"

definition exit_of :: "cli_err + shown \<Rightarrow> ctl_end" where
  "exit_of r = (case r of
     Inr x \<Rightarrow> Finished x
   | Inl (FlagExit HelpAsked) \<Rightarrow> Help 0
   | Inl (FlagExit e) \<Rightarrow> Failed (FlagExit e) 2
   | Inl e \<Rightarrow> Failed e 1)"

definition ctl_command :: "'s server \<Rightarrow> (string \<Rightarrow> string option) \<Rightarrow> string option \<Rightarrow> cli \<Rightarrow> string list \<Rightarrow> 's \<Rightarrow> ctl_end \<times> 's" where
  "ctl_command sv bcrypt line c args w =
     (let run = (\<lambda>m. case m w of (r, w') \<Rightarrow> (exit_of r, w')) in
      case args of
        [] \<Rightarrow> (Help 1, w)
      | cmd # rest \<Rightarrow>
          if cmd = ''version'' then (Version, w)
          else if cmd = ''peers'' then run (handlePeers sv c rest)
          else if cmd = ''profiles'' then run (handleProfiles sv c rest)
          else if cmd = ''health'' then run (healthCmd sv c)
          else if cmd = ''stats'' then run (statsCmd sv c)
          else if cmd = ''hash-password'' then run (hashPasswordCmd bcrypt line)
          else (Help 1, w))"

definition ctl_main :: "'s server \<Rightarrow> (string \<Rightarrow> string option) \<Rightarrow> string option \<Rightarrow> cli \<Rightarrow> string option \<Rightarrow> string list \<Rightarrow> 's \<Rightarrow> ctl_end \<times> 's" where
  "ctl_main sv bcrypt line c env_token args w =
     (case parse_flags global_flags args of
        Inl e \<Rightarrow> (exit_of (Inl (FlagExit e)), w)
      | Inr (fs, rest) \<Rightarrow>
          (let token = (if str_flag fs ''token'' = [] then (case env_token of None \<Rightarrow> [] | Some t \<Rightarrow> t) else str_flag fs ''token'') in
           if bool_flag fs ''version'' then (Version, w)
           else ctl_command sv bcrypt line (c\<lparr>cl_json := bool_flag fs ''json'', cl_token := token\<rparr>) rest w))"

subsection \<open>What the agent reads\<close>

text \<open>
  encoding/json on the bodies above: a key of the type is read when its value fits, an unknown key is
  skipped, a missing one leaves the zero value.
\<close>

datatype json_kind = KStr | KInt | KBool | KStrs

definition fits :: "json \<Rightarrow> json_kind \<Rightarrow> bool" where
  "fits j k = (case j of JStr _ \<Rightarrow> k = KStr | JInt n \<Rightarrow> k = KInt \<and> - (2 ^ 63) \<le> n \<and> n < 2 ^ 63 | JBool _ \<Rightarrow> k = KBool | JStrs _ \<Rightarrow> k = KStrs)"

definition readable :: "(string \<times> json_kind) list \<Rightarrow> object \<Rightarrow> bool" where
  "readable spec ob \<longleftrightarrow> list_all (\<lambda>(k, v). case map_of spec k of None \<Rightarrow> True | Some t \<Rightarrow> fits v t) ob"

definition get_str :: "object \<Rightarrow> string \<Rightarrow> string option" where
  "get_str ob k = (case map_of ob k of Some (JStr s) \<Rightarrow> Some s | _ \<Rightarrow> None)"

definition get_int :: "object \<Rightarrow> string \<Rightarrow> int option" where
  "get_int ob k = (case map_of ob k of Some (JInt n) \<Rightarrow> Some n | _ \<Rightarrow> None)"

definition get_bool :: "object \<Rightarrow> string \<Rightarrow> bool option" where
  "get_bool ob k = (case map_of ob k of Some (JBool b) \<Rightarrow> Some b | _ \<Rightarrow> None)"

definition get_strs :: "object \<Rightarrow> string \<Rightarrow> string list option" where
  "get_strs ob k = (case map_of ob k of Some (JStrs ss) \<Rightarrow> Some ss | _ \<Rightarrow> None)"

definition or_empty :: "'a list option \<Rightarrow> 'a list" where
  "or_empty x = (case x of None \<Rightarrow> [] | Some s \<Rightarrow> s)"

definition approve_kinds :: "(string \<times> json_kind) list" where
  "approve_kinds = [(''friendly_name'', KStr), (''allowed_ips'', KStrs), (''profile'', KStr), (''configured_endpoint'', KStr),
     (''persistent_keepalive'', KInt), (''client_dns'', KStr), (''client_mtu'', KInt), (''client_address'', KStr),
     (''client_allowed_ips'', KStr)]"

definition create_kinds :: "(string \<times> json_kind) list" where
  "create_kinds = approve_kinds @ [(''preshared_key'', KStr)]"

definition update_kinds :: "(string \<times> json_kind) list" where
  "update_kinds = approve_kinds @ [(''enabled'', KBool), (''notes'', KStr)]"

definition profile_kinds :: "(string \<times> json_kind) list" where
  "profile_kinds = [(''name'', KStr), (''allowed_ips'', KStrs), (''exclude_ips'', KStrs), (''description'', KStr),
     (''persistent_keepalive'', KInt), (''client_dns'', KStr), (''client_mtu'', KInt), (''use_preshared_key'', KBool)]"

definition decode_create :: "object \<Rightarrow> create_request option" where
  "decode_create ob =
     (if readable create_kinds ob then Some \<lparr>cq_friendly_name = or_empty (get_str ob ''friendly_name''),
        cq_allowed_ips = or_empty (get_strs ob ''allowed_ips''), cq_profile = get_str ob ''profile'',
        cq_endpoint = or_empty (get_str ob ''configured_endpoint''), cq_keepalive = get_int ob ''persistent_keepalive'',
        cq_client_dns = or_empty (get_str ob ''client_dns''), cq_client_mtu = get_int ob ''client_mtu'',
        cq_address = or_empty (get_str ob ''client_address''), cq_psk = or_empty (get_str ob ''preshared_key''),
        cq_client_ips = or_empty (get_str ob ''client_allowed_ips'')\<rparr> else None)"

text \<open>The addresses are read too, but no handler looks at them.\<close>

definition decode_update :: "object \<Rightarrow> update_request option" where
  "decode_update ob =
     (if readable update_kinds ob then Some \<lparr>uq_friendly_name = get_str ob ''friendly_name'',
        uq_profile = map_option Some (get_str ob ''profile''), uq_enabled = get_bool ob ''enabled'', uq_notes = get_str ob ''notes'',
        uq_endpoint = get_str ob ''configured_endpoint'', uq_keepalive = map_option Some (get_int ob ''persistent_keepalive''),
        uq_client_dns = get_str ob ''client_dns'', uq_client_mtu = map_option Some (get_int ob ''client_mtu''),
        uq_address = get_str ob ''client_address'', uq_client_ips = get_str ob ''client_allowed_ips''\<rparr> else None)"

definition decode_approve :: "object \<Rightarrow> approve_request option" where
  "decode_approve ob =
     (if readable approve_kinds ob then Some \<lparr>aq_friendly_name = or_empty (get_str ob ''friendly_name''), aq_profile = get_str ob ''profile'',
        aq_address = or_empty (get_str ob ''client_address''), aq_client_ips = or_empty (get_str ob ''client_allowed_ips''),
        aq_endpoint = or_empty (get_str ob ''configured_endpoint''), aq_client_dns = or_empty (get_str ob ''client_dns''),
        aq_client_mtu = get_int ob ''client_mtu'', aq_keepalive = get_int ob ''persistent_keepalive''\<rparr> else None)"

definition decode_profile :: "object \<Rightarrow> create_profile_request option" where
  "decode_profile ob =
     (if readable profile_kinds ob then Some \<lparr>cp_name = or_empty (get_str ob ''name''),
        cp_allowed_ips = or_empty (get_strs ob ''allowed_ips''), cp_exclude_ips = or_empty (get_strs ob ''exclude_ips''),
        cp_description = or_empty (get_str ob ''description''), cp_keepalive = get_int ob ''persistent_keepalive'',
        cp_client_dns = or_empty (get_str ob ''client_dns''), cp_client_mtu = get_int ob ''client_mtu'',
        cp_use_psk = (get_bool ob ''use_preshared_key'' = Some True)\<rparr> else None)"

definition decode_profile_update :: "object \<Rightarrow> update_profile_request option" where
  "decode_profile_update ob =
     (if readable profile_kinds ob then Some \<lparr>upq_allowed_ips = get_strs ob ''allowed_ips'', upq_exclude_ips = get_strs ob ''exclude_ips'',
        upq_description = get_str ob ''description'', upq_keepalive = map_option Some (get_int ob ''persistent_keepalive''),
        upq_client_dns = get_str ob ''client_dns'', upq_client_mtu = map_option Some (get_int ob ''client_mtu''),
        upq_use_psk = get_bool ob ''use_preshared_key''\<rparr> else None)"

end
