(* ===== verification/CtlSpec.thy ===== *)
theory CtlSpec
  imports Ctl
begin

text \<open>
  What the commands of the client (Ctl.thy) do to the agent: identifiers and bodies arrive as they were
  given, nothing destructive happens unasked, and where the two sides disagree.
\<close>

subsection \<open>Numbers\<close>

lemma dec_no_zero: "0 < n \<Longrightarrow> hd (dec n) \<noteq> CHR ''0''"
proof (induction n rule: dec.induct)
  case (1 n)
  show ?case
  proof (cases "n < 10")
    case True
    then show ?thesis using "1.prems" digit_val_digit[of n] by (auto simp: dec.simps[of n] digit_val_def)
  next
    case False
    then show ?thesis using "1.IH" by (simp add: dec.simps[of n] hd_append)
  qed
qed

lemma digit_of_digit: "is_digit c \<Longrightarrow> digit_of c = Some (digit_val c) \<and> c \<noteq> CHR ''_'' \<and> digit_val c < 10"
  by (auto simp: is_digit_def digit_of_def digit_val_def Let_def)

lemma parse_uint0_dec: "parse_uint0 (dec n) = Some n"
proof (cases "n = 0")
  case True
  then have "dec n = ''0''" by (simp add: dec.simps[of 0])
  then show ?thesis using True by (simp add: parse_uint0_def int_base_def)
next
  case False
  obtain c r where cr: "dec n = c # r" by (cases "dec n") auto
  then have "c \<noteq> CHR ''0''" using dec_no_zero[of n] False by simp
  then have base: "int_base (dec n) = (10, dec n)" unfolding cr by (auto simp: int_base_def split: list.split)
  have digits: "\<forall>c \<in> set (dec n). digit_of c = Some (digit_val c) \<and> c \<noteq> CHR ''_'' \<and> digit_val c < 10"
    using dec_digits digit_of_digit by blast
  then have plain: "filter (\<lambda>c. c \<noteq> CHR ''_'') (dec n) = dec n" "CHR ''_'' \<notin> set (dec n)"
    by (auto simp: filter_id_conv)
  have "foldl (\<lambda>a v. a * 10 + the v) x (map digit_of s) = foldl (\<lambda>a c. 10 * a + digit_val c) x s"
    if "\<forall>c \<in> set s. digit_of c = Some (digit_val c)" for s x
    using that by (induction s arbitrary: x) (simp_all add: mult.commute)
  then have "foldl (\<lambda>a v. a * 10 + the v) 0 (map digit_of (dec n)) = n"
    using digits dec_val_dec[of n] by (simp add: dec_val_def)
  moreover have "\<not> (\<exists>v \<in> set (map digit_of (dec n)). case v of None \<Rightarrow> True | Some n \<Rightarrow> 10 \<le> n)"
    using digits by fastforce
  moreover have "dec n \<noteq> []" by simp
  ultimately show ?thesis unfolding parse_uint0_def base prod.case Let_def plain(1) using plain(2) by (simp only: if_False simp_thms)
qed

lemma parse_int0_itoa: "- (2 ^ 63) \<le> i \<Longrightarrow> i < 2 ^ 63 \<Longrightarrow> parse_int0 (itoa i) = Some i"
proof -
  assume i: "- (2 ^ 63) \<le> i" "i < 2 ^ 63"
  obtain c r where cr: "dec (nat i) = c # r" by (cases "dec (nat i)") auto
  then have "is_digit c" using dec_digits[of c "nat i"] by simp
  then have "c \<noteq> CHR ''-''" "c \<noteq> CHR ''+''" by (auto simp: is_digit_def)
  then show ?thesis
    using i cr parse_uint0_dec[of "nat i"] parse_uint0_dec[of "nat (- i)"]
    by (cases "i < 0") (simp_all add: parse_int0_def itoa_def Let_def)
qed

lemma parse_int64_itoa: "- (2 ^ 63) \<le> i \<Longrightarrow> i < 2 ^ 63 \<Longrightarrow> parse_int64 (itoa i) = Some i"
proof (cases "i < 0")
  case True
  assume "- (2 ^ 63) \<le> i"
  moreover have "list_all is_digit (dec (nat (- i)))" using dec_digits by (auto simp: list_all_iff)
  ultimately show ?thesis using True by (simp add: parse_int64_def itoa_def Let_def)
next
  case False
  assume "i < 2 ^ 63"
  then show ?thesis using False parse_int64_dec[of "nat i"] by (simp add: itoa_def nat_less_iff)
qed

lemma parse_int0_range: "parse_int0 s = Some v \<Longrightarrow> - (2 ^ 63) \<le> v \<and> v < 2 ^ 63"
  by (auto simp: parse_int0_def Let_def split: prod.splits option.splits if_splits)

subsection \<open>Flags\<close>

lemma set_flag_InrD: "set_flag k name v r = Inr (fs, rest) \<Longrightarrow> valid_value k v \<and> (\<exists>gs. r = Inr (gs, rest) \<and> fs = (name, v) # gs)"
  by (auto simp: set_flag_def split: if_splits sum.splits)

lemma parse_flags_valid:
  "parse_flags spec args = Inr (fs, rest) \<Longrightarrow> (name, v) \<in> set fs \<Longrightarrow> \<exists>k. map_of spec name = Some k \<and> valid_value k v"
proof (induction spec args arbitrary: fs rest rule: parse_flags.induct)
  case (2 spec s args)
  show ?case
  proof (cases "argument_of s")
    case (Flagged n vo)
    with "2.prems" obtain k where k: "map_of spec n = Some k" by (auto split: option.splits)
    have step: "\<exists>k. map_of spec name = Some k \<and> valid_value k v"
      if "set_flag k n x (parse_flags spec xs) = Inr (fs, rest)"
        "\<And>fs rest. parse_flags spec xs = Inr (fs, rest) \<Longrightarrow> (name, v) \<in> set fs \<Longrightarrow> \<exists>k. map_of spec name = Some k \<and> valid_value k v" for x xs
      using set_flag_InrD[OF that(1)] that(2) k "2.prems"(2) by auto
    show ?thesis
    proof (cases "k = BoolFlag")
      case True
      have "set_flag k n (case vo of None \<Rightarrow> ''true'' | Some v \<Rightarrow> v) (parse_flags spec args) = Inr (fs, rest)"
        using "2.prems"(1) by (simp add: Flagged k True)
      then show ?thesis by (rule step) (rule "2.IH"(5)[OF Flagged k True])
    next
      case False
      show ?thesis
      proof (cases vo)
        case (Some x)
        have all: "\<And>fs rest. parse_flags spec args = Inr (fs, rest) \<Longrightarrow> (name, v) \<in> set fs \<Longrightarrow> \<exists>k. map_of spec name = Some k \<and> valid_value k v"
          using "2.IH"(2)[OF Flagged k _ Some] "2.IH"(4)[OF Flagged k _ Some] False by (cases k) blast+
        have "set_flag k n x (parse_flags spec args) = Inr (fs, rest)"
          using "2.prems"(1) False by (cases k) (simp_all add: Flagged k Some)
        then show ?thesis by (rule step) (rule all)
      next
        case None
        then obtain x xs where xs: "args = x # xs" using "2.prems"(1) Flagged k False by (cases k; cases args) auto
        have all: "\<And>fs rest. parse_flags spec xs = Inr (fs, rest) \<Longrightarrow> (name, v) \<in> set fs \<Longrightarrow> \<exists>k. map_of spec name = Some k \<and> valid_value k v"
          using "2.IH"(1)[OF Flagged k _ None xs] "2.IH"(3)[OF Flagged k _ None xs] False by (cases k) blast+
        have "set_flag k n x (parse_flags spec xs) = Inr (fs, rest)"
          using "2.prems"(1) False by (cases k) (simp_all add: Flagged k None xs)
        then show ?thesis by (rule step) (rule all)
      qed
    qed
  qed (use "2.prems" in auto)
qed simp

lemma int_flag_range:
  assumes "parse_flags spec args = Inr (fs, rest)" "map_of spec name = Some IntFlag" "- (2 ^ 63) \<le> unset \<and> unset < 2 ^ 63"
  shows "- (2 ^ 63) \<le> int_flag fs name unset \<and> int_flag fs name unset < 2 ^ 63"
proof (cases "map_of (rev fs) name")
  case (Some v)
  then have "(name, v) \<in> set fs" by (metis map_of_SomeD set_rev)
  from parse_flags_valid[OF assms(1) this] assms(2) obtain n where "parse_int0 v = Some n" by (auto simp: valid_value_def)
  then show ?thesis using Some parse_int0_range by (simp add: int_flag_def)
qed (use assms(3) in \<open>simp add: int_flag_def\<close>)

subsection \<open>Bodies\<close>

lemma map_of_field_if: "map_of (field_if b (k, v)) x = (if b \<and> k = x then Some v else None)"
  by (simp add: field_if_def)

lemma map_of_two: "map_of (xs @ ys) x = (case map_of xs x of None \<Rightarrow> map_of ys x | Some v \<Rightarrow> Some v)"
  by (induction xs) auto

lemma readable_append: "readable spec (xs @ ys) \<longleftrightarrow> readable spec xs \<and> readable spec ys"
  by (simp add: readable_def)

lemma readable_field:
  "readable spec (field_if b (k, v)) \<longleftrightarrow> (b \<longrightarrow> (case map_of spec k of None \<Rightarrow> True | Some t \<Rightarrow> fits v t))"
  "readable spec ((k, v) # xs) \<longleftrightarrow> (case map_of spec k of None \<Rightarrow> True | Some t \<Rightarrow> fits v t) \<and> readable spec xs"
  "readable spec []"
  by (simp_all add: readable_def field_if_def)

lemmas body_reads = map_of_field_if map_of_two readable_append readable_field

text \<open>The numbers of a body are those of the flags.\<close>

lemma optional_int:
  assumes "parse_flags spec args = Inr (fs, rest)" "map_of spec name = Some IntFlag"
  shows "fits (JInt (int_flag fs name (- 1))) KInt"
  using int_flag_range[OF assms, of "- 1"] by (simp add: fits_def)

lemma fits_simps: "fits (JStr s) KStr" "fits (JBool b) KBool" "fits (JStrs ss) KStrs"
  by (simp_all add: fits_def)

lemma bodies_readable:
  "parse_flags add_flags args = Inr (fs, rest) \<Longrightarrow> readable create_kinds (add_body fs)"
  "parse_flags update_flags args = Inr (fs, rest) \<Longrightarrow> readable update_kinds (update_body fs)"
  "parse_flags approve_flags args = Inr (fs, rest) \<Longrightarrow> readable approve_kinds (approve_body fs)"
  "parse_flags (profile_flags @ [(''use-preshared-key'', BoolFlag)]) args = Inr (fs, rest) \<Longrightarrow> readable profile_kinds (create_profile_body fs)"
  "parse_flags (profile_flags @ [(''use-preshared-key'', StrFlag)]) args = Inr (fs, rest) \<Longrightarrow> readable profile_kinds (update_profile_body fs)"
  by (simp_all add: add_body_def update_body_def approve_body_def create_profile_body_def update_profile_body_def Let_def body_reads
      create_kinds_def update_kinds_def approve_kinds_def profile_kinds_def fits_simps optional_int
      add_flags_def update_flags_def approve_flags_def profile_flags_def)

text \<open>
  C36: Every body the client builds is well typed for the agent: whatever flags the parser accepts, the
  agent's decoder takes the value of every field it knows, so that no request of the client fails
  as unreadable.
\<close>
theorem client_bodies_typed:
  "(parse_flags add_flags args = Inr (fs, rest) \<longrightarrow> decode_create (add_body fs) \<noteq> None) \<and>
   (parse_flags update_flags args = Inr (fs, rest) \<longrightarrow> decode_update (update_body fs) \<noteq> None) \<and>
   (parse_flags approve_flags args = Inr (fs, rest) \<longrightarrow> decode_approve (approve_body fs) \<noteq> None) \<and>
   (parse_flags (profile_flags @ [(''use-preshared-key'', BoolFlag)]) args = Inr (fs, rest) \<longrightarrow> decode_profile (create_profile_body fs) \<noteq> None) \<and>
   (parse_flags (profile_flags @ [(''use-preshared-key'', StrFlag)]) args = Inr (fs, rest) \<longrightarrow> decode_profile_update (update_profile_body fs) \<noteq> None)"
  by (simp add: bodies_readable decode_create_def decode_update_def decode_approve_def decode_profile_def decode_profile_update_def)

lemma sample_add_flags:
  "parse_flags add_flags [''--name'', ''nas'', ''--client-mtu=0x58C'', ''-client-address'', ''10.0.0.9/32'', ''end''] =
     Inr ([(''name'', ''nas''), (''client-mtu'', ''0x58C''), (''client-address'', ''10.0.0.9/32'')], [''end''])"
  by code_simp

theorem client_bodies_typed_witness:
  "decode_create (add_body [(''name'', ''nas''), (''client-mtu'', ''0x58C''), (''client-address'', ''10.0.0.9/32'')]) \<noteq> None"
  using client_bodies_typed sample_add_flags by blast

definition if_set :: "string \<Rightarrow> string option" where
  "if_set s = (if s = [] then None else Some s)"

definition if_given :: "int \<Rightarrow> int option" where
  "if_given n = (if 0 \<le> n then Some n else None)"

lemmas create_reads = get_str_def get_strs_def get_int_def get_bool_def or_empty_def

text \<open>
  What \<open>peers add\<close> was told is what the handler of CreatePeer is handed: every field of the decoded
  request is the value of its flag, the addresses in order, a number given in any base as a number and
  one that is not given as absent. A profile takes precedence over addresses.
\<close>
theorem cli_add_roundtrip:
  assumes "parse_flags add_flags args = Inr (fs, rest)"
  shows "decode_create (add_body fs) = Some \<lparr>cq_friendly_name = str_flag fs ''name'',
    cq_allowed_ips = (if str_flag fs ''profile'' = [] \<and> str_flag fs ''allowed-ips'' \<noteq> [] then split_on (CHR '','') (str_flag fs ''allowed-ips'') else []),
    cq_profile = if_set (str_flag fs ''profile''), cq_endpoint = str_flag fs ''endpoint'',
    cq_keepalive = if_given (int_flag fs ''persistent-keepalive'' (-1)), cq_client_dns = str_flag fs ''client-dns'',
    cq_client_mtu = if_given (int_flag fs ''client-mtu'' (-1)), cq_address = str_flag fs ''client-address'',
    cq_psk = str_flag fs ''preshared-key'', cq_client_ips = str_flag fs ''client-allowed-ips''\<rparr>"
proof -
  have "map_of (add_body fs) ''allowed_ips'' = (if str_flag fs ''profile'' = [] \<and> str_flag fs ''allowed-ips'' \<noteq> []
      then Some (JStrs (split_on (CHR '','') (str_flag fs ''allowed-ips''))) else None)"
    "map_of (add_body fs) ''persistent_keepalive'' = map_option JInt (if_given (int_flag fs ''persistent-keepalive'' (-1)))"
    "map_of (add_body fs) ''client_mtu'' = map_option JInt (if_given (int_flag fs ''client-mtu'' (-1)))"
    "map_of (add_body fs) ''friendly_name'' = Some (JStr (str_flag fs ''name''))"
    "map_of (add_body fs) ''profile'' = map_option JStr (if_set (str_flag fs ''profile''))"
    "map_of (add_body fs) ''configured_endpoint'' = map_option JStr (if_set (str_flag fs ''endpoint''))"
    "map_of (add_body fs) ''client_dns'' = map_option JStr (if_set (str_flag fs ''client-dns''))"
    "map_of (add_body fs) ''client_address'' = map_option JStr (if_set (str_flag fs ''client-address''))"
    "map_of (add_body fs) ''preshared_key'' = map_option JStr (if_set (str_flag fs ''preshared-key''))"
    "map_of (add_body fs) ''client_allowed_ips'' = map_option JStr (if_set (str_flag fs ''client-allowed-ips''))"
    by (simp_all add: add_body_def Let_def map_of_field_if map_of_two if_set_def if_given_def del: map_of_append)
  then show ?thesis
    by (simp add: decode_create_def bodies_readable(1)[OF assms] create_reads if_set_def if_given_def)
qed

theorem cli_add_roundtrip_witness:
  "map_option cq_client_mtu (decode_create (add_body [(''name'', ''nas''), (''client-mtu'', ''0x58C''), (''client-address'', ''10.0.0.9/32'')])) =
     Some (Some 1420)"
proof -
  have "int_flag [(''name'', ''nas''), (''client-mtu'', ''0x58C''), (''client-address'', ''10.0.0.9/32'')] ''client-mtu'' (-1) = 1420"
    by code_simp
  then show ?thesis by (simp add: cli_add_roundtrip[OF sample_add_flags] if_given_def)
qed

subsection \<open>Asking first\<close>

definition destructive :: "(string list \<times> flag_set) list" where
  "destructive = [([''peers'', ''delete''], [(''id'', IntFlag), (''yes'', BoolFlag)]),
     ([''peers'', ''rotate-keys''], [(''id'', IntFlag), (''yes'', BoolFlag)]),
     ([''profiles'', ''delete''], [(''name'', StrFlag), (''yes'', BoolFlag)])]"

lemma confirm_globals [simp]: "confirm (c\<lparr>cl_json := j, cl_token := t\<rparr>) = confirm c"
  by (simp add: confirm_def)

text \<open>
  Nothing is removed or replaced unasked: without \<open>--yes\<close>, an answer at the prompt other than y or yes
  leaves the agent as it was, for every server and every flag, since no request is sent.
\<close>
theorem unconfirmed_sends_nothing:
  assumes "parse_flags global_flags args = Inr (g, cmd @ own)" "(cmd, spec) \<in> set destructive" "\<not> confirm c"
    "\<forall>fs rest. parse_flags spec own = Inr (fs, rest) \<longrightarrow> \<not> bool_flag fs ''yes''"
  shows "snd (ctl_main sv bcrypt line c env_token args w) = w"
  using assms
  by (auto simp: destructive_def ctl_main_def ctl_command_def Let_def handlePeers_def handleProfiles_def peersDelete_def peersRotateKeys_def
      profilesDelete_def with_flags_def thenE_guardE split: sum.splits prod.splits)

theorem unconfirmed_sends_nothing_witness:
  "snd (ctl_main sv (\<lambda>_. None) None \<lparr>cl_json = False, cl_token = [], cl_now = 0, cl_stdin = ''yep'' @ [nl], cl_time_text = (\<lambda>_. []), cl_quote = (\<lambda>s. s)\<rparr>
     None [''--json'', ''peers'', ''delete'', ''--id'', ''3''] w) = w"
proof -
  have global: "parse_flags global_flags [''--json'', ''peers'', ''delete'', ''--id'', ''3''] = Inr ([(''json'', ''true'')], [''peers'', ''delete''] @ [''--id'', ''3''])"
    by code_simp
  have own: "parse_flags [(''id'', IntFlag), (''yes'', BoolFlag)] [''--id'', ''3''] = Inr ([(''id'', ''3'')], [])" by code_simp
  have no: "\<not> confirm \<lparr>cl_json = False, cl_token = [], cl_now = 0, cl_stdin = ''yep'' @ [nl], cl_time_text = (\<lambda>_. []), cl_quote = (\<lambda>s. s)\<rparr>"
    unfolding confirm_def cli.select_convs by code_simp
  show ?thesis
    by (rule unconfirmed_sends_nothing[OF global _ no, where spec = "[(''id'', IntFlag), (''yes'', BoolFlag)]"]) (simp_all add: destructive_def own bool_flag_def del: parse_flags.simps)
qed

subsection \<open>Approving\<close>

lemma call_api_InrD:
  "call_api sv c m path b w = (Inr r, w') \<Longrightarrow>
     \<exists>a. sv \<lparr>hq_method = m, hq_path = path, hq_body = b, hq_token = cl_token c\<rparr> w = (Inr a, w') \<and>
       200 \<le> an_status a \<and> an_status a < 300 \<and> an_reply a = r"
  unfolding call_api_def doRequest_def checkError_def
  by (auto dest!: bindE_InrD thenE_InrD mapErr_InrD split: if_splits option.splits)

text \<open>
  C37: \<open>peers approve\<close> enables the one peer that is meant: when it succeeds, the prefix had at least four
  characters, exactly one peer the agent listed has a public key with this prefix, and the one request
  that followed the listing was the approval of that peer, which the agent accepted.
\<close>
theorem cli_approves_unique:
  assumes "peersApprove sv c args w = (Inr x, w')"
  shows "\<exists>fs prefix rest a w1 ps p b.
    parse_flags approve_flags args = Inr (fs, prefix # rest) \<and> 4 \<le> length prefix \<and>
    sv \<lparr>hq_method = ''GET'', hq_path = ''/api/peers'', hq_body = None, hq_token = cl_token c\<rparr> w = (Inr a, w1) \<and>
    an_reply a = RPeers ps \<and> filter (\<lambda>p. has_prefix prefix (pe_public_key p)) ps = [p] \<and>
    sv \<lparr>hq_method = ''POST'', hq_path = ''/api/peers/'' @ itoa (pe_id p) @ ''/approve'', hq_body = Some (approve_body fs),
      hq_token = cl_token c\<rparr> w1 = (Inr b, w') \<and> 200 \<le> an_status b \<and> an_status b < 300"
proof -
  from assms obtain fs prefix rest where flags: "parse_flags approve_flags args = Inr (fs, prefix # rest)" and long: "4 \<le> length prefix"
    and run: "bindE (call_api sv c ''GET'' ''/api/peers'' None) (\<lambda>r. case r of
        RPeers ps \<Rightarrow> approve_match sv c fs prefix ps | _ \<Rightarrow> fail Undecodable) w = (Inr x, w')"
    unfolding peersApprove_def with_flags_def
    by (auto simp: thenE_guardE split: sum.splits prod.splits list.splits if_splits)
  obtain r w1 where answer: "call_api sv c ''GET'' ''/api/peers'' None w = (Inr r, w1)"
    and more: "(case r of RPeers ps \<Rightarrow> approve_match sv c fs prefix ps | _ \<Rightarrow> fail Undecodable) w1 = (Inr x, w')"
    using bindE_InrD[OF run] by blast
  from more obtain ps where ps: "r = RPeers ps" by (cases r) simp_all
  with answer more have list: "call_api sv c ''GET'' ''/api/peers'' None w = (Inr (RPeers ps), w1)"
    and match: "approve_match sv c fs prefix ps w1 = (Inr x, w')" by simp_all
  from match obtain p where p: "filter (\<lambda>p. has_prefix prefix (pe_public_key p)) ps = [p]"
    by (auto simp: approve_match_def split: list.splits)
  with match obtain r where "call_api sv c ''POST'' (''/api/peers/'' @ itoa (pe_id p) @ ''/approve'') (Some (approve_body fs)) w1 = (Inr r, w')"
    by (auto simp: approve_match_def dest!: bindE_InrD)
  from call_api_InrD[OF list] call_api_InrD[OF this] flags long p show ?thesis by fast
qed

definition listed :: cli_peer where
  "listed = \<lparr>pe_id = 7, pe_public_key = ''AbCdEfGhIjKlMn='', pe_friendly_name = ''phone'', pe_allowed_ips = [], pe_profile = None,
     pe_enabled = False, pe_auto = True, pe_endpoint = [], pe_handshake = None, pe_rx = 0, pe_tx = 0\<rparr>"

definition two_listed :: "cli_peer list" where
  "two_listed = [listed, listed\<lparr>pe_public_key := ''AbXX''\<rparr>]"

text \<open>A server that keeps the requests it answers.\<close>

definition recording :: "http_request list server" where
  "recording q l = (Inr \<lparr>an_status = 200, an_error = None,
     an_reply = (if hq_method q = ''GET'' then RPeers two_listed else ROther)\<rparr>, l @ [q])"

definition quiet :: cli where
  "quiet = \<lparr>cl_json = False, cl_token = ''t'', cl_now = 0, cl_stdin = [], cl_time_text = (\<lambda>_. []), cl_quote = (\<lambda>s. s)\<rparr>"

definition approve_args :: "string list" where
  "approve_args = [''--client-address'', ''10.0.0.9/32'', ''--client-allowed-ips=0.0.0.0/0'', ''AbCd'']"

theorem cli_approves_unique_witness:
  "map hq_path (snd (peersApprove recording quiet approve_args [])) = [''/api/peers'', ''/api/peers/7/approve'']"
proof -
  have flags: "parse_flags approve_flags approve_args = Inr ([(''client-address'', ''10.0.0.9/32''), (''client-allowed-ips'', ''0.0.0.0/0'')], [''AbCd''])"
    by code_simp
  have unique: "filter (\<lambda>p. has_prefix ''AbCd'' (pe_public_key p)) two_listed = [listed]"
    by (simp add: two_listed_def listed_def)
  have "\<exists>x w'. peersApprove recording quiet approve_args [] = (Inr x, w')"
    by (simp add: peersApprove_def with_flags_def flags str_flag_def thenE_guardE bindE_def call_api_def doRequest_def mapErr_def recording_def
        checkError_def thenE_def approve_match_def unique split del: if_split)
  then obtain x w' where run: "peersApprove recording quiet approve_args [] = (Inr x, w')" by blast
  have id: "itoa 7 = ''7''" by code_simp
  from cli_approves_unique[OF run] show ?thesis
    by (auto simp: flags run recording_def unique id listed_def[THEN arg_cong[where f = pe_id]])
qed

subsection \<open>The agent behind the client\<close>

text \<open>What the handlers decode from a request of the client.\<close>

definition body_as :: "(object \<Rightarrow> 'a option) \<Rightarrow> http_request \<Rightarrow> 'a option" where
  "body_as decode q = Option.bind (hq_body q) decode"

definition client_input :: "int \<Rightarrow> http_request \<Rightarrow> api_input" where
  "client_input now q = no_input\<lparr>in_create := body_as decode_create q, in_update := body_as decode_update q,
     in_approve := body_as decode_approve q, in_profile := body_as decode_profile q,
     in_profile_change := body_as decode_profile_update q, in_now := now\<rparr>"

lemma client_input_update: "in_update (client_input now q) = body_as decode_update q"
  by (simp add: client_input_def no_input_def)

text \<open>The table of routes as a server; \<open>answer\<close> is what the outcome of a handler is sent as.\<close>

definition api_server :: "('k, 'f) env \<Rightarrow> int \<Rightarrow> (http_request \<Rightarrow> api_err + unit \<Rightarrow> http_answer) \<Rightarrow> ('k, 'f) world server" where
  "api_server env now answer q w =
     (case NewRouter (hq_method q) (hq_path q) of
        None \<Rightarrow> (Inr (answer q (Inl (ApiError 404 ''not_found''))), w)
      | Some ep \<Rightarrow> (case serve_api env (client_input now q) ep w of (r, w') \<Rightarrow> (Inr (answer q r), w')))"

lemma itoa_segment: "split_on (CHR ''/'') (itoa i) = [itoa i]" "itoa i \<noteq> []"
proof -
  have "CHR ''/'' \<notin> set (dec n)" for n using dec_digits[of "CHR ''/''" n] by (auto simp: is_digit_def)
  then show "split_on (CHR ''/'') (itoa i) = [itoa i]" by (intro split_on_sep_free) (simp add: itoa_def)
  show "itoa i \<noteq> []" by (simp add: itoa_def)
qed

lemma id_routes:
  "NewRouter ''DELETE'' (''/api/peers/'' @ itoa i) = Some (ApiDeletePeer (itoa i))"
  "NewRouter ''PUT'' (''/api/peers/'' @ itoa i) = Some (ApiUpdatePeer (itoa i))"
proof -
  have "has_prefix ''/api/peers/'' (''/api/peers/'' @ itoa i)" by (rule has_prefix_append)
  moreover have "drop (length ''/api/peers/'') (''/api/peers/'' @ itoa i) = itoa i" by simp
  ultimately show "NewRouter ''DELETE'' (''/api/peers/'' @ itoa i) = Some (ApiDeletePeer (itoa i))"
    "NewRouter ''PUT'' (''/api/peers/'' @ itoa i) = Some (ApiUpdatePeer (itoa i))"
    unfolding NewRouter_def Let_def by (simp_all only: if_True) (simp_all add: fixed_routes_def peer_routes_def itoa_segment)
qed

lemma api_server_routed:
  "NewRouter (hq_method q) (hq_path q) = Some ep \<Longrightarrow> snd (api_server env now answer q w) = snd (serve_api env (client_input now q) ep w)"
  by (simp add: api_server_def split: prod.split)

lemma replied_state: "snd (replied h w) = snd (h w)"
  by (simp add: replied_def bindE_def split: prod.split sum.split)

lemma call_api_state: "snd (call_api sv c m path b w) = snd (sv \<lparr>hq_method = m, hq_path = path, hq_body = b, hq_token = cl_token c\<rparr> w)"
  by (simp add: call_api_def doRequest_def bindE_def thenE_def mapErr_def checkError_def split: prod.split sum.split option.split)

lemma bindE_result_state: "(\<And>a w. snd (f a w) = w) \<Longrightarrow> snd (bindE m f w) = snd (m w)"
  by (simp add: bindE_def split: prod.split sum.split)

lemma thenE_result_state: "(\<And>w. snd (n w) = w) \<Longrightarrow> snd (thenE m n w) = snd (m w)"
  unfolding thenE_def by (rule bindE_result_state)

text \<open>
  \<open>peers delete\<close>, confirmed, has exactly the effect of DeletePeer for the identifier that was given:
  the request finds its route, and the handler reads the same number from the path.
\<close>
theorem cli_delete_effect:
  assumes "parse_flags [(''id'', IntFlag), (''yes'', BoolFlag)] args = Inr (fs, rest)" "int_flag fs ''id'' 0 = i" "i \<noteq> 0"
    "bool_flag fs ''yes'' \<or> confirm c"
  shows "snd (peersDelete (api_server env now answer) c args w) = snd (api_DeletePeer env (itoa i) w) \<and> parse_int64 (itoa i) = Some i"
proof
  have "- (2 ^ 63) \<le> i \<and> i < 2 ^ 63" using int_flag_range[OF assms(1), of "''id''" 0] assms(2) by simp
  then show "parse_int64 (itoa i) = Some i" by (simp add: parse_int64_itoa)
  have "snd (peersDelete (api_server env now answer) c args w) = snd (call_api (api_server env now answer) c ''DELETE'' (''/api/peers/'' @ itoa i) None w)"
    using assms by (auto simp: peersDelete_def with_flags_def Let_def thenE_guardE thenE_result_state bindE_result_state)
  also have "\<dots> = snd (api_DeletePeer env (itoa i) w)"
    unfolding call_api_state
    by (subst api_server_routed[where ep = "ApiDeletePeer (itoa i)"]) (simp_all only: http_request.select_convs id_routes serve_api_def endpoint.case)
  finally show "snd (peersDelete (api_server env now answer) c args w) = snd (api_DeletePeer env (itoa i) w)" .
qed

lemma update_args_parse:
  assumes "- (2 ^ 63) \<le> i" "i < 2 ^ 63"
  shows "parse_flags update_flags [''--id'', itoa i, ''--allowed-ips'', v] = Inr ([(''id'', itoa i), (''allowed-ips'', v)], [])"
proof -
  have "argument_of ''--id'' = Flagged ''id'' None" "argument_of ''--allowed-ips'' = Flagged ''allowed-ips'' None" by code_simp+
  moreover have "parse_flags update_flags [] = Inr ([], [])" by simp
  ultimately show ?thesis
    using parse_int0_itoa[OF assms] by (simp add: update_flags_def set_flag_def valid_value_def)
qed

text \<open>A request without a field the handler knows.\<close>

definition empty_update :: update_request where
  "empty_update = \<lparr>uq_friendly_name = None, uq_profile = None, uq_enabled = None, uq_notes = None, uq_endpoint = None,
     uq_keepalive = None, uq_client_dns = None, uq_client_mtu = None, uq_address = None, uq_client_ips = None\<rparr>"

lemma empty_update_fields:
  "uq_friendly_name empty_update = None" "uq_profile empty_update = None" "uq_enabled empty_update = None"
  "uq_endpoint empty_update = None" "uq_keepalive empty_update = None" "uq_address empty_update = None" "uq_client_ips empty_update = None"
  by (simp_all add: empty_update_def)

lemma empty_update_columns: "update_columns env p empty_update False [] = no_update"
  by (simp add: update_columns_def empty_update_def no_update_def)

lemma empty_update_keeps: "keeps (so_far w0 rs l) (api_UpdatePeer env s (Some empty_update))"
proof -
  have step: "reads (UpdatePeer key no_update)" for key by (simp add: reads_def UpdatePeer_def)
  have "keeps (so_far w0 rs l) (path_id s :: ('a, 'b, int) handler)" unfolding path_id_def by (intro keeps_intros)
  then show ?thesis
    unfolding api_UpdatePeer_def body_of_def option.case bindE_ret
    apply (simp only: update_profile_ips_def update_address_def check_network_fields_def reconfigure_def refresh_firewall_def
      empty_update_fields option.case bindE_ret thenE_ret if_False if_True simp_thms option.distinct empty_update_columns)
    apply (intro keeps_intros step reads_by_id)
    done
qed

lemma addresses_only:
  "update_body [(''id'', i), (''allowed-ips'', v)] = field_if (v \<noteq> []) (''allowed_ips'', JStrs (split_on (CHR '','') v))"
  "decode_update (field_if b (''allowed_ips'', JStrs x)) = Some empty_update"
  by (simp_all add: update_body_def Let_def str_flag_def int_flag_def bool_flag_def explicit_def field_if_def decode_update_def
      readable_def update_kinds_def approve_kinds_def fits_def get_str_def get_int_def get_bool_def empty_update_def)

text \<open>
  The client takes \<open>--allowed-ips\<close> for a change of a peer and sends it, but the agent reads a request
  without any field it applies: whatever the addresses are, the peers stay as they were and neither the
  kernel nor the firewall is called.
\<close>
theorem cli_update_addresses_ignored:
  assumes "- (2 ^ 63) \<le> i" "i < 2 ^ 63" "v \<noteq> []"
  shows "update_body [(''id'', itoa i), (''allowed-ips'', v)] \<noteq> [] \<and>
    db_peers (w_db (snd (peersUpdate (api_server env now answer) c [''--id'', itoa i, ''--allowed-ips'', v] w))) = db_peers (w_db w) \<and>
    w_log (snd (peersUpdate (api_server env now answer) c [''--id'', itoa i, ''--allowed-ips'', v] w)) = w_log w"
proof (intro conjI)
  let ?fs = "[(''id'', itoa i), (''allowed-ips'', v)]"
  show sent: "update_body ?fs \<noteq> []" using assms(3) by (simp add: addresses_only field_if_def)
  have id: "int_flag ?fs ''id'' 0 = i" by (simp add: int_flag_def parse_int0_itoa[OF assms(1,2)])
  have one: "\<not> (bool_flag ?fs ''enable'' \<and> bool_flag ?fs ''disable'')" by (simp add: bool_flag_def)
  let ?q = "\<lparr>hq_method = ''PUT'', hq_path = ''/api/peers/'' @ itoa i, hq_body = Some (update_body ?fs), hq_token = cl_token c\<rparr>"
  let ?w = "snd (peersUpdate (api_server env now answer) c [''--id'', itoa i, ''--allowed-ips'', v] w)"
  have "?w = w \<or> ?w = snd (call_api (api_server env now answer) c ''PUT'' (''/api/peers/'' @ itoa i) (Some (update_body ?fs)) w)"
    unfolding peersUpdate_def with_flags_def update_args_parse[OF assms(1,2)] sum.case prod.case Let_def id
    using sent one by (auto simp: thenE_guardE simp del: append_Cons intro!: bindE_result_state split: reply.split)
  also have "snd (call_api (api_server env now answer) c ''PUT'' (''/api/peers/'' @ itoa i) (Some (update_body ?fs)) w) =
      snd (api_UpdatePeer env (itoa i) (Some empty_update) w)"
    unfolding call_api_state
    by (subst api_server_routed[where ep = "ApiUpdatePeer (itoa i)"])
      (simp_all only: http_request.select_convs id_routes serve_api_def endpoint.case client_input_update body_as_def
        Option.bind.bind_lunit addresses_only replied_state)
  finally have "so_far w (db_peers (w_db w)) [] ?w"
    using keepsD[OF empty_update_keeps, of w "db_peers (w_db w)" "[]" w] by (auto simp: so_far_def)
  then show "db_peers (w_db ?w) = db_peers (w_db w)" "w_log ?w = w_log w" by (simp_all add: so_far_def)
qed

subsection \<open>Runs\<close>

definition sent_answer :: "http_request \<Rightarrow> api_err + unit \<Rightarrow> http_answer" where
  "sent_answer q r = \<lparr>an_status = (case r of Inl (ApiError n _) \<Rightarrow> n | Inl _ \<Rightarrow> 500 | Inr _ \<Rightarrow> 200), an_error = None, an_reply = ROther\<rparr>"

theorem cli_delete_effect_witness:
  "snd (peersDelete (api_server sample_env 0 sent_answer) quiet [''--id'', ''0x10'', ''--yes''] (sample_world [])) =
     snd (api_DeletePeer sample_env ''16'' (sample_world []))"
proof -
  have flags: "parse_flags [(''id'', IntFlag), (''yes'', BoolFlag)] [''--id'', ''0x10'', ''--yes''] = Inr ([(''id'', ''0x10''), (''yes'', ''true'')], [])"
    by code_simp
  have id: "int_flag [(''id'', ''0x10''), (''yes'', ''true'')] ''id'' 0 = 16" and yes: "bool_flag [(''id'', ''0x10''), (''yes'', ''true'')] ''yes''"
    and sixteen: "itoa 16 = ''16''" by code_simp+
  have "snd (peersDelete (api_server sample_env 0 sent_answer) quiet [''--id'', ''0x10'', ''--yes''] (sample_world [])) =
      snd (api_DeletePeer sample_env (itoa 16) (sample_world []))"
    by (rule cli_delete_effect[OF flags id, THEN conjunct1]) (use yes in simp_all)
  then show ?thesis by (simp only: sixteen)
qed

theorem cli_update_addresses_ignored_witness:
  "update_body [(''id'', itoa 1), (''allowed-ips'', ''10.1.0.0/16'')] \<noteq> [] \<and>
   db_peers (w_db (snd (peersUpdate (api_server sample_env 0 sent_answer) quiet [''--id'', itoa 1, ''--allowed-ips'', ''10.1.0.0/16'']
     (sample_world [sample_key CHR ''A''])))) = db_peers (w_db (sample_world [sample_key CHR ''A'']))"
  using cli_update_addresses_ignored[where i = 1 and v = "''10.1.0.0/16''" and env = sample_env and now = 0 and answer = sent_answer
      and c = quiet and w = "sample_world [sample_key CHR ''A'']"] by simp

end
