(* ===== verification/Locks.thy ===== *)
theory Locks
  imports Tasks
begin

text \<open>
  What runs at the same time: the lock behind Pause and Resume (reconciler.go), which makes the batch
  and the deletion atomic with respect to a pass, what happens to a creation, which does not take it,
  the numbering of connections and the closing of the rate limiter (middleware/ratelimit.go).
\<close>

subsection \<open>The lock of the reconciler\<close>

text \<open>
  sync.RWMutex: a pass holds it for reading, a handler between Pause and Resume for writing. A thread
  is its program, of which the calls that change the world are the \<open>Do\<close>s.
\<close>

datatype 'w instr = Take | Do "'w \<Rightarrow> 'w" | Give

record 'w shared =
  sh_pass :: "'w instr list"
  sh_handler :: "'w instr list"
  sh_readers :: nat
  sh_writer :: bool
  sh_world :: 'w

inductive lock_step :: "'w shared \<Rightarrow> 'w shared \<Rightarrow> bool" where
  RLock: "sh_pass s = Take # q \<Longrightarrow> \<not> sh_writer s \<Longrightarrow>
    lock_step s (s\<lparr>sh_pass := q, sh_readers := Suc (sh_readers s)\<rparr>)"
| RUnlock: "sh_pass s = Give # q \<Longrightarrow> 0 < sh_readers s \<Longrightarrow>
    lock_step s (s\<lparr>sh_pass := q, sh_readers := sh_readers s - 1\<rparr>)"
| pass_call: "sh_pass s = Do f # q \<Longrightarrow> lock_step s (s\<lparr>sh_pass := q, sh_world := f (sh_world s)\<rparr>)"
| Pause: "sh_handler s = Take # q \<Longrightarrow> \<not> sh_writer s \<Longrightarrow> sh_readers s = 0 \<Longrightarrow>
    lock_step s (s\<lparr>sh_handler := q, sh_writer := True\<rparr>)"
| Resume: "sh_handler s = Give # q \<Longrightarrow> sh_writer s \<Longrightarrow>
    lock_step s (s\<lparr>sh_handler := q, sh_writer := False\<rparr>)"
| handler_call: "sh_handler s = Do f # q \<Longrightarrow> lock_step s (s\<lparr>sh_handler := q, sh_world := f (sh_world s)\<rparr>)"

definition locked :: "('w \<Rightarrow> 'w) list \<Rightarrow> 'w instr list" where
  "locked fs = Take # map Do fs @ [Give]"

definition started :: "('w \<Rightarrow> 'w) list \<Rightarrow> ('w \<Rightarrow> 'w) list \<Rightarrow> 'w \<Rightarrow> 'w shared" where
  "started ps hs w = \<lparr>sh_pass = locked ps, sh_handler = locked hs, sh_readers = 0, sh_writer = False, sh_world = w\<rparr>"

inductive runs_to :: "'w shared \<Rightarrow> 'w shared \<Rightarrow> bool" for s where
  here: "runs_to s s"
| next_call: "runs_to s t \<Longrightarrow> lock_step t u \<Longrightarrow> runs_to s u"

text \<open>How far a thread is: before its lock, inside with the calls left, or done.\<close>

datatype 'w progress = Before | Inside "('w \<Rightarrow> 'w) list" | After

fun rest_of :: "('w \<Rightarrow> 'w) list \<Rightarrow> 'w progress \<Rightarrow> 'w instr list" where
  "rest_of fs Before = locked fs"
| "rest_of fs (Inside left) = map Do left @ [Give]"
| "rest_of fs After = []"

definition effect :: "('w \<Rightarrow> 'w) list \<Rightarrow> 'w \<Rightarrow> 'w" where
  "effect fs w = foldl (\<lambda>w f. f w) w fs"

lemma effect_simps [simp]: "effect [] w = w" "effect (f # fs) w = effect fs (f w)"
  by (simp_all add: effect_def)

text \<open>
  Every state of a run: the two threads are never inside at once, and what is left to do leads to one
  of the two orders.
\<close>

definition serial :: "('w \<Rightarrow> 'w) list \<Rightarrow> ('w \<Rightarrow> 'w) list \<Rightarrow> 'w \<Rightarrow> 'w progress \<Rightarrow> 'w progress \<Rightarrow> 'w \<Rightarrow> bool" where
  "serial ps hs w0 p h w =
     (case (p, h) of
        (Before, Before) \<Rightarrow> w = w0
      | (Inside l, Before) \<Rightarrow> effect l w = effect ps w0
      | (After, Before) \<Rightarrow> w = effect ps w0
      | (Before, Inside l) \<Rightarrow> effect l w = effect hs w0
      | (Before, After) \<Rightarrow> w = effect hs w0
      | (Inside l, After) \<Rightarrow> effect l w = effect ps (effect hs w0)
      | (After, Inside l) \<Rightarrow> effect l w = effect hs (effect ps w0)
      | (After, After) \<Rightarrow> w = effect ps (effect hs w0) \<or> w = effect hs (effect ps w0)
      | (Inside l, Inside l') \<Rightarrow> False)"

definition inside :: "'w progress \<Rightarrow> bool" where
  "inside p = (case p of Inside _ \<Rightarrow> True | _ \<Rightarrow> False)"

definition in_order :: "('w \<Rightarrow> 'w) list \<Rightarrow> ('w \<Rightarrow> 'w) list \<Rightarrow> 'w \<Rightarrow> 'w shared \<Rightarrow> bool" where
  "in_order ps hs w0 s \<longleftrightarrow> (\<exists>p h. sh_pass s = rest_of ps p \<and> sh_handler s = rest_of hs h \<and>
     sh_readers s = (if inside p then 1 else 0) \<and> sh_writer s = inside h \<and> serial ps hs w0 p h (sh_world s))"

lemma rest_of_Take: "rest_of fs p = Take # q \<Longrightarrow> p = Before \<and> q = rest_of fs (Inside fs)"
  by (cases p; cases "case p of Inside l \<Rightarrow> l | _ \<Rightarrow> []") (auto simp: locked_def)

lemma rest_of_Give: "rest_of fs p = Give # q \<Longrightarrow> p = Inside [] \<and> q = rest_of fs After"
  by (cases p; cases "case p of Inside l \<Rightarrow> l | _ \<Rightarrow> []") (auto simp: locked_def)

lemma rest_of_Do: "rest_of fs p = Do f # q \<Longrightarrow> \<exists>l. p = Inside (f # l) \<and> q = rest_of fs (Inside l)"
  by (cases p; cases "case p of Inside l \<Rightarrow> l | _ \<Rightarrow> []") (auto simp: locked_def)

lemma in_orderI:
  "sh_pass s = rest_of ps p \<Longrightarrow> sh_handler s = rest_of hs h \<Longrightarrow> sh_readers s = (if inside p then 1 else 0) \<Longrightarrow>
   sh_writer s = inside h \<Longrightarrow> serial ps hs w0 p h (sh_world s) \<Longrightarrow> in_order ps hs w0 s"
  unfolding in_order_def by blast

lemma in_order_step:
  assumes "in_order ps hs w0 s" "lock_step s t"
  shows "in_order ps hs w0 t"
proof -
  from assms(1) obtain p h where s: "sh_pass s = rest_of ps p" "sh_handler s = rest_of hs h"
    "sh_readers s = (if inside p then 1 else 0)" "sh_writer s = inside h" "serial ps hs w0 p h (sh_world s)"
    unfolding in_order_def by blast
  from assms(2) show ?thesis
  proof cases
    case (RLock q)
    with s rest_of_Take[of ps p q] have "p = Before" "q = rest_of ps (Inside ps)" by auto
    with RLock s show ?thesis
      by (intro in_orderI[where p = "Inside ps" and h = h]) (cases h; auto simp: serial_def inside_def)+
  next
    case (RUnlock q)
    with s rest_of_Give[of ps p q] have "p = Inside []" "q = rest_of ps After" by auto
    with RUnlock s show ?thesis
      by (intro in_orderI[where p = After and h = h]) (cases h; auto simp: serial_def inside_def)+
  next
    case (pass_call f q)
    with s rest_of_Do[of ps p f q] obtain l where "p = Inside (f # l)" "q = rest_of ps (Inside l)" by auto
    with pass_call s show ?thesis
      by (intro in_orderI[where p = "Inside l" and h = h]) (cases h; auto simp: serial_def inside_def)+
  next
    case (Pause q)
    with s rest_of_Take[of hs h q] have "h = Before" "q = rest_of hs (Inside hs)" by auto
    with Pause s show ?thesis
      by (intro in_orderI[where p = p and h = "Inside hs"]) (cases p; auto simp: serial_def inside_def)+
  next
    case (Resume q)
    with s rest_of_Give[of hs h q] have "h = Inside []" "q = rest_of hs After" by auto
    with Resume s show ?thesis
      by (intro in_orderI[where p = p and h = After]) (cases p; auto simp: serial_def inside_def)+
  next
    case (handler_call f q)
    with s rest_of_Do[of hs h f q] obtain l where "h = Inside (f # l)" "q = rest_of hs (Inside l)" by auto
    with handler_call s show ?thesis
      by (intro in_orderI[where p = p and h = "Inside l"]) (cases p; auto simp: serial_def inside_def)+
  qed
qed

lemma in_order_runs: "runs_to (started ps hs w) s \<Longrightarrow> in_order ps hs w s"
proof (induction rule: runs_to.induct)
  case here
  show ?case by (rule in_orderI[where p = Before and h = Before]) (simp_all add: started_def serial_def inside_def)
qed (rule in_order_step)

lemma rest_of_Nil: "rest_of fs p = [] \<longleftrightarrow> p = After" "[] = rest_of fs p \<longleftrightarrow> p = After"
  by (cases p; simp add: locked_def)+

lemma finished_serial:
  "runs_to (started ps hs w) s \<Longrightarrow> sh_pass s = [] \<Longrightarrow> sh_handler s = [] \<Longrightarrow>
     sh_world s = effect ps (effect hs w) \<or> sh_world s = effect hs (effect ps w)"
  using in_order_runs[of ps hs w s] by (auto simp: in_order_def rest_of_Nil serial_def)

text \<open>No deadlock: while a thread has something to do, a step is possible.\<close>

lemma can_step:
  "sh_pass s = rest_of ps (Inside l) \<Longrightarrow> 0 < sh_readers s \<Longrightarrow> \<exists>t. lock_step s t"
  "sh_handler s = rest_of hs (Inside l) \<Longrightarrow> sh_writer s \<Longrightarrow> \<exists>t. lock_step s t"
  "sh_pass s = rest_of ps Before \<Longrightarrow> \<not> sh_writer s \<Longrightarrow> \<exists>t. lock_step s t"
  "sh_handler s = rest_of hs Before \<Longrightarrow> \<not> sh_writer s \<Longrightarrow> sh_readers s = 0 \<Longrightarrow> \<exists>t. lock_step s t"
  by (cases l; auto intro: lock_step.intros simp: locked_def)+

lemma no_deadlock:
  assumes "runs_to (started ps hs w) s" "sh_pass s \<noteq> [] \<or> sh_handler s \<noteq> []"
  shows "\<exists>t. lock_step s t"
proof -
  from in_order_runs[OF assms(1)] obtain p h where s: "sh_pass s = rest_of ps p" "sh_handler s = rest_of hs h"
    "sh_readers s = (if inside p then 1 else 0)" "sh_writer s = inside h"
    unfolding in_order_def by blast
  show ?thesis
  proof (cases "inside p \<or> inside h")
    case True
    then show ?thesis using s can_step(1,2)[of s] by (cases p; cases h) (auto simp: inside_def)
  next
    case False
    then show ?thesis using s assms(2) can_step(3,4)[of s] by (cases p; cases h) (auto simp: inside_def rest_of_Nil)
  qed
qed

lemma step_shrinks:
  "lock_step s t \<Longrightarrow> length (sh_pass t) + length (sh_handler t) < length (sh_pass s) + length (sh_handler s)"
  by (induction rule: lock_step.induct) simp_all


subsection \<open>A creation meets a pass\<close>

definition unknown_row :: "string \<Rightarrow> db \<Rightarrow> bool" where
  "unknown_row t d \<longleftrightarrow> (\<exists>q \<in> set (db_peers d). pr_public_key q = t \<and> \<not> pr_enabled q \<and> pr_auto_discovered q)"

definition fresh_or_unknown :: "string \<Rightarrow> db \<Rightarrow> bool" where
  "fresh_or_unknown t d \<longleftrightarrow> db_inv d \<and> db_faults d = [] \<and> (has_peer t d \<longrightarrow> unknown_row t d)"

lemma upsert_result:
  assumes "db_inv d" "db_faults d = []"
  shows "snd (UpsertPeerFromReconcile t n True False ep pka d) =
    (if has_peer t d then d else d\<lparr>db_peers := db_peers d @ [\<lparr>pr_id = db_next_id d, pr_public_key = t, pr_friendly_name = n, pr_allowed_ips = [],
        pr_profile = None, pr_enabled = False, pr_auto_discovered = True, pr_created_at = db_now d,
        pr_notes = [], pr_endpoint = [], pr_persistent_keepalive = pka, pr_client_dns = [],
        pr_client_mtu = None, pr_client_address = [], pr_last_seen_endpoint = ep,
        pr_preshared_key = [], pr_client_allowed_ips = []\<rparr>], db_next_id := Suc (db_next_id d)\<rparr>)"
  using assms
  by (auto simp: UpsertPeerFromReconcile_def insert_or_ignore_def insert_row_def stmt_def Let_def profile_ok_def db_inv_def unique_ok_def has_peer_def)

lemma upsert_unknown: "fresh_or_unknown t d \<Longrightarrow> unknown_row t (snd (UpsertPeerFromReconcile t n True False ep pka d))"
  by (auto simp: fresh_or_unknown_def upsert_result unknown_row_def)

lemma upsert_keeps_fresh: "keeps (fresh_or_unknown t) (UpsertPeerFromReconcile u n True False ep pka)"
proof (rule keepsI)
  fix d assume d: "fresh_or_unknown t d"
  then have "db_inv (snd (UpsertPeerFromReconcile u n True False ep pka d))"
    by (intro keepsD[OF UpsertPeerFromReconcile_inv]) (simp add: fresh_or_unknown_def)
  with d show "fresh_or_unknown t (snd (UpsertPeerFromReconcile u n True False ep pka d))"
    by (auto simp: fresh_or_unknown_def upsert_result unknown_row_def has_peer_def)
qed

lemma unknown_row_faults: "unknown_row t (d\<lparr>db_faults := fs\<rparr>) = unknown_row t d"
  by (simp add: unknown_row_def)

lemma unknown_row_map:
  assumes "\<And>p. pr_public_key (g p) = pr_public_key p" "\<And>p. pr_enabled (g p) = pr_enabled p" "\<And>p. pr_auto_discovered (g p) = pr_auto_discovered p"
    "unknown_row t d"
  shows "unknown_row t (d\<lparr>db_peers := map g (db_peers d)\<rparr>)"
  using assms(4) by (simp add: unknown_row_def) (metis assms(1-3))

lemma unknown_row_kept:
  "keeps (unknown_row t) (UpsertPeerFromReconcile u n True False ep pka)" "keeps (unknown_row t) ListPeers"
  "keeps (unknown_row t) (UpdateLastSeenEndpoints us)"
proof -
  have "keeps (unknown_row t) (insert_row p)" for p
    by (auto simp: keeps_def insert_row_def Let_def unknown_row_def)
  then show "keeps (unknown_row t) (UpsertPeerFromReconcile u n True False ep pka)" unfolding UpsertPeerFromReconcile_def
    by (intro keeps_stmt_gen unknown_row_faults insert_or_ignore_keeps)
  show "keeps (unknown_row t) ListPeers"
    unfolding ListPeers_def by (rule keeps_stmt_gen[OF unknown_row_faults]) (simp add: keeps_def)
  show "keeps (unknown_row t) (UpdateLastSeenEndpoints us)"
    unfolding UpdateLastSeenEndpoints_def
    by (intro keeps_intros keeps_stmt_gen keeps_transaction_gen unknown_row_faults)
       (simp add: update_rows_def unknown_row_map)
qed

lemma foldl_reaches:
  assumes "x \<in> set xs" "I w" "\<And>w x. I w \<Longrightarrow> I (f w x)" "\<And>w. I w \<Longrightarrow> J (f w x)" "\<And>w x. J w \<Longrightarrow> J (f w x)"
  shows "J (foldl f w xs)"
proof -
  have after: "J w \<Longrightarrow> J (foldl f w xs)" for w xs using assms(5) by (induction xs arbitrary: w) auto
  show ?thesis using assms(1,2) by (induction xs arbitrary: w) (auto simp: assms(3,4) after)
qed

lemma remove_stale_unknown:
  assumes "map_of db_set t = None" "holds_db (fresh_or_unknown t) w"
  shows "holds_db (unknown_row t) (snd (remove_stale env db_set (t, p) w))"
proof -
  have "w_db (snd (remove_key env k w)) = w_db w" for k
    using keepsD[OF keeps_db_frame(2)[where P = "\<lambda>d. d = w_db w"], of w] by (simp add: holds_db_def)
  then show ?thesis using assms
    by (auto simp: remove_stale_def holds_db_def thenE_ignoreE upsert_unknown split: prod.split)
qed

text \<open>A pass records a key of the kernel that the database does not know, disabled.\<close>

lemma pass_records_unknown:
  assumes "wg_contract (e_wg env) keys ok" "ok (w_kern w)" "orders_ok o'" "db_inv (w_db w)" "db_faults (w_db w) = []"
    "pub \<in> keys (w_kern w)" "\<not> has_peer (e_key env pub) (w_db w)" "ReconcileOnce env o' w = (Inr (), w')"
  shows "unknown_row (e_key env pub) (w_db w')"
proof -
  let ?t = "e_key env pub"
  from reconcile_run[OF assms(8)] obtain dev k' d' ps where
    run: "get_device (e_wg env) (e_interface env) (w_kern w) = (Inr dev, k')" "ListPeers (w_db w) = (Inr ps, d')"
      "w' = snd (record_seen o' (seen_deltas (by_key (\<lambda>p. e_key env (wp_key p)) (dev_peers dev)) (by_key pr_public_key ps))
      (snd (rewriteConf (after_additions env o' dev ps (after_removals env o' dev ps (w\<lparr>w_kern := k', w_db := d'\<rparr>))))))"
    by metis
  have "pub \<in> wp_key ` set (dev_peers dev)"
    using wg_contract.get_device_peers[OF assms(1,2) run(1)] assms(6) by auto
  then have "?t \<in> fst ` set (by_key (\<lambda>p. e_key env (wp_key p)) (dev_peers dev))" unfolding keys_by_key by auto
  then obtain q where q: "(?t, q) \<in> set (ord_kernel o' (by_key (\<lambda>p. e_key env (wp_key p)) (dev_peers dev)))"
    using assms(3) by (auto simp: orders_ok_def)
  have absent: "map_of (by_key pr_public_key ps) ?t = None"
    using assms(7) ListPeers_result(1)[OF run(2)] by (simp add: map_of_by_key_None has_peer_def)
  have d': "d' = w_db w" using run(2) assms(5) by (auto simp: ListPeers_def stmt_def)
  have "holds_db (fresh_or_unknown ?t) (w\<lparr>w_kern := k', w_db := d'\<rparr>)"
    using assms(4,5,7) by (simp add: holds_db_def fresh_or_unknown_def d')
  then have removed: "holds_db (unknown_row ?t) (after_removals env o' dev ps (w\<lparr>w_kern := k', w_db := d'\<rparr>))"
    unfolding after_removals_def
    by (rule foldl_reaches[OF q, where I = "holds_db (fresh_or_unknown ?t)"])
       (rule keepsD[OF keeps_remove_stale[OF upsert_keeps_fresh]] remove_stale_unknown[OF absent]
          keepsD[OF keeps_remove_stale[OF unknown_row_kept(1)]], assumption)+
  have "J w \<Longrightarrow> J (foldl f w xs)" if "\<And>w x. J w \<Longrightarrow> J (f w x)" for J :: "('a, 'b) world \<Rightarrow> bool" and f and xs :: "(string \<times> peer) list" and w
    using that by (induction xs arbitrary: w) auto
  then have "J w \<Longrightarrow> J (foldl (\<lambda>w x. snd (add_missing env ks x w)) w xs)" if "\<And>x. keeps J (add_missing env ks x)"
    for J :: "('a, 'b) world \<Rightarrow> bool" and ks w xs
    using that unfolding keeps_def by metis
  from this[OF keeps_add_missing[where P = "unknown_row ?t"] removed]
  have "holds_db (unknown_row ?t) (after_additions env o' dev ps (after_removals env o' dev ps (w\<lparr>w_kern := k', w_db := d'\<rparr>)))"
    unfolding after_additions_def .
  from keepsD[OF keeps_rewriteConf[OF unknown_row_kept(2)] this]
  have "holds_db (unknown_row ?t) (snd (rewriteConf (after_additions env o' dev ps (after_removals env o' dev ps (w\<lparr>w_kern := k', w_db := d'\<rparr>)))))" .
  moreover have "keeps (holds_db (unknown_row ?t)) (record_seen o' ds :: (('a, 'b) world, reconcile_err, unit) prog)" for ds
    unfolding record_seen_def by (intro keeps_intros keeps_on_db_gen unknown_row_kept(3))
  ultimately show ?thesis unfolding run(3) using keepsD holds_db_def by metis
qed

lemma insert_known_key: "has_peer (pr_public_key p) d \<Longrightarrow> fst (CreatePeer p d) \<noteq> Inr i"
  by (auto simp: CreatePeer_def stmt_def insert_row_def inserted_def unique_ok_def has_peer_def Let_def split: if_splits)

text \<open>
  C23: A creation does not take the lock: CreatePeer configures the key in the kernel before it inserts the
  row. A pass in between takes the key out of the kernel again and records it as unknown and disabled,
  so that the insertion, whatever the row, fails on the key: the request ends in an error, and a peer
  that cannot connect is left in the database.
\<close>
theorem creation_loses_to_pass:
  assumes "reliable_wg (e_wg env) keys ok" "ok (w_kern w)" "\<forall>k \<in> keys (w_kern w). is_key k" "key_text (e_key env)" "orders_ok o'"
    "db_inv (w_db w)" "db_faults (w_db w) = []" "pub \<in> keys (w_kern w)" "\<not> has_peer (e_key env pub) (w_db w)"
    "\<forall>t \<in> enabled_texts (w_db w). \<exists>k. is_key k \<and> t = e_key env k" "ReconcileOnce env o' w = (Inr (), w')" "pr_public_key row = e_key env pub"
  shows "pub \<notin> keys (w_kern w') \<and> fst (on_db (CreatePeer row) w') \<noteq> Inr i \<and>
    (\<exists>q \<in> set (db_peers (w_db w')). pr_public_key q = e_key env pub \<and> \<not> pr_enabled q \<and> pr_auto_discovered q)"
proof -
  have enabled: "e_key env pub \<notin> enabled_texts (w_db w)" using assms(9) by (auto simp: has_peer_def enabled_texts_def)
  have contract: "wg_contract (e_wg env) keys ok" using assms(1) by (rule reliable_wg.axioms(1))
  note row = pass_records_unknown[OF contract assms(2,5,6,7,8,9,11)]
  have "pub \<notin> wanted (e_key env) (keys (w_kern w)) (w_db w)"
  proof
    assume "pub \<in> wanted (e_key env) (keys (w_kern w)) (w_db w)"
    then obtain t where t: "t \<in> enabled_texts (w_db w)" "t \<notin> e_key env ` keys (w_kern w)" "parse_key t = Some pub" by (auto simp: wanted_def)
    then obtain k where "is_key k" "t = e_key env k" using assms(10) by blast
    then have "k = pub" using t(3) assms(4) by (simp add: key_text_def)
    with t(2) assms(8) \<open>t = e_key env k\<close> show False by blast
  qed
  then have "pub \<notin> keys (w_kern w')"
    unfolding reliable_wg.pass_exact[OF assms(1) refl assms(2-6,11)] using assms(8) enabled by (simp add: unwanted_def)
  moreover have "fst (on_db (CreatePeer row) w') \<noteq> Inr i"
  proof -
    have "has_peer (pr_public_key row) (w_db w')" using row by (force simp: has_peer_def unknown_row_def assms(12))
    from insert_known_key[OF this] show ?thesis by (cases "CreatePeer row (w_db w')") (simp add: on_db_def)
  qed
  ultimately show ?thesis using row by (simp add: unknown_row_def)
qed

theorem creation_loses_to_pass_witness:
  "\<exists>w'. ReconcileOnce sample_env sample_orders (sample_world [sample_key CHR ''C'']) = (Inr (), w') \<and>
     fst (on_db (CreatePeer ((sample_row 0 (b64_encode (sample_key CHR ''C'')) True ''10.0.0.3/32''))) w') \<noteq> Inr 2"
proof -
  let ?w = "sample_world [sample_key CHR ''C'']" and ?row = "sample_row 0 (b64_encode (sample_key CHR ''C'')) True ''10.0.0.3/32''"
  obtain w' where w': "ReconcileOnce sample_env sample_orders ?w = (Inr (), w')" by (rule sample_pass)
  have k: "reliable_wg (e_wg sample_env) dev_keys dev_ok"
    using dev_reliable.reliable_wg_axioms by (simp add: sample_facts(3))
  have key: "e_key sample_env (sample_key CHR ''C'') = b64_encode (sample_key CHR ''C'')" by (simp add: sample_env_def)
  have faults: "db_faults (w_db ?w) = []" by (simp add: sample_world_def)
  have other: "b64_encode (sample_key CHR ''C'') \<noteq> b64_encode (sample_key CHR ''B'')"
    using key_text_inj[OF key_text_b64 sample_facts(4) sample_facts(4)] by (fastforce simp: sample_key_def)
  have absent: "\<not> has_peer (e_key sample_env (sample_key CHR ''C'')) (w_db ?w)"
    using sample_texts other by (simp add: has_peer_def key) (simp add: sample_world_def sample_row_def)
  have "pr_public_key ?row = e_key sample_env (sample_key CHR ''C'')" by (simp add: sample_row_def key)
  from creation_loses_to_pass[OF k _ _ sample_facts(2,1) sample_db faults _ absent sample_canonical w' this, of 2] w'
  show ?thesis by (auto simp: sample_facts)
qed


subsection \<open>Numbers of connections\<close>

text \<open>The kinds of \<open>net.Conn\<close> ConnContext tells apart, and the counter, an atomic int64.\<close>

datatype net_conn = NilConn | NoRemote | UnixConn | TcpConn string

definition isUnixConn :: "net_conn \<Rightarrow> bool" where
  "isUnixConn c = (case c of NilConn \<Rightarrow> False | NoRemote \<Rightarrow> False | UnixConn \<Rightarrow> True | TcpConn _ \<Rightarrow> False)"

record conn_context =
  cc_id :: "64 word option"
  cc_unix :: "bool option"

definition ConnContext :: "net_conn \<Rightarrow> 64 word \<Rightarrow> conn_context \<times> 64 word" where
  "ConnContext c counter = (\<lparr>cc_id = Some (counter + 1), cc_unix = Some (isUnixConn c)\<rparr>, counter + 1)"

definition connIDFromContext :: "conn_context \<Rightarrow> int" where
  "connIDFromContext x = (case cc_id x of None \<Rightarrow> 0 | Some i \<Rightarrow> sint i)"

definition IsUnixSocket :: "conn_context \<Rightarrow> bool" where
  "IsUnixSocket x = (cc_unix x = Some True)"

fun accept_all :: "net_conn list \<Rightarrow> 64 word \<Rightarrow> conn_context list" where
  "accept_all [] n = []"
| "accept_all (c # cs) n = (case ConnContext c n of (x, n') \<Rightarrow> x # accept_all cs n')"

lemma accept_all_length [simp]: "length (accept_all cs n) = length cs"
  by (induction cs arbitrary: n) (simp_all add: ConnContext_def)

lemma accept_all_nth:
  "i < length cs \<Longrightarrow> accept_all cs n ! i = \<lparr>cc_id = Some (n + of_nat (Suc i)), cc_unix = Some (isUnixConn (cs ! i))\<rparr>"
  by (induction cs arbitrary: n i) (auto simp: ConnContext_def nth_Cons add.assoc split: nat.split)

text \<open>
  Every connection has a bucket of its own: the numbers ConnContext gives to the first 2 to the 63
  minus 1 connections are the positive numbers in order, none is the 0 of a request without a number,
  and a connection counts as one of the Unix socket exactly when its peer address is a Unix address.
\<close>
theorem connection_ids_distinct:
  assumes "length cs < 2 ^ 63"
  shows "map connIDFromContext (accept_all cs 0) = map int [1..<Suc (length cs)] \<and>
    map IsUnixSocket (accept_all cs 0) = map isUnixConn cs"
proof
  show "map connIDFromContext (accept_all cs 0) = map int [1..<Suc (length cs)]"
  proof (rule nth_equalityI)
    fix i assume "i < length (map connIDFromContext (accept_all cs 0))"
    then have i: "i < length cs" by simp
    then have "int (Suc i) < 2 ^ 63" using assms by simp
    then have number: "sint (word_of_nat (Suc i) :: 64 word) = int (Suc i)"
      by (simp only: signed_of_nat) (simp add: signed_take_bit_int_eq_self del: of_nat_Suc)
    have nth: "accept_all cs 0 ! i = \<lparr>cc_id = Some (word_of_nat (Suc i)), cc_unix = Some (isUnixConn (cs ! i))\<rparr>"
      using i by (simp only: accept_all_nth add_0)
    with i number show "map connIDFromContext (accept_all cs 0) ! i = map int [1..<Suc (length cs)] ! i"
      by (simp only: nth_map accept_all_length nth connIDFromContext_def conn_context.select_convs option.case length_upt) (simp del: upt_Suc)
  qed (simp del: upt_Suc)
  show "map IsUnixSocket (accept_all cs 0) = map isUnixConn cs"
    by (rule nth_equalityI) (simp_all add: accept_all_nth IsUnixSocket_def)
qed

theorem connection_ids_distinct_witness:
  "map connIDFromContext (accept_all [UnixConn, TcpConn ''10.0.0.1:9''] 0) = [1, 2]"
  using connection_ids_distinct[of "[UnixConn, TcpConn ''10.0.0.1:9'']"] by simp

subsection \<open>Closing\<close>

text \<open>
  Close of the rate limiter, the stores and the login limiter: the select looks whether the channel is
  closed, and a second close of a channel panics. A thread that calls Close is before the select,
  between it and the close, or done.
\<close>

datatype closer = Calling | Closing | Returning

record closing =
  cs_threads :: "closer list"
  cs_closed :: bool
  cs_panicked :: bool

definition close_step :: "nat \<Rightarrow> closing \<Rightarrow> closing" where
  "close_step i s =
     (if i < length (cs_threads s) then
        (case cs_threads s ! i of
           Calling \<Rightarrow> s\<lparr>cs_threads := (cs_threads s)[i := (if cs_closed s then Returning else Closing)]\<rparr>
         | Closing \<Rightarrow> s\<lparr>cs_threads := (cs_threads s)[i := Returning], cs_closed := True,
             cs_panicked := (cs_panicked s \<or> cs_closed s)\<rparr>
         | Returning \<Rightarrow> s)
      else s)"

definition close_run :: "nat \<Rightarrow> nat list \<Rightarrow> closing" where
  "close_run n is' = foldl (\<lambda>s i. close_step i s) \<lparr>cs_threads = replicate n Calling, cs_closed = False, cs_panicked = False\<rparr> is'"

lemma close_once:
  assumes "s = \<lparr>cs_threads = replicate j Returning @ Calling # ts, cs_closed = (0 < j), cs_panicked = False\<rparr>"
  shows "close_step j (close_step j s) = \<lparr>cs_threads = replicate (Suc j) Returning @ ts, cs_closed = True, cs_panicked = False\<rparr>"
proof -
  have at: "(replicate j Returning @ x # ts) ! j = x" "(replicate j Returning @ x # ts)[j := y] = replicate j Returning @ y # ts" for x y
    using nth_append_length[of "replicate j Returning" x ts] list_update_length[of "replicate j Returning" x ts y] by simp_all
  have tail: "replicate (Suc j) Returning @ ts = replicate j Returning @ Returning # ts" by (simp add: replicate_app_Cons_same)
  show ?thesis unfolding assms tail by (cases "0 < j") (simp_all add: close_step_def at)
qed

lemma close_prefix:
  "j \<le> n \<Longrightarrow> close_run n (concat (map (\<lambda>i. [i, i]) [0..<j])) =
     \<lparr>cs_threads = replicate j Returning @ replicate (n - j) Calling, cs_closed = (0 < j), cs_panicked = False\<rparr>"
proof (induction j)
  case (Suc j)
  then have "replicate (n - j) Calling = Calling # replicate (n - Suc j) Calling" by (simp flip: replicate_Suc add: Suc_diff_Suc)
  with Suc close_once[OF refl, of j "replicate (n - Suc j) Calling"] show ?case by (simp add: close_run_def)
qed (simp add: close_run_def)

lemma close_overlapping: "cs_panicked (close_run 2 [0, 1, 0, 1])"
  by (simp add: close_run_def close_step_def numeral_2_eq_2)

text \<open>
  Close may be called many times in a row, but not at the same time: calls that follow one another
  never panic, while two whose selects both come before the first close do.
\<close>
theorem close_sequential_only:
  "\<not> cs_panicked (close_run n (concat (map (\<lambda>i. [i, i]) [0..<n]))) \<and> cs_panicked (close_run 2 [0, 1, 0, 1])"
  using close_prefix[of n n] close_overlapping by simp

end
