(* ===== verification/Converge.thy ===== *)
theory Converge
  imports Locks
begin

text \<open>
  The running agent over a WireGuard client that does not fail: whatever it did before, the next pass
  makes the keys of the kernel those of the enabled peers. The locale collects what a fact about the
  kernel needs to survive every handler: the calls that read, generate, remove and configure keys.
\<close>

subsection \<open>Facts about the kernel\<close>

locale kernel_frame =
  fixes env :: "('k, 'f) env" and I :: "('k, 'f) world \<Rightarrow> bool"
  assumes kern_only: "I w \<Longrightarrow> w_kern w' = w_kern w \<Longrightarrow> I w'"
    and dev_kern: "I w \<Longrightarrow> I (snd (get_dev env w))"
    and psk_kern: "I w \<Longrightarrow> I (snd (gen_psk env w))"
    and pair_kern: "I w \<Longrightarrow> I (snd (gen_key_pair env w))"
    and pair_key: "I w \<Longrightarrow> fst (gen_key_pair env w) = Inr ab \<Longrightarrow> is_key (snd ab)"
    and remove_kern: "I w \<Longrightarrow> I (snd (remove_key env x w))"
    and configure_kern: "I w \<Longrightarrow> \<forall>c \<in> set cs. is_key (wc_key c) \<Longrightarrow> I (snd (configure env cs w))"

sublocale kernel_frame \<subseteq> read_frame
  by unfold_locales (auto intro: kern_only dev_kern)

lemma keeps_bindE_value:
  "keeps I m \<Longrightarrow> (\<And>a w. I w \<Longrightarrow> fst (m w) = Inr a \<Longrightarrow> keeps I (f a)) \<Longrightarrow> keeps I (bindE m f)"
  by (fastforce simp: keeps_def bindE_def split: prod.splits sum.splits)

lemma stored_key_value: "fst (stored_key t w) = Inr k \<Longrightarrow> is_key k"
  using stored_key_ok[of t w k "snd (stored_key t w)"] parse_key_is_key by (auto simp: prod_eq_iff)

context kernel_frame begin

lemma keeps_db_any [keeps_intros]: "keeps I (on_db m)" "keeps I (db_call n)" "keeps I (db_find n)"
  by (auto simp: keeps_def db_call_def db_find_def intro: kern_only)

lemma keeps_fw_any [keeps_intros]: "keeps I (fw_apply env p)" "keeps I (fw_remove env p)"
  by (auto simp: keeps_def intro: kern_only)

lemma keeps_key_calls [keeps_intros]:
  "keeps I (gen_psk env)" "keeps I (gen_key_pair env)" "keeps I (remove_key env x)" "keeps I (key_pair env)"
  using psk_kern pair_kern remove_kern by (auto simp: keeps_def key_pair_def)

lemma keeps_configure: "(\<And>c. c \<in> set cs \<Longrightarrow> is_key (wc_key c)) \<Longrightarrow> keeps I (configure env cs)"
  using configure_kern by (simp add: keeps_def)

lemma keeps_prepare_kern [keeps_intros]:
  "keeps I (resolve_request env req)" "keeps I (quota env n)" "keeps I (request_psk env s)"
  "keeps I (check_create env req ips)" "keeps I (check_batch_item env req)" "keeps I (resolve_item env req)"
  "keeps I (item_config env rp)" "keeps I (undo_firewall env rps)" "keeps I (undo_kernel env rps)"
  "keeps I (server_identity env)" "keeps I (create_response env req priv row i)" "keeps I (peer_of_path t)"
  unfolding resolve_request_def quota_def request_psk_def check_create_def check_batch_item_def resolve_item_def item_config_def
    undo_firewall_def undo_kernel_def server_identity_def create_response_def peer_of_path_def Let_def
  by (intro keeps_intros; fail)+

lemma keeps_pair: "(\<And>a b. is_key b \<Longrightarrow> keeps I (F a b)) \<Longrightarrow> keeps I (bindE (key_pair env) (case_prod F))"
proof (rule keeps_bindE_value[OF keeps_key_calls(4)])
  fix ab w
  assume F: "\<And>a b. is_key b \<Longrightarrow> keeps I (F a b)" and "I w" "fst (key_pair env w) = Inr ab"
  then have "is_key (snd ab)" using pair_key[of w ab] by (auto simp: key_pair_def mapErr_fst split: sum.splits)
  then show "keeps I (case_prod F ab)" using F[of "snd ab" "fst ab"] by (simp add: case_prod_beta)
qed

lemma keeps_stored: "(\<And>k. is_key k \<Longrightarrow> keeps I (F k)) \<Longrightarrow> keeps I (bindE (stored_key t) F)"
  by (rule keeps_bindE_value[OF keeps_calls(6)]) (blast intro: stored_key_value)

lemmas key_sources = keeps_pair keeps_stored keeps_configure

lemma keeps_install:
  "is_key (wc_key cfg) \<Longrightarrow> keeps I (install_peer env temp cfg row)"
  "\<forall>c \<in> set cfgs. is_key (wc_key c) \<Longrightarrow> keeps I (install_batch env rps cfgs)"
  unfolding install_peer_def install_batch_def
  by (intro keeps_configure keeps_intros; simp)+

lemma keeps_create_kern: "keeps I (api_CreatePeer env body)"
  unfolding api_CreatePeer_def Let_def prod.case
  by (intro keeps_install(1) key_sources keeps_intros; simp add: new_peer_config_def)

lemma keeps_single:
  "is_key (wc_key c) \<Longrightarrow> keeps I (kernel_add env c)" "is_key (wc_key c) \<Longrightarrow> keeps I (re_add env c)"
  "is_key (wc_key c) \<Longrightarrow> keeps I (swap_back env c d)"
  unfolding kernel_add_def re_add_def swap_back_def
  by (intro keeps_configure keeps_intros; simp)+

lemma keeps_update_kern:
  "keeps I (update_profile_ips env req)" "keeps I (update_address p req)" "keeps I (check_network_fields req)"
  "keeps I (move_peer env p req)" "keeps I (reconfigure env p req)" "keeps I (refresh_firewall env i p req)"
  unfolding update_profile_ips_def update_address_def check_network_fields_def move_peer_def reconfigure_def refresh_firewall_def
  by (intro keeps_single key_sources keeps_intros; simp add: plain_config_def)+

lemma keeps_update: "keeps I (api_UpdatePeer env s body)"
  unfolding api_UpdatePeer_def by (intro keeps_update_kern keeps_intros)

lemma keeps_approve_kern: "keeps I (api_ApprovePeer env s body)"
  unfolding api_ApprovePeer_def check_approve_def Let_def
  by (intro key_sources keeps_intros; simp add: approve_config_def plain_config_def)

lemma keeps_delete_kern: "keeps I (api_DeletePeer env s)"
  unfolding api_DeletePeer_def by (intro keeps_intros)

lemma keeps_rotate_kern: "keeps I (api_RotateKeys env s)"
proof -
  have "keeps I (rotate_commit env p old new psk)" if "is_key (wc_key old)" "is_key (wc_key new)" for p old new psk
    unfolding rotate_commit_def Let_def using that by (intro keeps_single key_sources keeps_intros; simp)
  then show ?thesis
    unfolding api_RotateKeys_def rotate_response_def rotated_psk_def Let_def prod.case
    by (intro key_sources keeps_intros; simp add: plain_config_def)
qed

lemma forE_values:
  assumes "\<And>x. keeps I (f x)" "\<And>x w a. x \<in> set xs \<Longrightarrow> I w \<Longrightarrow> fst (f x w) = Inr a \<Longrightarrow> P a" "I w" "fst (forE xs f w) = Inr as"
  shows "\<forall>a \<in> set as. P a"
  using assms(2-4)
proof (induction xs arbitrary: w as)
  case (Cons x xs)
  obtain w' where run: "forE (x # xs) f w = (Inr as, w')" using Cons.prems(3) by (auto simp: prod_eq_iff)
  from forE_ConsD[OF run] obtain y w1 zs where 1: "f x w = (Inr y, w1)" "forE xs f w1 = (Inr zs, w')" "as = y # zs" by blast
  have "I w1" using keepsD'[OF assms(1) Cons.prems(2) 1(1)] .
  moreover have "P y" using Cons.prems(1)[of x w y] Cons.prems(2) 1(1) by simp
  ultimately show ?case using Cons.IH[of w1 zs] Cons.prems(1) 1 by auto
qed simp

lemma resolve_item_key: "I w \<Longrightarrow> fst (resolve_item env p w) = Inr rp \<Longrightarrow> is_key (rp_pub rp)"
proof -
  assume w: "I w" and r: "fst (resolve_item env p w) = Inr rp"
  then obtain w' where run: "resolve_item env p w = (Inr rp, w')" by (auto simp: prod_eq_iff)
  let ?ips = "if has_profile_ref (cq_profile p) then resolve_profile env (the (cq_profile p))
      else thenE (guardE (ValidateAllowedIPs (cq_allowed_ips p)) invalid) (ret (cq_allowed_ips p)) :: ('k, 'f, string list) handler"
  from run obtain ips w1 ab w2 where 1: "?ips w = (Inr ips, w1)" "key_pair env w1 = (Inr ab, w2)" "rp_pub rp = snd ab"
    unfolding resolve_item_def by (fastforce dest!: bindE_InrD split: prod.splits)
  have "keeps I ?ips" by (intro keeps_intros)
  then have "I w1" using w 1(1) by (rule keepsD')
  then show "is_key (rp_pub rp)" using pair_key[of w1 ab] 1(2,3) by (auto simp: key_pair_def mapErr_Inr)
qed

lemma item_config_key: "fst (item_config env rp w) = Inr c \<Longrightarrow> wc_key c = rp_pub rp"
  by (auto simp: item_config_def bindE_def new_peer_config_def first_net_def split: prod.splits sum.splits option.splits)

lemma keeps_batch_kern: "keeps I (api_BatchCreatePeers env body)"
proof -
  have install: "keeps I (bindE (forE rps (item_config env)) (\<lambda>cfgs. bindE (install_batch env rps cfgs) (\<lambda>ids. ret (f ids))))"
    if "\<forall>rp \<in> set rps. is_key (rp_pub rp)" for rps f
  proof (rule keeps_bindE_value)
    fix cfgs w assume w: "I w" "fst (forE rps (item_config env) w) = Inr cfgs"
    have "\<forall>c \<in> set cfgs. is_key (wc_key c)"
      by (rule forE_values[OF keeps_prepare_kern(7) _ w]) (use that item_config_key in auto)
    then show "keeps I (bindE (install_batch env rps cfgs) (\<lambda>ids. ret (f ids)))" by (intro keeps_intros keeps_install)
  qed (intro keeps_intros)
  have "keeps I (bindE (forE reqs (resolve_item env)) (\<lambda>rps. bindE (forE rps (item_config env)) (\<lambda>cfgs.
      bindE (install_batch env rps cfgs) (\<lambda>ids. ret (map2 (batch_response env) ids rps)))))" for reqs
  proof (rule keeps_bindE_value)
    fix rps w assume w: "I w" "fst (forE reqs (resolve_item env) w) = Inr rps"
    have "\<forall>rp \<in> set rps. is_key (rp_pub rp)"
      by (rule forE_values[OF keeps_prepare_kern(6) _ w]) (rule resolve_item_key)
    then show "keeps I (bindE (forE rps (item_config env)) (\<lambda>cfgs. bindE (install_batch env rps cfgs) (\<lambda>ids. ret (map2 (batch_response env) ids rps))))"
      by (rule install)
  qed (intro keeps_intros)
  note loop = this
  show ?thesis unfolding api_BatchCreatePeers_def by (intro loop keeps_intros)
qed

lemma keeps_queries_kern:
  "keeps I (api_Health env cw)" "keeps I (api_Stats env now)" "keeps I (api_ListPeers env)"
  "keeps I (api_NextAddress addrs)" "keeps I (api_GetPeer env s)"
  unfolding api_Health_def api_Stats_def api_ListPeers_def api_NextAddress_def api_GetPeer_def Let_def
  by (intro keeps_intros)+

lemma keeps_profiles_kern:
  "keeps I (api_ListProfiles env)" "keeps I (api_GetProfile env n)" "keeps I (api_CreateProfile env cb)"
  "keeps I (api_UpdateProfile env n ub)" "keeps I (api_DeleteProfile n)"
  unfolding api_GetProfile_def api_ListProfiles_def api_CreateProfile_def api_UpdateProfile_def api_DeleteProfile_def
    check_cidrs_def Let_def
  by (intro keeps_intros; fail)+

lemma keeps_endpoint: "keeps I (serve_api env i ep)"
  unfolding serve_api_def
  by (cases ep) (simp_all add: keeps_replied keeps_queries_kern keeps_profiles_kern keeps_create_kern keeps_batch_kern keeps_update
      keeps_rotate_kern keeps_approve_kern keeps_delete_kern)

lemma keeps_add_kern [keeps_intros]: "keeps I (add_missing env ks x)"
proof -
  obtain t p where x: "x = (t, p)" by (cases x)
  have "keeps I (configure env [missing_config env p k])" if "parse_key t = Some k" for k
    using parse_key_is_key[OF that] by (intro keeps_configure) (simp add: missing_config_def)
  then show ?thesis
    unfolding x add_missing_def prod.case
    by (cases "parse_key t") (simp_all only: option.case, (intro keeps_intros keeps_case_sum; simp)+)
qed

lemma keeps_pass_parts [keeps_intros]:
  "keeps I (remove_stale env ds y)" "keeps I rewriteConf" "keeps I (record_seen o' d)"
  unfolding remove_stale_def rewriteConf_def record_seen_def by (intro keeps_intros)+

lemma keeps_fw_sync [keeps_intros]: "keeps I (fw_sync_world env qs)"
  by (auto simp: keeps_def fw_sync_world_def intro: kern_only split: prod.split)

lemma keeps_pass_kern [keeps_intros]: "keeps I (ReconcileOnce env o')"
  unfolding ReconcileOnce_def Let_def by (intro keeps_intros)

lemma keeps_start_sync: "keeps I (start_sync env o')"
  unfolding start_sync_def by (intro keeps_intros)

lemma flush_kern: "I w \<Longrightarrow> I (flush_daemon w)"
proof -
  assume w: "I w"
  have deb: "I (w\<lparr>w_deb := b\<rparr>)" for b using w by (rule kern_only) simp
  have "keeps I (bindE get_peers (\<lambda>ps. ignoreE (write_shared ps)) :: (('k, 'f) world, unit, unit) prog)"
    unfolding get_peers_def by (intro keeps_intros)
  from keepsD[OF this deb] deb show "I (flush_daemon w)" by (simp add: flush_daemon_def split: prod.split)
qed

lemma agent_step_kern: "I (ag_world a) \<Longrightarrow> I (ag_world (agent_step wr e env ev a))"
  using keepsD[OF keeps_endpoint] keepsD[OF keeps_pass_kern] flush_kern
  by (auto simp: agent_step_def serve_request_def split: event.split prod.split passage.split gate_verdict.split option.split)

lemma boot_kern:
  assumes "boot cfg env o' meta stmts faults d w = Some w'" "I w"
  shows "I w'"
proof -
  obtain b' where "w' = snd (start_sync env o' (w\<lparr>w_db := b'\<rparr>))"
    using assms(1) by (auto simp: boot_def split: if_splits sum.splits prod.splits)
  moreover have "I (w\<lparr>w_db := b'\<rparr>)" using assms(2) by (rule kern_only) simp
  ultimately show ?thesis using keepsD[OF keeps_start_sync] by blast
qed

end

subsection \<open>The clients\<close>

text \<open>
  A public key is 32 bytes (wgtypes.Key): what every client generates. With its contract, that makes
  the keys of the kernel well formed throughout.
\<close>

locale typed_wg = wg_contract +
  assumes generated_key: "ok k \<Longrightarrow> generate_key_pair C k = (Inr ab, k') \<Longrightarrow> is_key (snd ab)"

definition kernel_ok :: "('k \<Rightarrow> wgkey set) \<Rightarrow> ('k \<Rightarrow> bool) \<Rightarrow> ('k, 'f) world \<Rightarrow> bool" where
  "kernel_ok keys ok w \<longleftrightarrow> ok (w_kern w) \<and> (\<forall>k \<in> keys (w_kern w). is_key k)"

sublocale typed_wg \<subseteq> kern: kernel_frame "env\<lparr>e_wg := C\<rparr>" "kernel_ok keys ok" for env :: "('a, 'f) env"
proof (unfold_locales, goal_cases)
  case (2 w)
  then show ?case using get_device_ok by (fastforce simp: kernel_ok_def get_dev_def split: prod.split)
next
  case (3 w)
  then show ?case using psk_ok by (fastforce simp: kernel_ok_def gen_psk_def split: prod.split)
next
  case (4 w)
  then show ?case using key_pair_ok by (fastforce simp: kernel_ok_def gen_key_pair_def split: prod.split)
next
  case (5 w ab)
  then show ?case using generated_key by (auto simp: kernel_ok_def gen_key_pair_def split: prod.splits)
next
  case (6 w x)
  then show ?case using remove_ok by (fastforce simp: kernel_ok_def remove_key_def split: prod.split)
next
  case (7 w cs)
  obtain u k' where run: "configure_peers C (e_interface env) cs (w_kern w) = (u, k')" by fastforce
  have "keys k' \<subseteq> keys (w_kern w) \<union> added_keys cs" "ok k'"
    using configure_ok[OF _ run] 7(1) by (auto simp: kernel_ok_def)
  moreover have "\<forall>k \<in> added_keys cs. is_key k" using 7(2) by (auto simp: added_keys_def)
  ultimately show ?case using 7(1) by (auto simp: kernel_ok_def configure_def run)
qed (simp add: kernel_ok_def)

interpretation degraded_typed: typed_wg degraded_client "\<lambda>_. {}" "\<lambda>_. True"
  by unfold_locales (simp add: degraded_client_def)

text \<open>The in-memory client, over a multiplication on the curve that gives a key of 32 bytes.\<close>

definition as_key :: "string \<Rightarrow> wgkey" where
  "as_key s = take 32 (s @ replicate 32 (CHR 0x00))"

interpretation dev_typed: typed_wg "dev_interface (\<lambda>k. as_key (pub k))" dev_keys dev_ok
  by unfold_locales
    (auto simp: dev_interface_def dev_generate_key_pair_def bindE_def as_key_def is_key_def split: prod.splits sum.splits)

text \<open>What a reached state has: the kernel and the database in order.\<close>

context typed_wg begin

lemma reached_ok:
  assumes "e_wg env = C" "disk_ok d" "kernel_ok keys ok w" "boot cfg env o' meta stmts faults d w = Some w'"
    "reaches wr e env \<lparr>ag_gate = g, ag_world = w'\<rparr> a"
  shows "kernel_ok keys ok (ag_world a) \<and> db_ok (ag_world a)"
proof -
  have env: "env\<lparr>e_wg := C\<rparr> = env" using assms(1) by simp
  show ?thesis using assms(5)
  proof (induction rule: reaches.induct)
    case start
    then show ?case
      using kern.boot_kern[where env = env, unfolded env, OF assms(4,3)] boot_ok[OF assms(2,4)] by simp
  next
    case (more b ev)
    then show ?case
      using kern.agent_step_kern[where env = env, unfolded env, of b] agent_step_ok[of b] by blast
  qed
qed

end

text \<open>The keys after a successful pass, whatever texts the database has.\<close>

lemma exact_keys:
  assumes "key_text f" "\<forall>k \<in> K. is_key k"
  shows "K - unwanted f K d \<union> wanted f K d = {k. \<exists>t \<in> enabled_texts d. parse_key t = Some k}"
  using assms by (auto simp: unwanted_def wanted_def key_text_def) fastforce+

subsection \<open>Properties\<close>

text \<open>
  C3: Whatever the agent did since its start, over a WireGuard client whose removals and configurations do
  not fail the next successful pass leaves exactly the keys of the enabled peers in the kernel: requests
  of every kind, in any number and order, other passes and flushes, with failures of the database, the
  firewall and the file anywhere, never lead to a kernel that the reconciler does not repair.
\<close>
theorem agent_converges:
  assumes "reliable_wg (e_wg env) keys ok" "\<forall>k ab k'. ok k \<longrightarrow> generate_key_pair (e_wg env) k = (Inr ab, k') \<longrightarrow> is_key (snd ab)"
    "key_text (e_key env)" "disk_ok d" "ok (w_kern w)" "\<forall>k \<in> keys (w_kern w). is_key k"
    "boot cfg env o' meta stmts faults d w = Some w'" "reaches wr e env \<lparr>ag_gate = g, ag_world = w'\<rparr> a"
    "orders_ok o2" "ReconcileOnce env o2 (ag_world a) = (Inr (), w2)"
  shows "keys (w_kern w2) = {k. \<exists>t \<in> enabled_texts (w_db (ag_world a)). parse_key t = Some k}"
proof -
  have typed: "typed_wg (e_wg env) keys ok"
    using assms(1,2) by (simp add: typed_wg_def typed_wg_axioms_def reliable_wg_def)
  have "kernel_ok keys ok (ag_world a) \<and> db_ok (ag_world a)"
    using typed_wg.reached_ok[OF typed refl assms(4) _ assms(7,8)] assms(5,6) by (simp add: kernel_ok_def)
  then have "ok (w_kern (ag_world a))" "\<forall>k \<in> keys (w_kern (ag_world a)). is_key k" "db_inv (w_db (ag_world a))"
    by (auto simp: kernel_ok_def db_ok_def)
  with reliable_wg.pass_exact[OF assms(1) refl this(1,2) assms(3,9) this(3) assms(10)] exact_keys[OF assms(3)]
  show ?thesis by simp
qed

definition typed_env :: "(dev_client, unit) env" where
  "typed_env = sample_env\<lparr>e_wg := dev_interface as_key\<rparr>"

definition sound_disk :: disk where
  "sound_disk = \<lparr>dk_db = Some (Sound (w_db (sample_world []))), dk_bak = None, dk_now = 0, dk_faults = []\<rparr>"

text \<open>What the three statements of a pass keep is kept by the start.\<close>

lemma keeps_start_db:
  assumes "keeps P ListPeers" "\<And>t n ep pka. keeps P (UpsertPeerFromReconcile t n True False ep pka)"
    "\<And>us. keeps P (UpdateLastSeenEndpoints us)"
  shows "keeps (holds_db P) (start_sync env o')"
proof -
  have "keeps (holds_db P) (fw_sync_world env ps)" for ps
    by (auto simp: keeps_def holds_db_def fw_sync_world_def split: prod.split)
  then show ?thesis
    unfolding start_sync_def by (intro keeps_intros keeps_reconcile keeps_on_db_gen assms)
qed

definition no_faults :: "db \<Rightarrow> bool" where
  "no_faults d \<longleftrightarrow> db_faults d = []"

lemma keeps_stmt_no_faults: "keeps no_faults m \<Longrightarrow> keeps no_faults (stmt m)"
  by (simp add: keeps_def no_faults_def stmt_def)

lemma no_faults_statements:
  "keeps no_faults ListPeers" "keeps no_faults (UpsertPeerFromReconcile t n ad en ep pka)"
  "keeps no_faults (UpdateLastSeenEndpoints us)"
proof -
  show "keeps no_faults ListPeers"
    unfolding ListPeers_def by (rule keeps_stmt_no_faults) (simp add: keeps_def)
  show "keeps no_faults (UpsertPeerFromReconcile t n ad en ep pka)"
    unfolding UpsertPeerFromReconcile_def
    by (intro keeps_stmt_no_faults insert_or_ignore_keeps) (simp add: keeps_def no_faults_def insert_row_def Let_def)
  have "keeps no_faults (transaction m)" if "keeps no_faults m" for m :: "(db, db_err, unit) prog"
  proof (rule keepsI)
    fix d assume "no_faults d"
    moreover have "keeps no_faults (thenE (stmt (ret ())) (bindE m (\<lambda>a. thenE (stmt (ret ())) (ret a))))"
      by (intro keeps_intros keeps_stmt_no_faults that)
    ultimately show "no_faults (snd (transaction m d))"
      by (auto simp: transaction_def restore_def no_faults_def dest: keepsD' split: prod.splits sum.splits)
  qed
  note tx = this
  show "keeps no_faults (UpdateLastSeenEndpoints us)"
    unfolding UpdateLastSeenEndpoints_def
    by (intro keeps_intros tx keeps_stmt_no_faults) (simp add: no_faults_def)
qed

text \<open>The agent started on that disk has the peers of the disk.\<close>

lemma typed_boot:
  obtains w' where "boot Defaults typed_env sample_orders None [] [] sound_disk (sample_world ks) = Some w'"
    "db_faults (w_db w') = []" "enabled_texts (w_db w') = {b64_encode (sample_key CHR ''A'')}"
proof -
  let ?w = "(sample_world ks)\<lparr>w_db := (w_db (sample_world []))\<lparr>db_faults := []\<rparr>\<rparr>"
  let ?w' = "snd (start_sync typed_env sample_orders ?w)"
  have "boot Defaults typed_env sample_orders None [] [] sound_disk (sample_world ks) = Some ?w'"
    by (simp add: boot_def RecoverDB_def isDBHealthy_def NewDB_def disk_call_def thenE_def bindE_def sound_disk_def
        seed_config_def Defaults_def)
  moreover have "holds_db no_faults ?w'"
    by (rule keepsD[OF keeps_start_db]) (simp_all add: no_faults_statements holds_db_def no_faults_def)
  moreover have "holds_db (same_enabled {b64_encode (sample_key CHR ''A'')}) ?w'"
    by (rule keepsD[OF keeps_start_db])
      (simp_all add: list_same_enabled upsert_same_enabled seen_same_enabled holds_db_def same_enabled_def sample_facts(7))
  ultimately show ?thesis using that by (simp add: holds_db_def no_faults_def same_enabled_def)
qed

theorem agent_converges_witness:
  "\<exists>w' w2. boot Defaults typed_env sample_orders None [] [] sound_disk (sample_world [sample_key CHR ''B'']) = Some w' \<and>
     ReconcileOnce typed_env sample_orders w' = (Inr (), w2) \<and> dev_keys (w_kern w2) = {sample_key CHR ''A''}"
proof -
  let ?w = "sample_world [sample_key CHR ''B''] :: (dev_client, unit) world"
  obtain w' where w': "boot Defaults typed_env sample_orders None [] [] sound_disk ?w = Some w'"
    "db_faults (w_db w') = []" "enabled_texts (w_db w') = {b64_encode (sample_key CHR ''A'')}"
    by (rule typed_boot)
  have env: "e_wg typed_env = dev_interface as_key" "e_key typed_env = b64_encode"
    by (simp_all add: typed_env_def sample_env_def)
  have "disk_ok sound_disk" using sample_db by (simp add: disk_ok_def sound_disk_def)
  have "\<exists>dev. fst (get_device (e_wg typed_env) (e_interface typed_env) (w_kern w')) = Inr dev"
    by (simp add: env dev_interface_def dev_get_device_def)
  then obtain w2 where w2: "ReconcileOnce typed_env sample_orders w' = (Inr (), w2)"
    using reconcile_total[OF _ w'(2)] by metis
  have start: "dev_ok (w_kern ?w)" "\<forall>k \<in> dev_keys (w_kern ?w). is_key k" "key_text (e_key typed_env)"
    using sample_facts(5)[where ks = "[sample_key CHR ''B'']"] key_text_b64 by (simp_all add: env sample_facts(4,6))
  have typed: "reliable_wg (e_wg typed_env) dev_keys dev_ok"
    "\<forall>k ab k'. dev_ok k \<longrightarrow> generate_key_pair (e_wg typed_env) k = (Inr ab, k') \<longrightarrow> is_key (snd ab)"
    using dev_reliable.reliable_wg_axioms dev_typed.generated_key[where pub = "\<lambda>k. k"] by (auto simp: env)
  have "dev_keys (w_kern w2) = {k. \<exists>t \<in> enabled_texts (w_db w'). parse_key t = Some k}"
    using agent_converges[OF typed start(3) \<open>disk_ok sound_disk\<close> start(1,2) w'(1) reaches.start sample_facts(1), of _ w2] w2 by simp
  then have "dev_keys (w_kern w2) = {sample_key CHR ''A''}"
    using w'(3) sample_facts(4) by (auto simp: parse_key_b64)
  with w'(1) w2 show ?thesis by blast
qed

end
